(* ===== verification/Prelude.thy ===== *)
theory Prelude
  imports Main "HOL-Library.Word" "HOL-Library.Signed_Division"
begin

text \<open>
  Shared vocabulary of the development: results with errors as values (an exception of the
  TypeScript client, an error code of the on-chain program), monadic traversals, decimal
  rendering of numbers, the truncating integer operators of JavaScript, and byte buffers with
  little-endian fields.

  A JavaScript \<open>number\<close> that the client only uses as an integer, and a \<open>bigint\<close>, is an \<open>int\<close>;
  a \<open>Buffer\<close>, a \<open>PublicKey\<close> or a signature is its list of bytes. Rust integers are words of
  their width, Rust offsets (\<open>usize\<close>) are natural numbers.
\<close>

section \<open>Collections of facts\<close>

named_theorems result_simps \<open>how results are bound, required and traversed\<close>
named_theorems layout_simps \<open>constants of the account layouts\<close>
named_theorems slice_simps \<open>reading after writing in a byte buffer\<close>

section \<open>Results\<close>

text \<open>
  \<open>bindR m f\<close> is the sequencing of the code: an error of \<open>m\<close> is the error of the whole, as a
  thrown exception or the \<open>?\<close> operator makes it. \<open>requireR\<close> is Rust's \<open>require!\<close> and the
  client's \<open>if (...) throw\<close>.
\<close>

definition bindR :: "'e + 'a \<Rightarrow> ('a \<Rightarrow> 'e + 'b) \<Rightarrow> 'e + 'b" where
  "bindR m f = (case m of Inl e \<Rightarrow> Inl e | Inr x \<Rightarrow> f x)"

definition requireR :: "bool \<Rightarrow> 'e \<Rightarrow> ('e + 'b) \<Rightarrow> 'e + 'b" where
  "requireR b e k = (if b then k else Inl e)"

definition isOk :: "'e + 'a \<Rightarrow> bool" where
  "isOk m = (case m of Inl _ \<Rightarrow> False | Inr _ \<Rightarrow> True)"

lemma bindR_Inl [simp, result_simps]: "bindR (Inl e) f = Inl e"
  by (simp add: bindR_def)

lemma bindR_Inr [simp, result_simps]: "bindR (Inr x) f = f x"
  by (simp add: bindR_def)

lemma requireR_True [simp, result_simps]: "requireR True e k = k"
  by (simp add: requireR_def)

lemma requireR_False [simp, result_simps]: "requireR False e k = Inl e"
  by (simp add: requireR_def)

lemma isOk_simps [simp, result_simps]: "isOk (Inr x)" "\<not> isOk (Inl e)"
  by (simp_all add: isOk_def)

lemma isOk_iff: "isOk m \<longleftrightarrow> (\<exists>x. m = Inr x)"
  by (cases m) auto

lemma bindR_eq_Inr: "bindR m f = Inr y \<longleftrightarrow> (\<exists>x. m = Inr x \<and> f x = Inr y)"
  by (cases m) auto

lemma bindR_eq_Inl: "bindR m f = Inl e \<longleftrightarrow> m = Inl e \<or> (\<exists>x. m = Inr x \<and> f x = Inl e)"
  by (cases m) auto

lemma requireR_eq_Inr: "requireR b e k = Inr y \<longleftrightarrow> b \<and> k = Inr y"
  by (simp add: requireR_def)

lemma requireR_eq_Inl: "requireR b e k = Inl e' \<longleftrightarrow> (\<not> b \<and> e = e') \<or> (b \<and> k = Inl e')"
  by (auto simp: requireR_def)

lemmas result_iffs = bindR_eq_Inr bindR_eq_Inl requireR_eq_Inr requireR_eq_Inl

lemma bindR_cong [fundef_cong]:
  "m = m' \<Longrightarrow> (\<And>x. m' = Inr x \<Longrightarrow> f x = f' x) \<Longrightarrow> bindR m f = bindR m' f'"
  by (cases m') auto

lemma requireR_cong [fundef_cong]:
  "b = b' \<Longrightarrow> e = e' \<Longrightarrow> (b' \<Longrightarrow> k = k') \<Longrightarrow> requireR b e k = requireR b' e' k'"
  by (simp add: requireR_def)

lemma bindR_assoc: "bindR (bindR m f) g = bindR m (\<lambda>x. bindR (f x) g)"
  by (cases m) auto

text \<open>A loop over a list whose body can fail: the first failure ends it.\<close>

fun mapR :: "('a \<Rightarrow> 'e + 'b) \<Rightarrow> 'a list \<Rightarrow> 'e + 'b list" where
  "mapR f [] = Inr []"
| "mapR f (x # xs) = bindR (f x) (\<lambda>y. bindR (mapR f xs) (\<lambda>ys. Inr (y # ys)))"

fun foldR :: "('a \<Rightarrow> 's \<Rightarrow> 'e + 's) \<Rightarrow> 'a list \<Rightarrow> 's \<Rightarrow> 'e + 's" where
  "foldR f [] s = Inr s"
| "foldR f (x # xs) s = bindR (f x s) (foldR f xs)"

lemma foldR_Nil_fun [simp]: "foldR f [] = Inr"
  by (rule ext) simp

lemma mapR_cong [fundef_cong]:
  "xs = ys \<Longrightarrow> (\<And>x. x \<in> set ys \<Longrightarrow> f x = g x) \<Longrightarrow> mapR f xs = mapR g ys"
  by (induction ys arbitrary: xs) auto

lemma mapR_Inr: "(\<And>x. x \<in> set xs \<Longrightarrow> f x = Inr (g x)) \<Longrightarrow> mapR f xs = Inr (map g xs)"
  by (induction xs) auto

lemma mapR_eq_Inr_iff: "mapR f xs = Inr ys \<longleftrightarrow> list_all2 (\<lambda>x y. f x = Inr y) xs ys"
  by (induction xs arbitrary: ys) (auto simp: bindR_eq_Inr list_all2_Cons1)

lemma length_mapR: "mapR f xs = Inr ys \<Longrightarrow> length ys = length xs"
  by (auto simp: mapR_eq_Inr_iff dest: list_all2_lengthD)

lemma foldR_cong [fundef_cong]:
  "xs = ys \<Longrightarrow> s = t \<Longrightarrow> (\<And>x s. x \<in> set ys \<Longrightarrow> f x s = g x s) \<Longrightarrow> foldR f xs s = foldR g ys t"
proof (induction ys arbitrary: xs s t)
  case (Cons y ys)
  then show ?case by (auto intro!: bindR_cong)
qed simp

lemma foldR_append: "foldR f (xs @ ys) s = bindR (foldR f xs s) (foldR f ys)"
proof (induction xs arbitrary: s)
  case (Cons x xs)
  then show ?case by (cases "f x s") simp_all
qed simp

lemma foldR_invariant:
  assumes "foldR f xs s = Inr s'" and "I s"
    and "\<And>x s s'. x \<in> set xs \<Longrightarrow> I s \<Longrightarrow> f x s = Inr s' \<Longrightarrow> I s'"
  shows "I s'"
  using assms by (induction xs arbitrary: s) (auto simp: bindR_eq_Inr)

lemma ex_nat_split: "(\<exists>n. P n) \<longleftrightarrow> P 0 \<or> (\<exists>n. P (Suc n))"
  by (metis not0_implies_Suc)

section \<open>Exceptions of the TypeScript client\<close>

text \<open>
  An exception is an \<open>Error\<close> with its name and message, one of the two subclasses the demo
  client declares (\<open>class ChannelBucketSlotNotInitializedError\<close> and
  \<open>class LiveMultilateralSubmitError\<close>, which keeps the original error), an \<open>Error\<close> that was given
  a \<open>logs\<close> property, a \<open>SendTransactionError\<close> of \<open>@solana/web3.js\<close> with its logs, or a thrown
  value that is no \<open>Error\<close>, with the string \<open>String(value)\<close> gives.
\<close>

datatype js_exn =
    JsError (exn_name: string) (exn_text: string)
  | SlotNotInitialized (exn_text: string)
  | LiveSubmitFailed (exn_text: string) (exn_original: js_exn)
  | LoggedError (exn_text: string) (exn_logs: "string list")
  | SendTransactionError (exn_text: string) (exn_logs: "string list")
  | ThrownValue (exn_text: string)

type_synonym 'a js = "js_exn + 'a"

definition throwError :: "string \<Rightarrow> 'a js" where
  "throwError msg = Inl (JsError ''Error'' msg)"

definition rangeError :: "string \<Rightarrow> 'a js" where
  "rangeError msg = Inl (JsError ''RangeError'' msg)"

lemma throwError_neq_Inr [simp]: "throwError m \<noteq> Inr x" "Inr x \<noteq> throwError m"
  by (simp_all add: throwError_def)

lemma rangeError_neq_Inr [simp]: "rangeError m \<noteq> Inr x" "Inr x \<noteq> rangeError m"
  by (simp_all add: rangeError_def)

lemma bindR_throwError [simp]: "bindR (throwError m) f = throwError m"
  by (simp add: throwError_def)

lemma bindR_rangeError [simp]: "bindR (rangeError m) f = rangeError m"
  by (simp add: rangeError_def)

section \<open>Decimal numbers as strings\<close>

definition digit_char :: "nat \<Rightarrow> char" where
  "digit_char d = char_of (48 + d)"

fun show_nat :: "nat \<Rightarrow> string" where
  "show_nat n = (if n < 10 then [digit_char n] else show_nat (n div 10) @ [digit_char (n mod 10)])"

declare show_nat.simps [simp del]

definition show_int :: "int \<Rightarrow> string" where
  "show_int i = (if i < 0 then ''-'' @ show_nat (nat (- i)) else show_nat (nat i))"

definition is_digit :: "char \<Rightarrow> bool" where
  "is_digit c \<longleftrightarrow> 48 \<le> (of_char c :: nat) \<and> (of_char c :: nat) \<le> 57"

definition digit_value :: "char \<Rightarrow> nat" where
  "digit_value c = of_char c - 48"

definition read_digits :: "string \<Rightarrow> nat" where
  "read_digits s = foldl (\<lambda>acc c. 10 * acc + digit_value c) 0 s"

lemma digit_char_digit: "d < 10 \<Longrightarrow> is_digit (digit_char d) \<and> digit_value (digit_char d) = d"
  by (simp add: digit_char_def is_digit_def digit_value_def)

lemma show_nat_digits: "c \<in> set (show_nat n) \<Longrightarrow> is_digit c"
proof (induction n rule: show_nat.induct)
  case (1 n)
  then show ?case
    by (subst (asm) (2) show_nat.simps) (auto simp: digit_char_digit split: if_splits)
qed

lemma show_nat_nonempty [simp]: "show_nat n \<noteq> []"
  by (subst show_nat.simps) simp

lemma read_digits_snoc: "read_digits (s @ [c]) = 10 * read_digits s + digit_value c"
  by (simp add: read_digits_def)

lemma read_show_nat [simp]: "read_digits (show_nat n) = n"
proof (induction n rule: show_nat.induct)
  case (1 n)
  show ?case
  proof (cases "n < 10")
    case True
    then show ?thesis
      by (subst show_nat.simps) (simp add: read_digits_def digit_char_digit)
  next
    case False
    with 1 have "read_digits (show_nat (n div 10)) = n div 10" by simp
    with False show ?thesis
      by (subst show_nat.simps) (simp add: read_digits_snoc digit_char_digit)
  qed
qed

lemma show_nat_inject [simp]: "show_nat m = show_nat n \<longleftrightarrow> m = n"
  by (metis read_show_nat)

section \<open>Integer operators of JavaScript\<close>

text \<open>
  \<open>/\<close> on \<open>bigint\<close> and \<open>%\<close> on both kinds of number truncate towards zero (\<open>sdiv\<close>, \<open>smod\<close>),
  \<open>Math.floor(a / b)\<close> on integers is the flooring \<open>div\<close>, \<open>x & 0xff\<close> is the value modulo 256.
\<close>

definition js_mod :: "int \<Rightarrow> int \<Rightarrow> int" where
  "js_mod a b = a smod b"

definition js_div :: "int \<Rightarrow> int \<Rightarrow> int" where
  "js_div a b = a sdiv b"

lemma js_mod_nonneg: "0 \<le> a \<Longrightarrow> 0 < b \<Longrightarrow> js_mod a b = a mod b"
  by (cases "a = 0") (simp_all add: js_mod_def signed_modulo_int_def)

lemma js_div_nonneg: "0 \<le> a \<Longrightarrow> 0 < b \<Longrightarrow> js_div a b = a div b"
  by (cases "a = 0") (simp_all add: js_div_def signed_divide_int_def)

section \<open>Byte buffers\<close>

type_synonym byte = "8 word"
type_synonym bytes = "byte list"
type_synonym pubkey = bytes

text \<open>A little-endian field of \<open>n\<close> bytes, written and read.\<close>

primrec le_bytes :: "nat \<Rightarrow> nat \<Rightarrow> bytes" where
  "le_bytes 0 v = []"
| "le_bytes (Suc n) v = word_of_nat (v mod 256) # le_bytes n (v div 256)"

primrec le_nat :: "bytes \<Rightarrow> nat" where
  "le_nat [] = 0"
| "le_nat (b # bs) = unat b + 256 * le_nat bs"

lemma length_le_bytes [simp]: "length (le_bytes n v) = n"
  by (induction n arbitrary: v) auto

lemma unat_byte_of_nat: "v < 256 \<Longrightarrow> unat (word_of_nat v :: byte) = v"
  by (simp add: unat_of_nat)

lemma le_nat_le_bytes: "le_nat (le_bytes n v) = v mod 256 ^ n"
proof (induction n arbitrary: v)
  case (Suc n)
  have "v mod 256 ^ Suc n = v mod 256 + 256 * (v div 256 mod 256 ^ n)"
    by (simp add: mod_mult2_eq)
  with Suc show ?case by (simp add: unat_byte_of_nat)
qed simp

lemma unat_byte_less: "unat (b :: byte) < 256"
  using unsigned_less [of b] by simp

lemma le_nat_bound: "le_nat bs < 256 ^ length bs"
proof (induction bs)
  case (Cons b bs)
  have "unat b < 256" by (rule unat_byte_less)
  moreover have "Suc (le_nat bs) \<le> 256 ^ length bs" using Cons by simp
  then have "256 * Suc (le_nat bs) \<le> 256 * 256 ^ length bs" by (rule mult_le_mono2)
  ultimately show ?case by simp
qed simp

lemma le_bytes_le_nat: "le_bytes (length bs) (le_nat bs) = bs"
proof (induction bs)
  case (Cons b bs)
  have b: "unat b < 256" by (rule unat_byte_less)
  then have "(unat b + 256 * le_nat bs) mod 256 = unat b"
    and "(unat b + 256 * le_nat bs) div 256 = le_nat bs" by simp_all
  with Cons show ?case by simp
qed simp

text \<open>Big-endian numbers, and the bytes of an ASCII string.\<close>

definition be_bytes :: "nat \<Rightarrow> nat \<Rightarrow> bytes" where
  "be_bytes n v = rev (le_bytes n v)"

definition be_nat :: "bytes \<Rightarrow> nat" where
  "be_nat bs = le_nat (rev bs)"

lemma length_be_bytes [simp]: "length (be_bytes n v) = n"
  by (simp add: be_bytes_def)

lemma be_nat_be_bytes: "be_nat (be_bytes n v) = v mod 256 ^ n"
  by (simp add: be_nat_def be_bytes_def le_nat_le_bytes)

lemma be_nat_bound: "be_nat bs < 256 ^ length bs"
  using le_nat_bound [of "rev bs"] by (simp add: be_nat_def)

definition ascii :: "string \<Rightarrow> bytes" where
  "ascii s = map (\<lambda>c. word_of_nat (of_char c)) s"

subsection \<open>Slices\<close>

definition subarray :: "nat \<Rightarrow> nat \<Rightarrow> 'a list \<Rightarrow> 'a list" where
  "subarray off n data = take n (drop off data)"

text \<open>\<open>splice off bs data\<close> overwrites the bytes from \<open>off\<close> on with \<open>bs\<close> (\<open>copy_from_slice\<close>).\<close>

definition splice :: "nat \<Rightarrow> 'a list \<Rightarrow> 'a list \<Rightarrow> 'a list" where
  "splice off bs data = take off data @ bs @ drop (off + length bs) data"

lemma length_subarray [simp]: "length (subarray off n data) = min n (length data - off)"
  by (simp add: subarray_def)

lemma length_splice [simp, slice_simps]:
  "off + length bs \<le> length data \<Longrightarrow> length (splice off bs data) = length data"
  by (simp add: splice_def)

lemma nth_splice:
  assumes "off + length bs \<le> length data" and "i < length data"
  shows "splice off bs data ! i =
    (if off \<le> i \<and> i < off + length bs then bs ! (i - off) else data ! i)"
  using assms by (auto simp: splice_def nth_append min_def)

lemma nth_subarray: "i < n \<Longrightarrow> off + i < length data \<Longrightarrow> subarray off n data ! i = data ! (off + i)"
  by (simp add: subarray_def)

lemma subarray_splice_same [simp, slice_simps]:
  "off + length bs \<le> length data \<Longrightarrow> length bs = n \<Longrightarrow> subarray off n (splice off bs data) = bs"
  by (simp add: subarray_def splice_def)

lemma subarray_splice_disjoint:
  assumes "off' + length bs \<le> length data" and "off + n \<le> off' \<or> off' + length bs \<le> off"
  shows "subarray off n (splice off' bs data) = subarray off n data"
proof (rule nth_equalityI)
  show "length (subarray off n (splice off' bs data)) = length (subarray off n data)"
    using assms by simp
next
  fix i
  assume "i < length (subarray off n (splice off' bs data))"
  then have i: "i < n" "off + i < length data" using assms by auto
  then show "subarray off n (splice off' bs data) ! i = subarray off n data ! i"
    using assms by (auto simp: nth_subarray nth_splice)
qed

lemma subarray_splice_inside:
  assumes "off + length bs \<le> length data" "off \<le> k" "k + n \<le> off + length bs"
  shows "subarray k n (splice off bs data) = subarray (k - off) n bs"
proof (rule nth_equalityI)
  show "length (subarray k n (splice off bs data)) = length (subarray (k - off) n bs)"
    using assms by simp
next
  fix i
  assume "i < length (subarray k n (splice off bs data))"
  then show "subarray k n (splice off bs data) ! i = subarray (k - off) n bs ! i"
    using assms by (auto simp: nth_subarray nth_splice)
qed

lemma subarray_replicate [simp]: "subarray k n (replicate m x) = replicate (min n (m - k)) x"
  by (simp add: subarray_def min_def)

lemma le_nat_zeros [simp]: "le_nat (replicate n 0) = 0"
  by (induction n) auto

lemma nth_splice_disjoint [slice_simps]:
  "off + length bs \<le> length data \<Longrightarrow> i < length data \<Longrightarrow> i < off \<or> off + length bs \<le> i \<Longrightarrow>
    splice off bs data ! i = data ! i"
  by (auto simp: nth_splice)

lemma splice_adjacent:
  "off + length a + length b \<le> length d \<Longrightarrow>
    splice (off + length a) b (splice off a d) = splice off (a @ b) d"
  by (rule nth_equalityI) (auto simp: nth_splice nth_append)

lemma splice_commute:
  assumes "i + length a \<le> length d" "j + length b \<le> length d" "i + length a \<le> j \<or> j + length b \<le> i"
  shows "splice i a (splice j b d) = splice j b (splice i a d)"
  using assms by (intro nth_equalityI) (auto simp: nth_splice)

lemma splice_whole: "length bs = length d - off \<Longrightarrow> off \<le> length d \<Longrightarrow> splice off bs d = take off d @ bs"
  by (simp add: splice_def)

lemma splice_all: "length bs = length d \<Longrightarrow> splice 0 bs d = bs"
  by (simp add: splice_def)

lemma splice_nil [simp]: "splice off [] d = d"
  by (simp add: splice_def)

lemma subarray_0 [simp]: "subarray off 0 data = []"
  by (simp add: subarray_def)

lemma subarray_all: "subarray 0 (length data) data = data"
  by (simp add: subarray_def)

lemma subarray_middle: "subarray (length xs) (length ys) (xs @ ys @ zs) = ys"
  by (simp add: subarray_def)

lemma subarray_append_left: "off + n \<le> length xs \<Longrightarrow> subarray off n (xs @ ys) = subarray off n xs"
  by (simp add: subarray_def)

lemma subarray_append_right: "length xs \<le> off \<Longrightarrow> subarray off n (xs @ ys) = subarray (off - length xs) n ys"
  by (simp add: subarray_def)

subsection \<open>Slices with JavaScript's indexes\<close>

text \<open>
  \<open>data.subarray(from, to)\<close> of a \<open>Buffer\<close>, \<open>slice(from, to)\<close> of a string or an array: an index below
  zero counts from the end, and both are clamped to the range.
\<close>

definition js_index :: "'a list \<Rightarrow> int \<Rightarrow> nat" where
  "js_index data i = nat (if i < 0 then max 0 (int (length data) + i) else min i (int (length data)))"

definition js_subarray :: "'a list \<Rightarrow> int \<Rightarrow> int \<Rightarrow> 'a list" where
  "js_subarray data from to = drop (js_index data from) (take (js_index data to) data)"

end
