(* ===== verification/Effects.thy ===== *)
theory Effects
  imports Prelude "HOL-Library.Sublist"
begin

text \<open>
  Effects of the client. An \<open>async\<close> function works on the outside world \<open>'w\<close> (the cluster behind the
  RPC connection, the clock, the files): it may throw, and it may never return (\<open>None\<close>). \<open>await\<close> is
  \<open>bindIO\<close>, \<open>try ... catch\<close> is \<open>catchIO\<close>. Console output is not part of the world.
\<close>

section \<open>Effectful computations\<close>

type_synonym ('w, 'a) io = "'w \<Rightarrow> ('a js \<times> 'w) option"

definition liftIO :: "'a js \<Rightarrow> ('w, 'a) io" where
  "liftIO r w = Some (r, w)"

definition returnIO :: "'a \<Rightarrow> ('w, 'a) io" where
  "returnIO x = liftIO (Inr x)"

definition throwIO :: "js_exn \<Rightarrow> ('w, 'a) io" where
  "throwIO e = liftIO (Inl e)"

definition bindIO :: "('w, 'a) io \<Rightarrow> ('a \<Rightarrow> ('w, 'b) io) \<Rightarrow> ('w, 'b) io" where
  "bindIO m f w = (case m w of None \<Rightarrow> None | Some (Inl e, w') \<Rightarrow> Some (Inl e, w') | Some (Inr x, w') \<Rightarrow> f x w')"

definition catchIO :: "('w, 'a) io \<Rightarrow> (js_exn \<Rightarrow> ('w, 'a) io) \<Rightarrow> ('w, 'a) io" where
  "catchIO m h w = (case m w of None \<Rightarrow> None | Some (Inl e, w') \<Rightarrow> h e w' | Some (Inr x, w') \<Rightarrow> Some (Inr x, w'))"

fun mapIO :: "('a \<Rightarrow> ('w, 'b) io) \<Rightarrow> 'a list \<Rightarrow> ('w, 'b list) io" where
  "mapIO f [] = returnIO []"
| "mapIO f (x # xs) = bindIO (f x) (\<lambda>y. bindIO (mapIO f xs) (\<lambda>ys. returnIO (y # ys)))"

fun foldIO :: "('a \<Rightarrow> 's \<Rightarrow> ('w, 's) io) \<Rightarrow> 'a list \<Rightarrow> 's \<Rightarrow> ('w, 's) io" where
  "foldIO f [] s = returnIO s"
| "foldIO f (x # xs) s = bindIO (f x s) (foldIO f xs)"

lemma liftIO_apply [simp]: "liftIO r w = Some (r, w)"
  by (simp add: liftIO_def)

lemma returnIO_apply [simp]: "returnIO x w = Some (Inr x, w)"
  by (simp add: returnIO_def)

lemma throwIO_apply [simp]: "throwIO e w = Some (Inl e, w)"
  by (simp add: throwIO_def)

lemma liftIO_Inr [simp]: "liftIO (Inr x) = returnIO x"
  by (simp add: returnIO_def)

lemma liftIO_Inl [simp]: "liftIO (Inl e) = throwIO e"
  by (simp add: throwIO_def)

lemma bindIO_ok [simp]: "m w = Some (Inr x, w') \<Longrightarrow> bindIO m f w = f x w'"
  by (simp add: bindIO_def)

lemma bindIO_error [simp]: "m w = Some (Inl e, w') \<Longrightarrow> bindIO m f w = Some (Inl e, w')"
  by (simp add: bindIO_def)

lemma bindIO_returnIO [simp]: "bindIO (returnIO x) f = f x"
  by (rule ext) simp

lemma bindIO_throwIO [simp]: "bindIO (throwIO e) f = throwIO e"
  by (rule ext) simp

lemma catchIO_ok [simp]: "m w = Some (Inr x, w') \<Longrightarrow> catchIO m h w = Some (Inr x, w')"
  by (simp add: catchIO_def)

lemma catchIO_error [simp]: "m w = Some (Inl e, w') \<Longrightarrow> catchIO m h w = h e w'"
  by (simp add: catchIO_def)

lemma bindIO_eq_Inr:
  "bindIO m f w = Some (Inr y, w'') \<longleftrightarrow> (\<exists>x w'. m w = Some (Inr x, w') \<and> f x w' = Some (Inr y, w''))"
  by (auto simp: bindIO_def split: option.splits sum.splits)

lemma bindIO_eq_Inl:
  "bindIO m f w = Some (Inl e, w'') \<longleftrightarrow> m w = Some (Inl e, w'')
    \<or> (\<exists>x w'. m w = Some (Inr x, w') \<and> f x w' = Some (Inl e, w''))"
  by (auto simp: bindIO_def split: option.splits sum.splits)

lemma catchIO_eq_Inr:
  "catchIO m h w = Some (Inr y, w'') \<longleftrightarrow> m w = Some (Inr y, w'')
    \<or> (\<exists>e w'. m w = Some (Inl e, w') \<and> h e w' = Some (Inr y, w''))"
  by (auto simp: catchIO_def split: option.splits sum.splits)

lemma catchIO_eq_Inl:
  "catchIO m h w = Some (Inl e, w'') \<longleftrightarrow> (\<exists>e' w'. m w = Some (Inl e', w') \<and> h e' w' = Some (Inl e, w''))"
  by (auto simp: catchIO_def split: option.splits sum.splits)

lemmas io_iffs = bindIO_eq_Inr bindIO_eq_Inl catchIO_eq_Inr catchIO_eq_Inl

text \<open>Congruence for recursion under \<open>bindIO\<close>, and its monotonicity for loops that may not end.\<close>

lemma bindIO_cong [fundef_cong]:
  "m w = m' w' \<Longrightarrow> (\<And>x w''. m' w' = Some (Inr x, w'') \<Longrightarrow> f x w'' = f' x w'') \<Longrightarrow> bindIO m f w = bindIO m' f' w'"
  by (auto simp: bindIO_def split: option.splits sum.splits)

lemma bindIO_mono [partial_function_mono]:
  assumes "mono_option (\<lambda>f. B f w)" and "\<And>x w'. mono_option (\<lambda>f. C x f w')"
  shows "mono_option (\<lambda>f. bindIO (B f) (\<lambda>x. C x f) w)"
  unfolding bindIO_def
  by (rule monotoneI) (use assms in \<open>auto simp: monotone_def flat_ord_def split: option.splits sum.splits; fastforce\<close>)

lemma mapIO_length: "mapIO f xs w = Some (Inr ys, w') \<Longrightarrow> length ys = length xs"
  by (induction xs arbitrary: w ys) (auto simp: bindIO_eq_Inr)

lemma bindIO_InrE:
  assumes "bindIO m f w = Some (Inr y, w'')"
  obtains x w' where "m w = Some (Inr x, w')" "f x w' = Some (Inr y, w'')"
  using assms unfolding bindIO_eq_Inr by blast

section \<open>Strings\<close>

text \<open>\<open>s.includes(p)\<close> and \<open>s.toLowerCase()\<close> (of ASCII text).\<close>

definition js_includes :: "string \<Rightarrow> string \<Rightarrow> bool" where
  "js_includes s p \<longleftrightarrow> sublist p s"

definition lower_char :: "char \<Rightarrow> char" where
  "lower_char c = (let n = of_char c :: nat in if 65 \<le> n \<and> n \<le> 90 then char_of (n + 32) else c)"

definition toLowerCase :: "string \<Rightarrow> string" where
  "toLowerCase s = map lower_char s"

lemma sublist_code [code]:
  "sublist p [] \<longleftrightarrow> p = []"
  "sublist p (c # s) \<longleftrightarrow> prefix p (c # s) \<or> sublist p s"
  by (auto simp: sublist_Cons_right)

text \<open>\<open>instanceof Error\<close>, and what \<open>errorMessage\<close> reads.\<close>

definition is_Error :: "js_exn \<Rightarrow> bool" where
  "is_Error e = (case e of ThrownValue _ \<Rightarrow> False | _ \<Rightarrow> True)"

definition exn_name_of :: "js_exn \<Rightarrow> string" where
  "exn_name_of e = (case e of JsError name _ \<Rightarrow> name
     | SlotNotInitialized _ \<Rightarrow> ''ChannelBucketSlotNotInitializedError''
     | LiveSubmitFailed _ _ \<Rightarrow> ''LiveMultilateralSubmitError''
     | _ \<Rightarrow> ''Error'')"

definition errorMessage :: "js_exn \<Rightarrow> string" where
  "errorMessage e = exn_text e"

end
