(* ===== verification/Onchain_Base.thy ===== *)
theory Onchain_Base
  imports Prelude
begin

text \<open>
  The error codes of the on-chain program (\<open>programs/ryvo-protocol/src/errors.rs\<close>), its checked
  integer operations, and the bounds-checked field accessors every account layout is read and
  written with (\<open>ParticipantBucket::read_u64_at\<close> and its siblings in
  \<open>state/bucket_state.rs\<close>).

  Every accessor first requires the field to lie inside the buffer and fails with the error
  code its caller passes, so no read of the model is out of range.
\<close>

section \<open>Error codes\<close>

text \<open>The codes the modelled operations can return, in the order of the enum.\<close>

datatype vault_error =
    InsufficientBalance | WithdrawalAlreadyPending | NoWithdrawalPending | WithdrawalLocked
  | InvalidAuthority | InvalidFeeRecipient | UnauthorizedInitializer | InvalidFeeBps | InvalidRegistrationFee
  | AmountMustBePositive | CommitmentAmountMustIncrease | ParticipantNotFound
  | InvalidCommitmentMessage | InvalidClearingRoundMessage | NetPositionOverflow | MathOverflow
  | InvalidChainId | InvalidMessageDomain | InvalidSignature | InvalidBlsPublicKey | InvalidBlsSignature
  | ParticipantBlsKeyNotFound | AccountBlsKeyMismatch | CpiNotAllowed | InvalidEd25519Data
  | ChannelNotInitialized | ChannelAlreadyExists | UnauthorizedSettler | SelfChannelNotAllowed
  | NoPendingAuthorityTransfer | UnauthorizedPendingAuthority
  | TooManyTokenBalances | TokenNotFound | TokenAlreadyRegistered | TokenIdAlreadyInUse
  | UnauthorizedTokenRegistration | InvalidTokenId | InvalidTokenSymbol | InvalidTokenDecimals
  | TokenRegistryFull | InvalidTokenMint | InsufficientLockedBalance
  | NoChannelUnlockPending | InvalidAuthorizedSigner | NoAuthorizedSignerUpdatePending
  | BucketAccountMismatch | BucketSlotMismatch
  | BucketSlotAlreadyInitialized | InvalidYieldStrategy | YieldUnderlyingMismatch | SolvencyInvariantBroken
  | InvalidProtocolYieldShareBps

type_synonym 'a vres = "vault_error + 'a"

type_synonym u16 = "16 word"
type_synonym u32 = "32 word"
type_synonym u64 = "64 word"

section \<open>Checked arithmetic\<close>

text \<open>Rust's \<open>checked_add\<close>, \<open>checked_sub\<close> and \<open>checked_mul\<close> followed by \<open>ok_or(e)\<close>.\<close>

definition checked_add64 :: "vault_error \<Rightarrow> u64 \<Rightarrow> u64 \<Rightarrow> u64 vres" where
  "checked_add64 e a b = (if unat a + unat b < 2 ^ 64 then Inr (a + b) else Inl e)"

definition checked_sub64 :: "vault_error \<Rightarrow> u64 \<Rightarrow> u64 \<Rightarrow> u64 vres" where
  "checked_sub64 e a b = (if b \<le> a then Inr (a - b) else Inl e)"

definition checked_mul64 :: "vault_error \<Rightarrow> u64 \<Rightarrow> u64 \<Rightarrow> u64 vres" where
  "checked_mul64 e a b = (if unat a * unat b < 2 ^ 64 then Inr (a * b) else Inl e)"

lemma checked_add64_Inr:
  "checked_add64 e a b = Inr c \<longleftrightarrow> unat a + unat b < 2 ^ 64 \<and> c = a + b"
  by (auto simp: checked_add64_def)

lemma unat_checked_add64: "checked_add64 e a b = Inr c \<Longrightarrow> unat c = unat a + unat b"
  by (auto simp: checked_add64_Inr unat_word_ariths)

lemma checked_sub64_Inr: "checked_sub64 e a b = Inr c \<longleftrightarrow> b \<le> a \<and> c = a - b"
  by (auto simp: checked_sub64_def)

lemma unat_checked_sub64: "checked_sub64 e a b = Inr c \<Longrightarrow> unat c = unat a - unat b"
  by (auto simp: checked_sub64_Inr unat_sub)

lemma unat_checked_mul64: "checked_mul64 e a b = Inr c \<Longrightarrow> unat c = unat a * unat b"
  by (auto simp: checked_mul64_def unat_word_ariths split: if_splits)

section \<open>Field accessors\<close>

definition read_bool_at :: "bytes \<Rightarrow> nat \<Rightarrow> vault_error \<Rightarrow> bool vres" where
  "read_bool_at data off e = requireR (off < length data) e (Inr (data ! off \<noteq> 0))"

definition read_u8_at :: "bytes \<Rightarrow> nat \<Rightarrow> vault_error \<Rightarrow> byte vres" where
  "read_u8_at data off e = requireR (off < length data) e (Inr (data ! off))"

definition read_u16_at :: "bytes \<Rightarrow> nat \<Rightarrow> vault_error \<Rightarrow> u16 vres" where
  "read_u16_at data off e =
     requireR (off + 2 \<le> length data) e (Inr (word_of_nat (le_nat (subarray off 2 data))))"

definition read_u32_at :: "bytes \<Rightarrow> nat \<Rightarrow> vault_error \<Rightarrow> u32 vres" where
  "read_u32_at data off e =
     requireR (off + 4 \<le> length data) e (Inr (word_of_nat (le_nat (subarray off 4 data))))"

definition read_u64_at :: "bytes \<Rightarrow> nat \<Rightarrow> vault_error \<Rightarrow> u64 vres" where
  "read_u64_at data off e =
     requireR (off + 8 \<le> length data) e (Inr (word_of_nat (le_nat (subarray off 8 data))))"

definition read_pubkey_at :: "bytes \<Rightarrow> nat \<Rightarrow> vault_error \<Rightarrow> pubkey vres" where
  "read_pubkey_at data off e = requireR (off + 32 \<le> length data) e (Inr (subarray off 32 data))"

definition write_bytes_at :: "bytes \<Rightarrow> nat \<Rightarrow> bytes \<Rightarrow> vault_error \<Rightarrow> bytes vres" where
  "write_bytes_at data off bs e =
     requireR (off + length bs \<le> length data) e (Inr (splice off bs data))"

definition write_bool_at :: "bytes \<Rightarrow> nat \<Rightarrow> bool \<Rightarrow> vault_error \<Rightarrow> bytes vres" where
  "write_bool_at data off v e =
     requireR (off < length data) e (Inr (splice off [of_bool v] data))"

definition write_u8_at :: "bytes \<Rightarrow> nat \<Rightarrow> byte \<Rightarrow> vault_error \<Rightarrow> bytes vres" where
  "write_u8_at data off v e = requireR (off < length data) e (Inr (splice off [v] data))"

definition write_u16_at :: "bytes \<Rightarrow> nat \<Rightarrow> u16 \<Rightarrow> vault_error \<Rightarrow> bytes vres" where
  "write_u16_at data off v e =
     requireR (off + 2 \<le> length data) e (Inr (splice off (le_bytes 2 (unat v)) data))"

definition write_u32_at :: "bytes \<Rightarrow> nat \<Rightarrow> u32 \<Rightarrow> vault_error \<Rightarrow> bytes vres" where
  "write_u32_at data off v e =
     requireR (off + 4 \<le> length data) e (Inr (splice off (le_bytes 4 (unat v)) data))"

definition write_u64_at :: "bytes \<Rightarrow> nat \<Rightarrow> u64 \<Rightarrow> vault_error \<Rightarrow> bytes vres" where
  "write_u64_at data off v e =
     requireR (off + 8 \<le> length data) e (Inr (splice off (le_bytes 8 (unat v)) data))"

text \<open>
  An \<open>i64\<close> has the bytes of its two's complement, so its accessors are those of \<open>u64\<close>; \<open>sint\<close>
  reads the sign.
\<close>

definition read_i64_at :: "bytes \<Rightarrow> nat \<Rightarrow> vault_error \<Rightarrow> u64 vres" where
  "read_i64_at data off e = read_u64_at data off e"

definition write_i64_at :: "bytes \<Rightarrow> nat \<Rightarrow> u64 \<Rightarrow> vault_error \<Rightarrow> bytes vres" where
  "write_i64_at data off v e = write_u64_at data off v e"

definition write_pubkey_at :: "bytes \<Rightarrow> nat \<Rightarrow> pubkey \<Rightarrow> vault_error \<Rightarrow> bytes vres" where
  "write_pubkey_at data off v e = write_bytes_at data off v e"

lemmas accessor_defs = read_bool_at_def read_u8_at_def read_u16_at_def read_u32_at_def
  read_u64_at_def read_pubkey_at_def read_i64_at_def write_bytes_at_def write_bool_at_def
  write_u8_at_def write_u16_at_def write_u32_at_def write_u64_at_def write_i64_at_def
  write_pubkey_at_def

lemma word_le_round [simp]:
  "(word_of_nat (le_nat (le_bytes 8 (unat v))) :: u64) = v"
  "(word_of_nat (le_nat (le_bytes 4 (unat w))) :: u32) = w"
  "(word_of_nat (le_nat (le_bytes 2 (unat x))) :: u16) = x"
proof -
  have "unat v < 2 ^ LENGTH(64)" "unat w < 2 ^ LENGTH(32)" "unat x < 2 ^ LENGTH(16)"
    by (rule unsigned_less)+
  then show "(word_of_nat (le_nat (le_bytes 8 (unat v))) :: u64) = v"
    "(word_of_nat (le_nat (le_bytes 4 (unat w))) :: u32) = w"
    "(word_of_nat (le_nat (le_bytes 2 (unat x))) :: u16) = x"
    by (simp_all add: le_nat_le_bytes)
qed

section \<open>Frames\<close>

text \<open>\<open>data'\<close> differs from \<open>data\<close> at most in the \<open>n\<close> bytes from \<open>off\<close> on.\<close>

definition agree_outside :: "nat \<Rightarrow> nat \<Rightarrow> bytes \<Rightarrow> bytes \<Rightarrow> bool" where
  "agree_outside off n data data' \<longleftrightarrow>
     length data' = length data \<and>
     (\<forall>i < length data. i < off \<or> off + n \<le> i \<longrightarrow> data' ! i = data ! i)"

lemma agree_outside_refl [simp, intro]: "agree_outside off n data data"
  by (simp add: agree_outside_def)

lemma agree_outside_length: "agree_outside off n data data' \<Longrightarrow> length data' = length data"
  by (simp add: agree_outside_def)

lemma agree_outside_trans:
  "agree_outside off n a b \<Longrightarrow> agree_outside off n b c \<Longrightarrow> agree_outside off n a c"
  by (simp add: agree_outside_def)

lemma agree_outside_mono:
  "agree_outside off n a b \<Longrightarrow> off' \<le> off \<Longrightarrow> off + n \<le> off' + n' \<Longrightarrow> agree_outside off' n' a b"
  by (auto simp: agree_outside_def)

lemma agree_outside_splice:
  "agree_outside off n a b \<Longrightarrow> off \<le> k \<Longrightarrow> k + length bs \<le> off + n \<Longrightarrow> k + length bs \<le> length a \<Longrightarrow>
    agree_outside off n a (splice k bs b)"
  by (auto simp: agree_outside_def nth_splice)

lemma agree_outside_subarray:
  assumes "agree_outside off n a b" "k + m \<le> off \<or> off + n \<le> k"
  shows "subarray k m b = subarray k m a"
proof (rule nth_equalityI)
  show "length (subarray k m b) = length (subarray k m a)"
    using assms by (simp add: agree_outside_def)
next
  fix i
  assume "i < length (subarray k m b)"
  then show "subarray k m b ! i = subarray k m a ! i"
    using assms by (auto simp: nth_subarray agree_outside_def)
qed

lemma agree_outside_nth:
  "agree_outside off n a b \<Longrightarrow> k < off \<or> off + n \<le> k \<Longrightarrow> k < length a \<Longrightarrow> b ! k = a ! k"
  by (auto simp: agree_outside_def)

section \<open>Fields of buffers that are long enough\<close>

definition field_u64 :: "bytes \<Rightarrow> nat \<Rightarrow> u64" where
  "field_u64 data off = word_of_nat (le_nat (subarray off 8 data))"

definition field_u32 :: "bytes \<Rightarrow> nat \<Rightarrow> u32" where
  "field_u32 data off = word_of_nat (le_nat (subarray off 4 data))"

definition field_u16 :: "bytes \<Rightarrow> nat \<Rightarrow> u16" where
  "field_u16 data off = word_of_nat (le_nat (subarray off 2 data))"

lemma le_nat_subarray_bound: "off + n \<le> length data \<Longrightarrow> le_nat (subarray off n data) < 256 ^ n"
  using le_nat_bound [of "subarray off n data"] by simp

lemma unat_fields:
  "off + 8 \<le> length data \<Longrightarrow> unat (field_u64 data off) = le_nat (subarray off 8 data)"
  "off + 4 \<le> length data \<Longrightarrow> unat (field_u32 data off) = le_nat (subarray off 4 data)"
  "off + 2 \<le> length data \<Longrightarrow> unat (field_u16 data off) = le_nat (subarray off 2 data)"
  using le_nat_subarray_bound [of off 8 data] le_nat_subarray_bound [of off 4 data]
    le_nat_subarray_bound [of off 2 data]
  by (simp_all add: field_u64_def field_u32_def field_u16_def unat_of_nat)

lemma field_splice_same [slice_simps]:
  "off + 8 \<le> length data \<Longrightarrow> field_u64 (splice off (le_bytes 8 (unat v)) data) off = v"
  "off + 4 \<le> length data \<Longrightarrow> field_u32 (splice off (le_bytes 4 (unat w)) data) off = w"
  "off + 2 \<le> length data \<Longrightarrow> field_u16 (splice off (le_bytes 2 (unat x)) data) off = x"
  by (simp_all add: field_u64_def field_u32_def field_u16_def)

lemma field_splice_other [slice_simps]:
  "k + length bs \<le> length data \<Longrightarrow> off + 8 \<le> k \<or> k + length bs \<le> off \<Longrightarrow>
    field_u64 (splice k bs data) off = field_u64 data off"
  "k + length bs \<le> length data \<Longrightarrow> off + 4 \<le> k \<or> k + length bs \<le> off \<Longrightarrow>
    field_u32 (splice k bs data) off = field_u32 data off"
  "k + length bs \<le> length data \<Longrightarrow> off + 2 \<le> k \<or> k + length bs \<le> off \<Longrightarrow>
    field_u16 (splice k bs data) off = field_u16 data off"
  by (simp_all add: field_u64_def field_u32_def field_u16_def subarray_splice_disjoint)

lemmas [slice_simps] = subarray_splice_disjoint

lemma read_ok:
  "off < length data \<Longrightarrow> read_bool_at data off e = Inr (data ! off \<noteq> 0)"
  "off < length data \<Longrightarrow> read_u8_at data off e = Inr (data ! off)"
  "off + 2 \<le> length data \<Longrightarrow> read_u16_at data off e = Inr (field_u16 data off)"
  "off + 4 \<le> length data \<Longrightarrow> read_u32_at data off e = Inr (field_u32 data off)"
  "off + 8 \<le> length data \<Longrightarrow> read_u64_at data off e = Inr (field_u64 data off)"
  "off + 8 \<le> length data \<Longrightarrow> read_i64_at data off e = Inr (field_u64 data off)"
  "off + 32 \<le> length data \<Longrightarrow> read_pubkey_at data off e = Inr (subarray off 32 data)"
  by (simp_all add: accessor_defs field_u64_def field_u32_def field_u16_def)

lemma write_ok:
  "off < length data \<Longrightarrow> write_bool_at data off b e = Inr (splice off [of_bool b] data)"
  "off < length data \<Longrightarrow> write_u8_at data off y e = Inr (splice off [y] data)"
  "off + 2 \<le> length data \<Longrightarrow> write_u16_at data off x e = Inr (splice off (le_bytes 2 (unat x)) data)"
  "off + 4 \<le> length data \<Longrightarrow> write_u32_at data off w e = Inr (splice off (le_bytes 4 (unat w)) data)"
  "off + 8 \<le> length data \<Longrightarrow> write_u64_at data off v e = Inr (splice off (le_bytes 8 (unat v)) data)"
  "off + 8 \<le> length data \<Longrightarrow> write_i64_at data off v e = Inr (splice off (le_bytes 8 (unat v)) data)"
  "off + length k \<le> length data \<Longrightarrow> write_pubkey_at data off k e = Inr (splice off k data)"
  by (simp_all add: accessor_defs)

lemma agree_outside_fields:
  assumes "agree_outside off n a b" "k + m \<le> off \<or> off + n \<le> k"
  shows "m = 8 \<Longrightarrow> field_u64 b k = field_u64 a k"
    and "m = 4 \<Longrightarrow> field_u32 b k = field_u32 a k"
    and "m = 2 \<Longrightarrow> field_u16 b k = field_u16 a k"
  using agree_outside_subarray [OF assms]
  by (simp_all add: field_u64_def field_u32_def field_u16_def)

end
