(* ===== verification/Compact.thy ===== *)
theory Compact
  imports Onchain_Base
begin

text \<open>
  Compact (7 bits per byte) integers: the encoder of the TypeScript client
  (\<open>encodeCompactU64\<close> in \<open>scripts/ryvo-protocol-demo.ts\<close> and in
  \<open>scripts/lib/clearing-round-capacity.ts\<close>) and the decoders of the on-chain program
  (\<open>read_varint_u64\<close> and \<open>read_varint_u32\<close>, once for clearing rounds and once for commitments).

  The locale \<open>prefix_codec\<close> is the interface message parsers rest on: an encoding the decoder
  recognises in front of any other bytes. Encoders of lists and pairs inherit it.
\<close>

unbundle bit_operations_syntax

section \<open>The client's encoder\<close>

text \<open>
  The \<open>do ... while\<close> loop over a \<open>bigint\<close>: \<open>remaining & 0x7fn\<close> is the value modulo 128,
  \<open>remaining >>= 7n\<close> the flooring division by 128. The low seven bits are below 128, so
  \<open>byte |= 0x80\<close> adds 128.
\<close>

function compact_loop :: "int \<Rightarrow> bytes" where
  "compact_loop remaining =
     (let byte = remaining mod 128; rest = remaining div 128 in
      if rest > 0 then word_of_int (byte + 128) # compact_loop rest else [word_of_int byte])"
  by pat_completeness auto
termination
  by (relation "measure nat") auto

declare compact_loop.simps [simp del]

definition encodeCompactU64 :: "int \<Rightarrow> bytes js" where
  "encodeCompactU64 value =
     (if value < 0 then throwError ''Compact values must be unsigned'' else Inr (compact_loop value))"

definition encodeCompactU64_capacity :: "int \<Rightarrow> bytes" where
  "encodeCompactU64_capacity value = compact_loop value"

section \<open>The on-chain decoders\<close>

text \<open>
  The loop of \<open>read_varint_u64\<close>. \<open>shift\<close> is the \<open>u32\<close> of the code, at most 63; \<open>checked_shl\<close>
  fails from 64 on. Every round reads one byte, so the unread bytes are the measure.
\<close>

function read_varint_loop ::
  "vault_error \<Rightarrow> bytes \<Rightarrow> nat \<Rightarrow> nat \<Rightarrow> u64 \<Rightarrow> (u64 \<times> nat) vres" where
  "read_varint_loop err msg offset shift value =
     (if \<not> offset < length msg then Inl err else
      let byte = msg ! offset; chunk = ucast (byte AND 0x7F) :: u64 in
      if shift = 63 \<and> \<not> chunk \<le> 1 then Inl err else
      if \<not> shift < 64 then Inl err else
      let value' = value OR push_bit shift chunk in
      if byte AND 0x80 = 0 then Inr (value', offset + 1) else
      if \<not> shift + 7 < 64 then Inl err else
      read_varint_loop err msg (offset + 1) (shift + 7) value')"
  by pat_completeness auto
termination
  by (relation "measure (\<lambda>(err, msg, offset, shift, value). length msg - offset)") auto

declare read_varint_loop.simps [simp del]

definition read_varint_u64 :: "bytes \<Rightarrow> nat \<Rightarrow> (u64 \<times> nat) vres" where
  "read_varint_u64 msg offset = read_varint_loop InvalidClearingRoundMessage msg offset 0 0"

definition read_varint_u32 :: "bytes \<Rightarrow> nat \<Rightarrow> (u32 \<times> nat) vres" where
  "read_varint_u32 msg offset =
     bindR (read_varint_u64 msg offset) (\<lambda>(value, offset').
     requireR (value \<le> 0xFFFFFFFF) InvalidClearingRoundMessage (Inr (ucast value, offset')))"

definition read_varint_u64_commitment :: "bytes \<Rightarrow> nat \<Rightarrow> (u64 \<times> nat) vres" where
  "read_varint_u64_commitment msg offset = read_varint_loop InvalidCommitmentMessage msg offset 0 0"

definition read_varint_u32_commitment :: "bytes \<Rightarrow> nat \<Rightarrow> (u32 \<times> nat) vres" where
  "read_varint_u32_commitment msg offset =
     bindR (read_varint_u64_commitment msg offset) (\<lambda>(value, offset').
     requireR (value \<le> 0xFFFFFFFF) InvalidCommitmentMessage (Inr (ucast value, offset')))"

section \<open>What the encoder emits\<close>

lemma compact_loop_small: "v < 128 \<Longrightarrow> compact_loop v = [word_of_int (v mod 128)]"
  by (subst compact_loop.simps) (simp add: Let_def)

lemma compact_loop_step:
  "128 \<le> v \<Longrightarrow> compact_loop v = word_of_int (v mod 128 + 128) # compact_loop (v div 128)"
  by (subst compact_loop.simps) (simp add: Let_def)

lemma compact_loop_nonempty [simp]: "compact_loop v \<noteq> []"
  by (subst compact_loop.simps) (simp add: Let_def)

lemma compact_loop_pos: "0 < length (compact_loop v)"
  by simp

text \<open>Seven bits per byte: a value below \<open>128 ^ n\<close> takes at most \<open>n\<close> bytes.\<close>

lemma length_compact_loop: "v < 128 ^ n \<Longrightarrow> 0 < n \<Longrightarrow> length (compact_loop v) \<le> n"
proof (induction n arbitrary: v)
  case (Suc n)
  show ?case
  proof (cases "v < 128")
    case True
    then show ?thesis by (simp add: compact_loop_small)
  next
    case False
    have "v div 128 < 128 ^ n"
      using Suc.prems(1) by (simp add: div_less_iff_less_mult)
    moreover have "0 < n"
      using False Suc.prems(1) by (cases n) auto
    ultimately show ?thesis
      using False Suc.IH by (simp add: compact_loop_step)
  qed
qed simp

section \<open>What the decoders read\<close>

text \<open>Bits below \<open>s\<close> and bits from \<open>s\<close> on do not meet, so the \<open>|=\<close> of the loop adds.\<close>

lemma or_push_bit:
  fixes c :: u64
  assumes "0 \<le> a" "a < 2 ^ s"
  shows "word_of_int a OR push_bit s c = word_of_int a + push_bit s c"
proof -
  have low: "n < s" if "bit (word_of_int a :: u64) n" for n
  proof -
    have "a = take_bit s a" using assms by (simp add: take_bit_int_eq_self)
    moreover have "bit a n" using that by (simp add: bit_word_of_int_iff)
    ultimately show ?thesis by (metis bit_take_bit_iff)
  qed
  show ?thesis
    by (rule disjunctive_add [symmetric]) (use low in \<open>fastforce simp: bit_push_bit_iff\<close>)
qed

lemma byte_low_bits:
  assumes "0 \<le> c" "c < 128"
  shows "ucast ((word_of_int c :: byte) AND 0x7F) = (word_of_int c :: u64)"
    and "ucast ((word_of_int (c + 128) :: byte) AND 0x7F) = (word_of_int c :: u64)"
    and "(word_of_int c :: byte) AND 0x80 = 0"
    and "(word_of_int (c + 128) :: byte) AND 0x80 \<noteq> 0"
proof -
  have c: "c \<in> set (map int [0..<128])"
    using assms by (auto intro!: image_eqI [where x = "nat c"])
  have "\<forall>c \<in> set (map int [0..<128]).
      ucast ((word_of_int c :: byte) AND 0x7F) = (word_of_int c :: u64)
    \<and> ucast ((word_of_int (c + 128) :: byte) AND 0x7F) = (word_of_int c :: u64)
    \<and> (word_of_int c :: byte) AND 0x80 = 0
    \<and> (word_of_int (c + 128) :: byte) AND 0x80 \<noteq> 0"
    by code_simp
  with c show "ucast ((word_of_int c :: byte) AND 0x7F) = (word_of_int c :: u64)"
    and "ucast ((word_of_int (c + 128) :: byte) AND 0x7F) = (word_of_int c :: u64)"
    and "(word_of_int c :: byte) AND 0x80 = 0"
    and "(word_of_int (c + 128) :: byte) AND 0x80 \<noteq> 0"
    by blast+
qed

text \<open>One round of the loop on a byte the encoder emitted.\<close>

lemma read_varint_step:
  assumes "off < length msg" "msg ! off = word_of_int (c + of_bool more * 128)"
    and "0 \<le> c" "c < 128" "s < 64" "s = 63 \<longrightarrow> c \<le> 1" "0 \<le> a" "a < 2 ^ s"
  shows "read_varint_loop err msg off s (word_of_int a) =
    (if \<not> more then Inr (word_of_int (a + c * 2 ^ s), off + 1)
     else if \<not> s + 7 < 64 then Inl err
     else read_varint_loop err msg (off + 1) (s + 7) (word_of_int (a + c * 2 ^ s)))"
proof -
  let ?byte = "msg ! off"
  have chunk: "ucast (?byte AND 0x7F) = (word_of_int c :: u64)"
    using assms(2,3,4) by (cases more) (simp_all add: byte_low_bits del: of_int_add)
  have flag: "?byte AND 0x80 = 0 \<longleftrightarrow> \<not> more"
    using assms(2,3,4) by (cases more) (simp_all add: byte_low_bits del: of_int_add)
  have "(word_of_int a :: u64) OR push_bit s (word_of_int c) = word_of_int (a + c * 2 ^ s)"
    using or_push_bit [OF assms(7,8), of "word_of_int c"] by (simp add: push_bit_eq_mult)
  moreover have "s = 63 \<longrightarrow> (word_of_int c :: u64) \<le> 1"
    using assms(3,6) by (auto simp: word_le_def uint_word_of_int)
  ultimately show ?thesis
    using assms(1,5) by (subst read_varint_loop.simps) (auto simp: chunk flag Let_def)
qed

lemma compact_fits: "s \<le> 64 \<Longrightarrow> (v::int) * 2 ^ s < 2 ^ 64 \<longleftrightarrow> v < 2 ^ (64 - s)"
proof -
  assume "s \<le> 64"
  then have "(2::int) ^ 64 = 2 ^ (64 - s) * 2 ^ s" by (simp flip: power_add)
  then show ?thesis by (metis mult_less_cancel_right_pos zero_less_numeral zero_less_power)
qed

lemma compact_shift_fits:
  assumes "s + 7 \<le> 63"
  shows "(v::int) div 128 * 2 ^ (s + 7) < 2 ^ 64 \<longleftrightarrow> v * 2 ^ s < 2 ^ 64"
proof -
  have "(2::int) ^ (64 - (s + 7) + 7) = 2 ^ (64 - (s + 7)) * 128" by (simp add: power_add)
  moreover have "64 - (s + 7) + 7 = 64 - s" using assms by simp
  ultimately have "(2::int) ^ (64 - s) = 2 ^ (64 - (s + 7)) * 128" by metis
  moreover have "v div 128 < k \<longleftrightarrow> v < k * 128" for k
    using div_mult_mod_eq [of v 128] pos_mod_bound [of 128 v] pos_mod_sign [of 128 v] by linarith
  ultimately show ?thesis
    using assms compact_fits [of "s + 7" "v div 128"] compact_fits [of s v] by simp
qed

text \<open>
  The total behaviour of the decoder on the encoder's bytes: from shift \<open>s\<close> on it accepts exactly
  the values that fit the remaining bits.
\<close>

lemma read_varint_compact:
  assumes "0 \<le> v" "s \<le> 63" "7 dvd s" "0 \<le> a" "a < 2 ^ s"
  shows "read_varint_loop err (pre @ compact_loop v @ rest) (length pre) s (word_of_int a) =
    (if v * 2 ^ s < 2 ^ 64
     then Inr (word_of_int (a + v * 2 ^ s), length pre + length (compact_loop v)) else Inl err)"
  using assms
proof (induction v arbitrary: pre s a rule: compact_loop.induct)
  case (1 v)
  let ?msg = "pre @ compact_loop v @ rest"
  have off: "length pre < length ?msg" by (simp add: compact_loop_pos)
  have s63: "s = 63 \<Longrightarrow> v * 2 ^ s < 2 ^ 64 \<longleftrightarrow> v \<le> 1" by auto
  show ?case
  proof (cases "v < 128")
    case True
    then have enc: "compact_loop v = [word_of_int v]"
      using 1 by (simp add: compact_loop_small)
    have fits: "v * 2 ^ s < 2 ^ 64 \<longleftrightarrow> (s = 63 \<longrightarrow> v \<le> 1)"
    proof (cases "s = 63")
      case False
      with "1.prems" have "s \<le> 57" by presburger
      then have "(2::int) ^ s \<le> 2 ^ 57" by (intro power_increasing) auto
      with True "1.prems"(1) have "v * 2 ^ s \<le> 127 * 2 ^ 57"
        by (intro mult_mono) auto
      with False show ?thesis by simp
    qed (use s63 in auto)
    show ?thesis
    proof (cases "v * 2 ^ s < 2 ^ 64")
      case ok: True
      then show ?thesis
        using read_varint_step [of "length pre" ?msg v False s a err] "1.prems" True fits enc
        by (simp add: nth_append)
    next
      case False
      with fits have "s = 63" "\<not> v \<le> 1" by auto
      moreover from this True have "\<not> (word_of_int v :: u64) \<le> 1"
        by (simp add: word_le_def uint_word_of_int)
      ultimately show ?thesis
        using False True "1.prems"(1) enc
        by (subst read_varint_loop.simps) (simp add: nth_append byte_low_bits Let_def)
    qed
  next
    case False
    then have enc: "compact_loop v = word_of_int (v mod 128 + 128) # compact_loop (v div 128)"
      by (simp add: compact_loop_step)
    let ?c = "v mod 128" and ?q = "v div 128"
    have byte: "?msg ! length pre = word_of_int (?c + of_bool True * 128)"
      by (simp add: enc nth_append)
    show ?thesis
    proof (cases "s = 63")
      case s: True
      show ?thesis
      proof (cases "?c \<le> 1")
        case True
        then show ?thesis
          using read_varint_step [OF off byte, of s a err] "1.prems" False s by simp
      next
        case c: False
        then have "\<not> (word_of_int ?c :: u64) \<le> 1"
          by (simp add: word_le_def uint_word_of_int)
        then show ?thesis
          using False s byte off
          by (subst read_varint_loop.simps) (simp add: byte_low_bits Let_def del: of_int_add)
      qed
    next
      case s: False
      with "1.prems"(2,3) have le: "s + 7 \<le> 63" by presburger
      have bound: "a + ?c * 2 ^ s < 2 ^ (s + 7)"
      proof -
        have "?c \<le> 127" by simp
        then have "?c * 2 ^ s \<le> 127 * 2 ^ s" by (rule mult_right_mono) simp
        then have "a + ?c * 2 ^ s < 2 ^ s + 127 * 2 ^ s" using "1.prems"(5) by linarith
        then show ?thesis by (simp add: power_add)
      qed
      have total: "a + ?c * 2 ^ s + ?q * 2 ^ (s + 7) = a + v * 2 ^ s"
      proof -
        have "a + c * 2 ^ s + q * (2 ^ s * 128) = a + (q * 128 + c) * 2 ^ s" for c q :: int
          by (simp add: algebra_simps)
        from this [of ?c ?q] show ?thesis by (simp add: power_add del: div_mult_mod_eq) 
      qed
      have q: "0 < ?q" using False by simp
      have dvd: "7 dvd s + 7" using "1.prems"(3) by simp
      have "read_varint_loop err ?msg (length pre) s (word_of_int a) =
          read_varint_loop err ?msg (length pre + 1) (s + 7) (word_of_int (a + ?c * 2 ^ s))"
        using read_varint_step [OF off byte, of s a err] "1.prems" le s by simp
      also have "\<dots> = (if ?q * 2 ^ (s + 7) < 2 ^ 64
          then Inr (word_of_int (a + ?c * 2 ^ s + ?q * 2 ^ (s + 7)),
                 length pre + 1 + length (compact_loop ?q)) else Inl err)"
        using "1.IH" [OF refl refl q _ le dvd _ bound, of "pre @ [word_of_int (?c + 128)]"]
          "1.prems"(4) q by (simp add: enc del: of_int_add)
      also have "?q * 2 ^ (s + 7) < 2 ^ 64 \<longleftrightarrow> v * 2 ^ s < 2 ^ 64"
        using compact_shift_fits [OF le] by simp
      finally show ?thesis by (simp add: total enc del: of_int_add)
    qed
  qed
qed

lemma read_varint_loop_compact:
  assumes "0 \<le> v"
  shows "read_varint_loop err (pre @ compact_loop v @ rest) (length pre) 0 0 =
    (if v < 2 ^ 64 then Inr (word_of_int v, length pre + length (compact_loop v)) else Inl err)"
  using read_varint_compact [OF assms, of 0 0 err pre rest] by simp

lemma compact_loop_uint:
  "read_varint_loop err (pre @ compact_loop (uint w) @ rest) (length pre) 0 0 =
    Inr (w, length pre + length (compact_loop (uint w)))" for w :: u64
  using uint_lt2p [of w] by (simp add: read_varint_loop_compact)

text \<open>The decoder never runs past the message, and always makes progress.\<close>

lemma read_varint_loop_bounds:
  "read_varint_loop err msg off s a = Inr (v, off') \<Longrightarrow> off < off' \<and> off' \<le> length msg"
proof (induction err msg off s a arbitrary: v off' rule: read_varint_loop.induct)
  case (1 err msg off s a)
  show ?case
  proof (cases "msg ! off AND 0x80 = 0")
    case True
    with "1.prems" show ?thesis
      by (subst (asm) read_varint_loop.simps) (auto simp: Let_def split: if_splits)
  next
    case False
    let ?chunk = "ucast (msg ! off AND 0x7F) :: u64"
    from False "1.prems" have c: "off < length msg" "\<not> (s = 63 \<and> \<not> ?chunk \<le> 1)" "s < 64"
        "s + 7 < 64"
      and rec: "read_varint_loop err msg (off + 1) (s + 7) (a OR push_bit s ?chunk) = Inr (v, off')"
      by (subst (asm) read_varint_loop.simps; auto simp: Let_def split: if_splits)+
    from "1.IH" [OF _ refl refl _ _ refl False _ rec] c show ?thesis by auto
  qed
qed

section \<open>Prefix codecs\<close>

text \<open>
  A loop that decodes \<open>n\<close> items one after the other, as the \<open>for _ in 0..n\<close> loops of the parsers.
\<close>

fun decode_many :: "(bytes \<Rightarrow> nat \<Rightarrow> 'e + 'a \<times> nat) \<Rightarrow> nat \<Rightarrow> bytes \<Rightarrow> nat \<Rightarrow> 'e + 'a list \<times> nat" where
  "decode_many dec 0 msg off = Inr ([], off)"
| "decode_many dec (Suc n) msg off =
     bindR (dec msg off) (\<lambda>(x, off').
     bindR (decode_many dec n msg off') (\<lambda>(xs, off''). Inr (x # xs, off'')))"

text \<open>
  The interface between an encoder and the parser of the program: what is encoded is recognised
  at any offset and in front of any bytes, and the parser stops right behind it.
\<close>

locale prefix_codec =
  fixes valid :: "'a \<Rightarrow> bool"
    and enc :: "'a \<Rightarrow> bytes"
    and dec :: "bytes \<Rightarrow> nat \<Rightarrow> 'e + 'a \<times> nat"
  assumes dec_enc:
    "valid x \<Longrightarrow> dec (pre @ enc x @ rest) (length pre) = Inr (x, length pre + length (enc x))"
begin

lemma enc_prefix_free:
  assumes "valid x" "valid y" "enc x @ r = enc y @ s"
  shows "x = y \<and> r = s"
proof -
  have "dec (enc x @ r) 0 = Inr (x, length (enc x))"
    using dec_enc [OF assms(1), of "[]" r] by simp
  moreover have "dec (enc y @ s) 0 = Inr (y, length (enc y))"
    using dec_enc [OF assms(2), of "[]" s] by simp
  ultimately have "x = y" using assms(3) by simp
  with assms(3) show ?thesis by simp
qed

lemma enc_inject: "valid x \<Longrightarrow> valid y \<Longrightarrow> enc x = enc y \<longleftrightarrow> x = y"
  using enc_prefix_free [of x y "[]" "[]"] by auto

lemma decode_many_enc:
  assumes "\<And>x. x \<in> set xs \<Longrightarrow> valid x" and "length xs = n"
  shows "decode_many dec n (pre @ concat (map enc xs) @ rest) (length pre) =
    Inr (xs, length pre + length (concat (map enc xs)))"
  using assms
proof (induction xs arbitrary: pre n)
  case (Cons x xs)
  have "dec (pre @ enc x @ (concat (map enc xs) @ rest)) (length pre) =
      Inr (x, length (pre @ enc x))"
    using dec_enc [of x pre] Cons.prems by simp
  moreover have "decode_many dec (length xs) ((pre @ enc x) @ concat (map enc xs) @ rest)
      (length (pre @ enc x)) = Inr (xs, length (pre @ enc x) + length (concat (map enc xs)))"
    using Cons.IH [OF _ refl, of "pre @ enc x"] Cons.prems(1) by simp
  ultimately show ?case
    using Cons.prems(2) by (auto simp: add.assoc)
qed simp

end

text \<open>A list of items whose number the decoder knows is a codec again.\<close>

locale list_codec = item: prefix_codec valid enc dec
  for valid :: "'a \<Rightarrow> bool" and enc :: "'a \<Rightarrow> bytes" and dec :: "bytes \<Rightarrow> nat \<Rightarrow> 'e + 'a \<times> nat" +
  fixes count :: nat

sublocale list_codec \<subseteq> prefix_codec
  "\<lambda>xs. (\<forall>x \<in> set xs. valid x) \<and> length xs = count" "\<lambda>xs. concat (map enc xs)" "decode_many dec count"
  by unfold_locales (rule item.decode_many_enc, auto)

interpretation varint: prefix_codec "\<lambda>_. True" "\<lambda>w. compact_loop (uint w)" read_varint_u64
  by unfold_locales (simp add: read_varint_u64_def compact_loop_uint)

interpretation commitment_varint:
  prefix_codec "\<lambda>_. True" "\<lambda>w. compact_loop (uint w)" read_varint_u64_commitment
  by unfold_locales (simp add: read_varint_u64_commitment_def compact_loop_uint)

lemma ucast_u32_le: "(ucast (w :: u32) :: u64) \<le> 0xFFFFFFFF"
proof -
  have "uint w < 2 ^ LENGTH(32)" by (rule unsigned_less)
  then show ?thesis by (simp add: word_le_def uint_up_ucast is_up)
qed

lemma uint_ucast_u32: "uint (ucast (w :: u32) :: u64) = uint w"
  by (simp add: uint_up_ucast is_up)

lemma ucast_ucast_u32: "ucast (ucast (w :: u32) :: u64) = w"
  by (simp add: ucast_up_ucast_id is_up)

lemma u32_of_compact:
  assumes "0 \<le> v" "v < 2 ^ 64"
  shows "(word_of_int v :: u64) \<le> 0xFFFFFFFF \<longleftrightarrow> v < 2 ^ 32"
    and "(ucast (word_of_int v :: u64) :: u32) = word_of_int v"
proof -
  have v: "uint (word_of_int v :: u64) = v"
    using assms by (simp add: uint_word_of_int)
  then show "(word_of_int v :: u64) \<le> 0xFFFFFFFF \<longleftrightarrow> v < 2 ^ 32"
    by (auto simp: word_le_def)
  show "(ucast (word_of_int v :: u64) :: u32) = word_of_int v"
    using v by (metis ucast_eq)
qed

lemma read_u32_compact:
  assumes "0 \<le> v"
  shows "read_varint_u32 (pre @ compact_loop v @ rest) (length pre) =
      (if v < 2 ^ 32 then Inr (word_of_int v, length pre + length (compact_loop v))
       else Inl InvalidClearingRoundMessage)"
    and "read_varint_u32_commitment (pre @ compact_loop v @ rest) (length pre) =
      (if v < 2 ^ 32 then Inr (word_of_int v, length pre + length (compact_loop v))
       else Inl InvalidCommitmentMessage)"
  using assms u32_of_compact [OF assms]
  by (auto simp: read_varint_u32_def read_varint_u32_commitment_def read_varint_u64_def
      read_varint_u64_commitment_def read_varint_loop_compact requireR_def)

interpretation varint32: prefix_codec "\<lambda>_. True" "\<lambda>w :: u32. compact_loop (uint w)" read_varint_u32
proof unfold_locales
  fix w :: u32 and pre rest
  show "read_varint_u32 (pre @ compact_loop (uint w) @ rest) (length pre) =
      Inr (w, length pre + length (compact_loop (uint w)))"
    using varint.dec_enc [where x = "ucast w" and pre = pre and rest = rest]
    by (simp add: read_varint_u32_def uint_ucast_u32 ucast_u32_le ucast_ucast_u32)
qed

interpretation commitment_varint32:
  prefix_codec "\<lambda>_. True" "\<lambda>w :: u32. compact_loop (uint w)" read_varint_u32_commitment
proof unfold_locales
  fix w :: u32 and pre rest
  show "read_varint_u32_commitment (pre @ compact_loop (uint w) @ rest) (length pre) =
      Inr (w, length pre + length (compact_loop (uint w)))"
    using commitment_varint.dec_enc [where x = "ucast w" and pre = pre and rest = rest]
    by (simp add: read_varint_u32_commitment_def uint_ucast_u32 ucast_u32_le ucast_ucast_u32)
qed

section \<open>Properties\<close>

text \<open>
  C21: The program reads back every compact integer the client writes, at any offset and in front
  of any bytes, exactly when it fits 64 bits; a larger one it rejects with the error code of the
  parser, and a negative one the client refuses to write.
\<close>

theorem compact_roundtrip:
  "(v < 0 \<and> encodeCompactU64 v = throwError ''Compact values must be unsigned'')
    \<or> (\<exists>bs. encodeCompactU64 v = Inr bs \<and>
        read_varint_u64 (pre @ bs @ rest) (length pre) =
          (if v < 2 ^ 64 then Inr (word_of_int v, length pre + length bs)
           else Inl InvalidClearingRoundMessage) \<and>
        read_varint_u64_commitment (pre @ bs @ rest) (length pre) =
          (if v < 2 ^ 64 then Inr (word_of_int v, length pre + length bs)
           else Inl InvalidCommitmentMessage))"
  by (simp add: encodeCompactU64_def read_varint_u64_def read_varint_u64_commitment_def
      read_varint_loop_compact)

text \<open>
  The compact form of a 64-bit amount takes between one and ten bytes, and no compact integer
  is a prefix of another one: what follows a compact integer cannot be mistaken for part of it.
\<close>

theorem compact_prefix_free:
  "length (compact_loop (uint (v :: u64))) \<in> {1..10}
    \<and> (compact_loop (uint v) @ r = compact_loop (uint (w :: u64)) @ s \<longleftrightarrow> v = w \<and> r = s)"
proof
  have "uint v < 128 ^ 10" using uint_lt2p [of v] by simp
  then have "length (compact_loop (uint v)) \<le> 10" by (rule length_compact_loop) simp
  then show "length (compact_loop (uint v)) \<in> {1..10}"
    using compact_loop_pos [of "uint v"] by (simp add: Suc_le_eq del: length_greater_0_conv)
  show "compact_loop (uint v) @ r = compact_loop (uint w) @ s \<longleftrightarrow> v = w \<and> r = s"
    using varint.enc_prefix_free [where x = v and y = w and r = r and s = s] by auto
qed

end
