(* ===== verification/BucketAddress.thy ===== *)
theory BucketAddress
  imports Compact
begin

text \<open>
  Where an account lives: the bucket and the slot of a participant and of a pair of participants,
  as the client computes them (\<open>participantBucketIdForParticipantId\<close> to \<open>findChannelPda\<close> in
  \<open>scripts/ryvo-protocol-demo.ts\<close>, \<open>getCanonicalChannelParticipants\<close> in
  \<open>shared/channel-bucket-state.ts\<close>) and as the program does (\<open>ChannelBucket::canonicalize\<close>,
  \<open>pair_ordinal\<close>, \<open>bucket_id_for_pair\<close> and \<open>slot_index_for_pair\<close> in
  \<open>programs/ryvo-protocol/src/state/bucket_state.rs\<close>).

  Participant ids are \<open>u32\<close> values of the program, so the double arithmetic of the client's
  \<open>Math.floor(participantId / 9)\<close> is exact; the conversion \<open>Number(bigint)\<close> is not, and rounds
  as IEEE doubles do.
\<close>

section \<open>Numbers of JavaScript beyond 53 bits\<close>

fun bit_length :: "int \<Rightarrow> nat" where
  "bit_length n = (if n \<le> 0 then 0 else Suc (bit_length (n div 2)))"

declare bit_length.simps [simp del]

text \<open>
  \<open>Number(n)\<close> on a \<open>bigint\<close> that is not negative (and below the largest double): the 53 leading bits, rounded to the
  nearest, ties to even.
\<close>

definition js_Number :: "int \<Rightarrow> int" where
  "js_Number n =
     (if n < 2 ^ 53 then n else
      let e = bit_length n - 53; q = n div 2 ^ e; r = n mod 2 ^ e; half = 2 ^ (e - 1) in
      (if r > half \<or> (r = half \<and> odd q) then q + 1 else q) * 2 ^ e)"

text \<open>
  \<open>value.toString()\<close> of an integral double below \<open>10 ^ 21\<close>, as the integer its digits denote:
  the fewest significant digits that read back as the same double, padded with zeros.
\<close>

definition decimal_candidates :: "int \<Rightarrow> nat \<Rightarrow> int list" where
  "decimal_candidates n j =
     (let low = n div 10 ^ j * 10 ^ j; high = low + 10 ^ j in
      filter (\<lambda>c. js_Number c = n) (if n - low \<le> high - n then [low, high] else [high, low]))"

fun js_number_decimal_from :: "nat \<Rightarrow> int \<Rightarrow> int" where
  "js_number_decimal_from 0 n = n"
| "js_number_decimal_from (Suc j) n =
     (case decimal_candidates n (Suc j) of [] \<Rightarrow> js_number_decimal_from j n | c # _ \<Rightarrow> c)"

definition js_number_decimal :: "int \<Rightarrow> int" where
  "js_number_decimal n = (if n < 2 ^ 53 then n else js_number_decimal_from 21 n)"

lemma js_Number_exact [simp]: "n \<le> 2 ^ 53 \<Longrightarrow> js_Number n = n"
proof (cases "n = 2 ^ 53")
  case True
  have "js_Number (2 ^ 53) = 2 ^ 53" by code_simp
  with True show ?thesis by simp
qed (simp add: js_Number_def)

lemma js_number_decimal_exact: "n < 2 ^ 53 \<Longrightarrow> js_number_decimal n = n"
  by (simp add: js_number_decimal_def)

section \<open>The client\<close>

definition PARTICIPANT_BUCKET_SLOT_COUNT :: int where "PARTICIPANT_BUCKET_SLOT_COUNT = 9"
definition CHANNEL_BUCKET_SLOT_COUNT :: int where "CHANNEL_BUCKET_SLOT_COUNT = 46"
definition OWNER_INDEX_BUCKET_COUNT :: int where "OWNER_INDEX_BUCKET_COUNT = 1024"

lemmas [layout_simps] = PARTICIPANT_BUCKET_SLOT_COUNT_def CHANNEL_BUCKET_SLOT_COUNT_def
  OWNER_INDEX_BUCKET_COUNT_def

definition participantBucketIdForParticipantId :: "int \<Rightarrow> int" where
  "participantBucketIdForParticipantId participantId = participantId div PARTICIPANT_BUCKET_SLOT_COUNT"

definition participantBucketSlotIndex :: "int \<Rightarrow> int" where
  "participantBucketSlotIndex participantId = js_mod participantId PARTICIPANT_BUCKET_SLOT_COUNT"

record canonical_participants =
  lowerParticipantId :: int
  higherParticipantId :: int

definition getCanonicalChannelParticipants :: "int \<Rightarrow> int \<Rightarrow> canonical_participants" where
  "getCanonicalChannelParticipants payerId payeeId =
     \<lparr>lowerParticipantId = min payerId payeeId, higherParticipantId = max payerId payeeId\<rparr>"

definition pairOrdinal :: "int \<Rightarrow> int \<Rightarrow> int" where
  "pairOrdinal lower higher = js_div (higher * (higher - 1)) 2 + lower"

definition channelBucketIdForPair :: "int \<Rightarrow> int \<Rightarrow> int" where
  "channelBucketIdForPair payerId payeeId =
     (let c = getCanonicalChannelParticipants payerId payeeId in
      js_Number (js_div (pairOrdinal (lowerParticipantId c) (higherParticipantId c))
        CHANNEL_BUCKET_SLOT_COUNT))"

definition channelBucketSlotIndexForPair :: "int \<Rightarrow> int \<Rightarrow> int" where
  "channelBucketSlotIndexForPair payerId payeeId =
     (let c = getCanonicalChannelParticipants payerId payeeId in
      js_Number (js_mod (pairOrdinal (lowerParticipantId c) (higherParticipantId c))
        CHANNEL_BUCKET_SLOT_COUNT))"

text \<open>
  Seeds of program derived addresses. \<open>BN.toArrayLike\<close> (package \<open>bn.js\<close>), the hash and
  \<open>PublicKey.findProgramAddressSync\<close> are not code of the repository: parameters. The number
  given to \<open>new BN\<close> goes through its decimal string in \<open>u64Le\<close>.
\<close>

type_synonym bn_to_le = "int \<Rightarrow> nat \<Rightarrow> bytes js"
type_synonym derive_address = "bytes list \<Rightarrow> pubkey \<Rightarrow> pubkey"

definition u32Le :: "bn_to_le \<Rightarrow> int \<Rightarrow> bytes js" where
  "u32Le bn n = bn n 4"

definition u64Le :: "bn_to_le \<Rightarrow> int \<Rightarrow> bytes js" where
  "u64Le bn n = bn (js_number_decimal n) 8"

definition ownerIndexBucketIdForOwner :: "(bytes \<Rightarrow> bytes) \<Rightarrow> pubkey \<Rightarrow> int" where
  "ownerIndexBucketIdForOwner sha256 owner =
     js_mod (int (le_nat (subarray 0 4 (sha256 owner)))) OWNER_INDEX_BUCKET_COUNT"

definition findParticipantBucketPda :: "bn_to_le \<Rightarrow> derive_address \<Rightarrow> pubkey \<Rightarrow> int \<Rightarrow> pubkey js" where
  "findParticipantBucketPda bn derive programId participantId =
     bindR (u32Le bn (participantBucketIdForParticipantId participantId)) (\<lambda>bucket.
     Inr (derive [ascii ''participant-bucket-v2'', bucket] programId))"

definition findOwnerIndexBucketPda ::
  "bn_to_le \<Rightarrow> derive_address \<Rightarrow> (bytes \<Rightarrow> bytes) \<Rightarrow> pubkey \<Rightarrow> pubkey \<Rightarrow> pubkey js" where
  "findOwnerIndexBucketPda bn derive sha256 programId owner =
     bindR (u32Le bn (ownerIndexBucketIdForOwner sha256 owner)) (\<lambda>bucket.
     Inr (derive [ascii ''owner-index-bucket-v2'', bucket] programId))"

definition findChannelPda :: "bn_to_le \<Rightarrow> derive_address \<Rightarrow> pubkey \<Rightarrow> int \<Rightarrow> int \<Rightarrow> int \<Rightarrow> pubkey js" where
  "findChannelPda bn derive programId payerId payeeId tokenId =
     bindR (bn tokenId 2) (\<lambda>token.
     bindR (u64Le bn (channelBucketIdForPair payerId payeeId)) (\<lambda>bucket.
     Inr (derive [ascii ''channel-bucket-v2'', token, bucket] programId)))"

section \<open>The program\<close>

datatype lane_selector = LowerToHigher | HigherToLower

definition canonicalize :: "u32 \<Rightarrow> u32 \<Rightarrow> (u32 \<times> u32 \<times> lane_selector) vres" where
  "canonicalize payer_id payee_id =
     requireR (payer_id \<noteq> payee_id) SelfChannelNotAllowed
       (Inr (if payer_id < payee_id then (payer_id, payee_id, LowerToHigher)
             else (payee_id, payer_id, HigherToLower)))"

definition pair_ordinal :: "u32 \<Rightarrow> u32 \<Rightarrow> u64 vres" where
  "pair_ordinal lower_id higher_id =
     requireR (lower_id < higher_id) SelfChannelNotAllowed
       (let higher = ucast higher_id; lower = ucast lower_id in
        bindR (checked_sub64 MathOverflow higher 1) (\<lambda>h1.
        bindR (checked_mul64 MathOverflow higher h1) (\<lambda>product.
        checked_add64 MathOverflow (product div 2) lower)))"

definition bucket_id_for_pair :: "u32 \<Rightarrow> u32 \<Rightarrow> u64 vres" where
  "bucket_id_for_pair lower higher = bindR (pair_ordinal lower higher) (\<lambda>ord. Inr (ord div 46))"

definition slot_index_for_pair :: "u32 \<Rightarrow> u32 \<Rightarrow> nat vres" where
  "slot_index_for_pair lower higher = bindR (pair_ordinal lower higher) (\<lambda>ord. Inr (unat (ord mod 46)))"

definition bucket_id_for_participant_id :: "u32 \<Rightarrow> u32" where
  "bucket_id_for_participant_id participant_id = participant_id div 9"

definition slot_index_for_participant_id :: "u32 \<Rightarrow> nat" where
  "slot_index_for_participant_id participant_id = unat (participant_id mod 9)"

text \<open>
  The seeds of \<open>ChannelBucket::verify_expected_pda\<close> before the bump, which
  \<open>findProgramAddressSync\<close> searches for.
\<close>

definition channel_bucket_seeds :: "u16 \<Rightarrow> u64 \<Rightarrow> bytes list" where
  "channel_bucket_seeds token_id bucket_id =
     [ascii ''channel-bucket-v2'', le_bytes 2 (unat token_id), le_bytes 8 (unat bucket_id)]"

section \<open>Pair numbers\<close>

text \<open>The number of a pair, over the naturals: \<open>higher * (higher - 1) / 2 + lower\<close>.\<close>

definition pair_number :: "nat \<Rightarrow> nat \<Rightarrow> nat" where
  "pair_number l h = h * (h - 1) div 2 + l"

lemma pair_number_Suc_base: "pair_number 0 (Suc h) = pair_number 0 h + h"
proof -
  have "even (h * (h - 1))" by (cases h) auto
  then obtain k where k: "h * (h - 1) = 2 * k" by (rule evenE)
  have "Suc h * h = h * (h - 1) + 2 * h" by (cases h) (simp_all add: algebra_simps)
  with k show ?thesis by (simp add: pair_number_def)
qed

lemma pair_number_base: "pair_number l h = pair_number 0 h + l"
  by (simp add: pair_number_def)

lemma pair_number_base_mono: "g \<le> h \<Longrightarrow> pair_number 0 g \<le> pair_number 0 h"
  by (rule lift_Suc_mono_le [of "pair_number 0"]) (auto simp: pair_number_Suc_base)

lemma pair_number_below: "l < h \<Longrightarrow> h < k \<Longrightarrow> pair_number l h < pair_number 0 k"
  using pair_number_base_mono [of "Suc h" k]
  by (simp add: pair_number_base [of l] pair_number_Suc_base)

lemma pair_number_inject:
  assumes "l < h" "l' < h'" "pair_number l h = pair_number l' h'"
  shows "l = l' \<and> h = h'"
proof -
  have "h = h'"
  proof (rule linorder_cases [of h h'])
    assume "h < h'"
    then show ?thesis using pair_number_below [of l h h'] assms by (simp add: pair_number_base [of l'])
  next
    assume "h' < h"
    then show ?thesis using pair_number_below [of l' h' h] assms by (simp add: pair_number_base [of l])
  qed
  with assms(3) show ?thesis by (simp add: pair_number_def)
qed

text \<open>No number is skipped: below \<open>n * (n - 1) / 2\<close> every number is the number of a pair.\<close>

lemma pair_number_onto: "k < pair_number 0 n \<Longrightarrow> \<exists>l h. l < h \<and> h < n \<and> pair_number l h = k"
proof (induction n)
  case (Suc n)
  show ?case
  proof (cases "k < pair_number 0 n")
    case True
    with Suc.IH show ?thesis by (meson less_SucI)
  next
    case False
    with Suc.prems have "k - pair_number 0 n < n" "pair_number (k - pair_number 0 n) n = k"
      by (simp_all add: pair_number_Suc_base pair_number_base [of "k - _"])
    then show ?thesis by blast
  qed
qed (simp add: pair_number_def)

lemma pair_number_bound: "l < h \<Longrightarrow> h < 2 ^ k \<Longrightarrow> pair_number l h < 2 ^ (2 * k)"
proof -
  assume lh: "l < h" "h < 2 ^ k"
  have "h * (h - 1) div 2 \<le> h * (h - 1)" by simp
  then have "pair_number l h < h * (h - 1) + h" using lh by (simp add: pair_number_def)
  also have "\<dots> = h * h" by (cases h) (simp_all add: algebra_simps)
  also have "\<dots> \<le> 2 ^ k * 2 ^ k" using lh by (intro mult_mono) auto
  finally show ?thesis by (simp add: mult_2 power_add)
qed

lemma pairOrdinal_number: "0 \<le> l \<Longrightarrow> l < h \<Longrightarrow> pairOrdinal l h = int (pair_number (nat l) (nat h))"
  by (simp add: pairOrdinal_def pair_number_def js_div_nonneg of_nat_diff nat_diff_distrib
      zdiv_int flip: nat_mult_distrib)

lemma pairOrdinal_nonneg: "0 \<le> l \<Longrightarrow> l < h \<Longrightarrow> 0 \<le> pairOrdinal l h"
  by (simp add: pairOrdinal_number)

section \<open>Tables of slots\<close>

text \<open>
  What every bucket account shares: items with distinct numbers, \<open>count\<close> slots of \<open>size\<close> bytes
  behind a header of \<open>base\<close> bytes, and the item with number \<open>n\<close> in bucket \<open>n div count\<close>, slot
  \<open>n mod count\<close>.
\<close>

locale slot_table =
  fixes valid :: "'k \<Rightarrow> bool"
    and number :: "'k \<Rightarrow> nat"
    and count :: nat
    and base :: nat
    and size :: nat
  assumes number_inject: "valid x \<Longrightarrow> valid y \<Longrightarrow> number x = number y \<Longrightarrow> x = y"
    and count_pos: "0 < count"
begin

lemma slot_below: "number x mod count < count"
  using count_pos by simp

lemma address_inject:
  assumes "valid x" "valid y"
    and "number x div count = number y div count" "number x mod count = number y mod count"
  shows "x = y"
  by (rule number_inject [OF assms(1,2)]) (metis assms(3,4) div_mult_mod_eq)

lemma slot_inside: "base + number x mod count * size + size \<le> base + count * size"
proof -
  have "Suc (number x mod count) * size \<le> count * size"
    using slot_below [of x] by (intro mult_le_mono1) simp
  then show ?thesis by simp
qed

lemma slots_disjoint:
  assumes "valid x" "valid y" "x \<noteq> y" "number x div count = number y div count"
  shows "base + number x mod count * size + size \<le> base + number y mod count * size
    \<or> base + number y mod count * size + size \<le> base + number x mod count * size"
proof -
  have apart: "s * size + size \<le> t * size" if "s < t" for s t
  proof -
    have "Suc s * size \<le> t * size" using that by (intro mult_le_mono1) simp
    then show ?thesis by simp
  qed
  have "number x mod count \<noteq> number y mod count" using address_inject assms by blast
  then consider "number x mod count < number y mod count" | "number y mod count < number x mod count"
    by linarith
  then show ?thesis by cases (use apart in \<open>fastforce+\<close>)
qed

end

text \<open>The channel buckets of one token: 46 slots of 219 bytes behind 19 bytes.\<close>

interpretation channel_table: slot_table
  "\<lambda>(l, h). l < h" "\<lambda>(l, h). pair_number l h" 46 19 219
  by unfold_locales (auto dest: pair_number_inject)

text \<open>The participant buckets: 9 slots of 1079 bytes behind 13 bytes.\<close>

interpretation participant_table: slot_table "\<lambda>_. True" "\<lambda>n. n" 9 13 1079
  by unfold_locales simp_all

section \<open>The program never overflows\<close>

lemma unat_u32_less: "unat (w :: u32) < 2 ^ 32"
proof -
  have "unat w < 2 ^ LENGTH(32)" by (rule unsigned_less)
  then show ?thesis by simp
qed

lemma unat_ucast_u32 [simp]: "unat (ucast (w :: u32) :: u64) = unat w"
  by (simp add: uint_up_ucast is_up flip: nat_uint_eq)

lemma pair_ordinal_total:
  assumes "l < h"
  shows "pair_ordinal l h = Inr (word_of_nat (pair_number (unat l) (unat h)))"
    and "pair_number (unat l) (unat h) < 2 ^ 64"
proof -
  let ?l = "unat l" and ?h = "unat h"
  have lh: "?l < ?h" using assms by (simp add: word_less_nat_alt)
  have h: "?h < 2 ^ 32" by (rule unat_u32_less)
  show bound: "pair_number ?l ?h < 2 ^ 64"
    using pair_number_bound [OF lh h] by simp
  have one: "1 \<le> (ucast h :: u64)" using lh by (simp add: word_le_nat_alt)
  have h1: "unat (ucast h - 1 :: u64) = ?h - 1" using one by (simp add: unat_sub)
  have "?h * (?h - 1) \<le> (2 ^ 32 - 1) * (2 ^ 32 - 1)" using h by (intro mult_mono) auto
  then have product: "?h * (?h - 1) < 2 ^ 64" by simp
  have "unat ((ucast h :: u64) * (ucast h - 1)) = ?h * (?h - 1)"
    using product by (simp add: unat_word_ariths h1)
  then have half: "unat (((ucast h :: u64) * (ucast h - 1)) div 2) = ?h * (?h - 1) div 2"
    by (simp add: unat_div)
  have sum: "unat (((ucast h :: u64) * (ucast h - 1)) div 2) + ?l = pair_number ?l ?h"
    by (simp add: half pair_number_def)
  have "((ucast h :: u64) * (ucast h - 1)) div 2 + ucast l = word_of_nat (pair_number ?l ?h)"
    using bound product by (intro word_unat_eq_iff [THEN iffD2]) (simp add: unat_word_ariths h1 product pair_number_def unat_of_nat unat_div)
  then show "pair_ordinal l h = Inr (word_of_nat (pair_number ?l ?h))"
    using assms one product bound
    by (simp add: pair_ordinal_def checked_sub64_def checked_mul64_def checked_add64_def
        Let_def h1 sum)
qed

lemma unat_pair_ordinal: "l < h \<Longrightarrow> unat (word_of_nat (pair_number (unat l) (unat h)) :: u64) =
    pair_number (unat l) (unat h)" for l h :: u32
  using pair_ordinal_total(2) [of l h] by (simp add: unat_of_nat)

lemma bucket_id_total:
  "l < h \<Longrightarrow> bucket_id_for_pair l h = Inr (word_of_nat (pair_number (unat l) (unat h) div 46))"
  using unat_pair_ordinal [of l h] pair_ordinal_total(2) [of l h]
  by (simp add: bucket_id_for_pair_def pair_ordinal_total word_unat_eq_iff unat_div unat_of_nat)

lemma unat_bucket_id:
  "l < h \<Longrightarrow> unat (word_of_nat (pair_number (unat l) (unat h) div 46) :: u64) =
    pair_number (unat l) (unat h) div 46" for l h :: u32
  using pair_ordinal_total(2) [of l h] by (simp add: unat_of_nat)

lemma slot_index_total:
  "l < h \<Longrightarrow> slot_index_for_pair l h = Inr (pair_number (unat l) (unat h) mod 46)"
  by (simp add: slot_index_for_pair_def pair_ordinal_total unat_mod unat_pair_ordinal)

lemma unat_div9: "unat (w div 9 :: u32) = unat w div 9" "unat (w mod 9 :: u32) = unat w mod 9"
  by (simp_all add: unat_div unat_mod)

section \<open>The client computes the program's address\<close>

lemma canonical_simps [simp]:
  "lowerParticipantId (getCanonicalChannelParticipants a b) = min a b"
  "higherParticipantId (getCanonicalChannelParticipants a b) = max a b"
  by (simp_all add: getCanonicalChannelParticipants_def)

lemma slot_index_client:
  "0 \<le> a \<Longrightarrow> 0 \<le> b \<Longrightarrow> a \<noteq> b \<Longrightarrow> channelBucketSlotIndexForPair a b =
    int (pair_number (nat (min a b)) (nat (max a b)) mod 46)"
proof -
  assume ab: "0 \<le> a" "0 \<le> b" "a \<noteq> b"
  let ?n = "pairOrdinal (min a b) (max a b)"
  have n: "0 \<le> ?n" "?n = int (pair_number (nat (min a b)) (nat (max a b)))"
    using ab by (auto simp: pairOrdinal_number pairOrdinal_nonneg)
  have "?n mod 46 \<le> 2 ^ 53" using pos_mod_bound [of 46 ?n] by simp
  then show ?thesis
    using n by (simp add: channelBucketSlotIndexForPair_def Let_def layout_simps js_mod_nonneg zmod_int)
qed

lemma bucket_id_client:
  "0 \<le> a \<Longrightarrow> 0 \<le> b \<Longrightarrow> a \<noteq> b \<Longrightarrow> channelBucketIdForPair a b =
    js_Number (int (pair_number (nat (min a b)) (nat (max a b)) div 46))"
proof -
  assume ab: "0 \<le> a" "0 \<le> b" "a \<noteq> b"
  let ?n = "pairOrdinal (min a b) (max a b)"
  have "0 \<le> ?n" "?n = int (pair_number (nat (min a b)) (nat (max a b)))"
    using ab by (auto simp: pairOrdinal_number pairOrdinal_nonneg)
  then show ?thesis
    by (simp add: channelBucketIdForPair_def Let_def layout_simps js_div_nonneg zdiv_int)
qed

text \<open>Below 910 million participants every bucket id is a safe integer.\<close>

lemma bucket_id_safe:
  assumes "l < h" "h < 910000000"
  shows "int (pair_number l h div 46) < 2 ^ 53"
proof -
  have "pair_number l h < pair_number 0 910000000"
    using assms by (rule pair_number_below)
  also have "\<dots> < 46 * 2 ^ 53" by (simp add: pair_number_def)
  finally have "pair_number l h div 46 < 2 ^ 53" by (simp add: less_mult_imp_div_less)
  then show ?thesis by (simp add: of_nat_less_numeral_iff)
qed

lemma canonicalize_simps [simp]:
  "p < q \<Longrightarrow> canonicalize p q = Inr (p, q, LowerToHigher)"
  "q < p \<Longrightarrow> canonicalize p q = Inr (q, p, HigherToLower)"
  "canonicalize p p = Inl SelfChannelNotAllowed"
  by (auto simp: canonicalize_def requireR_def)

lemma canonicalize_cases:
  assumes "canonicalize payer payee = Inr (l, h, lane)"
  obtains "payer < payee" "l = payer" "h = payee" "lane = LowerToHigher"
    | "payee < payer" "l = payee" "h = payer" "lane = HigherToLower"
proof (cases "payer < payee")
  case True
  with assms have "l = payer" "h = payee" "lane = LowerToHigher"
    by (auto simp: canonicalize_def requireR_eq_Inr)
  with True show thesis by (rule that(1))
next
  case False
  from assms have "payer \<noteq> payee" by (auto simp: canonicalize_def)
  with False have "payee < payer" by simp
  moreover from assms False have "l = payee" "h = payer" "lane = HigherToLower"
    by (auto simp: canonicalize_def requireR_eq_Inr)
  ultimately show thesis by (rule that(2))
qed

lemma canonicalize_Inr:
  assumes "canonicalize payer payee = Inr (l, h, lane)"
  shows "l < h" "h = payer \<or> h = payee" "uint payer \<noteq> uint payee"
    "nat (min (uint payer) (uint payee)) = unat l" "nat (max (uint payer) (uint payee)) = unat h"
  using assms
  by (cases rule: canonicalize_cases; simp add: word_less_def)+

section \<open>Properties\<close>

text \<open>
  For any two distinct participants the program finds a bucket and a slot: no step of the
  pair number overflows, the slot is one of the 46, and the address does not depend on the
  direction of the payment.
\<close>

theorem channel_address_total:
  assumes "payer \<noteq> payee"
  shows "\<exists>l h lane bucket slot. canonicalize payer payee = Inr (l, h, lane)
    \<and> (\<exists>lane'. canonicalize payee payer = Inr (l, h, lane') \<and> lane' \<noteq> lane)
    \<and> bucket_id_for_pair l h = Inr bucket \<and> slot_index_for_pair l h = Inr slot
    \<and> slot < 46 \<and> 46 * unat bucket + slot = pair_number (unat l) (unat h)"
proof (cases "payer < payee")
  case True
  then show ?thesis
    using assms by (simp add: canonicalize_def bucket_id_total slot_index_total unat_bucket_id)
next
  case False
  with assms have "payee < payer" by simp
  with assms False show ?thesis
    by (simp add: canonicalize_def bucket_id_total slot_index_total unat_bucket_id)
qed

theorem channel_address_total_witness:
  "\<exists>l h lane bucket slot. canonicalize 7 3 = Inr (l, h, lane)
    \<and> (\<exists>lane'. canonicalize 3 7 = Inr (l, h, lane') \<and> lane' \<noteq> lane)
    \<and> bucket_id_for_pair l h = Inr bucket \<and> slot_index_for_pair l h = Inr slot
    \<and> slot < 46 \<and> 46 * unat bucket + slot = pair_number (unat l) (unat h)"
  by (rule channel_address_total) simp

text \<open>
  C6: Different pairs of participants never share a slot: the bucket id and the slot index the
  program computes determine the pair.
\<close>

theorem channel_address_unique:
  assumes "l < h" "l' < h'"
    and "bucket_id_for_pair l h = bucket_id_for_pair l' h'"
    and "slot_index_for_pair l h = slot_index_for_pair l' h'"
  shows "l = l' \<and> h = h'"
proof -
  have lt: "unat l < unat h" "unat l' < unat h'"
    using assms(1,2) by (simp_all add: word_less_nat_alt)
  have "(word_of_nat (pair_number (unat l) (unat h) div 46) :: u64) =
      word_of_nat (pair_number (unat l') (unat h') div 46)"
    using assms by (simp add: bucket_id_total)
  then have "pair_number (unat l) (unat h) div 46 = pair_number (unat l') (unat h') div 46"
    using unat_bucket_id [OF assms(1)] unat_bucket_id [OF assms(2)] by metis
  moreover have "pair_number (unat l) (unat h) mod 46 = pair_number (unat l') (unat h') mod 46"
    using assms by (simp add: slot_index_total)
  ultimately have "(unat l, unat h) = (unat l', unat h')"
    using channel_table.address_inject [of "(unat l, unat h)" "(unat l', unat h')"] lt by simp
  then show ?thesis by (simp add: word_unat_eq_iff)
qed

theorem channel_address_unique_witness:
  "bucket_id_for_pair 2 9 = bucket_id_for_pair 2 9 \<and> (2 :: u32) = 2 \<and> (9 :: u32) = 9"
  using channel_address_unique [of 2 9 2 9] by simp

text \<open>
  C32: The client computes the bucket and the slot the program computes, for all participant ids
  below 910 million, in either direction of payment.
\<close>

theorem client_channel_address:
  assumes "payer \<noteq> payee" "payer < 910000000" "payee < 910000000"
    and "canonicalize payer payee = Inr (l, h, lane)"
  shows "(\<exists>bucket. bucket_id_for_pair l h = Inr bucket
      \<and> channelBucketIdForPair (uint payer) (uint payee) = uint bucket)
    \<and> (\<exists>slot. slot_index_for_pair l h = Inr slot
      \<and> channelBucketSlotIndexForPair (uint payer) (uint payee) = int slot)"
proof -
  have lh: "l < h" "h < 910000000"
    and min: "nat (min (uint payer) (uint payee)) = unat l"
    and max: "nat (max (uint payer) (uint payee)) = unat h"
    using canonicalize_Inr [OF assms(4)] assms(1-3) by auto
  have "unat l < unat h" "unat h < 910000000"
    using lh by (simp_all add: word_less_nat_alt)
  then have safe: "int (pair_number (unat l) (unat h) div 46) < 2 ^ 53"
    by (rule bucket_id_safe)
  have ne: "uint payer \<noteq> uint payee" by (rule canonicalize_Inr [OF assms(4)])
  have "channelBucketIdForPair (uint payer) (uint payee) =
      js_Number (int (pair_number (unat l) (unat h) div 46))"
    using bucket_id_client [of "uint payer" "uint payee"] ne by (simp add: min max)
  moreover have "uint (word_of_nat (pair_number (unat l) (unat h) div 46) :: u64) =
      int (pair_number (unat l) (unat h) div 46)"
    using unat_bucket_id [OF lh(1)] by (metis uint_nat)
  moreover have "channelBucketSlotIndexForPair (uint payer) (uint payee) =
      int (pair_number (unat l) (unat h) mod 46)"
    using slot_index_client [of "uint payer" "uint payee"] ne by (simp add: min max)
  ultimately show ?thesis
    using safe lh(1) by (simp add: bucket_id_total slot_index_total)
qed

theorem client_channel_address_witness:
  "(\<exists>bucket. bucket_id_for_pair 12 800000000 = Inr bucket
      \<and> channelBucketIdForPair (uint (800000000 :: u32)) (uint (12 :: u32)) = uint bucket)
    \<and> (\<exists>slot. slot_index_for_pair 12 800000000 = Inr slot
      \<and> channelBucketSlotIndexForPair (uint (800000000 :: u32)) (uint (12 :: u32)) = int slot)"
  by (rule client_channel_address [where lane = HigherToLower]) (simp_all add: canonicalize_def)

text \<open>
  Beyond that bound the client is wrong: for the largest participant id its \<open>Number\<close> of the
  bucket id is rounded to another bucket than the program's.
\<close>

theorem client_bucket_id_rounds:
  "channelBucketIdForPair 0 4294967295 = 200508087617659232
    \<and> bucket_id_for_pair 0 4294967295 = Inr 200508087617659236"
proof
  have number: "pair_number 0 4294967295 div 46 = 200508087617659236"
    by (simp add: pair_number_def)
  have "js_Number 200508087617659236 = 200508087617659232"
    by (simp add: js_Number_def bit_length.simps Let_def)
  then show "channelBucketIdForPair 0 4294967295 = 200508087617659232"
    by (simp add: bucket_id_client number)
  show "bucket_id_for_pair 0 4294967295 = Inr 200508087617659236"
    by (simp add: bucket_id_total number)
qed

text \<open>The bucket id of the client is that of the program.\<close>

lemma client_bucket_id:
  assumes "payer < 910000000" "payee < 910000000"
    and "canonicalize payer payee = Inr (l, h, lane)" "bucket_id_for_pair l h = Inr bucket"
  shows "channelBucketIdForPair (uint payer) (uint payee) = uint bucket" "uint bucket < 2 ^ 53"
proof -
  have lh: "l < h" "h < 910000000"
    using canonicalize_Inr [OF assms(3)] assms(1,2) by auto
  then have "unat l < unat h" "unat h < 910000000" by (simp_all add: word_less_nat_alt)
  then have safe: "int (pair_number (unat l) (unat h) div 46) < 2 ^ 53" by (rule bucket_id_safe)
  have bucket: "uint bucket = int (pair_number (unat l) (unat h) div 46)"
    using assms(4) lh(1) unat_bucket_id [OF lh(1)] by (metis bucket_id_total sum.inject(2) uint_nat)
  show "channelBucketIdForPair (uint payer) (uint payee) = uint bucket"
    using bucket_id_client [of "uint payer" "uint payee"] canonicalize_Inr [OF assms(3)] safe
    by (simp add: bucket)
  show "uint bucket < 2 ^ 53" using safe by (simp add: bucket)
qed

text \<open>
  The account the client derives for a channel is derived from the seeds the program verifies
  it with, where \<open>BN.toArrayLike\<close> writes values that fit in little-endian order.
\<close>

theorem client_channel_seeds:
  assumes bn: "\<And>n k. 0 \<le> n \<Longrightarrow> n < 256 ^ k \<Longrightarrow> bn n k = Inr (le_bytes k (nat n))"
    and "payer < 910000000" "payee < 910000000"
    and "canonicalize payer payee = Inr (l, h, lane)" "bucket_id_for_pair l h = Inr bucket"
  shows "findChannelPda bn derive programId (uint payer) (uint payee) (uint token) =
    Inr (derive (channel_bucket_seeds token bucket) programId)"
proof -
  have client: "channelBucketIdForPair (uint payer) (uint payee) = uint bucket" and safe: "uint bucket < 2 ^ 53"
    using client_bucket_id [OF assms(2-5)] by simp_all
  have "uint bucket < 256 ^ 8" "uint token < 256 ^ 2"
    using uint_lt2p [of bucket] uint_lt2p [of token] by simp_all
  then have "bn (uint bucket) 8 = Inr (le_bytes 8 (unat bucket))"
    and "bn (uint token) 2 = Inr (le_bytes 2 (unat token))"
    by (simp_all add: bn)
  then show ?thesis
    using safe by (simp add: findChannelPda_def client u64Le_def js_number_decimal_exact channel_bucket_seeds_def)
qed

theorem client_channel_seeds_witness:
  "findChannelPda (\<lambda>n k. Inr (le_bytes k (nat n))) (\<lambda>seeds pid. concat seeds) []
      (uint (9 :: u32)) (uint (4 :: u32)) (uint (1 :: u16)) =
    Inr (concat (channel_bucket_seeds 1 0))"
  by (rule client_channel_seeds [where l = 4 and h = 9 and lane = HigherToLower
        and derive = "\<lambda>seeds pid. concat seeds"])
    (simp_all add: canonicalize_def bucket_id_total pair_number_def)

end
