(* ===== verification/ChannelBucket.thy ===== *)
theory ChannelBucket
  imports BucketAddress
begin

text \<open>
  The account data of a channel bucket on the program's side
  (\<open>ChannelBucket\<close> in \<open>programs/ryvo-protocol/src/state/bucket_state.rs\<close>): the header, the
  46 slots of a pair each, and in a slot the two directional lanes. Every operation works on the
  raw bytes, as the code does; a failing operation aborts the transaction, so only successful
  ones return new bytes.

  An operation changes the bytes of one lane only (\<open>agree_outside\<close>), and what it does to the
  lane is stated on the record \<open>lane\<close> that \<open>lane_at\<close> reads. The invariant \<open>lane_ok\<close> bounds the
  pending unlock of a lane by its locked balance.
\<close>

section \<open>Layout\<close>

definition channel_discriminator :: bytes where
  "channel_discriminator = [171, 219, 130, 228, 148, 242, 103, 148]"

definition channel_space :: nat where
  "channel_space = 10093"

text \<open>\<open>8 + 2 + 8 + 1 + 46 * (1 + 4 + 4 + 105 + 105)\<close> bytes.\<close>

lemma channel_space_eq [layout_simps]: "channel_space = 19 + 46 * 219"
  by (simp add: channel_space_def)

definition require_valid_discriminator :: "bytes \<Rightarrow> vault_error \<Rightarrow> 'a vres \<Rightarrow> 'a vres" where
  "require_valid_discriminator data e k =
     requireR (\<not> (length data < length channel_discriminator \<or>
       take (length channel_discriminator) data \<noteq> channel_discriminator)) e k"

definition lane_offset :: "lane_selector \<Rightarrow> nat" where
  "lane_offset selector = (case selector of LowerToHigher \<Rightarrow> 9 | HigherToLower \<Rightarrow> 114)"

definition read_token_bucket_and_bump :: "bytes \<Rightarrow> (u16 \<times> u64 \<times> byte) vres" where
  "read_token_bucket_and_bump data =
     require_valid_discriminator data BucketAccountMismatch (
     requireR (length data \<ge> channel_space) BucketAccountMismatch (
     bindR (read_u16_at data 8 BucketAccountMismatch) (\<lambda>token_id.
     bindR (read_u64_at data 10 BucketAccountMismatch) (\<lambda>bucket_id.
     bindR (read_u8_at data 18 BucketAccountMismatch) (\<lambda>bump.
     Inr (token_id, bucket_id, bump))))))"

definition slot_offset_for_pair :: "bytes \<Rightarrow> u32 \<Rightarrow> u32 \<Rightarrow> nat vres" where
  "slot_offset_for_pair data lower higher =
     bindR (read_token_bucket_and_bump data) (\<lambda>(_, bucket_id, _).
     bindR (bucket_id_for_pair lower higher) (\<lambda>expected.
     requireR (bucket_id = expected) BucketAccountMismatch (
     requireR (length data \<ge> channel_space) BucketAccountMismatch (
     bindR (slot_index_for_pair lower higher) (\<lambda>slot_index.
     let slot_offset = 19 + slot_index * 219 in
     requireR (length data \<ge> slot_offset + 219) BucketAccountMismatch (
     bindR (read_bool_at data slot_offset ChannelNotInitialized) (\<lambda>initialized.
     requireR initialized ChannelNotInitialized (
     bindR (read_u32_at data (slot_offset + 1) BucketSlotMismatch) (\<lambda>l.
     bindR (if l = lower
            then bindR (read_u32_at data (slot_offset + 5) BucketSlotMismatch) (\<lambda>h. Inr (h = higher))
            else Inr False) (\<lambda>same.
     requireR same BucketSlotMismatch (Inr slot_offset)))))))))))"

section \<open>Reading lanes\<close>

record lane =
  initialized :: bool
  settled_cumulative :: u64
  locked_balance :: u64
  authorized_signer :: pubkey
  pending_unlock_amount :: u64
  unlock_requested_at :: u64
  pending_authorized_signer :: pubkey
  signer_update_requested_at :: u64

definition read_resolved_lane_core_from_data :: "bytes \<Rightarrow> u32 \<Rightarrow> u32 \<Rightarrow> lane vres" where
  "read_resolved_lane_core_from_data data payer payee =
     bindR (canonicalize payer payee) (\<lambda>(lower, higher, selector).
     bindR (slot_offset_for_pair data lower higher) (\<lambda>slot_offset.
     let off = slot_offset + lane_offset selector in
     bindR (read_bool_at data off ChannelNotInitialized) (\<lambda>init.
     bindR (read_u64_at data (off + 1) ChannelNotInitialized) (\<lambda>settled.
     bindR (read_u64_at data (off + 9) ChannelNotInitialized) (\<lambda>locked.
     bindR (read_pubkey_at data (off + 17) ChannelNotInitialized) (\<lambda>signer.
     bindR (read_u64_at data (off + 49) ChannelNotInitialized) (\<lambda>pending.
     bindR (read_i64_at data (off + 57) ChannelNotInitialized) (\<lambda>unlock_at.
     bindR (read_pubkey_at data (off + 65) ChannelNotInitialized) (\<lambda>next_signer.
     bindR (read_i64_at data (off + 97) ChannelNotInitialized) (\<lambda>update_at.
     Inr \<lparr>initialized = init, settled_cumulative = settled, locked_balance = locked,
          authorized_signer = signer, pending_unlock_amount = pending,
          unlock_requested_at = unlock_at, pending_authorized_signer = next_signer,
          signer_update_requested_at = update_at\<rparr>))))))))))"

text \<open>A settlement snapshot: the lane's offset, its settled cumulative amount and locked balance.\<close>

definition read_lane_settlement_for_selector_from_data ::
  "bytes \<Rightarrow> u32 \<Rightarrow> u32 \<Rightarrow> lane_selector \<Rightarrow> (nat \<times> u64 \<times> u64) vres" where
  "read_lane_settlement_for_selector_from_data data lower higher selector =
     bindR (slot_offset_for_pair data lower higher) (\<lambda>slot_offset.
     let off = slot_offset + lane_offset selector in
     bindR (read_bool_at data off ChannelNotInitialized) (\<lambda>init.
     requireR init ChannelNotInitialized (
     bindR (read_u64_at data (off + 1) ChannelNotInitialized) (\<lambda>settled.
     bindR (read_u64_at data (off + 9) ChannelNotInitialized) (\<lambda>locked.
     Inr (off, settled, locked))))))"

definition read_resolved_lane_settlement_from_data :: "bytes \<Rightarrow> u32 \<Rightarrow> u32 \<Rightarrow> (nat \<times> u64 \<times> u64) vres" where
  "read_resolved_lane_settlement_from_data data payer payee =
     bindR (canonicalize payer payee) (\<lambda>(lower, higher, selector).
     read_lane_settlement_for_selector_from_data data lower higher selector)"

section \<open>Changing lanes\<close>

definition cap_pending_unlock_at_lane_offset_in_data :: "bytes \<Rightarrow> nat \<Rightarrow> u64 \<Rightarrow> bytes vres" where
  "cap_pending_unlock_at_lane_offset_in_data data off max_pending =
     bindR (read_u64_at data (off + 49) MathOverflow) (\<lambda>pending.
     if pending = 0 then write_i64_at data (off + 57) 0 MathOverflow
     else if pending \<le> max_pending then Inr data
     else bindR (write_u64_at data (off + 49) max_pending MathOverflow) (\<lambda>data1.
       if max_pending = 0 then write_i64_at data1 (off + 57) 0 MathOverflow else Inr data1))"

definition apply_lane_settlement_at_offset_in_data :: "bytes \<Rightarrow> nat \<Rightarrow> u64 \<Rightarrow> u64 \<Rightarrow> bytes vres" where
  "apply_lane_settlement_at_offset_in_data data off target_cumulative locked_consumed =
     requireR (length data \<ge> off + 9 + 8) BucketAccountMismatch (
     bindR (read_bool_at data off ChannelNotInitialized) (\<lambda>init.
     requireR init ChannelNotInitialized (
     bindR (read_u64_at data (off + 9) MathOverflow) (\<lambda>locked.
     bindR (checked_sub64 MathOverflow locked locked_consumed) (\<lambda>next.
     bindR (write_u64_at data (off + 9) next MathOverflow) (\<lambda>data1.
     bindR (cap_pending_unlock_at_lane_offset_in_data data1 off next) (\<lambda>data2.
     write_u64_at data2 (off + 1) target_cumulative MathOverflow)))))))"

definition apply_lane_settlement_for_selector_in_data ::
  "bytes \<Rightarrow> u32 \<Rightarrow> u32 \<Rightarrow> lane_selector \<Rightarrow> u64 \<Rightarrow> u64 \<Rightarrow> bytes vres" where
  "apply_lane_settlement_for_selector_in_data data lower higher selector target consumed =
     bindR (slot_offset_for_pair data lower higher) (\<lambda>slot_offset.
     apply_lane_settlement_at_offset_in_data data (slot_offset + lane_offset selector) target consumed)"

definition apply_lane_settlement_in_data :: "bytes \<Rightarrow> u32 \<Rightarrow> u32 \<Rightarrow> u64 \<Rightarrow> u64 \<Rightarrow> bytes vres" where
  "apply_lane_settlement_in_data data payer payee target consumed =
     bindR (canonicalize payer payee) (\<lambda>(lower, higher, selector).
     apply_lane_settlement_for_selector_in_data data lower higher selector target consumed)"

definition initialize_account_data :: "bytes \<Rightarrow> u16 \<Rightarrow> u64 \<Rightarrow> byte \<Rightarrow> bytes vres" where
  "initialize_account_data data token_id bucket_id bump =
     requireR (length data \<ge> channel_space) BucketAccountMismatch (
     let data0 = splice 0 channel_discriminator (splice 0 (replicate channel_space 0) data) in
     bindR (write_u16_at data0 8 token_id BucketAccountMismatch) (\<lambda>data1.
     bindR (write_u64_at data1 10 bucket_id BucketAccountMismatch) (\<lambda>data2.
     write_u8_at data2 18 bump BucketAccountMismatch)))"

text \<open>The slot of \<open>initialize_lane_in_data\<close>: claimed for the pair, or already the pair's.\<close>

definition claim_slot_in_data :: "bytes \<Rightarrow> nat \<Rightarrow> u32 \<Rightarrow> u32 \<Rightarrow> bytes vres" where
  "claim_slot_in_data data slot_offset lower higher =
     bindR (read_bool_at data slot_offset BucketAccountMismatch) (\<lambda>slot_initialized.
     if slot_initialized then
       bindR (read_u32_at data (slot_offset + 1) BucketSlotMismatch) (\<lambda>l.
       bindR (if l = lower
              then bindR (read_u32_at data (slot_offset + 5) BucketSlotMismatch) (\<lambda>h. Inr (h = higher))
              else Inr False) (\<lambda>same.
       requireR same BucketSlotMismatch (Inr data)))
     else
       let data0 = splice slot_offset (replicate 219 0) data in
       bindR (write_bool_at data0 slot_offset True BucketAccountMismatch) (\<lambda>data1.
       bindR (write_u32_at data1 (slot_offset + 1) lower BucketSlotMismatch) (\<lambda>data2.
       write_u32_at data2 (slot_offset + 5) higher BucketSlotMismatch)))"

definition initialize_lane_in_data ::
  "bytes \<Rightarrow> u16 \<Rightarrow> u32 \<Rightarrow> u32 \<Rightarrow> lane_selector \<Rightarrow> pubkey \<Rightarrow> bytes vres" where
  "initialize_lane_in_data data token_id lower higher selector signer =
     bindR (read_token_bucket_and_bump data) (\<lambda>(actual_token_id, bucket_id, _).
     requireR (actual_token_id = token_id) InvalidTokenMint (
     bindR (bucket_id_for_pair lower higher) (\<lambda>expected.
     requireR (bucket_id = expected) BucketAccountMismatch (
     requireR (length data \<ge> channel_space) BucketAccountMismatch (
     bindR (slot_index_for_pair lower higher) (\<lambda>slot_index.
     let slot_offset = 19 + slot_index * 219 in
     requireR (length data \<ge> slot_offset + 219) BucketAccountMismatch (
     bindR (claim_slot_in_data data slot_offset lower higher) (\<lambda>data1.
     let off = slot_offset + lane_offset selector in
     bindR (read_bool_at data1 off ChannelAlreadyExists) (\<lambda>exists.
     requireR (\<not> exists) ChannelAlreadyExists (
     bindR (write_bool_at (splice off (replicate 105 0) data1) off True ChannelAlreadyExists) (\<lambda>data2.
     write_pubkey_at data2 (off + 17) signer BucketAccountMismatch)))))))))))"

text \<open>
  The common start of the operations on an existing lane: canonicalize, find the slot, require the
  lane to be initialized.
\<close>

definition resolve_lane :: "bytes \<Rightarrow> u32 \<Rightarrow> u32 \<Rightarrow> nat vres" where
  "resolve_lane data payer payee =
     bindR (canonicalize payer payee) (\<lambda>(lower, higher, selector).
     bindR (slot_offset_for_pair data lower higher) (\<lambda>slot_offset.
     let off = slot_offset + lane_offset selector in
     bindR (read_bool_at data off ChannelNotInitialized) (\<lambda>init.
     requireR init ChannelNotInitialized (Inr off))))"

definition add_lane_locked_balance_in_data :: "bytes \<Rightarrow> u32 \<Rightarrow> u32 \<Rightarrow> u64 \<Rightarrow> (bytes \<times> u64) vres" where
  "add_lane_locked_balance_in_data data payer payee amount =
     bindR (resolve_lane data payer payee) (\<lambda>off.
     bindR (read_u64_at data (off + 9) MathOverflow) (\<lambda>locked.
     bindR (checked_add64 MathOverflow locked amount) (\<lambda>next.
     bindR (write_u64_at data (off + 9) next MathOverflow) (\<lambda>data1.
     Inr (data1, next)))))"

definition request_lane_unlock_in_data :: "bytes \<Rightarrow> u32 \<Rightarrow> u32 \<Rightarrow> u64 \<Rightarrow> u64 \<Rightarrow> bytes vres" where
  "request_lane_unlock_in_data data payer payee amount requested_at =
     bindR (resolve_lane data payer payee) (\<lambda>off.
     bindR (read_u64_at data (off + 9) InsufficientLockedBalance) (\<lambda>locked.
     requireR (amount \<le> locked) InsufficientLockedBalance (
     bindR (write_u64_at data (off + 49) amount MathOverflow) (\<lambda>data1.
     write_i64_at data1 (off + 57) requested_at MathOverflow))))"

definition execute_lane_unlock_in_data :: "bytes \<Rightarrow> u32 \<Rightarrow> u32 \<Rightarrow> (bytes \<times> u64 \<times> u64) vres" where
  "execute_lane_unlock_in_data data payer payee =
     bindR (resolve_lane data payer payee) (\<lambda>off.
     bindR (read_u64_at data (off + 49) NoChannelUnlockPending) (\<lambda>pending.
     bindR (read_i64_at data (off + 57) NoChannelUnlockPending) (\<lambda>requested_at.
     requireR (pending > 0 \<and> requested_at \<noteq> 0) NoChannelUnlockPending (
     bindR (read_u64_at data (off + 9) MathOverflow) (\<lambda>locked.
     let released = min pending locked in
     bindR (checked_sub64 MathOverflow locked released) (\<lambda>remaining.
     bindR (write_u64_at data (off + 9) remaining MathOverflow) (\<lambda>data1.
     bindR (write_u64_at data1 (off + 49) 0 MathOverflow) (\<lambda>data2.
     bindR (write_i64_at data2 (off + 57) 0 MathOverflow) (\<lambda>data3.
     Inr (data3, released, remaining))))))))))"

definition cooperative_unlock_lane_in_data :: "bytes \<Rightarrow> u32 \<Rightarrow> u32 \<Rightarrow> u64 \<Rightarrow> (bytes \<times> u64 \<times> u64) vres" where
  "cooperative_unlock_lane_in_data data payer payee amount =
     bindR (resolve_lane data payer payee) (\<lambda>off.
     bindR (read_u64_at data (off + 9) InsufficientLockedBalance) (\<lambda>locked.
     requireR (amount \<le> locked) InsufficientLockedBalance (
     bindR (checked_sub64 MathOverflow locked amount) (\<lambda>remaining.
     bindR (write_u64_at data (off + 9) remaining MathOverflow) (\<lambda>data1.
     bindR (cap_pending_unlock_at_lane_offset_in_data data1 off remaining) (\<lambda>data2.
     Inr (data2, amount, remaining)))))))"

definition default_pubkey :: pubkey where
  "default_pubkey = replicate 32 0"

definition request_authorized_signer_update_in_data ::
  "bytes \<Rightarrow> u32 \<Rightarrow> u32 \<Rightarrow> pubkey \<Rightarrow> u64 \<Rightarrow> (bytes \<times> pubkey) vres" where
  "request_authorized_signer_update_in_data data payer payee new_signer requested_at =
     bindR (resolve_lane data payer payee) (\<lambda>off.
     bindR (read_pubkey_at data (off + 17) ChannelNotInitialized) (\<lambda>current.
     requireR (new_signer \<noteq> default_pubkey \<and> new_signer \<noteq> current) InvalidAuthorizedSigner (
     bindR (write_pubkey_at data (off + 65) new_signer InvalidAuthorizedSigner) (\<lambda>data1.
     bindR (write_i64_at data1 (off + 97) requested_at MathOverflow) (\<lambda>data2.
     Inr (data2, current))))))"

definition execute_authorized_signer_update_in_data ::
  "bytes \<Rightarrow> u32 \<Rightarrow> u32 \<Rightarrow> (bytes \<times> pubkey \<times> pubkey) vres" where
  "execute_authorized_signer_update_in_data data payer payee =
     bindR (resolve_lane data payer payee) (\<lambda>off.
     bindR (read_pubkey_at data (off + 17) ChannelNotInitialized) (\<lambda>previous.
     bindR (read_pubkey_at data (off + 65) NoAuthorizedSignerUpdatePending) (\<lambda>new_signer.
     bindR (read_i64_at data (off + 97) NoAuthorizedSignerUpdatePending) (\<lambda>requested_at.
     requireR (new_signer \<noteq> default_pubkey \<and> requested_at \<noteq> 0) NoAuthorizedSignerUpdatePending (
     bindR (write_pubkey_at data (off + 17) new_signer InvalidAuthorizedSigner) (\<lambda>data1.
     bindR (write_pubkey_at data1 (off + 65) default_pubkey InvalidAuthorizedSigner) (\<lambda>data2.
     bindR (write_i64_at data2 (off + 97) 0 MathOverflow) (\<lambda>data3.
     Inr (data3, previous, new_signer)))))))))"

section \<open>Where lanes are\<close>

definition lane_at :: "bytes \<Rightarrow> nat \<Rightarrow> lane" where
  "lane_at data off =
     \<lparr>initialized = data ! off \<noteq> 0, settled_cumulative = field_u64 data (off + 1),
      locked_balance = field_u64 data (off + 9), authorized_signer = subarray (off + 17) 32 data,
      pending_unlock_amount = field_u64 data (off + 49),
      unlock_requested_at = field_u64 data (off + 57),
      pending_authorized_signer = subarray (off + 65) 32 data,
      signer_update_requested_at = field_u64 data (off + 97)\<rparr>"

definition slot_position :: "u32 \<Rightarrow> u32 \<Rightarrow> nat" where
  "slot_position l h = 19 + pair_number (unat l) (unat h) mod 46 * 219"

definition channel_header :: "bytes \<Rightarrow> bool" where
  "channel_header data \<longleftrightarrow> channel_space \<le> length data \<and> take 8 data = channel_discriminator"

text \<open>The data is the bucket of the pair \<open>l, h\<close>, and the pair's slot is in use.\<close>

definition holds_pair :: "bytes \<Rightarrow> u32 \<Rightarrow> u32 \<Rightarrow> bool" where
  "holds_pair data l h \<longleftrightarrow> l < h \<and> channel_header data \<and>
     unat (field_u64 data 10) = pair_number (unat l) (unat h) div 46 \<and>
     data ! slot_position l h \<noteq> 0 \<and> field_u32 data (slot_position l h + 1) = l \<and>
     field_u32 data (slot_position l h + 5) = h"

lemma length_channel_discriminator [simp]: "length channel_discriminator = 8"
  by (simp add: channel_discriminator_def)

lemma slot_position_bound: "slot_position l h + 219 \<le> channel_space"
  using channel_table.slot_inside [of "(unat l, unat h)"]
  by (simp add: slot_position_def layout_simps)

lemma lane_offset_bounds: "9 \<le> lane_offset s" "lane_offset s + 105 \<le> 219"
  by (cases s; simp add: lane_offset_def)+

lemma header_read:
  "read_token_bucket_and_bump data =
    (if channel_header data then Inr (field_u16 data 8, field_u64 data 10, data ! 18)
     else Inl BucketAccountMismatch)"
  by (auto simp: read_token_bucket_and_bump_def require_valid_discriminator_def channel_header_def
      read_ok layout_simps requireR_def)

lemma slot_offset_iff:
  "slot_offset_for_pair data l h = Inr off \<longleftrightarrow> holds_pair data l h \<and> off = slot_position l h"
proof (cases "l < h \<and> channel_header data")
  case True
  then have len: "slot_position l h + 219 \<le> length data"
    using slot_position_bound [of l h] by (simp add: channel_header_def)
  have expected: "field_u64 data 10 = word_of_nat (pair_number (unat l) (unat h) div 46) \<longleftrightarrow>
      unat (field_u64 data 10) = pair_number (unat l) (unat h) div 46"
    using True by (auto simp: unat_bucket_id word_unat_eq_iff)
  have "slot_offset_for_pair data l h =
      requireR (unat (field_u64 data 10) = pair_number (unat l) (unat h) div 46) BucketAccountMismatch
        (let off = slot_position l h in
         requireR (data ! off \<noteq> 0) ChannelNotInitialized (
         requireR (field_u32 data (off + 1) = l \<and> field_u32 data (off + 5) = h) BucketSlotMismatch
           (Inr off)))"
    using True len unfolding slot_offset_for_pair_def header_read bucket_id_total [OF conjunct1 [OF True]]
      slot_index_total [OF conjunct1 [OF True]] Let_def result_simps slot_position_def [symmetric]
    by (simp add: expected read_ok channel_header_def requireR_def)
  then show ?thesis
    using True by (auto simp: requireR_eq_Inr holds_pair_def Let_def)
next
  case False
  then show ?thesis
    by (auto simp: slot_offset_for_pair_def header_read holds_pair_def result_iffs
        bucket_id_for_pair_def pair_ordinal_def)
qed

text \<open>The lane of a payment direction, as an offset.\<close>

definition lane_position :: "u32 \<Rightarrow> u32 \<Rightarrow> nat" where
  "lane_position payer payee =
     (if payer < payee then slot_position payer payee + 9 else slot_position payee payer + 114)"

definition holds_lane :: "bytes \<Rightarrow> u32 \<Rightarrow> u32 \<Rightarrow> bool" where
  "holds_lane data payer payee \<longleftrightarrow> payer \<noteq> payee \<and>
     (if payer < payee then holds_pair data payer payee else holds_pair data payee payer)"

lemma canonicalize_slot_iff:
  "(\<exists>l h s. canonicalize payer payee = Inr (l, h, s) \<and> slot_offset_for_pair data l h = Inr off
      \<and> off + lane_offset s = pos) \<longleftrightarrow>
    holds_lane data payer payee \<and> pos = lane_position payer payee \<and>
    off = slot_position (min payer payee) (max payer payee)"
  by (cases payer payee rule: linorder_cases)
    (auto simp: slot_offset_iff holds_lane_def lane_position_def lane_offset_def min_def max_def)

lemma lane_position_bound: "lane_position payer payee + 105 \<le> channel_space"
  using slot_position_bound [of payer payee] slot_position_bound [of payee payer]
  by (simp add: lane_position_def)

lemma holds_lane_length: "holds_lane data payer payee \<Longrightarrow> lane_position payer payee + 105 \<le> length data"
  using lane_position_bound [of payer payee]
  by (auto simp: holds_lane_def holds_pair_def channel_header_def split: if_splits)

lemma resolve_lane_iff:
  "resolve_lane data payer payee = Inr off \<longleftrightarrow>
    holds_lane data payer payee \<and> off = lane_position payer payee \<and> data ! off \<noteq> 0"
proof -
  have "resolve_lane data payer payee = Inr off \<longleftrightarrow>
      (\<exists>l h s slot. canonicalize payer payee = Inr (l, h, s) \<and> slot_offset_for_pair data l h = Inr slot
        \<and> slot + lane_offset s = off) \<and> off < length data \<and> data ! off \<noteq> 0"
    by (auto simp: resolve_lane_def result_iffs Let_def read_bool_at_def split_beta)
  moreover have "(\<exists>l h s slot. canonicalize payer payee = Inr (l, h, s)
        \<and> slot_offset_for_pair data l h = Inr slot \<and> slot + lane_offset s = off) \<longleftrightarrow>
      holds_lane data payer payee \<and> off = lane_position payer payee"
    using canonicalize_slot_iff [of payer payee data _ off] by blast
  moreover have "holds_lane data payer payee \<Longrightarrow> lane_position payer payee < length data"
    using holds_lane_length [of data payer payee] by simp
  ultimately show ?thesis by blast
qed

text \<open>Different directions of payment in one bucket are different, disjoint lanes.\<close>

lemma slots_apart:
  assumes "holds_pair data l h" "holds_pair data l' h'" "(l, h) \<noteq> (l', h')"
  shows "slot_position l h + 219 \<le> slot_position l' h' \<or> slot_position l' h' + 219 \<le> slot_position l h"
  using channel_table.slots_disjoint [of "(unat l, unat h)" "(unat l', unat h')"] assms
  by (auto simp: holds_pair_def slot_position_def word_less_nat_alt word_unat_eq_iff)

lemma lanes_apart:
  assumes "holds_lane data p q" "holds_lane data a b" "(p, q) \<noteq> (a, b)"
  shows "lane_position p q + 105 \<le> lane_position a b \<or> lane_position a b + 105 \<le> lane_position p q"
proof (cases "(min p q, max p q) = (min a b, max a b)")
  case True
  then have "a = q \<and> b = p" using assms(3) by (auto simp: min_def max_def split: if_splits)
  then show ?thesis using assms(1) by (auto simp: lane_position_def holds_lane_def)
next
  case False
  have "holds_pair data (min p q) (max p q)" "holds_pair data (min a b) (max a b)"
    using assms(1,2) by (auto simp: holds_lane_def min_def max_def split: if_splits)
  from slots_apart [OF this False] show ?thesis
    by (auto simp: lane_position_def min_def max_def split: if_splits)
qed

lemma lane_position_header: "28 \<le> lane_position p q"
  by (simp add: lane_position_def slot_position_def)

text \<open>A change inside one lane moves no lane and no header.\<close>

lemma agree_header:
  assumes "agree_outside (lane_position p q) 105 data data'"
  shows "channel_header data' = channel_header data" "field_u64 data' 10 = field_u64 data 10"
    "field_u16 data' 8 = field_u16 data 8"
proof -
  have "subarray 0 8 data' = subarray 0 8 data"
    using agree_outside_subarray [OF assms, of 0 8] lane_position_header [of p q] by simp
  then show "channel_header data' = channel_header data"
    using agree_outside_length [OF assms] by (simp add: channel_header_def subarray_def)
  show "field_u64 data' 10 = field_u64 data 10" "field_u16 data' 8 = field_u16 data 8"
    using agree_outside_fields(1) [OF assms, of 10 8] agree_outside_fields(3) [OF assms, of 8 2]
      lane_position_header [of p q] by simp_all
qed

lemma lane_outside_slot_head:
  assumes "holds_lane data p q" "l < h" "pair_number (unat l) (unat h) div 46 = unat (field_u64 data 10)"
  shows "lane_position p q + 105 \<le> slot_position l h \<or> slot_position l h + 9 \<le> lane_position p q"
proof -
  let ?p = "min p q" and ?q = "max p q"
  have pair: "holds_pair data ?p ?q"
    using assms(1) by (auto simp: holds_lane_def min_def max_def split: if_splits)
  have inside: "slot_position ?p ?q + 9 \<le> lane_position p q"
    "lane_position p q + 105 \<le> slot_position ?p ?q + 219"
    by (auto simp: lane_position_def min_def max_def)
  show ?thesis
  proof (cases "(l, h) = (?p, ?q)")
    case False
    then have "(unat l, unat h) \<noteq> (unat ?p, unat ?q)" by (simp add: word_unat_eq_iff)
    with channel_table.slots_disjoint [of "(unat l, unat h)" "(unat ?p, unat ?q)"] pair assms(2,3)
    have "slot_position l h + 219 \<le> slot_position ?p ?q \<or> slot_position ?p ?q + 219 \<le> slot_position l h"
      by (simp add: holds_pair_def slot_position_def word_less_nat_alt)
    with inside show ?thesis by linarith
  qed (use inside in simp)
qed

lemma agree_holds_pair:
  assumes "holds_lane data p q" "agree_outside (lane_position p q) 105 data data'"
  shows "holds_pair data' l h = holds_pair data l h"
proof (cases "l < h \<and> channel_header data \<and> pair_number (unat l) (unat h) div 46 = unat (field_u64 data 10)")
  case True
  have apart: "lane_position p q + 105 \<le> slot_position l h \<or> slot_position l h + 9 \<le> lane_position p q"
    using lane_outside_slot_head [OF assms(1)] True by blast
  have "slot_position l h < length data"
    using True slot_position_bound [of l h] by (simp add: channel_header_def)
  then have "data' ! slot_position l h = data ! slot_position l h"
    using agree_outside_nth [OF assms(2), of "slot_position l h"] apart by auto
  moreover have "field_u32 data' (slot_position l h + 1) = field_u32 data (slot_position l h + 1)"
    "field_u32 data' (slot_position l h + 5) = field_u32 data (slot_position l h + 5)"
    using agree_outside_fields(2) [OF assms(2), of "slot_position l h + 1" 4]
      agree_outside_fields(2) [OF assms(2), of "slot_position l h + 5" 4] apart by auto
  ultimately show ?thesis by (simp add: holds_pair_def agree_header [OF assms(2)])
next
  case False
  then show ?thesis by (auto simp: holds_pair_def agree_header [OF assms(2)])
qed

lemma agree_holds_lane:
  "holds_lane data p q \<Longrightarrow> agree_outside (lane_position p q) 105 data data' \<Longrightarrow>
    holds_lane data' a b = holds_lane data a b"
  using agree_holds_pair [of data p q data' a b] agree_holds_pair [of data p q data' b a]
  unfolding holds_lane_def [of data' a b] holds_lane_def [of data a b] by presburger

lemma agree_lane_at:
  assumes "agree_outside off 105 data data'" "k + 105 \<le> off \<or> off + 105 \<le> k" "k + 105 \<le> length data"
  shows "lane_at data' k = lane_at data k"
proof -
  have "field_u64 data' (k + i) = field_u64 data (k + i)" if "i + 8 \<le> 105" for i
    using agree_outside_fields(1) [OF assms(1), of "k + i" 8] assms(2) that by auto
  moreover have "subarray (k + i) 32 data' = subarray (k + i) 32 data" if "i + 32 \<le> 105" for i
    using agree_outside_subarray [OF assms(1), of "k + i" 32] assms(2) that by auto
  moreover have "data' ! k = data ! k"
    using agree_outside_nth [OF assms(1), of k] assms(2,3) by auto
  ultimately show ?thesis by (simp add: lane_at_def del: One_nat_def)
qed

section \<open>A bucket as a map of lanes\<close>

text \<open>The abstract state of a bucket: the open lane of each direction of payment.\<close>

definition lanes :: "bytes \<Rightarrow> u32 \<times> u32 \<rightharpoonup> lane" where
  "lanes data = (\<lambda>(payer, payee). case resolve_lane data payer payee of
     Inl _ \<Rightarrow> None | Inr off \<Rightarrow> Some (lane_at data off))"

lemma lanes_iff:
  "lanes data (p, q) = Some ln \<longleftrightarrow>
    holds_lane data p q \<and> ln = lane_at data (lane_position p q) \<and> initialized ln"
proof (cases "resolve_lane data p q")
  case (Inl e)
  then have "\<not> (holds_lane data p q \<and> data ! lane_position p q \<noteq> 0)"
    using resolve_lane_iff [of data p q "lane_position p q"] by auto
  with Inl show ?thesis by (auto simp: lanes_def lane_at_def)
next
  case (Inr off)
  then show ?thesis
    using resolve_lane_iff [of data p q off] by (auto simp: lanes_def lane_at_def)
qed

lemma lanes_resolve:
  "resolve_lane data p q = Inr off \<Longrightarrow> lanes data (p, q) = Some (lane_at data off)"
  by (simp add: lanes_def)

lemma lanes_write:
  assumes "holds_lane data p q" "agree_outside (lane_position p q) 105 data data'"
    and "initialized (lane_at data' (lane_position p q))"
  shows "lanes data' = (lanes data)((p, q) \<mapsto> lane_at data' (lane_position p q))"
proof
  fix k :: "u32 \<times> u32"
  obtain a b where k: "k = (a, b)" by force
  note same = agree_holds_lane [OF assms(1,2)]
  show "lanes data' k = ((lanes data)((p, q) \<mapsto> lane_at data' (lane_position p q))) k"
  proof (cases "(a, b) = (p, q)")
    case True
    then show ?thesis
      using assms(1,3) same by (simp add: k lanes_iff)
  next
    case False
    have "lanes data' (a, b) = Some ln \<longleftrightarrow> lanes data (a, b) = Some ln" for ln
    proof (cases "holds_lane data a b")
      case True
      have "lane_at data' (lane_position a b) = lane_at data (lane_position a b)"
        using lanes_apart [OF assms(1) True] False holds_lane_length [OF True]
        by (intro agree_lane_at [OF assms(2)]) auto
      then show ?thesis by (simp add: lanes_iff same)
    qed (simp add: lanes_iff same)
    then have "lanes data' (a, b) = lanes data (a, b)" by (metis option.exhaust)
    with False show ?thesis by (auto simp: k)
  qed
qed

lemma lanes_update:
  assumes "resolve_lane data p q = Inr off" "agree_outside off 105 data data'"
    and "initialized (lane_at data' off)"
  shows "lanes data' = (lanes data)((p, q) \<mapsto> lane_at data' off)"
  using assms lanes_write [of data p q data'] by (simp add: resolve_lane_iff)

section \<open>What each operation does to a lane\<close>

definition cap_pending :: "lane \<Rightarrow> lane" where
  "cap_pending ln =
     (if pending_unlock_amount ln = 0 then ln\<lparr>unlock_requested_at := 0\<rparr>
      else if pending_unlock_amount ln \<le> locked_balance ln then ln
      else ln\<lparr>pending_unlock_amount := locked_balance ln,
              unlock_requested_at := if locked_balance ln = 0 then 0 else unlock_requested_at ln\<rparr>)"

definition settle_lane :: "u64 \<Rightarrow> u64 \<Rightarrow> lane \<Rightarrow> (lane \<times> unit) vres" where
  "settle_lane target consumed ln =
     (if consumed \<le> locked_balance ln
      then Inr (cap_pending (ln\<lparr>locked_balance := locked_balance ln - consumed, settled_cumulative := target\<rparr>), ())
      else Inl MathOverflow)"

definition lock_lane :: "u64 \<Rightarrow> lane \<Rightarrow> (lane \<times> u64) vres" where
  "lock_lane amount ln =
     (if unat (locked_balance ln) + unat amount < 2 ^ 64
      then Inr (ln\<lparr>locked_balance := locked_balance ln + amount\<rparr>, locked_balance ln + amount)
      else Inl MathOverflow)"

definition request_unlock :: "u64 \<Rightarrow> u64 \<Rightarrow> lane \<Rightarrow> (lane \<times> unit) vres" where
  "request_unlock amount requested_at ln =
     (if amount \<le> locked_balance ln
      then Inr (ln\<lparr>pending_unlock_amount := amount, unlock_requested_at := requested_at\<rparr>, ())
      else Inl InsufficientLockedBalance)"

definition execute_unlock :: "lane \<Rightarrow> (lane \<times> u64 \<times> u64) vres" where
  "execute_unlock ln =
     (if pending_unlock_amount ln > 0 \<and> unlock_requested_at ln \<noteq> 0
      then let released = min (pending_unlock_amount ln) (locked_balance ln) in
        Inr (ln\<lparr>locked_balance := locked_balance ln - released, pending_unlock_amount := 0,
                unlock_requested_at := 0\<rparr>, released, locked_balance ln - released)
      else Inl NoChannelUnlockPending)"

definition cooperative_unlock :: "u64 \<Rightarrow> lane \<Rightarrow> (lane \<times> u64 \<times> u64) vres" where
  "cooperative_unlock amount ln =
     (if amount \<le> locked_balance ln
      then Inr (cap_pending (ln\<lparr>locked_balance := locked_balance ln - amount\<rparr>), amount,
             locked_balance ln - amount)
      else Inl InsufficientLockedBalance)"

definition request_signer :: "pubkey \<Rightarrow> u64 \<Rightarrow> lane \<Rightarrow> (lane \<times> pubkey) vres" where
  "request_signer new_signer requested_at ln =
     (if new_signer \<noteq> default_pubkey \<and> new_signer \<noteq> authorized_signer ln
      then Inr (ln\<lparr>pending_authorized_signer := new_signer, signer_update_requested_at := requested_at\<rparr>,
             authorized_signer ln)
      else Inl InvalidAuthorizedSigner)"

definition execute_signer :: "lane \<Rightarrow> (lane \<times> pubkey \<times> pubkey) vres" where
  "execute_signer ln =
     (if pending_authorized_signer ln \<noteq> default_pubkey \<and> signer_update_requested_at ln \<noteq> 0
      then Inr (ln\<lparr>authorized_signer := pending_authorized_signer ln,
                  pending_authorized_signer := default_pubkey, signer_update_requested_at := 0\<rparr>,
             authorized_signer ln, pending_authorized_signer ln)
      else Inl NoAuthorizedSignerUpdatePending)"

text \<open>Writing a field of the lane's bytes updates that field of the record.\<close>

lemma lane_writes:
  assumes "off + 105 \<le> length data"
  shows "lane_at (splice (Suc off) (le_bytes 8 (unat v)) data) off = (lane_at data off)\<lparr>settled_cumulative := v\<rparr>"
    "lane_at (splice (off + 9) (le_bytes 8 (unat v)) data) off = (lane_at data off)\<lparr>locked_balance := v\<rparr>"
    "lane_at (splice (off + 49) (le_bytes 8 (unat v)) data) off = (lane_at data off)\<lparr>pending_unlock_amount := v\<rparr>"
    "lane_at (splice (off + 57) (le_bytes 8 (unat v)) data) off = (lane_at data off)\<lparr>unlock_requested_at := v\<rparr>"
    "lane_at (splice (off + 97) (le_bytes 8 (unat v)) data) off = (lane_at data off)\<lparr>signer_update_requested_at := v\<rparr>"
    "length k = 32 \<Longrightarrow> lane_at (splice (off + 17) k data) off = (lane_at data off)\<lparr>authorized_signer := k\<rparr>"
    "length k = 32 \<Longrightarrow> lane_at (splice (off + 65) k data) off = (lane_at data off)\<lparr>pending_authorized_signer := k\<rparr>"
  using assms by (simp_all add: lane_at_def slice_simps nth_splice)

lemmas lane_zero_writes = lane_writes(3) [where v = 0, unfolded unat_0]
  lane_writes(4) [where v = 0, unfolded unat_0] lane_writes(5) [where v = 0, unfolded unat_0]

lemma lane_reads:
  "field_u64 data (Suc off) = settled_cumulative (lane_at data off)"
  "field_u64 data (off + 9) = locked_balance (lane_at data off)"
  "field_u64 data (off + 49) = pending_unlock_amount (lane_at data off)"
  "field_u64 data (off + 57) = unlock_requested_at (lane_at data off)"
  "field_u64 data (off + 97) = signer_update_requested_at (lane_at data off)"
  "subarray (off + 17) 32 data = authorized_signer (lane_at data off)"
  "subarray (off + 65) 32 data = pending_authorized_signer (lane_at data off)"
  "data ! off \<noteq> 0 \<longleftrightarrow> initialized (lane_at data off)"
  by (simp_all add: lane_at_def)

text \<open>
  \<open>runs_as off data r s\<close>: the operation's result \<open>r\<close> on the bytes is the step \<open>s\<close> on the lane, and
  no byte outside the lane has changed.
\<close>

definition runs_as :: "nat \<Rightarrow> bytes \<Rightarrow> (bytes \<times> 'r) vres \<Rightarrow> (lane \<times> 'r) vres \<Rightarrow> bool" where
  "runs_as off data r s \<longleftrightarrow> (case s of
     Inl e \<Rightarrow> r = Inl e
   | Inr (ln, x) \<Rightarrow> \<exists>data'. r = Inr (data', x) \<and> lane_at data' off = ln \<and> agree_outside off 105 data data')"

lemma runs_as_Inl: "runs_as off data (Inl e) (Inl e)"
  by (simp add: runs_as_def)

lemma runs_as_Inr:
  "lane_at data' off = ln \<Longrightarrow> agree_outside off 105 data data' \<Longrightarrow> runs_as off data (Inr (data', x)) (Inr (ln, x))"
  by (simp add: runs_as_def)

text \<open>
  The contract of an operation with arguments \<open>x\<close>: it fails where the lane cannot be resolved and
  otherwise runs as its step. \<open>valid\<close> is what the argument types of the program guarantee.
\<close>

locale lane_op =
  fixes valid :: "'x \<Rightarrow> bool"
    and op :: "'x \<Rightarrow> bytes \<Rightarrow> u32 \<Rightarrow> u32 \<Rightarrow> (bytes \<times> 'r) vres"
    and step :: "'x \<Rightarrow> lane \<Rightarrow> (lane \<times> 'r) vres"
  assumes unresolved: "resolve_lane data p q = Inl e \<Longrightarrow> op x data p q = Inl e"
    and refines: "valid x \<Longrightarrow> resolve_lane data p q = Inr off \<Longrightarrow> off + 105 \<le> length data \<Longrightarrow>
      runs_as off data (op x data p q) (step x (lane_at data off))"
    and stays_open: "step x ln = Inr (ln', r) \<Longrightarrow> initialized ln' = initialized ln"
begin

text \<open>A successful operation updates one lane of the map, by its step.\<close>

lemma op_ok:
  assumes "valid x" "op x data p q = Inr (data', r)"
  shows "\<exists>ln ln'. lanes data (p, q) = Some ln \<and> step x ln = Inr (ln', r)
    \<and> lanes data' = (lanes data)((p, q) \<mapsto> ln')
    \<and> agree_outside (lane_position p q) 105 data data'"
proof (cases "resolve_lane data p q")
  case (Inl e)
  with unresolved assms show ?thesis by simp
next
  case (Inr off)
  then have off: "off = lane_position p q" "off + 105 \<le> length data"
    using holds_lane_length by (auto simp: resolve_lane_iff)
  have open_lane: "initialized (lane_at data off)"
    using resolve_lane_iff [of data p q off] Inr by (auto simp: lane_at_def)
  from refines [OF assms(1) Inr off(2)] assms(2)
  have run: "step x (lane_at data off) = Inr (lane_at data' off, r)" "agree_outside off 105 data data'"
    by (auto simp: runs_as_def split: sum.splits)
  then have "lanes data' = (lanes data)((p, q) \<mapsto> lane_at data' off)"
    using lanes_update [OF Inr run(2)] stays_open [OF run(1)] open_lane by simp
  then show ?thesis
    using run lanes_resolve [OF Inr] off(1) by auto
qed

lemma op_run:
  assumes "valid x" "lanes data (p, q) = Some ln"
  shows "case step x ln of Inl e \<Rightarrow> op x data p q = Inl e
    | Inr (ln', r) \<Rightarrow> \<exists>data'. op x data p q = Inr (data', r) \<and> lanes data' = (lanes data)((p, q) \<mapsto> ln')"
proof -
  from assms(2) obtain off where off: "resolve_lane data p q = Inr off"
    by (auto simp: lanes_def split: sum.splits)
  then have "off + 105 \<le> length data" using holds_lane_length by (auto simp: resolve_lane_iff)
  note run = refines [OF assms(1) off this, unfolded runs_as_def]
  show ?thesis
  proof (cases "step x ln")
    case (Inl e)
    then show ?thesis using run lanes_resolve [OF off] assms(2) by simp
  next
    case (Inr y)
    then obtain data' where ok: "op x data p q = Inr (data', snd y)"
      using run lanes_resolve [OF off] assms(2) by (auto split: prod.splits)
    then show ?thesis using op_ok [OF assms(1) ok] Inr assms(2) by (auto split: prod.split)
  qed
qed

lemma op_missing: "lanes data (p, q) = None \<Longrightarrow> \<exists>e. resolve_lane data p q = Inl e \<and> op x data p q = Inl e"
  using unresolved by (auto simp: lanes_def split: sum.splits)

lemma op_preserves:
  assumes "\<And>ln ln' r. I ln \<Longrightarrow> step x ln = Inr (ln', r) \<Longrightarrow> I ln'"
    and "valid x" "op x data p q = Inr (data', r)" and "\<forall>ln \<in> ran (lanes data). I ln"
  shows "\<forall>ln \<in> ran (lanes data'). I ln"
proof -
  obtain ln ln' where ln: "lanes data (p, q) = Some ln" "step x ln = Inr (ln', r)"
    "lanes data' = (lanes data)((p, q) \<mapsto> ln')"
    using op_ok [OF assms(2,3)] by blast
  then have "I ln'" using assms(1) [OF _ ln(2)] assms(4) by (auto simp: ran_def)
  with ln(3) assms(4) show ?thesis by (auto simp: ran_def split: if_splits)
qed

end

section \<open>The operations refine their steps\<close>

lemma agree_outside_splice_start:
  "off \<le> k \<Longrightarrow> k + length bs \<le> off + n \<Longrightarrow> k + length bs \<le> length a \<Longrightarrow>
    agree_outside off n a (splice k bs a)"
  by (rule agree_outside_splice [OF agree_outside_refl])

lemma lane_key_lengths:
  "off + 105 \<le> length data \<Longrightarrow> length (authorized_signer (lane_at data off)) = 32"
  "off + 105 \<le> length data \<Longrightarrow> length (pending_authorized_signer (lane_at data off)) = 32"
  by (simp_all add: lane_at_def)

lemmas lane_run = runs_as_def read_ok write_ok lane_reads lane_writes lane_zero_writes
  agree_outside_splice
  agree_outside_splice_start

lemma cap_pending_run:
  assumes "off + 105 \<le> length data" "locked_balance (lane_at data off) = m"
  shows "\<exists>data'. cap_pending_unlock_at_lane_offset_in_data data off m = Inr data'
    \<and> lane_at data' off = cap_pending (lane_at data off) \<and> agree_outside off 105 data data'"
  using assms
  by (simp add: cap_pending_unlock_at_lane_offset_in_data_def cap_pending_def lane_run)

lemma cap_pending_initialized [simp]: "initialized (cap_pending ln) = initialized ln"
  by (simp add: cap_pending_def)

lemma apply_settlement_unfold:
  "apply_lane_settlement_in_data data p q target consumed =
    bindR (resolve_lane data p q) (\<lambda>off. apply_lane_settlement_at_offset_in_data data off target consumed)"
proof (cases "\<exists>l h s off. canonicalize p q = Inr (l, h, s) \<and> slot_offset_for_pair data l h = Inr off")
  case True
  then obtain l h s off where off: "canonicalize p q = Inr (l, h, s)" "slot_offset_for_pair data l h = Inr off"
    by blast
  then have "holds_lane data p q" "off + lane_offset s = lane_position p q"
    using canonicalize_slot_iff [of p q data off "off + lane_offset s"] by blast+
  then have "off + lane_offset s + 105 \<le> length data" using holds_lane_length by simp
  then show ?thesis
    using off by (simp add: apply_lane_settlement_in_data_def apply_lane_settlement_for_selector_in_data_def
        resolve_lane_def Let_def read_ok requireR_def apply_lane_settlement_at_offset_in_data_def)
next
  case False
  then show ?thesis
    by (cases "canonicalize p q")
      (auto simp: apply_lane_settlement_in_data_def apply_lane_settlement_for_selector_in_data_def
        resolve_lane_def bindR_def split: sum.splits)
qed

lemma apply_settlement_run:
  assumes "off + 105 \<le> length data" "initialized (lane_at data off)"
  shows "runs_as off data
    (bindR (apply_lane_settlement_at_offset_in_data data off target consumed) (\<lambda>d. Inr (d, ())))
    (settle_lane target consumed (lane_at data off))"
proof (cases "consumed \<le> locked_balance (lane_at data off)")
  case True
  let ?next = "locked_balance (lane_at data off) - consumed"
  let ?data1 = "splice (off + 9) (le_bytes 8 (unat ?next)) data"
  have len: "off + 105 \<le> length ?data1" using assms by simp
  have lane1: "lane_at ?data1 off = (lane_at data off)\<lparr>locked_balance := ?next\<rparr>"
    using assms by (simp add: lane_writes)
  obtain data2 where data2: "cap_pending_unlock_at_lane_offset_in_data ?data1 off ?next = Inr data2"
    "lane_at data2 off = cap_pending (lane_at ?data1 off)" "agree_outside off 105 ?data1 data2"
    using cap_pending_run [OF len, of ?next] lane1 by auto
  have "agree_outside off 105 data ?data1"
    using assms by (intro agree_outside_splice_start) auto
  then have agree: "agree_outside off 105 data data2" using data2(3) by (rule agree_outside_trans)
  then have len2: "length data2 = length data" by (rule agree_outside_length)
  have "lane_at (splice (off + 1) (le_bytes 8 (unat target)) data2) off =
      cap_pending ((lane_at data off)\<lparr>locked_balance := ?next, settled_cumulative := target\<rparr>)"
    using assms len2 by (simp add: lane_writes data2(2) lane1 cap_pending_def)
  moreover have "agree_outside off 105 data (splice (off + 1) (le_bytes 8 (unat target)) data2)"
    using assms by (intro agree_outside_splice [OF agree]) auto
  moreover have "apply_lane_settlement_at_offset_in_data data off target consumed =
      Inr (splice (off + 1) (le_bytes 8 (unat target)) data2)"
    using assms True len2 data2(1)
    by (simp add: apply_lane_settlement_at_offset_in_data_def read_ok write_ok lane_reads
        checked_sub64_def)
  ultimately show ?thesis using True by (simp add: settle_lane_def runs_as_Inr)
next
  case False
  then show ?thesis
    using assms by (simp add: apply_lane_settlement_at_offset_in_data_def settle_lane_def read_ok
        lane_reads checked_sub64_def runs_as_Inl)
qed

lemma resolve_open: "resolve_lane data p q = Inr off \<Longrightarrow> initialized (lane_at data off)"
  using resolve_lane_iff [of data p q off] by (auto simp: lane_at_def)

interpretation settle: lane_op "\<lambda>_. True"
  "\<lambda>(target, consumed) data p q.
    bindR (apply_lane_settlement_in_data data p q target consumed) (\<lambda>d. Inr (d, ()))"
  "\<lambda>(target, consumed). settle_lane target consumed"
  by unfold_locales
    (auto simp: apply_settlement_unfold apply_settlement_run resolve_open,
     auto simp: settle_lane_def split: if_splits)

interpretation lock: lane_op "\<lambda>_. True"
  "\<lambda>amount data p q. add_lane_locked_balance_in_data data p q amount" lock_lane
  by unfold_locales
    (auto simp: add_lane_locked_balance_in_data_def lock_lane_def checked_add64_def lane_run split: if_splits)

interpretation unlock_request: lane_op "\<lambda>_. True"
  "\<lambda>(amount, requested_at) data p q.
    bindR (request_lane_unlock_in_data data p q amount requested_at) (\<lambda>d. Inr (d, ()))"
  "\<lambda>(amount, requested_at). request_unlock amount requested_at"
  by unfold_locales
    (auto simp: request_lane_unlock_in_data_def request_unlock_def lane_run split: if_splits)

interpretation unlock: lane_op "\<lambda>_. True"
  "\<lambda>(_ :: unit) data p q. execute_lane_unlock_in_data data p q" "\<lambda>_. execute_unlock"
  by unfold_locales
    (auto simp: execute_lane_unlock_in_data_def execute_unlock_def lane_run Let_def checked_sub64_def
      split: if_splits)

lemma cooperative_unlock_run:
  assumes "resolve_lane data p q = Inr off" "off + 105 \<le> length data"
  shows "runs_as off data (cooperative_unlock_lane_in_data data p q amount)
    (cooperative_unlock amount (lane_at data off))"
proof (cases "amount \<le> locked_balance (lane_at data off)")
  case True
  let ?next = "locked_balance (lane_at data off) - amount"
  let ?data1 = "splice (off + 9) (le_bytes 8 (unat ?next)) data"
  have "off + 105 \<le> length ?data1"
    and lane1: "lane_at ?data1 off = (lane_at data off)\<lparr>locked_balance := ?next\<rparr>"
    and agree: "agree_outside off 105 data ?data1"
    using assms by (simp_all add: lane_writes agree_outside_splice_start)
  then obtain data2 where "cap_pending_unlock_at_lane_offset_in_data ?data1 off ?next = Inr data2"
    "lane_at data2 off = cap_pending (lane_at ?data1 off)" "agree_outside off 105 ?data1 data2"
    using cap_pending_run [of off ?data1 ?next] by auto
  then show ?thesis
    using assms True agree_outside_trans [OF agree]
    by (simp add: cooperative_unlock_lane_in_data_def cooperative_unlock_def read_ok write_ok
        lane_reads checked_sub64_def runs_as_Inr lane1)
next
  case False
  then show ?thesis
    using assms by (simp add: cooperative_unlock_lane_in_data_def cooperative_unlock_def lane_run)
qed

interpretation cooperative: lane_op "\<lambda>_. True"
  "\<lambda>amount data p q. cooperative_unlock_lane_in_data data p q amount" cooperative_unlock
  by unfold_locales
    (auto simp: cooperative_unlock_run,
     auto simp: cooperative_unlock_lane_in_data_def cooperative_unlock_def split: if_splits)

interpretation signer_request: lane_op "\<lambda>(new_signer, _). length new_signer = 32"
  "\<lambda>(new_signer, requested_at) data p q.
    request_authorized_signer_update_in_data data p q new_signer requested_at"
  "\<lambda>(new_signer, requested_at). request_signer new_signer requested_at"
  by unfold_locales
    (auto simp: request_authorized_signer_update_in_data_def request_signer_def lane_run split: if_splits)

interpretation signer_update: lane_op "\<lambda>_. True"
  "\<lambda>(_ :: unit) data p q. execute_authorized_signer_update_in_data data p q" "\<lambda>_. execute_signer"
  by unfold_locales
    (auto simp: execute_authorized_signer_update_in_data_def execute_signer_def lane_run
      lane_key_lengths default_pubkey_def split: if_splits)

section \<open>Opening accounts and lanes\<close>

lemma initialize_account_run:
  assumes "initialize_account_data data token_id bucket_id bump = Inr data'"
  shows "channel_header data'" "field_u16 data' 8 = token_id" "field_u64 data' 10 = bucket_id"
    "length data' = length data"
    "\<And>k. 19 \<le> k \<Longrightarrow> k < channel_space \<Longrightarrow> data' ! k = 0"
proof -
  have len: "channel_space \<le> length data"
    using assms by (auto simp: initialize_account_data_def requireR_eq_Inr)
  let ?zero = "splice 0 (replicate channel_space 0) data"
  have data': "data' = splice 18 [bump] (splice 10 (le_bytes 8 (unat bucket_id))
      (splice 8 (le_bytes 2 (unat token_id)) (splice 0 channel_discriminator ?zero)))"
    using assms len by (simp add: initialize_account_data_def write_ok channel_space_def)
  show "length data' = length data" "field_u16 data' 8 = token_id" "field_u64 data' 10 = bucket_id"
    using len by (simp_all add: data' channel_space_def slice_simps)
  have "subarray 0 8 data' = channel_discriminator"
    using len by (simp add: data' channel_space_def slice_simps)
  then show "channel_header data'"
    using len by (simp add: channel_header_def subarray_def data' channel_space_def)
  show "data' ! k = 0" if "19 \<le> k" "k < channel_space" for k
    using len that by (simp add: data' channel_space_def nth_splice)
qed

lemma initialize_account_lanes:
  assumes "initialize_account_data data token_id bucket_id bump = Inr data'"
  shows "lanes data' = Map.empty"
proof
  fix k :: "u32 \<times> u32"
  obtain p q where k: "k = (p, q)" by force
  have "19 \<le> lane_position p q" "lane_position p q < channel_space"
    using lane_position_bound [of p q] lane_position_header [of p q] by simp_all
  then have "data' ! lane_position p q = 0" by (rule initialize_account_run [OF assms])
  then show "lanes data' k = None"
    by (auto simp: k lane_at_def lanes_iff not_Some_eq [symmetric] simp del: not_Some_eq)
qed

definition fresh_lane :: "pubkey \<Rightarrow> lane" where
  "fresh_lane signer =
     \<lparr>initialized = True, settled_cumulative = 0, locked_balance = 0, authorized_signer = signer,
      pending_unlock_amount = 0, unlock_requested_at = 0, pending_authorized_signer = default_pubkey,
      signer_update_requested_at = 0\<rparr>"

lemma agree_slot_holds:
  assumes "l < h" "channel_header data" "unat (field_u64 data 10) = pair_number (unat l) (unat h) div 46"
    and "agree_outside (slot_position l h) 219 data data'" "(a, b) \<noteq> (l, h)"
  shows "holds_pair data' a b = holds_pair data a b"
    and "holds_pair data a b \<Longrightarrow> slot_position a b + 219 \<le> slot_position l h \<or> slot_position l h + 219 \<le> slot_position a b"
proof -
  have start: "19 \<le> slot_position l h" by (simp add: slot_position_def)
  have header: "channel_header data' = channel_header data" "field_u64 data' 10 = field_u64 data 10"
    using agree_outside_subarray [OF assms(4), of 0 8] agree_outside_fields(1) [OF assms(4), of 10 8]
      agree_outside_length [OF assms(4)] start by (simp_all add: channel_header_def subarray_def)
  have apart: "slot_position a b + 219 \<le> slot_position l h \<or> slot_position l h + 219 \<le> slot_position a b"
    if "a < b" "unat (field_u64 data 10) = pair_number (unat a) (unat b) div 46"
    using channel_table.slots_disjoint [of "(unat a, unat b)" "(unat l, unat h)"] assms(1,3,5) that
    by (simp add: slot_position_def word_less_nat_alt word_unat_eq_iff)
  show "holds_pair data a b \<Longrightarrow> slot_position a b + 219 \<le> slot_position l h \<or> slot_position l h + 219 \<le> slot_position a b"
    by (rule apart) (simp_all add: holds_pair_def)
  show "holds_pair data' a b = holds_pair data a b"
  proof (cases "a < b \<and> unat (field_u64 data 10) = pair_number (unat a) (unat b) div 46")
    case True
    note sep = apart [OF conjunct1 [OF True] conjunct2 [OF True]]
    have "slot_position a b < length data"
      using slot_position_bound [of a b] assms(2) by (simp add: channel_header_def)
    then have "data' ! slot_position a b = data ! slot_position a b"
      using agree_outside_nth [OF assms(4), of "slot_position a b"] sep by auto
    moreover have "field_u32 data' (slot_position a b + 1) = field_u32 data (slot_position a b + 1)"
      "field_u32 data' (slot_position a b + 5) = field_u32 data (slot_position a b + 5)"
      using agree_outside_fields(2) [OF assms(4), of "slot_position a b + 1" 4]
        agree_outside_fields(2) [OF assms(4), of "slot_position a b + 5" 4] sep by auto
    ultimately show ?thesis by (simp add: holds_pair_def header)
  qed (auto simp: holds_pair_def header)
qed

lemma claim_slot_bytes:
  assumes "slot_position l h + 219 \<le> length data" "data ! slot_position l h = 0"
    and "claim_slot_in_data data (slot_position l h) l h = Inr data'"
  shows "agree_outside (slot_position l h) 219 data data'" "data' ! slot_position l h \<noteq> 0"
    "field_u32 data' (slot_position l h + 1) = l" "field_u32 data' (slot_position l h + 5) = h"
    "\<And>k. slot_position l h + 9 \<le> k \<Longrightarrow> k < slot_position l h + 219 \<Longrightarrow> data' ! k = 0"
proof -
  let ?s = "slot_position l h"
  have data': "data' = splice (?s + 5) (le_bytes 4 (unat h)) (splice (?s + 1) (le_bytes 4 (unat l))
      (splice ?s [1] (splice ?s (replicate 219 0) data)))"
    using assms by (simp add: claim_slot_in_data_def read_ok write_ok Let_def)
  show "agree_outside ?s 219 data data'"
    using assms(1) unfolding data' by (intro agree_outside_splice agree_outside_splice_start) auto
  show "data' ! ?s \<noteq> 0" "field_u32 data' (?s + 1) = l" "field_u32 data' (?s + 5) = h"
    using assms(1) by (simp_all add: data' slice_simps nth_splice)
  show "data' ! k = 0" if "?s + 9 \<le> k" "k < ?s + 219" for k
    using assms(1) that by (simp add: data' nth_splice)
qed

lemma claim_slot_lanes:
  assumes "l < h" "channel_header data" "unat (field_u64 data 10) = pair_number (unat l) (unat h) div 46"
    and "claim_slot_in_data data (slot_position l h) l h = Inr data'"
  shows "holds_pair data' l h \<and> lanes data' = lanes data"
proof (cases "data ! slot_position l h = 0")
  case False
  have "slot_position l h + 219 \<le> length data"
    using slot_position_bound [of l h] assms(2) by (simp add: channel_header_def)
  with False assms show ?thesis
    by (auto simp: claim_slot_in_data_def read_ok result_iffs holds_pair_def split: if_splits)
next
  case True
  have bound: "slot_position l h + 219 \<le> length data"
    using slot_position_bound [of l h] assms(2) by (simp add: channel_header_def)
  note claimed = claim_slot_bytes [OF bound True assms(4)]
  have start: "19 \<le> slot_position l h" by (simp add: slot_position_def)
  have "channel_header data' = channel_header data" "field_u64 data' 10 = field_u64 data 10"
    using agree_outside_subarray [OF claimed(1), of 0 8] agree_outside_fields(1) [OF claimed(1), of 10 8]
      agree_outside_length [OF claimed(1)] start by (simp_all add: channel_header_def subarray_def)
  then have holds: "holds_pair data' l h" using assms claimed by (simp add: holds_pair_def)
  have "lanes data' (a, b) = Some ln \<longleftrightarrow> lanes data (a, b) = Some ln" for a b ln
  proof (cases "(min a b, max a b) = (l, h)")
    case True
    then have "lane_position a b = slot_position l h + 9 \<or> lane_position a b = slot_position l h + 114"
      by (auto simp: lane_position_def min_def max_def split: if_splits)
    then have "data' ! lane_position a b = 0" using claimed(5) [of "lane_position a b"] by auto
    moreover have "\<not> holds_lane data a b"
      using True \<open>data ! slot_position l h = 0\<close>
      by (auto simp: holds_lane_def holds_pair_def min_def max_def split: if_splits)
    ultimately show ?thesis by (auto simp: lanes_iff lane_at_def)
  next
    case False
    note others = agree_slot_holds [OF assms(1-3) claimed(1) False]
    have same: "holds_lane data' a b = holds_lane data a b"
      using others(1) by (auto simp: holds_lane_def min_def max_def split: if_splits)
    show ?thesis
    proof (cases "holds_lane data a b")
      case True
      then have "holds_pair data (min a b) (max a b)"
        by (auto simp: holds_lane_def min_def max_def split: if_splits)
      from others(2) [OF this]
      have sep: "lane_position a b + 105 \<le> slot_position l h \<or> slot_position l h + 219 \<le> lane_position a b"
        by (auto simp: lane_position_def min_def max_def split: if_splits)
      let ?k = "lane_position a b"
      have "field_u64 data' (?k + i) = field_u64 data (?k + i)" if "i + 8 \<le> 105" for i
        using agree_outside_fields(1) [OF claimed(1), of "?k + i" 8] sep that by auto
      moreover have "subarray (?k + i) 32 data' = subarray (?k + i) 32 data" if "i + 32 \<le> 105" for i
        using agree_outside_subarray [OF claimed(1), of "?k + i" 32] sep that by auto
      moreover have "data' ! ?k = data ! ?k"
        using agree_outside_nth [OF claimed(1), of ?k] sep holds_lane_length [OF True] by auto
      ultimately have "lane_at data' ?k = lane_at data ?k"
        by (simp add: lane_at_def del: One_nat_def)
      then show ?thesis by (simp add: lanes_iff same)
    qed (simp add: lanes_iff same)
  qed
  then have "lanes data' = lanes data" by (intro ext) (metis option.exhaust surj_pair)
  with holds show ?thesis by blast
qed

text \<open>Opening a lane adds it to the map, empty, and changes nothing else the map shows.\<close>

lemma initialize_lane_run:
  assumes "canonicalize p q = Inr (l, h, selector)" "length signer = 32"
    and "initialize_lane_in_data data token_id l h selector signer = Inr data'"
  shows "lanes data (p, q) = None \<and> lanes data' = (lanes data)((p, q) \<mapsto> fresh_lane signer)"
proof -
  have lh: "l < h" by (rule canonicalize_Inr [OF assms(1)])
  have pos: "slot_position l h + lane_offset selector = lane_position p q"
    using assms(1) by (cases rule: canonicalize_cases) (auto simp: lane_position_def lane_offset_def)
  let ?k = "lane_position p q"
  have hd: "channel_header data"
    using assms(3) by (auto simp: initialize_lane_in_data_def header_read split: if_splits)
  note run = assms(3) [unfolded initialize_lane_in_data_def header_read if_P [OF hd] bindR_Inr prod.case
      bucket_id_total [OF lh] slot_index_total [OF lh] Let_def slot_position_def [symmetric] pos]
  from run have bucket: "unat (field_u64 data 10) = pair_number (unat l) (unat h) div 46"
    using unat_bucket_id [OF lh] by (auto simp: requireR_eq_Inr)
  from run obtain data1 where claim: "claim_slot_in_data data (slot_position l h) l h = Inr data1"
    and rest: "bindR (read_bool_at data1 ?k ChannelAlreadyExists) (\<lambda>exists.
     requireR (\<not> exists) ChannelAlreadyExists (
     bindR (write_bool_at (splice ?k (replicate 105 0) data1) ?k True ChannelAlreadyExists) (\<lambda>data2.
     write_pubkey_at data2 (?k + 17) signer BucketAccountMismatch))) = Inr data'"
    unfolding requireR_eq_Inr bindR_eq_Inr [of "claim_slot_in_data _ _ _ _"] by blast
  note claimed = claim_slot_lanes [OF lh hd bucket claim]
  have holds: "holds_lane data1 p q"
    using assms(1) claimed by (cases rule: canonicalize_cases) (auto simp: holds_lane_def)
  have len: "?k + 105 \<le> length data1" by (rule holds_lane_length [OF holds])
  have closed: "data1 ! ?k = 0"
    and data': "data' = splice (?k + 17) signer (splice ?k [1] (splice ?k (replicate 105 0) data1))"
    using rest len assms(2) by (auto simp: read_ok write_ok requireR_eq_Inr)
  have agree: "agree_outside ?k 105 data1 data'"
    using len assms(2) unfolding data' by (intro agree_outside_splice agree_outside_splice_start) auto
  have lane: "lane_at data' ?k = fresh_lane signer"
    using len assms(2)
    by (simp add: data' lane_at_def fresh_lane_def slice_simps nth_splice subarray_splice_inside
        field_u64_def default_pubkey_def)
  have "lanes data' = (lanes data1)((p, q) \<mapsto> fresh_lane signer)"
    using lanes_write [OF holds agree] lane by (simp add: fresh_lane_def)
  moreover have "lanes data1 (p, q) = None"
    using closed by (auto simp: lanes_iff lane_at_def not_Some_eq [symmetric] simp del: not_Some_eq)
  ultimately show ?thesis using claimed by simp
qed

text \<open>In the bucket of the pair, a slot that is not in use can be opened in either direction.\<close>

lemma initialize_lane_succeeds:
  assumes "l < h" "channel_header data" "field_u16 data 8 = token_id"
    and "bucket_id_for_pair l h = Inr (field_u64 data 10)"
    and "data ! slot_position l h = 0" "length signer = 32"
  shows "\<exists>data'. initialize_lane_in_data data token_id l h selector signer = Inr data'"
proof -
  let ?s = "slot_position l h" and ?k = "slot_position l h + lane_offset selector"
  have bound: "?s + 219 \<le> length data"
    using slot_position_bound [of l h] assms(2) by (simp add: channel_header_def)
  have space: "channel_space \<le> length data" using assms(2) by (simp add: channel_header_def)
  obtain data1 where data1: "claim_slot_in_data data ?s l h = Inr data1"
    using bound assms(5) by (simp add: claim_slot_in_data_def read_ok write_ok Let_def)
  note claimed = claim_slot_bytes [OF bound assms(5) data1]
  have len: "length data1 = length data" by (rule agree_outside_length [OF claimed(1)])
  have "data1 ! ?k = 0" using claimed(5) [of ?k] lane_offset_bounds [of selector] by simp
  moreover have "?k + 105 \<le> length data1" using bound len lane_offset_bounds [of selector] by simp
  ultimately show ?thesis
    unfolding initialize_lane_in_data_def header_read if_P [OF assms(2)] bindR_Inr prod.case
      assms(4) slot_index_total [OF assms(1)] Let_def slot_position_def [symmetric] data1
    using assms(3,6) bound space by (simp add: read_ok write_ok)
qed

section \<open>Runs of a channel bucket\<close>

text \<open>
  What the program can do to the data of a bucket account, in any order. The ledger counts, for
  every direction of payment, what has been locked minus what has been settled from the lock or
  released.
\<close>

inductive channel_run :: "bytes \<Rightarrow> (u32 \<times> u32 \<Rightarrow> nat) \<Rightarrow> bool" where
  run_init: "initialize_account_data raw token_id bucket_id bump = Inr data \<Longrightarrow> channel_run data (\<lambda>_. 0)"
| run_open: "channel_run data led \<Longrightarrow> canonicalize p q = Inr (l, h, selector) \<Longrightarrow> length signer = 32 \<Longrightarrow>
    initialize_lane_in_data data token_id l h selector signer = Inr data' \<Longrightarrow> channel_run data' led"
| run_lock: "channel_run data led \<Longrightarrow> add_lane_locked_balance_in_data data p q amount = Inr (data', next) \<Longrightarrow>
    channel_run data' (led((p, q) := led (p, q) + unat amount))"
| run_settle: "channel_run data led \<Longrightarrow> apply_lane_settlement_in_data data p q target consumed = Inr data' \<Longrightarrow>
    channel_run data' (led((p, q) := led (p, q) - unat consumed))"
| run_request: "channel_run data led \<Longrightarrow> request_lane_unlock_in_data data p q amount requested_at = Inr data' \<Longrightarrow>
    channel_run data' led"
| run_unlock: "channel_run data led \<Longrightarrow> execute_lane_unlock_in_data data p q = Inr (data', released, rest) \<Longrightarrow>
    channel_run data' (led((p, q) := led (p, q) - unat released))"
| run_cooperative: "channel_run data led \<Longrightarrow> cooperative_unlock_lane_in_data data p q amount = Inr (data', released, rest) \<Longrightarrow>
    channel_run data' (led((p, q) := led (p, q) - unat released))"
| run_signer_request: "channel_run data led \<Longrightarrow> length signer = 32 \<Longrightarrow>
    request_authorized_signer_update_in_data data p q signer requested_at = Inr (data', current) \<Longrightarrow>
    channel_run data' led"
| run_signer_update: "channel_run data led \<Longrightarrow>
    execute_authorized_signer_update_in_data data p q = Inr (data', previous, new_signer) \<Longrightarrow>
    channel_run data' led"

text \<open>The invariant of one lane against the ledger's entry.\<close>

definition lane_ok :: "nat \<Rightarrow> lane option \<Rightarrow> bool" where
  "lane_ok n x = (case x of None \<Rightarrow> n = 0
     | Some ln \<Rightarrow> unat (locked_balance ln) = n \<and> pending_unlock_amount ln \<le> locked_balance ln)"

lemma lane_ok_update:
  assumes "\<forall>k. lane_ok (led k) (m k)" "lane_ok n (Some ln)"
  shows "\<forall>k. lane_ok ((led(k0 := n)) k) ((m(k0 \<mapsto> ln)) k)"
  using assms by simp

lemma step_ok:
  assumes "lane_ok n (Some ln)"
  shows "lock_lane amount ln = Inr (ln', next) \<Longrightarrow> lane_ok (n + unat amount) (Some ln')"
    and "settle_lane target consumed ln = Inr (ln', u) \<Longrightarrow> lane_ok (n - unat consumed) (Some ln')"
    and "request_unlock amount requested_at ln = Inr (ln', u) \<Longrightarrow> lane_ok n (Some ln')"
    and "execute_unlock ln = Inr (ln', released, rest) \<Longrightarrow> lane_ok (n - unat released) (Some ln')"
    and "cooperative_unlock amount ln = Inr (ln', released, rest) \<Longrightarrow> lane_ok (n - unat released) (Some ln')"
    and "request_signer signer requested_at ln = Inr (ln', current) \<Longrightarrow> lane_ok n (Some ln')"
    and "execute_signer ln = Inr (ln', previous, new_signer) \<Longrightarrow> lane_ok n (Some ln')"
proof -
  show "lane_ok (n + unat amount) (Some ln')" if "lock_lane amount ln = Inr (ln', next)"
  proof -
    have ln': "ln' = ln\<lparr>locked_balance := locked_balance ln + amount\<rparr>"
      "unat (locked_balance ln) + unat amount < 2 ^ 64"
      using that by (auto simp: lock_lane_def split: if_splits)
    then have "unat (locked_balance ln + amount) = unat (locked_balance ln) + unat amount"
      by (simp add: unat_word_ariths)
    with assms ln' show ?thesis by (auto simp: lane_ok_def word_le_nat_alt)
  qed
  have cap: "lane_ok m (Some (cap_pending x))" if "unat (locked_balance x) = m" for m x
    using that by (auto simp: lane_ok_def cap_pending_def)
  show "lane_ok (n - unat consumed) (Some ln')" if "settle_lane target consumed ln = Inr (ln', u)"
    using assms that by (auto simp: settle_lane_def lane_ok_def unat_sub split: if_splits
        intro!: cap [unfolded lane_ok_def, simplified])
  show "lane_ok (n - unat released) (Some ln')" if "cooperative_unlock amount ln = Inr (ln', released, rest)"
    using assms that by (auto simp: cooperative_unlock_def lane_ok_def unat_sub split: if_splits
        intro!: cap [unfolded lane_ok_def, simplified])
  show "lane_ok (n - unat released) (Some ln')" if "execute_unlock ln = Inr (ln', released, rest)"
    using assms that by (auto simp: execute_unlock_def lane_ok_def Let_def unat_sub min_def split: if_splits)
qed (use assms in \<open>auto simp: request_unlock_def request_signer_def execute_signer_def lane_ok_def split: if_splits\<close>)

lemma op_ok_ledger:
  assumes "\<forall>k. lane_ok (led k) (lanes data k)"
    and "lanes data (p, q) = Some ln" "lanes data' = (lanes data)((p, q) \<mapsto> ln')"
    and "lane_ok (led (p, q)) (Some ln) \<Longrightarrow> lane_ok n (Some ln')"
  shows "\<forall>k. lane_ok ((led((p, q) := n)) k) (lanes data' k)"
  using lane_ok_update [OF assms(1), of n ln'] assms by metis

lemma channel_run_ok: "channel_run data led \<Longrightarrow> \<forall>k. lane_ok (led k) (lanes data k)"
proof (induction rule: channel_run.induct)
  case (run_init raw token_id bucket_id bump data)
  then show ?case by (simp add: initialize_account_lanes lane_ok_def)
next
  case (run_open data led p q l h selector signer token_id data')
  note opened = initialize_lane_run [OF run_open.hyps(2-4)]
  have "led (p, q) = 0"
    using spec [OF run_open.IH, of "(p, q)"] opened by (simp add: lane_ok_def)
  then have "led = led((p, q) := 0)" by auto
  moreover have "lane_ok 0 (Some (fresh_lane signer))" by (simp add: lane_ok_def fresh_lane_def)
  ultimately show ?case using lane_ok_update [OF run_open.IH] opened by metis
next
  case (run_lock data led p q amount data' "next")
  from lock.op_ok [OF TrueI run_lock.hyps(2)] obtain ln ln' where s: "lanes data (p, q) = Some ln"
    "lock_lane amount ln = Inr (ln', next)" "lanes data' = (lanes data)((p, q) \<mapsto> ln')" by blast
  show ?case by (rule op_ok_ledger [OF run_lock.IH s(1,3) step_ok(1) [OF _ s(2)]])
next
  case (run_settle data led p q target consumed data')
  then have "bindR (apply_lane_settlement_in_data data p q target consumed) (\<lambda>d. Inr (d, ())) = Inr (data', ())"
    by simp
  from settle.op_ok [of "(target, consumed)", OF TrueI, simplified, OF this] obtain ln ln'
    where s: "lanes data (p, q) = Some ln" "settle_lane target consumed ln = Inr (ln', ())"
    "lanes data' = (lanes data)((p, q) \<mapsto> ln')" by auto
  show ?case by (rule op_ok_ledger [OF run_settle.IH s(1,3) step_ok(2) [OF _ s(2)]])
next
  case (run_request data led p q amount requested_at data')
  then have "bindR (request_lane_unlock_in_data data p q amount requested_at) (\<lambda>d. Inr (d, ())) = Inr (data', ())"
    by simp
  from unlock_request.op_ok [of "(amount, requested_at)", OF TrueI, simplified, OF this] obtain ln ln'
    where s: "lanes data (p, q) = Some ln" "request_unlock amount requested_at ln = Inr (ln', ())"
    "lanes data' = (lanes data)((p, q) \<mapsto> ln')" by auto
  have "\<forall>k. lane_ok ((led((p, q) := led (p, q))) k) (lanes data' k)"
    by (rule op_ok_ledger [OF run_request.IH s(1,3) step_ok(3) [OF _ s(2)]])
  then show ?case by simp
next
  case (run_unlock data led p q data' released rest)
  from unlock.op_ok [OF TrueI run_unlock.hyps(2)] obtain ln ln' where s: "lanes data (p, q) = Some ln"
    "execute_unlock ln = Inr (ln', released, rest)" "lanes data' = (lanes data)((p, q) \<mapsto> ln')" by blast
  show ?case by (rule op_ok_ledger [OF run_unlock.IH s(1,3) step_ok(4) [OF _ s(2)]])
next
  case (run_cooperative data led p q amount data' released rest)
  from cooperative.op_ok [OF TrueI run_cooperative.hyps(2)] obtain ln ln' where s: "lanes data (p, q) = Some ln"
    "cooperative_unlock amount ln = Inr (ln', released, rest)" "lanes data' = (lanes data)((p, q) \<mapsto> ln')"
    by blast
  show ?case by (rule op_ok_ledger [OF run_cooperative.IH s(1,3) step_ok(5) [OF _ s(2)]])
next
  case (run_signer_request data led signer p q requested_at data' current)
  from signer_request.op_ok [of "(signer, requested_at)", simplified, OF run_signer_request.hyps(2,3)]
  obtain ln ln' where s: "lanes data (p, q) = Some ln"
    "request_signer signer requested_at ln = Inr (ln', current)" "lanes data' = (lanes data)((p, q) \<mapsto> ln')"
    by auto
  have "\<forall>k. lane_ok ((led((p, q) := led (p, q))) k) (lanes data' k)"
    by (rule op_ok_ledger [OF run_signer_request.IH s(1,3) step_ok(6) [OF _ s(2)]])
  then show ?case by simp
next
  case (run_signer_update data led p q data' previous new_signer)
  from signer_update.op_ok [OF TrueI run_signer_update.hyps(2)] obtain ln ln'
    where s: "lanes data (p, q) = Some ln" "execute_signer ln = Inr (ln', previous, new_signer)"
    "lanes data' = (lanes data)((p, q) \<mapsto> ln')" by blast
  have "\<forall>k. lane_ok ((led((p, q) := led (p, q))) k) (lanes data' k)"
    by (rule op_ok_ledger [OF run_signer_update.IH s(1,3) step_ok(7) [OF _ s(2)]])
  then show ?case by simp
qed

definition sample_signer :: pubkey where
  "sample_signer = replicate 32 7"

lemma initialize_lane_token:
  assumes "initialize_lane_in_data data token_id l h selector signer = Inr data'" "l < h" "length signer = 32"
  shows "field_u16 data' 8 = field_u16 data 8"
proof -
  let ?s = "slot_position l h" and ?k = "slot_position l h + lane_offset selector"
  have hd: "channel_header data"
    using assms(1) by (auto simp: initialize_lane_in_data_def header_read split: if_splits)
  have bound: "?s + 219 \<le> length data"
    using slot_position_bound [of l h] hd by (simp add: channel_header_def)
  note run = assms(1) [unfolded initialize_lane_in_data_def header_read if_P [OF hd] bindR_Inr prod.case
      bucket_id_total [OF assms(2)] slot_index_total [OF assms(2)] Let_def slot_position_def [symmetric]]
  obtain data1 where claim: "claim_slot_in_data data ?s l h = Inr data1"
    and rest: "bindR (read_bool_at data1 ?k ChannelAlreadyExists) (\<lambda>exists.
     requireR (\<not> exists) ChannelAlreadyExists (
     bindR (write_bool_at (splice ?k (replicate 105 0) data1) ?k True ChannelAlreadyExists) (\<lambda>data2.
     write_pubkey_at data2 (?k + 17) signer BucketAccountMismatch))) = Inr data'"
    using run unfolding requireR_eq_Inr bindR_eq_Inr [of "claim_slot_in_data _ _ _ _"] by blast
  have first: "agree_outside ?s 219 data data1"
  proof (cases "data ! ?s = 0")
    case True
    show ?thesis by (rule claim_slot_bytes(1) [OF bound True claim])
  next
    case False
    then have "data1 = data"
      using claim bound by (auto simp: claim_slot_in_data_def read_ok result_iffs split: if_splits)
    then show ?thesis by simp
  qed
  have len: "?k + 105 \<le> length data1"
    using bound agree_outside_length [OF first] lane_offset_bounds [of selector] by simp
  then have "data' = splice (?k + 17) signer (splice ?k [1] (splice ?k (replicate 105 0) data1))"
    using rest assms(3) by (auto simp: read_ok write_ok requireR_eq_Inr)
  then have "agree_outside ?s 219 data1 data'"
    using len assms(3) bound agree_outside_length [OF first] lane_offset_bounds [of selector]
    by (simp add: agree_outside_splice agree_outside_splice_start)
  then have "agree_outside ?s 219 data data'" by (rule agree_outside_trans [OF first])
  then show ?thesis using agree_outside_fields(3) [of ?s 219 data data' 8 2] by (simp add: slot_position_def)
qed

text \<open>A bucket of token 1 in which one lane has been opened.\<close>

lemma opened_bucket:
  assumes "p \<noteq> q"
  shows "\<exists>data. channel_run data (\<lambda>_. 0) \<and> lanes data (p, q) = Some (fresh_lane sample_signer) \<and> field_u16 data 8 = 1"
proof -
  obtain l h selector where canonical: "canonicalize p q = Inr (l, h, selector)" and lh: "l < h"
    using assms by (cases "p < q") (auto simp: canonicalize_def)
  let ?raw = "replicate channel_space 0 :: bytes" and ?bucket = "word_of_nat (pair_number (unat l) (unat h) div 46) :: u64"
  obtain data where data: "initialize_account_data ?raw 1 ?bucket 255 = Inr data"
    by (simp add: initialize_account_data_def write_ok channel_space_def)
  note init = initialize_account_run [OF data]
  have "data ! slot_position l h = 0"
    using slot_position_bound [of l h] by (intro init(5)) (simp_all add: slot_position_def)
  moreover have "bucket_id_for_pair l h = Inr (field_u64 data 10)"
    unfolding init(3) by (rule bucket_id_total [OF lh])
  ultimately obtain data' where data': "initialize_lane_in_data data 1 l h selector sample_signer = Inr data'"
    using initialize_lane_succeeds [OF lh init(1,2), of sample_signer selector]
    by (auto simp: sample_signer_def)
  have signer: "length sample_signer = 32" by (simp add: sample_signer_def)
  have "channel_run data' (\<lambda>_. 0)" by (rule run_open [OF run_init [OF data] canonical signer data'])
  moreover have "lanes data' (p, q) = Some (fresh_lane sample_signer)"
    using initialize_lane_run [OF canonical signer data'] by simp
  ultimately show ?thesis using initialize_lane_token [OF data' lh signer] init(2) by auto
qed

lemma sample_run:
  "\<exists>data. channel_run data (\<lambda>_. 0) \<and> lanes data (3, 5) = Some (fresh_lane sample_signer)"
  using opened_bucket [of 3 5] by auto

section \<open>Properties\<close>

text \<open>
  C5: Whatever the program does to a bucket, in any order: the locked balance of an open lane is
  what was locked minus what was settled from the lock or released, and a pending unlock never
  exceeds the locked balance.
\<close>

theorem channel_ledger:
  assumes "channel_run data led" "lanes data (payer, payee) = Some ln"
  shows "unat (locked_balance ln) = led (payer, payee) \<and> pending_unlock_amount ln \<le> locked_balance ln"
  using spec [OF channel_run_ok [OF assms(1)], of "(payer, payee)"] assms(2)
  by (simp add: lane_ok_def)

theorem channel_ledger_witness:
  "\<exists>data ln. lanes data (3, 5) = Some ln \<and> unat (locked_balance ln) = 0
    \<and> pending_unlock_amount ln \<le> locked_balance ln"
  using sample_run channel_ledger [where led = "\<lambda>_. 0" and payer = 3 and payee = 5] by blast

text \<open>
  C2: A settlement fails when it consumes more than is locked; otherwise it records the new
  cumulative amount, takes the consumed amount from the lock, cuts a pending unlock down to what
  is left, and changes no other lane of the bucket.
\<close>

theorem settlement_refines:
  assumes "lanes data (payer, payee) = Some ln"
  shows "if consumed \<le> locked_balance ln
    then \<exists>data' ln'. apply_lane_settlement_in_data data payer payee target consumed = Inr data'
      \<and> lanes data' = (lanes data)((payer, payee) \<mapsto> ln')
      \<and> settled_cumulative ln' = target \<and> locked_balance ln' = locked_balance ln - consumed
      \<and> pending_unlock_amount ln' = min (pending_unlock_amount ln) (locked_balance ln - consumed)
      \<and> authorized_signer ln' = authorized_signer ln
    else apply_lane_settlement_in_data data payer payee target consumed = Inl MathOverflow"
proof (cases "consumed \<le> locked_balance ln")
  case True
  let ?ln' = "cap_pending (ln\<lparr>locked_balance := locked_balance ln - consumed, settled_cumulative := target\<rparr>)"
  have "settled_cumulative ?ln' = target" "locked_balance ?ln' = locked_balance ln - consumed"
    "pending_unlock_amount ?ln' = min (pending_unlock_amount ln) (locked_balance ln - consumed)"
    "authorized_signer ?ln' = authorized_signer ln"
    by (simp_all add: cap_pending_def min_def)
  moreover have "\<exists>data'. apply_lane_settlement_in_data data payer payee target consumed = Inr data'
      \<and> lanes data' = (lanes data)((payer, payee) \<mapsto> ?ln')"
    using settle.op_run [where x = "(target, consumed)", OF TrueI assms] True
    by (simp add: settle_lane_def bindR_eq_Inr)
  ultimately show ?thesis using True by (metis (no_types))
next
  case False
  then show ?thesis
    using settle.op_run [where x = "(target, consumed)", OF TrueI assms]
    by (simp add: settle_lane_def bindR_eq_Inl)
qed

theorem settlement_refines_witness:
  "\<exists>data. apply_lane_settlement_in_data data 3 5 100 1 = Inl MathOverflow"
proof -
  obtain data where "lanes data (3, 5) = Some (fresh_lane sample_signer)" using sample_run by blast
  from settlement_refines [OF this, of 1 100] show ?thesis
    by (auto simp: fresh_lane_def)
qed

text \<open>
  Opening a lane succeeds only where no lane is open in that direction; the lane starts empty,
  with the given signer, and every other open lane of the bucket stays as it is.
\<close>

theorem lane_opening:
  assumes "canonicalize payer payee = Inr (l, h, selector)" "length signer = 32"
    and "initialize_lane_in_data data token_id l h selector signer = Inr data'"
  shows "lanes data (payer, payee) = None
    \<and> lanes data' = (lanes data)((payer, payee) \<mapsto> fresh_lane signer)"
  by (rule initialize_lane_run [OF assms])

theorem lane_opening_witness:
  "\<exists>data data' token_id. initialize_lane_in_data data token_id 3 5 LowerToHigher sample_signer = Inr data'
    \<and> lanes data (3, 5) = None \<and> lanes data' (3, 5) = Some (fresh_lane sample_signer)"
proof -
  obtain data where data: "initialize_account_data (replicate channel_space 0) 1 0 255 = Inr data"
    by (simp add: initialize_account_data_def write_ok channel_space_def)
  note init = initialize_account_run [OF data]
  have "data ! slot_position 3 5 = 0"
    using slot_position_bound [of 3 5] by (intro init(5)) (simp_all add: slot_position_def)
  then obtain data' where data': "initialize_lane_in_data data 1 3 5 LowerToHigher sample_signer = Inr data'"
    using initialize_lane_succeeds [of 3 5 data 1 sample_signer LowerToHigher] init
    by (auto simp: sample_signer_def bucket_id_total pair_number_def)
  have "lanes data (3, 5) = None \<and> lanes data' = (lanes data)((3, 5) \<mapsto> fresh_lane sample_signer)"
    by (rule lane_opening [OF _ _ data']) (simp_all add: sample_signer_def)
  with data' show ?thesis by (metis fun_upd_same)
qed

end
