(* ===== verification/ClientBuckets.thy ===== *)
theory ClientBuckets
  imports ChannelBucket
begin

text \<open>
  The client's readers of bucket accounts: \<open>verifyRawChannelBucketHeader\<close>,
  \<open>readRawChannelBucketState\<close>, \<open>readRawChannelBucketLaneState\<close>, \<open>readRawParticipantBucketSlot\<close> and
  \<open>readRawParticipantBucketTokenBalance\<close> of \<open>scripts/ryvo-protocol-demo.ts\<close> on raw bytes, and the
  normalizers of \<open>shared/channel-bucket-state.ts\<close> on decoded accounts.

  Reading a missing byte of a \<open>Buffer\<close> gives \<open>undefined\<close>, which differs from 0; reading an integer
  beyond the end throws a \<open>RangeError\<close>. \<open>new PublicKey\<close> (package \<open>@solana/web3.js\<close>) is a parameter.
\<close>

section \<open>Node buffers\<close>

definition js_byte :: "bytes \<Rightarrow> int \<Rightarrow> byte option" where
  "js_byte data off = (if 0 \<le> off \<and> off < int (length data) then Some (data ! nat off) else None)"

text \<open>\<open>data[offset] !== 0\<close>\<close>

definition js_flag :: "bytes \<Rightarrow> int \<Rightarrow> bool" where
  "js_flag data off \<longleftrightarrow> js_byte data off \<noteq> Some 0"

definition out_of_bounds :: "bytes \<Rightarrow> int \<Rightarrow> int \<Rightarrow> 'a js" where
  "out_of_bounds data off n =
     (if int (length data) < n then rangeError ''Attempt to access memory outside buffer bounds''
      else rangeError (''The value of \"offset\" is out of range. It must be >= 0 and <= '' @
        show_int (int (length data) - n) @ ''. Received '' @ show_int off))"

text \<open>\<open>readUInt16LE\<close>, \<open>readUInt32LE\<close> and \<open>readBigUInt64LE\<close>: \<open>n\<close> is 2, 4 or 8.\<close>

definition js_readUIntLE :: "nat \<Rightarrow> bytes \<Rightarrow> int \<Rightarrow> int js" where
  "js_readUIntLE n data off =
     (if 0 \<le> off \<and> off + int n \<le> int (length data)
      then Inr (int (le_nat (subarray (nat off) n data))) else out_of_bounds data off (int n))"

definition readRawU64 :: "bytes \<Rightarrow> int \<Rightarrow> int js" where
  "readRawU64 data off = js_readUIntLE 8 data off"

definition readRawU64Bn :: "bytes \<Rightarrow> int \<Rightarrow> int js" where
  "readRawU64Bn data off = js_readUIntLE 8 data off"

definition readRawI64Bn :: "bytes \<Rightarrow> int \<Rightarrow> int js" where
  "readRawI64Bn data off =
     bindR (js_readUIntLE 8 data off) (\<lambda>u. Inr (if u \<ge> 2 ^ 63 then u - 2 ^ 64 else u))"

type_synonym make_pubkey = "bytes \<Rightarrow> pubkey js"

definition readRawPubkey :: "make_pubkey \<Rightarrow> bytes \<Rightarrow> int \<Rightarrow> pubkey js" where
  "readRawPubkey newPublicKey data off = newPublicKey (js_subarray data off (off + 32))"

section \<open>Channel buckets\<close>

definition CHANNEL_BUCKET_DISCRIMINATOR :: bytes where
  "CHANNEL_BUCKET_DISCRIMINATOR = [171, 219, 130, 228, 148, 242, 103, 148]"
definition CHANNEL_BUCKET_TOKEN_ID_OFFSET :: int where "CHANNEL_BUCKET_TOKEN_ID_OFFSET = 8"
definition CHANNEL_BUCKET_ID_OFFSET :: int where "CHANNEL_BUCKET_ID_OFFSET = 10"
definition CHANNEL_BUCKET_SLOTS_OFFSET :: int where "CHANNEL_BUCKET_SLOTS_OFFSET = 19"
definition CHANNEL_BUCKET_SLOT_SIZE :: int where "CHANNEL_BUCKET_SLOT_SIZE = 219"
definition CHANNEL_BUCKET_SPACE :: int where
  "CHANNEL_BUCKET_SPACE =
     CHANNEL_BUCKET_SLOTS_OFFSET + CHANNEL_BUCKET_SLOT_COUNT * CHANNEL_BUCKET_SLOT_SIZE"
definition CHANNEL_BUCKET_LOWER_TO_HIGHER_LANE_OFFSET :: int where
  "CHANNEL_BUCKET_LOWER_TO_HIGHER_LANE_OFFSET = 9"
definition CHANNEL_BUCKET_HIGHER_TO_LOWER_LANE_OFFSET :: int where
  "CHANNEL_BUCKET_HIGHER_TO_LOWER_LANE_OFFSET = 114"

lemmas [layout_simps] = CHANNEL_BUCKET_TOKEN_ID_OFFSET_def CHANNEL_BUCKET_ID_OFFSET_def
  CHANNEL_BUCKET_SLOTS_OFFSET_def CHANNEL_BUCKET_SLOT_SIZE_def CHANNEL_BUCKET_SPACE_def
  CHANNEL_BUCKET_LOWER_TO_HIGHER_LANE_OFFSET_def CHANNEL_BUCKET_HIGHER_TO_LOWER_LANE_OFFSET_def

text \<open>The class \<open>ChannelBucketSlotNotInitializedError\<close> and the two helpers on errors.\<close>

definition slotNotInitialized :: "int \<Rightarrow> int \<Rightarrow> int \<Rightarrow> 'a js" where
  "slotNotInitialized slotIndex payerId payeeId =
     Inl (SlotNotInitialized (''Channel bucket slot '' @ show_int slotIndex @
       '' is not initialized for '' @ show_int payerId @ ''->'' @ show_int payeeId))"

definition isChannelBucketSlotNotInitializedError :: "js_exn \<Rightarrow> bool" where
  "isChannelBucketSlotNotInitializedError e = (case e of SlotNotInitialized _ \<Rightarrow> True | _ \<Rightarrow> False)"

definition formatDecodeError :: "js_exn \<Rightarrow> string" where
  "formatDecodeError e = exn_text e"

definition verifyRawChannelBucketHeader :: "bytes \<Rightarrow> int \<Rightarrow> int option \<Rightarrow> int js" where
  "verifyRawChannelBucketHeader data expectedBucketId expectedTokenId =
     (if int (length data) < CHANNEL_BUCKET_SPACE then
        throwError (''channel bucket data is too short: '' @ show_int (int (length data)) @
          '' bytes, expected at least '' @ show_int CHANNEL_BUCKET_SPACE)
      else if js_subarray data 0 (int (length CHANNEL_BUCKET_DISCRIMINATOR)) \<noteq> CHANNEL_BUCKET_DISCRIMINATOR then
        throwError ''channel bucket discriminator does not match v2 layout''
      else
        bindR (js_readUIntLE 2 data CHANNEL_BUCKET_TOKEN_ID_OFFSET) (\<lambda>actualTokenId.
        bindR (js_readUIntLE 8 data CHANNEL_BUCKET_ID_OFFSET) (\<lambda>actualBucketId.
        if actualBucketId \<noteq> expectedBucketId then
          throwError (''channel bucket id mismatch: expected '' @ show_int expectedBucketId @
            '', got '' @ show_int actualBucketId)
        else if expectedTokenId \<noteq> None \<and> expectedTokenId \<noteq> Some actualTokenId then
          throwError (''channel bucket token mismatch: expected '' @ show_int (the expectedTokenId) @
            '', got '' @ show_int actualTokenId)
        else Inr actualTokenId)))"

record raw_lane =
  laneInitialized :: bool
  settledCumulative :: int
  lockedBalance :: int
  authorizedSigner :: pubkey
  pendingUnlockAmount :: int
  unlockRequestedAt :: int
  pendingAuthorizedSigner :: pubkey
  authorizedSignerUpdateRequestedAt :: int

definition readRawDirectionalLaneState :: "make_pubkey \<Rightarrow> bytes \<Rightarrow> int \<Rightarrow> raw_lane js" where
  "readRawDirectionalLaneState newPublicKey data laneOffset =
     (let init = js_flag data laneOffset in
      bindR (readRawU64Bn data (laneOffset + 1)) (\<lambda>settled.
      bindR (readRawU64Bn data (laneOffset + 9)) (\<lambda>locked.
      bindR (readRawPubkey newPublicKey data (laneOffset + 17)) (\<lambda>signer.
      bindR (readRawU64Bn data (laneOffset + 49)) (\<lambda>pending.
      bindR (readRawI64Bn data (laneOffset + 57)) (\<lambda>unlockAt.
      bindR (readRawPubkey newPublicKey data (laneOffset + 65)) (\<lambda>nextSigner.
      bindR (readRawI64Bn data (laneOffset + 97)) (\<lambda>updateAt.
      Inr \<lparr>laneInitialized = init, settledCumulative = settled, lockedBalance = locked,
           authorizedSigner = signer, pendingUnlockAmount = pending, unlockRequestedAt = unlockAt,
           pendingAuthorizedSigner = nextSigner, authorizedSignerUpdateRequestedAt = updateAt\<rparr>))))))))"

record 'lane pair_channel = canonical_participants +
  tokenId :: int
  lowerToHigher :: 'lane
  higherToLower :: 'lane

text \<open>
  The checks that \<open>readRawChannelBucketState\<close> and \<open>readRawChannelBucketLaneState\<close> share: the header, the
  slot in use, and the pair in the slot. The result is the token id and the offset of the slot.
\<close>

definition locateRawChannelSlot :: "bytes \<Rightarrow> int \<Rightarrow> int \<Rightarrow> (int \<times> int) js" where
  "locateRawChannelSlot data payerId payeeId =
     (let c = getCanonicalChannelParticipants payerId payeeId in
      bindR (verifyRawChannelBucketHeader data (channelBucketIdForPair payerId payeeId) None) (\<lambda>token.
      let slotIndex = channelBucketSlotIndexForPair payerId payeeId;
          slotOffset = CHANNEL_BUCKET_SLOTS_OFFSET + slotIndex * CHANNEL_BUCKET_SLOT_SIZE in
      bindR (js_readUIntLE 4 data (slotOffset + 1)) (\<lambda>actualLower.
      bindR (js_readUIntLE 4 data (slotOffset + 5)) (\<lambda>actualHigher.
      if \<not> js_flag data slotOffset then slotNotInitialized slotIndex payerId payeeId
      else if actualLower \<noteq> lowerParticipantId c \<or> actualHigher \<noteq> higherParticipantId c then
        throwError (''channel bucket slot '' @ show_int slotIndex @ '' mismatch: expected '' @
          show_int (lowerParticipantId c) @ ''-'' @ show_int (higherParticipantId c) @ '', got '' @
          show_int actualLower @ ''-'' @ show_int actualHigher)
      else Inr (token, slotOffset)))))"

definition readRawChannelBucketState ::
  "make_pubkey \<Rightarrow> bytes \<Rightarrow> int \<Rightarrow> int \<Rightarrow> raw_lane pair_channel js" where
  "readRawChannelBucketState newPublicKey data payerId payeeId =
     (let c = getCanonicalChannelParticipants payerId payeeId in
      bindR (locateRawChannelSlot data payerId payeeId) (\<lambda>(token, slotOffset).
      bindR (readRawDirectionalLaneState newPublicKey data
        (slotOffset + CHANNEL_BUCKET_LOWER_TO_HIGHER_LANE_OFFSET)) (\<lambda>up.
      bindR (readRawDirectionalLaneState newPublicKey data
        (slotOffset + CHANNEL_BUCKET_HIGHER_TO_LOWER_LANE_OFFSET)) (\<lambda>down.
      Inr \<lparr>lowerParticipantId = lowerParticipantId c, higherParticipantId = higherParticipantId c,
           tokenId = token, lowerToHigher = up, higherToLower = down\<rparr>))))"

definition readRawChannelBucketLaneState :: "bytes \<Rightarrow> int \<Rightarrow> int \<Rightarrow> (int \<times> int) js" where
  "readRawChannelBucketLaneState data payerId payeeId =
     bindR (locateRawChannelSlot data payerId payeeId) (\<lambda>(_, slotOffset).
     let laneBaseOffset = slotOffset + (if payerId < payeeId
           then CHANNEL_BUCKET_LOWER_TO_HIGHER_LANE_OFFSET else CHANNEL_BUCKET_HIGHER_TO_LOWER_LANE_OFFSET) in
     bindR (readRawU64 data (laneBaseOffset + 1)) (\<lambda>settled.
     bindR (readRawU64 data (laneBaseOffset + 9)) (\<lambda>locked.
     Inr (settled, locked))))"

text \<open>\<open>shared/channel-bucket-state.ts\<close>: an account decoded by the program's IDL.\<close>

record 'lane decoded_slot = canonical_participants +
  slotInitialized :: bool
  slotLowerToHigher :: 'lane
  slotHigherToLower :: 'lane

record 'lane decoded_bucket =
  bucketTokenId :: int
  bucketSlots :: "'lane decoded_slot list"

definition notInitializedFor :: "int \<Rightarrow> int \<Rightarrow> 'a js" where
  "notInitializedFor payerId payeeId =
     throwError (''Channel bucket slot is not initialized for '' @ show_int payerId @ ''->'' @ show_int payeeId)"

definition normalizeSharedChannelBucketState ::
  "'lane decoded_bucket \<Rightarrow> int \<Rightarrow> int \<Rightarrow> (int \<Rightarrow> int \<Rightarrow> int) \<Rightarrow> 'lane pair_channel js" where
  "normalizeSharedChannelBucketState bucket payerId payeeId slotIndexForPair =
     (let c = getCanonicalChannelParticipants payerId payeeId; i = slotIndexForPair payerId payeeId in
      if \<not> (0 \<le> i \<and> i < int (length (bucketSlots bucket))) then notInitializedFor payerId payeeId
      else let slot = bucketSlots bucket ! nat i in
        if \<not> slotInitialized slot \<or> lowerParticipantId slot \<noteq> lowerParticipantId c
           \<or> higherParticipantId slot \<noteq> higherParticipantId c then notInitializedFor payerId payeeId
        else Inr \<lparr>lowerParticipantId = lowerParticipantId c, higherParticipantId = higherParticipantId c,
          tokenId = bucketTokenId bucket, lowerToHigher = slotLowerToHigher slot,
          higherToLower = slotHigherToLower slot\<rparr>)"

definition normalizeChannelBucketState :: "'lane decoded_bucket \<Rightarrow> int \<Rightarrow> int \<Rightarrow> 'lane pair_channel js" where
  "normalizeChannelBucketState bucket payerId payeeId =
     normalizeSharedChannelBucketState bucket payerId payeeId channelBucketSlotIndexForPair"

definition getDirectionalLaneState :: "'lane pair_channel \<Rightarrow> int \<Rightarrow> int \<Rightarrow> 'lane js" where
  "getDirectionalLaneState pairChannel payerId payeeId =
     (if payerId = payeeId then throwError ''Self channels are not supported'' else
      let c = getCanonicalChannelParticipants payerId payeeId in
      if lowerParticipantId pairChannel \<noteq> lowerParticipantId c
         \<or> higherParticipantId pairChannel \<noteq> higherParticipantId c
      then throwError (''Pair channel does not match direction '' @ show_int payerId @ ''->'' @ show_int payeeId)
      else Inr (if payerId < payeeId then lowerToHigher pairChannel else higherToLower pairChannel))"

record 'lane directional_channel =
  payerId :: int
  payeeId :: int
  channelTokenId :: int
  channelLane :: 'lane

definition normalizeDirectionalChannelState ::
  "'lane pair_channel \<Rightarrow> int \<Rightarrow> int \<Rightarrow> 'lane directional_channel js" where
  "normalizeDirectionalChannelState pairChannel payer payee =
     bindR (getDirectionalLaneState pairChannel payer payee) (\<lambda>lane.
     Inr \<lparr>payerId = payer, payeeId = payee, channelTokenId = tokenId pairChannel, channelLane = lane\<rparr>)"

section \<open>Participant buckets\<close>

record raw_balance =
  balanceInitialized :: bool
  balanceTokenId :: int
  availableBalance :: int
  withdrawingBalance :: int
  withdrawalUnlockAt :: int
  withdrawalDestination :: pubkey

record raw_participant =
  participantInitialized :: bool
  owner :: pubkey
  participantId :: int
  inboundChannelPolicy :: "byte option"
  blsSchemeVersion :: "byte option"
  blsPubkeyCompressed :: bytes
  tokenBalances :: "raw_balance list"

definition readRawTokenBalanceEntry :: "make_pubkey \<Rightarrow> bytes \<Rightarrow> int \<Rightarrow> raw_balance js" where
  "readRawTokenBalanceEntry newPublicKey data offset =
     (let init = js_flag data offset in
      bindR (js_readUIntLE 2 data (offset + 1)) (\<lambda>token.
      bindR (readRawU64Bn data (offset + 3)) (\<lambda>available.
      bindR (readRawU64Bn data (offset + 11)) (\<lambda>withdrawing.
      bindR (readRawI64Bn data (offset + 19)) (\<lambda>unlockAt.
      bindR (readRawPubkey newPublicKey data (offset + 27)) (\<lambda>destination.
      Inr \<lparr>balanceInitialized = init, balanceTokenId = token, availableBalance = available,
           withdrawingBalance = withdrawing, withdrawalUnlockAt = unlockAt,
           withdrawalDestination = destination\<rparr>))))))"

definition readRawParticipantBucketSlot :: "make_pubkey \<Rightarrow> bytes \<Rightarrow> int \<Rightarrow> raw_participant js" where
  "readRawParticipantBucketSlot newPublicKey data participant =
     (let slotOffset = 13 + participantBucketSlotIndex participant * 1079;
          init = js_flag data slotOffset in
      bindR (js_readUIntLE 4 data (slotOffset + 33)) (\<lambda>actualParticipantId.
      if \<not> init \<or> actualParticipantId \<noteq> participant then
        throwError (''Participant slot '' @ show_int participant @ '' is not initialized'')
      else
        bindR (mapR (\<lambda>index. readRawTokenBalanceEntry newPublicKey data (slotOffset + 135 + int index * 59))
          [0..<16]) (\<lambda>balances.
        bindR (readRawPubkey newPublicKey data (slotOffset + 1)) (\<lambda>key.
        Inr \<lparr>participantInitialized = init, owner = key, participantId = actualParticipantId,
             inboundChannelPolicy = js_byte data (slotOffset + 37),
             blsSchemeVersion = js_byte data (slotOffset + 38),
             blsPubkeyCompressed = js_subarray data (slotOffset + 39) (slotOffset + 135),
             tokenBalances = balances\<rparr>))))"

text \<open>
  \<open>normalizeParticipantBucketSlot\<close> keeps the balances in use, without their flag, and adds a bump
  of 0.
\<close>

record normalized_participant =
  normalizedOwner :: pubkey
  normalizedParticipantId :: int
  normalizedBalances :: "(int \<times> int \<times> int \<times> int \<times> pubkey) list"
  normalizedBump :: int
  normalizedPolicy :: "byte option"
  normalizedBlsVersion :: "byte option"
  normalizedBlsPubkey :: bytes

definition normalizeParticipantBucketSlot :: "raw_participant \<Rightarrow> normalized_participant" where
  "normalizeParticipantBucketSlot slot =
     \<lparr>normalizedOwner = owner slot, normalizedParticipantId = participantId slot,
      normalizedBalances = map (\<lambda>b. (balanceTokenId b, availableBalance b, withdrawingBalance b,
        withdrawalUnlockAt b, withdrawalDestination b)) (filter balanceInitialized (tokenBalances slot)),
      normalizedBump = 0, normalizedPolicy = inboundChannelPolicy slot,
      normalizedBlsVersion = blsSchemeVersion slot, normalizedBlsPubkey = blsPubkeyCompressed slot\<rparr>"

text \<open>The \<open>for\<close> loop over the 16 balance entries, from entry \<open>index\<close> at \<open>cursor\<close> on.\<close>

fun scanTokenBalances :: "nat \<Rightarrow> bytes \<Rightarrow> int \<Rightarrow> int \<Rightarrow> (int \<times> int) js" where
  "scanTokenBalances 0 data cursor token = Inr (0, 0)"
| "scanTokenBalances (Suc n) data cursor token =
     bindR (js_readUIntLE 2 data (cursor + 1)) (\<lambda>entryTokenId.
     if js_flag data cursor \<and> entryTokenId = token then
       bindR (readRawU64 data (cursor + 3)) (\<lambda>available.
       bindR (readRawU64 data (cursor + 11)) (\<lambda>withdrawing.
       Inr (available, withdrawing)))
     else scanTokenBalances n data (cursor + 59) token)"

definition readRawParticipantBucketTokenBalance :: "bytes \<Rightarrow> int \<Rightarrow> int \<Rightarrow> (int \<times> int) js" where
  "readRawParticipantBucketTokenBalance data participant token =
     (let expectedBucketId = participantBucketIdForParticipantId participant in
      bindR (js_readUIntLE 4 data 8) (\<lambda>actualBucketId.
      if actualBucketId \<noteq> expectedBucketId then
        throwError (''Participant bucket id mismatch: expected '' @ show_int expectedBucketId @
          '', got '' @ show_int actualBucketId)
      else
        let slotIndex = participantBucketSlotIndex participant; slotOffset = 13 + slotIndex * 1079 in
        bindR (js_readUIntLE 4 data (slotOffset + 33)) (\<lambda>actualParticipantId.
        if \<not> js_flag data slotOffset \<or> actualParticipantId \<noteq> participant then
          throwError (''Participant bucket slot '' @ show_int slotIndex @
            '' is not initialized for participant '' @ show_int participant)
        else scanTokenBalances 16 data (slotOffset + 135) token)))"

section \<open>Reading in range\<close>

lemma js_read_nat:
  "js_readUIntLE n data (int k) =
    (if k + n \<le> length data then Inr (int (le_nat (subarray k n data))) else out_of_bounds data (int k) (int n))"
  by (auto simp: js_readUIntLE_def)

lemma out_of_bounds_neq [simp]: "out_of_bounds data k n \<noteq> Inr x"
  by (simp add: out_of_bounds_def)

lemma uint_fields:
  "k + 8 \<le> length data \<Longrightarrow> int (le_nat (subarray k 8 data)) = uint (field_u64 data k)"
  "k + 4 \<le> length data \<Longrightarrow> int (le_nat (subarray k 4 data)) = uint (field_u32 data k)"
  "k + 2 \<le> length data \<Longrightarrow> int (le_nat (subarray k 2 data)) = uint (field_u16 data k)"
  by (simp_all add: uint_nat unat_fields)

lemma js_flag_nat: "k < length data \<Longrightarrow> js_flag data (int k) \<longleftrightarrow> data ! k \<noteq> 0"
  by (simp add: js_flag_def js_byte_def)

lemma js_subarray_nat: "k + n \<le> length data \<Longrightarrow> js_subarray data (int k) (int (k + n)) = subarray k n data"
  by (simp add: js_subarray_def js_index_def subarray_def take_drop add.commute nat_int_add)

lemma sint_field:
  "k + 8 \<le> length data \<Longrightarrow>
    (let u = int (le_nat (subarray k 8 data)) in if u \<ge> 2 ^ 63 then u - 2 ^ 64 else u) = sint (field_u64 data k)"
proof -
  assume k: "k + 8 \<le> length data"
  let ?w = "field_u64 data k"
  have bound: "uint ?w < 2 ^ 64" using uint_lt2p [of ?w] by simp
  have "signed_take_bit 63 (uint ?w) = (if uint ?w \<ge> 2 ^ 63 then uint ?w - 2 ^ 64 else uint ?w)"
  proof (cases "uint ?w \<ge> 2 ^ 63")
    case True
    have "(uint ?w + 2 ^ 63) mod 2 ^ 64 = (uint ?w + 2 ^ 63 - 2 ^ 64) mod 2 ^ 64"
      by (simp only: minus_mod_self2)
    also have "\<dots> = uint ?w + 2 ^ 63 - 2 ^ 64"
      using True bound by (intro mod_pos_pos_trivial) auto
    finally show ?thesis
      using True by (simp add: signed_take_bit_eq_take_bit_shift take_bit_eq_mod)
  next
    case False
    moreover have "- (2 ^ 63) \<le> uint ?w" by (rule order_trans [of _ 0]) simp_all
    ultimately show ?thesis by (simp add: signed_take_bit_int_eq_self)
  qed
  then have "sint ?w = (if uint ?w \<ge> 2 ^ 63 then uint ?w - 2 ^ 64 else uint ?w)"
    by (simp add: sint_uint)
  with k show ?thesis by (simp add: uint_fields Let_def)
qed

section \<open>Client and program find the same slot\<close>

lemma discriminators_agree: "CHANNEL_BUCKET_DISCRIMINATOR = channel_discriminator"
  by (simp add: CHANNEL_BUCKET_DISCRIMINATOR_def channel_discriminator_def)

lemma js_subarray_start: "8 \<le> length data \<Longrightarrow> js_subarray data 0 8 = take 8 data"
  by (simp add: js_subarray_def js_index_def)

lemma verify_header:
  "verifyRawChannelBucketHeader data bucketId None = Inr t \<longleftrightarrow>
    channel_header data \<and> uint (field_u64 data 10) = bucketId \<and> t = uint (field_u16 data 8)"
proof -
  have "8 \<le> length data" if "\<not> length data < 10093" using that by simp
  then show ?thesis
    using js_read_nat [of 2 data 8] js_read_nat [of 8 data 10]
    by (auto simp: verifyRawChannelBucketHeader_def layout_simps discriminators_agree js_subarray_start
        channel_header_def channel_space_def uint_fields split: if_splits)
qed

text \<open>The ids of a pair, as the client's numbers and the program's words.\<close>

lemma pair_ids:
  fixes p q :: u32
  assumes "p \<noteq> q" "p < 910000000" "q < 910000000"
  shows "channelBucketSlotIndexForPair (uint p) (uint q) =
      int (pair_number (unat (min p q)) (unat (max p q)) mod 46)"
    and "channelBucketIdForPair (uint p) (uint q) = int (pair_number (unat (min p q)) (unat (max p q)) div 46)"
    and "min (uint p) (uint q) = uint (min p q)" "max (uint p) (uint q) = uint (max p q)"
proof -
  obtain l h lane where c: "canonicalize p q = Inr (l, h, lane)"
    using assms(1) by (cases p q rule: linorder_cases) auto
  then have lh: "l = min p q" "h = max p q" by (cases rule: canonicalize_cases; simp)+
  have "unat l < unat h" "unat h < 910000000"
    using canonicalize_Inr [OF c] assms(2,3) by (auto simp: word_less_nat_alt)
  then have "int (pair_number (unat l) (unat h) div 46) < 2 ^ 53" by (rule bucket_id_safe)
  then show "channelBucketIdForPair (uint p) (uint q) = int (pair_number (unat (min p q)) (unat (max p q)) div 46)"
    "channelBucketSlotIndexForPair (uint p) (uint q) = int (pair_number (unat (min p q)) (unat (max p q)) mod 46)"
    using canonicalize_Inr [OF c] bucket_id_client [of "uint p" "uint q"] slot_index_client [of "uint p" "uint q"]
    by (simp_all flip: lh)
  show "min (uint p) (uint q) = uint (min p q)" "max (uint p) (uint q) = uint (max p q)"
    by (simp_all add: min_def max_def word_le_def)
qed

lemma holds_lane_pair: "holds_lane data p q \<longleftrightarrow> p \<noteq> q \<and> holds_pair data (min p q) (max p q)"
  by (auto simp: holds_lane_def min_def max_def split: if_splits)

lemma locate_slot:
  assumes "p \<noteq> q" "p < 910000000" "q < 910000000"
  shows "locateRawChannelSlot data (uint p) (uint q) = Inr (t, off) \<longleftrightarrow>
    holds_lane data p q \<and> t = uint (field_u16 data 8) \<and> off = int (slot_position (min p q) (max p q))"
proof -
  let ?l = "min p q" and ?h = "max p q"
  have lt: "?l < ?h" using assms(1) by (auto simp: min_def max_def)
  note ids = pair_ids [OF assms]
  have off: "CHANNEL_BUCKET_SLOTS_OFFSET + int (pair_number (unat ?l) (unat ?h) mod 46) * CHANNEL_BUCKET_SLOT_SIZE
      = int (slot_position ?l ?h)"
    by (simp add: layout_simps slot_position_def)
  have bucket: "uint (field_u64 data 10) = int (pair_number (unat ?l) (unat ?h) div 46) \<longleftrightarrow>
      unat (field_u64 data 10) = pair_number (unat ?l) (unat ?h) div 46"
    unfolding uint_nat by (rule of_nat_eq_iff)
  show ?thesis
  proof (cases "channel_header data \<and> unat (field_u64 data 10) = pair_number (unat ?l) (unat ?h) div 46")
    case True
    then have len: "slot_position ?l ?h + 219 \<le> length data"
      using slot_position_bound [of ?l ?h] by (simp add: channel_header_def)
    let ?s = "slot_position ?l ?h"
    have verify: "verifyRawChannelBucketHeader data (channelBucketIdForPair (uint p) (uint q)) None =
        Inr (uint (field_u16 data 8))"
      using True bucket by (simp add: verify_header ids(2))
    have reads: "js_readUIntLE 4 data (int ?s + 1) = Inr (uint (field_u32 data (?s + 1)))"
      "js_readUIntLE 4 data (int ?s + 5) = Inr (uint (field_u32 data (?s + 5)))"
      using len js_read_nat [of 4 data "?s + 1"] js_read_nat [of 4 data "?s + 5"]
      by (simp_all add: uint_fields add.commute)
    have flag: "js_flag data (int ?s) \<longleftrightarrow> data ! ?s \<noteq> 0"
      using len by (simp add: js_flag_nat)
    have "locateRawChannelSlot data (uint p) (uint q) = Inr (t, off) \<longleftrightarrow>
      data ! ?s \<noteq> 0 \<and> uint (field_u32 data (?s + 1)) = uint ?l \<and> uint (field_u32 data (?s + 5)) = uint ?h
        \<and> t = uint (field_u16 data 8) \<and> off = int ?s"
      unfolding locateRawChannelSlot_def verify ids(1) canonical_simps ids(3,4) Let_def bindR_Inr off reads flag
      by (auto simp: slotNotInitialized_def)
    then show ?thesis
      using True lt assms(1)
      by (simp add: holds_lane_pair holds_pair_def conj_ac word_uint_eq_iff [where a = "field_u32 _ _"])
  next
    case False
    have "verifyRawChannelBucketHeader data (channelBucketIdForPair (uint p) (uint q)) None \<noteq> Inr x" for x
      using False bucket unfolding verify_header ids(2) by blast
    then have "locateRawChannelSlot data (uint p) (uint q) \<noteq> Inr y" for y
      unfolding locateRawChannelSlot_def Let_def bindR_eq_Inr by blast
    with False show ?thesis by (auto simp: holds_lane_pair holds_pair_def)
  qed
qed

section \<open>What the client reads of a lane\<close>

definition lane_view :: "lane \<Rightarrow> raw_lane" where
  "lane_view ln =
     \<lparr>laneInitialized = initialized ln, settledCumulative = uint (settled_cumulative ln),
      lockedBalance = uint (locked_balance ln), authorizedSigner = authorized_signer ln,
      pendingUnlockAmount = uint (pending_unlock_amount ln),
      unlockRequestedAt = sint (unlock_requested_at ln),
      pendingAuthorizedSigner = pending_authorized_signer ln,
      authorizedSignerUpdateRequestedAt = sint (signer_update_requested_at ln)\<rparr>"

lemma read_u64_nat:
  "k + 8 \<le> length data \<Longrightarrow> readRawU64 data (int k) = Inr (uint (field_u64 data k))"
  "k + 8 \<le> length data \<Longrightarrow> readRawU64Bn data (int k) = Inr (uint (field_u64 data k))"
  "k + 8 \<le> length data \<Longrightarrow> readRawI64Bn data (int k) = Inr (sint (field_u64 data k))"
  using sint_field [of k data]
  by (simp_all add: readRawU64_def readRawU64Bn_def readRawI64Bn_def js_read_nat uint_fields Let_def)

lemma read_pubkey_nat:
  "k + 32 \<le> length data \<Longrightarrow> readRawPubkey newPublicKey data (int k) = newPublicKey (subarray k 32 data)"
  using js_subarray_nat [of k 32 data] by (simp add: readRawPubkey_def)

lemma read_lane:
  assumes "\<And>k. length k = 32 \<Longrightarrow> newPublicKey k = Inr k" "off + 105 \<le> length data"
  shows "readRawDirectionalLaneState newPublicKey data (int off) = Inr (lane_view (lane_at data off))"
  using assms(2) read_u64_nat [of "off + 1" data] read_u64_nat [of "off + 9" data]
    read_u64_nat [of "off + 49" data] read_u64_nat [of "off + 57" data] read_u64_nat [of "off + 97" data]
    read_pubkey_nat [of "off + 17" data newPublicKey] read_pubkey_nat [of "off + 65" data newPublicKey]
    js_flag_nat [of off data]
  by (simp add: readRawDirectionalLaneState_def lane_view_def lane_at_def assms(1) add.commute)

lemma read_lane_amounts:
  assumes "p \<noteq> q" "p < 910000000" "q < 910000000" "holds_lane data p q"
  shows "readRawChannelBucketLaneState data (uint p) (uint q) =
    Inr (uint (settled_cumulative (lane_at data (lane_position p q))),
         uint (locked_balance (lane_at data (lane_position p q))))"
proof -
  let ?k = "lane_position p q"
  have "locateRawChannelSlot data (uint p) (uint q) =
      Inr (uint (field_u16 data 8), int (slot_position (min p q) (max p q)))"
    using locate_slot [OF assms(1-3)] assms(4) by blast
  moreover have "int (slot_position (min p q) (max p q)) + (if uint p < uint q
      then CHANNEL_BUCKET_LOWER_TO_HIGHER_LANE_OFFSET else CHANNEL_BUCKET_HIGHER_TO_LOWER_LANE_OFFSET) = int ?k"
    using assms(1)
    by (cases p q rule: linorder_cases)
      (simp_all add: lane_position_def layout_simps word_less_def min_def max_def word_le_def)
  moreover have "readRawU64 data (int ?k + 1) = Inr (uint (settled_cumulative (lane_at data ?k)))"
    "readRawU64 data (int ?k + 9) = Inr (uint (locked_balance (lane_at data ?k)))"
    using holds_lane_length [OF assms(4)] read_u64_nat(1) [of "?k + 1" data] read_u64_nat(1) [of "?k + 9" data]
    by (simp_all add: lane_at_def add.commute)
  ultimately show ?thesis by (simp add: readRawChannelBucketLaneState_def Let_def)
qed

text \<open>The program's own reader of a lane, on the same bytes.\<close>

lemma lane_core_iff:
  "read_resolved_lane_core_from_data data p q = Inr ln \<longleftrightarrow>
    holds_lane data p q \<and> ln = lane_at data (lane_position p q)"
proof -
  let ?k = "lane_position p q"
  have core: "read_resolved_lane_core_from_data data p q = Inr (lane_at data (off + lane_offset s))"
    if "canonicalize p q = Inr (l, h, s)" "slot_offset_for_pair data l h = Inr off"
      "off + lane_offset s + 105 \<le> length data" for l h s off
    using that by (simp add: read_resolved_lane_core_from_data_def Let_def read_ok lane_at_def)
  have "read_resolved_lane_core_from_data data p q = Inr ln \<Longrightarrow>
      \<exists>l h s off. canonicalize p q = Inr (l, h, s) \<and> slot_offset_for_pair data l h = Inr off"
    by (auto simp: read_resolved_lane_core_from_data_def bindR_eq_Inr)
  then show ?thesis
    using core canonicalize_slot_iff [of p q data _ ?k] canonicalize_slot_iff [of p q data]
      holds_lane_length [of data p q] by (metis (no_types, lifting) sum.inject(2))
qed

section \<open>Properties\<close>

text \<open>
  C20: On any bytes whatever, the client's lane reader and the program's accept the same channels
  and agree on the settled and the locked amount (participant ids below 910 million): what the
  program refuses to read, the client refuses too.
\<close>

theorem client_lane_agrees:
  assumes "payer \<noteq> payee" "payer < 910000000" "payee < 910000000"
  shows "case read_resolved_lane_core_from_data data payer payee of
      Inl _ \<Rightarrow> \<exists>e. readRawChannelBucketLaneState data (uint payer) (uint payee) = Inl e
    | Inr ln \<Rightarrow> readRawChannelBucketLaneState data (uint payer) (uint payee) =
        Inr (uint (settled_cumulative ln), uint (locked_balance ln))"
proof (cases "holds_lane data payer payee")
  case True
  then have "read_resolved_lane_core_from_data data payer payee = Inr (lane_at data (lane_position payer payee))"
    by (simp add: lane_core_iff)
  then show ?thesis using read_lane_amounts [OF assms True] by simp
next
  case False
  have "readRawChannelBucketLaneState data (uint payer) (uint payee) \<noteq> Inr x" for x
    using locate_slot [OF assms] False by (auto simp: readRawChannelBucketLaneState_def bindR_eq_Inr)
  then have "\<exists>e. readRawChannelBucketLaneState data (uint payer) (uint payee) = Inl e"
    by (metis sum.exhaust)
  moreover have "read_resolved_lane_core_from_data data payer payee \<noteq> Inr ln" for ln
    using False by (simp add: lane_core_iff)
  ultimately show ?thesis by (auto split: sum.split)
qed

theorem client_lane_agrees_witness:
  "case read_resolved_lane_core_from_data [] 3 5 of
      Inl _ \<Rightarrow> \<exists>e. readRawChannelBucketLaneState [] (uint (3 :: u32)) (uint (5 :: u32)) = Inl e
    | Inr ln \<Rightarrow> readRawChannelBucketLaneState [] (uint (3 :: u32)) (uint (5 :: u32)) =
        Inr (uint (settled_cumulative ln), uint (locked_balance ln))"
  by (rule client_lane_agrees) simp_all

text \<open>
  The full reader of the client returns the pair in canonical order with the token id of the
  header, and the lane it picks for a direction of payment shows every field of the program's lane
  (with \<open>new PublicKey\<close> accepting 32 bytes as they are).
\<close>

theorem client_channel_state:
  assumes "\<And>k. length k = 32 \<Longrightarrow> newPublicKey k = Inr k"
    and "payer \<noteq> payee" "payer < 910000000" "payee < 910000000"
    and "read_resolved_lane_core_from_data data payer payee = Inr ln"
  shows "\<exists>channel. readRawChannelBucketState newPublicKey data (uint payer) (uint payee) = Inr channel
    \<and> tokenId channel = uint (field_u16 data 8)
    \<and> lowerParticipantId channel < higherParticipantId channel
    \<and> {lowerParticipantId channel, higherParticipantId channel} = {uint payer, uint payee}
    \<and> getDirectionalLaneState channel (uint payer) (uint payee) = Inr (lane_view ln)"
proof -
  let ?s = "slot_position (min payer payee) (max payer payee)"
  have holds: "holds_lane data payer payee" and ln: "ln = lane_at data (lane_position payer payee)"
    using assms(5) by (simp_all add: lane_core_iff)
  have "?s + 219 \<le> length data"
    using holds slot_position_bound [of "min payer payee" "max payer payee"]
    by (simp add: holds_lane_pair holds_pair_def channel_header_def)
  then have lanes: "readRawDirectionalLaneState newPublicKey data (int ?s + CHANNEL_BUCKET_LOWER_TO_HIGHER_LANE_OFFSET) =
      Inr (lane_view (lane_at data (?s + 9)))"
    "readRawDirectionalLaneState newPublicKey data (int ?s + CHANNEL_BUCKET_HIGHER_TO_LOWER_LANE_OFFSET) =
      Inr (lane_view (lane_at data (?s + 114)))"
    using read_lane [OF assms(1), of "?s + 9" data] read_lane [OF assms(1), of "?s + 114" data]
    by (simp_all add: layout_simps)
  have "locateRawChannelSlot data (uint payer) (uint payee) = Inr (uint (field_u16 data 8), int ?s)"
    using locate_slot [OF assms(2-4)] holds by blast
  then show ?thesis
    using assms(2) lanes ln
    by (cases payer payee rule: linorder_cases)
      (auto simp: readRawChannelBucketState_def getDirectionalLaneState_def Let_def lane_position_def
        min_def max_def word_le_def word_less_def)
qed

text \<open>
  C19: After the program has settled a payment the client reads the new cumulative amount and the
  reduced lock in that direction, and in every other direction what it read before.
\<close>

theorem client_sees_settlement:
  assumes "payer < 910000000" "payee < 910000000"
    and "apply_lane_settlement_in_data data payer payee target consumed = Inr data'"
  shows "(\<exists>settled locked.
      readRawChannelBucketLaneState data (uint payer) (uint payee) = Inr (settled, locked) \<and>
      readRawChannelBucketLaneState data' (uint payer) (uint payee) = Inr (uint target, locked - uint consumed))
    \<and> (\<forall>a b. a \<noteq> b \<and> a < 910000000 \<and> b < 910000000 \<and> (a, b) \<noteq> (payer, payee) \<and> holds_lane data a b \<longrightarrow>
      readRawChannelBucketLaneState data' (uint a) (uint b) = readRawChannelBucketLaneState data (uint a) (uint b))"
proof -
  from assms(3) have "bindR (apply_lane_settlement_in_data data payer payee target consumed) (\<lambda>d. Inr (d, ())) = Inr (data', ())"
    by simp
  from settle.op_ok [of "(target, consumed)", OF TrueI, simplified, OF this] obtain ln ln'
    where ln: "lanes data (payer, payee) = Some ln" "settle_lane target consumed ln = Inr (ln', ())"
      "lanes data' = (lanes data)((payer, payee) \<mapsto> ln')"
      and agree: "agree_outside (lane_position payer payee) 105 data data'" by auto
  have holds: "holds_lane data payer payee" "ln = lane_at data (lane_position payer payee)"
    using ln(1) by (simp_all add: lanes_iff)
  have holds': "holds_lane data' payer payee" "ln' = lane_at data' (lane_position payer payee)"
    using ln(3) lanes_iff [of data' payer payee ln'] by simp_all
  have ne: "payer \<noteq> payee" using holds(1) by (simp add: holds_lane_def)
  have "consumed \<le> locked_balance ln" "settled_cumulative ln' = target"
    "locked_balance ln' = locked_balance ln - consumed"
    using ln(2) by (auto simp: settle_lane_def cap_pending_def split: if_splits)
  then have amounts: "readRawChannelBucketLaneState data' (uint payer) (uint payee) =
      Inr (uint target, uint (locked_balance ln) - uint consumed)"
    using read_lane_amounts [OF ne assms(1,2) holds'(1)] holds'(2)
    by (simp add: uint_sub_lem [THEN iffD1] word_le_def)
  have others: "readRawChannelBucketLaneState data' (uint a) (uint b) = readRawChannelBucketLaneState data (uint a) (uint b)"
    if "a \<noteq> b" "a < 910000000" "b < 910000000" "(a, b) \<noteq> (payer, payee)" "holds_lane data a b" for a b
  proof -
    have "lane_at data' (lane_position a b) = lane_at data (lane_position a b)"
      using lanes_apart [OF holds(1) that(5)] that(4) holds_lane_length [OF that(5)]
      by (intro agree_lane_at [OF agree]) auto
    moreover have "holds_lane data' a b" using agree_holds_lane [OF holds(1) agree] that(5) by blast
    ultimately show ?thesis using read_lane_amounts [OF that(1-3)] that(5) by simp
  qed
  show ?thesis
    using amounts others read_lane_amounts [OF ne assms(1,2) holds(1)] holds(2) by blast
qed

theorem client_sees_settlement_witness:
  "\<exists>data data'. apply_lane_settlement_in_data data 3 5 40 0 = Inr data' \<and>
    (\<exists>locked. readRawChannelBucketLaneState data' (uint (3 :: u32)) (uint (5 :: u32)) = Inr (40, locked))"
proof -
  obtain data where data: "lanes data (3, 5) = Some (fresh_lane sample_signer)" using sample_run by blast
  from settle.op_run [where x = "(40, 0)", OF TrueI data]
  obtain data' where data': "apply_lane_settlement_in_data data 3 5 40 0 = Inr data'"
    by (auto simp: settle_lane_def bindR_eq_Inr)
  from client_sees_settlement [OF _ _ data'] data' show ?thesis by auto
qed

theorem client_channel_state_witness:
  "\<exists>data channel ln. readRawChannelBucketState Inr data (uint (5 :: u32)) (uint (3 :: u32)) = Inr channel
    \<and> getDirectionalLaneState channel (uint (5 :: u32)) (uint (3 :: u32)) = Inr (lane_view ln)"
proof -
  obtain data where "lanes data (3, 5) = Some (fresh_lane sample_signer)" using sample_run by blast
  then have "holds_lane data 5 3" by (simp add: lanes_iff holds_lane_def)
  then have "read_resolved_lane_core_from_data data 5 3 = Inr (lane_at data (lane_position 5 3))"
    by (simp add: lane_core_iff)
  from client_channel_state [of Inr 5 3 data, OF refl _ _ _ this] show ?thesis by auto
qed

end
