(* ===== verification/Formats.thy ===== *)
theory Formats
  imports Prelude
begin

text \<open>
  How the client renders amounts and bytes: \<open>formatAmount\<close>, \<open>trimHex\<close> and
  \<open>Buffer.toString("hex")\<close> as \<open>scripts/ryvo-protocol-demo.ts\<close> uses them. The amount shown to a
  user is exact: reading it back gives the raw amount.
\<close>

section \<open>Strings of JavaScript\<close>

text \<open>\<open>s.padStart(n, "0")\<close>, and \<open>s.replace(/0+$/g, "")\<close>.\<close>

definition pad_start :: "int \<Rightarrow> string \<Rightarrow> string" where
  "pad_start n s = replicate (nat n - length s) (CHR ''0'') @ s"

definition strip_zeros :: "string \<Rightarrow> string" where
  "strip_zeros s = rev (dropWhile ((=) (CHR ''0'')) (rev s))"

definition hex_digit :: "nat \<Rightarrow> char" where
  "hex_digit d = (if d < 10 then char_of (48 + d) else char_of (87 + d))"

definition hex_string :: "bytes \<Rightarrow> string" where
  "hex_string bs = concat (map (\<lambda>b. [hex_digit (unat b div 16), hex_digit (unat b mod 16)]) bs)"

section \<open>The formatting functions\<close>

definition formatAmount :: "int \<Rightarrow> int \<Rightarrow> string" where
  "formatAmount rawAmount decimals =
     (let raw = show_int rawAmount in
      if decimals = 0 then raw else
      let padded = pad_start (decimals + 1) raw;
          cut = int (length padded) - decimals;
          whole = js_subarray padded 0 cut;
          fractional = strip_zeros (js_subarray padded cut (int (length padded))) in
      if 0 < length fractional then whole @ ''.'' @ fractional else whole)"

definition trimHex :: "string \<Rightarrow> string" where
  "trimHex value =
     (let visible = 10 in
      if length value \<le> visible * 2 + 3 then value
      else js_subarray value 0 (int visible) @ ''...'' @
        js_subarray value (- int visible) (int (length value)))"

section \<open>Reading an amount back\<close>

text \<open>The digits before the point, and behind it as many digits as the token has decimals.\<close>

definition read_amount :: "nat \<Rightarrow> string \<Rightarrow> nat" where
  "read_amount decimals s =
     (let whole = takeWhile (\<lambda>c. c \<noteq> CHR ''.'') s; frac = drop (Suc (length whole)) s in
      read_digits (whole @ frac @ replicate (decimals - length frac) (CHR ''0'')))"

lemma strip_zeros_split: "\<exists>k. s = strip_zeros s @ replicate k (CHR ''0'')"
proof -
  have "rev s = takeWhile ((=) (CHR ''0'')) (rev s) @ dropWhile ((=) (CHR ''0'')) (rev s)" by simp
  then have "s = rev (dropWhile ((=) (CHR ''0'')) (rev s)) @ rev (takeWhile ((=) (CHR ''0'')) (rev s))"
    by (metis rev_append rev_rev_ident)
  moreover have "\<forall>c \<in> set (takeWhile ((=) (CHR ''0'')) (rev s)). c = CHR ''0''"
    by (metis set_takeWhileD)
  then have "rev (takeWhile ((=) (CHR ''0'')) (rev s)) =
      replicate (length (takeWhile ((=) (CHR ''0'')) (rev s))) (CHR ''0'')"
    by (metis replicate_eqI rev_replicate)
  ultimately show ?thesis unfolding strip_zeros_def by metis
qed

lemma read_digits_zeros: "read_digits (replicate k (CHR ''0'') @ s) = read_digits s"
proof -
  have "foldl (\<lambda>acc c. 10 * acc + digit_value c) 0 (replicate k (CHR ''0'')) = 0"
    by (induction k) (simp_all add: digit_value_def flip: replicate_append_same)
  then show ?thesis by (simp add: read_digits_def)
qed

lemma point_no_digit: "is_digit c \<Longrightarrow> c \<noteq> CHR ''.''"
  by (auto simp: is_digit_def)

lemma takeWhile_digits:
  "(\<And>c. c \<in> set w \<Longrightarrow> is_digit c) \<Longrightarrow> takeWhile (\<lambda>c. c \<noteq> CHR ''.'') (w @ ''.'' @ f) = w"
  "(\<And>c. c \<in> set w \<Longrightarrow> is_digit c) \<Longrightarrow> takeWhile (\<lambda>c. c \<noteq> CHR ''.'') w = w"
  using point_no_digit by (auto simp: takeWhile_append2 takeWhile_eq_all_conv)

lemma read_amount_simps:
  assumes "\<And>c. c \<in> set w \<Longrightarrow> is_digit c"
  shows "read_amount d (w @ ''.'' @ f) = read_digits (w @ f @ replicate (d - length f) (CHR ''0''))"
    and "read_amount d w = read_digits (w @ replicate d (CHR ''0''))"
proof -
  have point: "takeWhile (\<lambda>c. c \<noteq> CHR ''.'') (w @ ''.'' @ f) = w"
    by (rule takeWhile_digits(1)) (rule assms)
  have "drop (Suc (length w)) (w @ ''.'' @ f) = f" by simp
  with point show "read_amount d (w @ ''.'' @ f) = read_digits (w @ f @ replicate (d - length f) (CHR ''0''))"
    by (simp only: read_amount_def Let_def)
  have whole: "takeWhile (\<lambda>c. c \<noteq> CHR ''.'') w = w"
    by (rule takeWhile_digits(2)) (rule assms)
  have "drop (Suc (length w)) w = []" by simp
  with whole show "read_amount d w = read_digits (w @ replicate d (CHR ''0''))"
    by (simp only: read_amount_def Let_def) simp
qed

lemma amount_read_back: "read_amount decimals (formatAmount (int raw) (int decimals)) = raw"
proof (cases "decimals = 0")
  case True
  then show ?thesis
    by (simp add: formatAmount_def show_int_def read_amount_simps(2) [OF show_nat_digits])
next
  case False
  let ?padded = "pad_start (int decimals + 1) (show_nat raw)"
  let ?cut = "length ?padded - decimals"
  let ?whole = "take ?cut ?padded" and ?all = "drop ?cut ?padded"
  let ?frac = "strip_zeros ?all"
  have long: "decimals < length ?padded"
    by (simp add: pad_start_def nat_add_distrib)
  have digits: "is_digit c" if "c \<in> set ?padded" for c
    using that show_nat_digits [of c raw] by (auto simp: pad_start_def is_digit_def split: if_splits)
  have whole: "is_digit c" if "c \<in> set ?whole" for c
    using that digits by (meson in_set_takeD)
  obtain k where k: "?all = ?frac @ replicate k (CHR ''0'')" using strip_zeros_split by blast
  have "length ?all = decimals" using long by simp
  then have len: "k = decimals - length ?frac" using k by (metis diff_add_inverse length_append length_replicate)
  have "read_digits (?whole @ ?frac @ replicate (decimals - length ?frac) (CHR ''0'')) = read_digits ?padded"
    using k len by (metis append_take_drop_id)
  also have "\<dots> = raw"
    by (simp add: pad_start_def read_digits_zeros)
  finally have value_eq: "read_digits (?whole @ ?frac @ replicate (decimals - length ?frac) (CHR ''0'')) = raw" .
  have "formatAmount (int raw) (int decimals) = (if ?frac = [] then ?whole else ?whole @ ''.'' @ ?frac)"
    using False long
    by (simp add: formatAmount_def show_int_def Let_def js_subarray_def js_index_def nat_diff_distrib'
        flip: of_nat_diff)
  then show ?thesis
    using value_eq read_amount_simps [OF whole] by (auto split: if_splits)
qed

section \<open>Properties\<close>

text \<open>
  No display of an amount loses a unit: whatever the number of decimals of the token, reading
  the formatted amount back gives the raw amount, so different amounts are never shown alike.
\<close>

theorem formatAmount_exact:
  "read_amount decimals (formatAmount (int raw) (int decimals)) = raw
    \<and> (formatAmount (int raw) (int decimals) = formatAmount (int raw') (int decimals) \<longleftrightarrow> raw = raw')"
  using amount_read_back [of decimals raw] amount_read_back [of decimals raw'] by metis

end
