(* ===== verification/Messages.thy ===== *)
theory Messages
  imports Compact Formats
begin

text \<open>
  The signed messages: commitments (\<open>createCommitmentMessage\<close> of the client, and
  \<open>parse_commitment_message\<close> of \<open>instructions/settle_individual.rs\<close>) and clearing rounds
  (\<open>createClearingRoundMessage\<close>, and \<open>parse_clearing_round_layout_with_version\<close> of
  \<open>instructions/clearing_round_message.rs\<close>), with the previews the client prints of them.

  The message domain of the program is 16 bytes (\<open>GlobalConfig::message_domain\<close>).
\<close>

section \<open>Wallets\<close>

record keypair =
  publicKey :: pubkey
  secretKey :: bytes

record demo_wallet =
  walletName :: string
  walletKeypair :: keypair
  secretPath :: string
  participantPda :: pubkey
  walletParticipantId :: int
  tokenAccount :: pubkey
  blsSecretScalar :: int
  blsPublicKeyOf :: bytes

section \<open>The client\<close>

type_synonym bn_le = "int \<Rightarrow> nat \<Rightarrow> bytes js"

text \<open>\<open>Buffer.from([n, ...])\<close> and \<open>n & 0xff\<close> keep the value modulo 256.\<close>

definition js_octet :: "int \<Rightarrow> byte" where
  "js_octet n = word_of_int n"

definition createCommitmentMessage ::
  "bn_le \<Rightarrow> int \<Rightarrow> int \<Rightarrow> int option \<Rightarrow> int option \<Rightarrow> int \<Rightarrow> bytes \<Rightarrow> bytes js" where
  "createCommitmentMessage bn payerId payeeId committed amount tokenId messageDomain =
     (case (case committed of Some a \<Rightarrow> Some a | None \<Rightarrow> amount) of
        None \<Rightarrow> throwError ''createCommitmentMessage requires committedAmount (or amount alias)''
      | Some committedAmount \<Rightarrow>
          bindR (encodeCompactU64 payerId) (\<lambda>payer.
          bindR (encodeCompactU64 payeeId) (\<lambda>payee.
          bindR (bn tokenId 2) (\<lambda>token.
          bindR (encodeCompactU64 committedAmount) (\<lambda>amount_bytes.
          Inr ([0x01, 0x05] @ messageDomain @ [0x00] @ payer @ payee @ token @ amount_bytes))))))"

record channel_entry_spec =
  payeeRef :: int
  targetCumulative :: int

record participant_block_spec =
  blockParticipantId :: int
  blockEntries :: "channel_entry_spec list"

definition entry_part :: "channel_entry_spec \<Rightarrow> bytes js" where
  "entry_part entry =
     bindR (encodeCompactU64 (targetCumulative entry)) (\<lambda>target. Inr (js_octet (payeeRef entry) # target))"

definition block_part :: "participant_block_spec \<Rightarrow> bytes js" where
  "block_part block =
     bindR (encodeCompactU64 (blockParticipantId block)) (\<lambda>participant.
     bindR (mapR entry_part (blockEntries block)) (\<lambda>entries.
     Inr (participant @ [js_octet (int (length (blockEntries block)))] @ concat entries)))"

definition createClearingRoundMessage ::
  "bn_le \<Rightarrow> int \<Rightarrow> bytes \<Rightarrow> participant_block_spec list \<Rightarrow> int option \<Rightarrow> bytes js" where
  "createClearingRoundMessage bn tokenId messageDomain blocks version =
     bindR (mapR block_part blocks) (\<lambda>dynamicParts.
     bindR (bn tokenId 2) (\<lambda>token.
     Inr ([0x02, js_octet (case version of Some v \<Rightarrow> v | None \<Rightarrow> 0x04)] @ messageDomain @ token @
       [js_octet (int (length blocks))] @ concat dynamicParts)))"

definition PKCS8_ED25519_PREFIX :: bytes where
  "PKCS8_ED25519_PREFIX =
     [0x30, 0x2e, 0x02, 0x01, 0x00, 0x30, 0x05, 0x06, 0x03, 0x2b, 0x65, 0x70, 0x04, 0x22, 0x04, 0x20]"

text \<open>Node's Ed25519 signature, from the DER form of a private key, is a parameter.\<close>

type_synonym ed25519_sign = "bytes \<Rightarrow> bytes \<Rightarrow> bytes"

definition signEd25519Message :: "ed25519_sign \<Rightarrow> bytes \<Rightarrow> keypair \<Rightarrow> bytes" where
  "signEd25519Message cryptoSign message signer =
     cryptoSign (PKCS8_ED25519_PREFIX @ js_subarray (secretKey signer) 0 32) message"

section \<open>The program\<close>

record parsed_commitment =
  payer_id :: u32
  payee_id :: u32
  commitment_token_id :: u16
  committed_amount :: u64
  authorized_settler :: "pubkey option"

definition parse_commitment_message :: "bytes \<Rightarrow> bytes \<Rightarrow> parsed_commitment vres" where
  "parse_commitment_message msg message_domain =
     requireR (length msg \<ge> 24) InvalidCommitmentMessage (
     requireR (msg ! 0 = 0x01 \<and> msg ! 1 = 0x05) InvalidCommitmentMessage (
     requireR (subarray 2 16 msg = message_domain) InvalidMessageDomain (
     let flags = msg ! 18 in
     requireR (flags AND NOT 1 = 0) InvalidCommitmentMessage (
     bindR (read_varint_u32_commitment msg 19) (\<lambda>(payer, offset1).
     bindR (read_varint_u32_commitment msg offset1) (\<lambda>(payee, offset2).
     requireR (length msg \<ge> offset2 + 2) InvalidCommitmentMessage (
     let token = word_of_nat (le_nat (subarray offset2 2 msg)) in
     bindR (read_varint_u64_commitment msg (offset2 + 2)) (\<lambda>(amount, offset3).
     bindR (if flags AND 1 \<noteq> 0
            then requireR (length msg \<ge> offset3 + 32) InvalidCommitmentMessage
              (Inr (Some (subarray offset3 32 msg), offset3 + 32))
            else Inr (None, offset3)) (\<lambda>(settler, offset4).
     requireR (offset4 = length msg) InvalidCommitmentMessage
       (Inr \<lparr>payer_id = payer, payee_id = payee, commitment_token_id = token,
             committed_amount = amount, authorized_settler = settler\<rparr>))))))))))"

record participant_block_meta =
  meta_participant_id :: u32
  entry_count :: byte
  entries_offset :: nat

record parsed_layout =
  layout_token_id :: u16
  layout_blocks :: "participant_block_meta list"
  channel_count :: nat

definition parse_clearing_round_header_with_version ::
  "bytes \<Rightarrow> bytes \<Rightarrow> byte \<Rightarrow> (u16 \<times> byte \<times> nat) vres" where
  "parse_clearing_round_header_with_version msg message_domain expected_version =
     requireR (length msg \<ge> 21) InvalidClearingRoundMessage (
     requireR (msg ! 0 = 0x02 \<and> msg ! 1 = expected_version) InvalidClearingRoundMessage (
     requireR (subarray 2 16 msg = message_domain) InvalidMessageDomain (
     let token = word_of_nat (le_nat (subarray 18 2 msg)); participant_count = msg ! 20 in
     requireR (participant_count > 0) InvalidClearingRoundMessage
       (Inr (token, participant_count, 21)))))"

definition parse_channel_entry :: "bytes \<Rightarrow> nat \<Rightarrow> ((byte \<times> u64) \<times> nat) vres" where
  "parse_channel_entry msg offset =
     requireR (offset < length msg) InvalidClearingRoundMessage (
     bindR (read_varint_u64 msg (offset + 1)) (\<lambda>(target, offset').
     Inr ((msg ! offset, target), offset')))"

text \<open>One round of the outer loop; the inner loop discards the entries and moves the offset.\<close>

definition parse_block :: "bytes \<Rightarrow> nat \<Rightarrow> (participant_block_meta \<times> nat) vres" where
  "parse_block msg offset =
     bindR (read_varint_u32 msg offset) (\<lambda>(participant, offset1).
     requireR (offset1 < length msg) InvalidClearingRoundMessage (
     let count = msg ! offset1 in
     bindR (decode_many parse_channel_entry (unat count) msg (offset1 + 1)) (\<lambda>(_, offset2).
     Inr (\<lparr>meta_participant_id = participant, entry_count = count, entries_offset = offset1 + 1\<rparr>,
          offset2))))"

definition parse_clearing_round_layout_with_version :: "bytes \<Rightarrow> bytes \<Rightarrow> byte \<Rightarrow> parsed_layout vres" where
  "parse_clearing_round_layout_with_version msg message_domain expected_version =
     bindR (parse_clearing_round_header_with_version msg message_domain expected_version)
       (\<lambda>(token, participant_count, offset).
     bindR (decode_many parse_block (unat participant_count) msg offset) (\<lambda>(blocks, offset').
     requireR (offset' = length msg) InvalidClearingRoundMessage
       (Inr \<lparr>layout_token_id = token, layout_blocks = blocks,
             channel_count = sum_list (map (\<lambda>b. unat (entry_count b)) blocks)\<rparr>)))"

section \<open>Previews\<close>

text \<open>
  The previews repeat the fields of the message, with names and formatted amounts. Their \<open>version\<close>
  field is a literal of the source.
\<close>

record commitment_preview_input =
  inputPayer :: demo_wallet
  inputPayee :: demo_wallet
  inputCommittedAmount :: int
  inputTokenId :: int

record commitment_payload =
  payloadKind :: int
  payloadVersion :: int
  payloadMessageDomain :: string
  payloadFlags :: int
  payloadPayer :: string
  payloadPayee :: string
  payloadPayerId :: int
  payloadPayeeId :: int
  payloadTokenId :: int
  payloadCommittedAmount :: string

record direct_commitment_preview =
  directSignedBy :: string
  directPayload :: commitment_payload
  directSignature :: string

record signed_commitment_preview =
  previewExample :: direct_commitment_preview
  previewSignatures :: "string list"

definition signature_hex :: "bytes \<Rightarrow> string" where
  "signature_hex signature = trimHex (''0x'' @ hex_string signature)"

definition commitment_message_of :: "bn_le \<Rightarrow> bytes \<Rightarrow> commitment_preview_input \<Rightarrow> bytes js" where
  "commitment_message_of bn messageDomain input =
     createCommitmentMessage bn (walletParticipantId (inputPayer input))
       (walletParticipantId (inputPayee input)) (Some (inputCommittedAmount input)) None
       (inputTokenId input) messageDomain"

definition buildSignedCommitmentPreview ::
  "bn_le \<Rightarrow> ed25519_sign \<Rightarrow> bytes \<Rightarrow> int \<Rightarrow> string \<Rightarrow> commitment_preview_input list \<Rightarrow> signed_commitment_preview js" where
  "buildSignedCommitmentPreview bn cryptoSign messageDomain decimals tokenSymbol inputs =
     (if length inputs = 0 then throwError ''At least one commitment preview input is required'' else
      bindR (mapR (\<lambda>input. bindR (commitment_message_of bn messageDomain input) (\<lambda>message.
        Inr \<lparr>directSignedBy = walletName (inputPayer input),
             directPayload = \<lparr>payloadKind = 1, payloadVersion = 4,
               payloadMessageDomain = trimHex (hex_string messageDomain), payloadFlags = 0,
               payloadPayer = walletName (inputPayer input), payloadPayee = walletName (inputPayee input),
               payloadPayerId = walletParticipantId (inputPayer input),
               payloadPayeeId = walletParticipantId (inputPayee input),
               payloadTokenId = inputTokenId input,
               payloadCommittedAmount =
                 formatAmount (inputCommittedAmount input) decimals @ '' '' @ tokenSymbol\<rparr>,
             directSignature = signature_hex
               (signEd25519Message cryptoSign message (walletKeypair (inputPayer input)))\<rparr>)) inputs) (\<lambda>entries.
      Inr \<lparr>previewExample = entries ! 0, previewSignatures = map directSignature entries\<rparr>))"

record bundle_entry =
  entrySignedBy :: string
  entryPayerId :: int
  entryCommittedAmount :: string
  entrySignature :: string

record bundle_preview =
  bundleKind :: int
  bundleVersion :: int
  bundleMessageDomain :: string
  bundlePayee :: string
  bundlePayeeId :: int
  bundleTokenId :: int
  bundleToken :: string
  bundleEntryCount :: int
  bundleEntries :: "bundle_entry list"

definition buildCommitmentBundlePayloadPreview ::
  "bn_le \<Rightarrow> ed25519_sign \<Rightarrow> bytes \<Rightarrow> int \<Rightarrow> int \<Rightarrow> string \<Rightarrow> demo_wallet \<Rightarrow>
    commitment_preview_input list \<Rightarrow> bundle_preview js" where
  "buildCommitmentBundlePayloadPreview bn cryptoSign messageDomain decimals token tokenSymbol payee inputs =
     bindR (mapR (\<lambda>input. bindR (commitment_message_of bn messageDomain input) (\<lambda>message.
       Inr \<lparr>entrySignedBy = walletName (inputPayer input),
            entryPayerId = walletParticipantId (inputPayer input),
            entryCommittedAmount = formatAmount (inputCommittedAmount input) decimals @ '' '' @ tokenSymbol,
            entrySignature = signature_hex
              (signEd25519Message cryptoSign message (walletKeypair (inputPayer input)))\<rparr>)) inputs) (\<lambda>entries.
     Inr \<lparr>bundleKind = 1, bundleVersion = 4, bundleMessageDomain = trimHex (hex_string messageDomain),
          bundlePayee = walletName payee, bundlePayeeId = walletParticipantId payee,
          bundleTokenId = token, bundleToken = tokenSymbol, bundleEntryCount = int (length inputs),
          bundleEntries = entries\<rparr>)"

record round_preview_entry =
  roundPayeeRef :: int
  roundPayee :: demo_wallet
  roundTargetCumulative :: int

record round_preview_block =
  roundParticipant :: demo_wallet
  roundEntries :: "round_preview_entry list"

record round_entry_view =
  viewChannel :: string
  viewPayeeRef :: int
  viewTargetCumulative :: string

record round_block_view =
  viewParticipant :: string
  viewParticipantId :: int
  viewEntryCount :: int
  viewEntries :: "round_entry_view list"

record round_preview =
  roundKind :: int
  roundVersion :: int
  roundMessageDomain :: string
  roundTokenId :: int
  roundToken :: string
  roundParticipantCount :: int
  roundChannelCount :: int
  roundCosignedBy :: "string list"
  roundParticipantBlocks :: "round_block_view list"
  roundSignatures :: "string list"

definition round_block_spec :: "round_preview_block \<Rightarrow> participant_block_spec" where
  "round_block_spec block =
     \<lparr>blockParticipantId = walletParticipantId (roundParticipant block),
      blockEntries = map (\<lambda>entry. \<lparr>payeeRef = roundPayeeRef entry,
        targetCumulative = roundTargetCumulative entry\<rparr>) (roundEntries block)\<rparr>"

definition buildClearingRoundPayloadPreview ::
  "bn_le \<Rightarrow> ed25519_sign \<Rightarrow> bytes \<Rightarrow> int \<Rightarrow> string \<Rightarrow> int \<Rightarrow> round_preview_block list \<Rightarrow> int option \<Rightarrow>
    bytes option \<Rightarrow> round_preview js" where
  "buildClearingRoundPayloadPreview bn cryptoSign messageDomain token tokenSymbol decimals blocks version aggregate =
     (let activeBlocks = filter (\<lambda>block. 0 < length (roundEntries block)) blocks in
      bindR (createClearingRoundMessage bn token messageDomain (map round_block_spec blocks) version) (\<lambda>message.
      Inr \<lparr>roundKind = 2, roundVersion = (case version of Some v \<Rightarrow> v | None \<Rightarrow> 4),
        roundMessageDomain = trimHex (hex_string messageDomain), roundTokenId = token, roundToken = tokenSymbol,
        roundParticipantCount = int (length blocks),
        roundChannelCount = foldl (\<lambda>sum block. sum + int (length (roundEntries block))) 0 blocks,
        roundCosignedBy = map (\<lambda>block. walletName (roundParticipant block)) activeBlocks,
        roundParticipantBlocks = map (\<lambda>block.
          \<lparr>viewParticipant = walletName (roundParticipant block),
           viewParticipantId = walletParticipantId (roundParticipant block),
           viewEntryCount = int (length (roundEntries block)),
           viewEntries = map (\<lambda>entry.
             \<lparr>viewChannel = walletName (roundParticipant block) @ ''->'' @ walletName (roundPayee entry),
              viewPayeeRef = roundPayeeRef entry,
              viewTargetCumulative = formatAmount (roundTargetCumulative entry) decimals @ '' '' @ tokenSymbol\<rparr>)
             (roundEntries block)\<rparr>) blocks,
        roundSignatures = (case aggregate of
            Some signature \<Rightarrow> [signature_hex signature]
          | None \<Rightarrow> map (\<lambda>block. signature_hex
              (signEd25519Message cryptoSign message (walletKeypair (roundParticipant block)))) activeBlocks)\<rparr>))"

section \<open>Commitments are read back\<close>

lemma encode_ok [simp]: "0 \<le> v \<Longrightarrow> encodeCompactU64 v = Inr (compact_loop v)"
  by (simp add: encodeCompactU64_def)

lemma parse_commitment_bytes:
  assumes "length domain = 16" "length domain' = 16" "0 \<le> payer" "0 \<le> payee" "0 \<le> amount" "t < 2 ^ 16"
  shows "parse_commitment_message
      ([0x01, 0x05] @ domain @ [0x00] @ compact_loop payer @ compact_loop payee @ le_bytes 2 t @ compact_loop amount)
      domain' =
    (if domain \<noteq> domain' then Inl InvalidMessageDomain
     else if payer < 2 ^ 32 \<and> payee < 2 ^ 32 \<and> amount < 2 ^ 64 then
       Inr \<lparr>payer_id = word_of_int payer, payee_id = word_of_int payee, commitment_token_id = word_of_nat t,
            committed_amount = word_of_int amount, authorized_settler = None\<rparr>
     else Inl InvalidCommitmentMessage)"
proof -
  let ?P = "compact_loop payer" and ?Q = "compact_loop payee" and ?A = "compact_loop amount"
  let ?head = "[0x01, 0x05] @ domain @ [0x00] :: bytes"
  let ?msg = "?head @ ?P @ ?Q @ le_bytes 2 t @ ?A"
  have head: "length ?head = 19" using assms by simp
  have msg: "[0x01, 0x05] @ domain @ [0x00] @ ?P @ ?Q @ le_bytes 2 t @ ?A = ?msg" by simp
  have len: "24 \<le> length ?msg"
    using compact_loop_pos [of payer] compact_loop_pos [of payee] compact_loop_pos [of amount] head
    by (simp del: length_greater_0_conv)
  have fixed: "?msg ! 0 = 0x01" "?msg ! 1 = 0x05" "?msg ! 18 = 0" "subarray 2 16 ?msg = domain"
    using assms(1) by (simp_all add: nth_append subarray_def)
  have p: "read_varint_u32_commitment ?msg 19 =
      (if payer < 2 ^ 32 then Inr (word_of_int payer, 19 + length ?P) else Inl InvalidCommitmentMessage)"
    using read_u32_compact(2) [OF assms(3), of ?head "?Q @ le_bytes 2 t @ ?A"] head by simp
  have q: "read_varint_u32_commitment ?msg (19 + length ?P) =
      (if payee < 2 ^ 32 then Inr (word_of_int payee, 19 + length ?P + length ?Q)
       else Inl InvalidCommitmentMessage)"
    using read_u32_compact(2) [OF assms(4), of "?head @ ?P" "le_bytes 2 t @ ?A"] head by simp
  let ?o = "19 + length ?P + length ?Q"
  have token: "subarray ?o 2 ?msg = le_bytes 2 t"
    using subarray_middle [of "?head @ ?P @ ?Q" "le_bytes 2 t" ?A] head by (simp add: add.assoc)
  have a: "read_varint_u64_commitment ?msg (?o + 2) =
      (if amount < 2 ^ 64 then Inr (word_of_int amount, ?o + 2 + length ?A) else Inl InvalidCommitmentMessage)"
    using read_varint_loop_compact [OF assms(5), of InvalidCommitmentMessage "?head @ ?P @ ?Q @ le_bytes 2 t" "[]"] head
    by (simp add: read_varint_u64_commitment_def add.assoc)
  have total: "length ?msg = ?o + 2 + length ?A" using head by simp
  define m where "m = ?msg"
  note facts = len fixed p q token a total
  note facts' = facts [folded m_def]
  show ?thesis
    unfolding msg m_def [symmetric]
    using facts' assms(6)
    by (auto simp: parse_commitment_message_def le_nat_le_bytes Let_def requireR_def)
qed

section \<open>Clearing rounds are read back\<close>

type_synonym round_block = "u32 \<times> (byte \<times> u64) list"

definition enc_entry :: "byte \<times> u64 \<Rightarrow> bytes" where
  "enc_entry e = fst e # compact_loop (uint (snd e))"

definition enc_block :: "round_block \<Rightarrow> bytes" where
  "enc_block b = compact_loop (uint (fst b)) @ [word_of_nat (length (snd b))] @ concat (map enc_entry (snd b))"

interpretation entry: prefix_codec "\<lambda>_. True" enc_entry parse_channel_entry
proof unfold_locales
  fix e :: "byte \<times> u64" and pre rest
  have "read_varint_u64 ((pre @ [fst e]) @ compact_loop (uint (snd e)) @ rest) (length (pre @ [fst e])) =
      Inr (snd e, length (pre @ [fst e]) + length (compact_loop (uint (snd e))))"
    by (rule varint.dec_enc) simp
  then show "parse_channel_entry (pre @ enc_entry e @ rest) (length pre) = Inr (e, length pre + length (enc_entry e))"
    by (simp add: parse_channel_entry_def enc_entry_def nth_append)
qed

interpretation entry_list: list_codec "\<lambda>_. True" enc_entry parse_channel_entry n for n
  by unfold_locales

lemma entries_decoded:
  "length es = n \<Longrightarrow> decode_many parse_channel_entry n (pre @ concat (map enc_entry es) @ rest) (length pre) =
    Inr (es, length pre + length (concat (map enc_entry es)))"
  using entry_list.dec_enc [of es n pre rest] by simp

lemma unat_count: "n < 256 \<Longrightarrow> unat (word_of_nat n :: byte) = n"
  by (simp add: unat_of_nat)

definition block_meta :: "nat \<Rightarrow> round_block \<Rightarrow> participant_block_meta" where
  "block_meta off b =
     \<lparr>meta_participant_id = fst b, entry_count = word_of_nat (length (snd b)),
      entries_offset = off + length (compact_loop (uint (fst b))) + 1\<rparr>"

lemma block_decoded:
  assumes "length (snd b) < 256"
  shows "parse_block (pre @ enc_block b @ rest) (length pre) =
    Inr (block_meta (length pre) b, length pre + length (enc_block b))"
proof -
  let ?c = "compact_loop (uint (fst b))" and ?n = "word_of_nat (length (snd b)) :: byte"
  let ?es = "concat (map enc_entry (snd b))"
  have "read_varint_u32 (pre @ ?c @ ([?n] @ ?es @ rest)) (length pre) = Inr (fst b, length pre + length ?c)"
    by (rule varint32.dec_enc) simp
  moreover have "decode_many parse_channel_entry (length (snd b)) ((pre @ ?c @ [?n]) @ ?es @ rest) (length (pre @ ?c @ [?n])) =
      Inr (snd b, length (pre @ ?c @ [?n]) + length ?es)"
    by (rule entries_decoded) simp
  moreover have "(pre @ ?c @ [?n] @ ?es @ rest) ! (length pre + length ?c) = ?n"
    by (simp add: nth_append)
  ultimately show ?thesis
    using assms by (simp add: parse_block_def enc_block_def block_meta_def unat_count Let_def)
qed

fun block_metas :: "nat \<Rightarrow> round_block list \<Rightarrow> participant_block_meta list" where
  "block_metas off [] = []"
| "block_metas off (b # bs) = block_meta off b # block_metas (off + length (enc_block b)) bs"

lemma blocks_decoded:
  assumes "\<And>b. b \<in> set bs \<Longrightarrow> length (snd b) < 256"
  shows "decode_many parse_block (length bs) (pre @ concat (map enc_block bs) @ rest) (length pre) =
    Inr (block_metas (length pre) bs, length pre + length (concat (map enc_block bs)))"
  using assms
proof (induction bs arbitrary: pre)
  case (Cons b bs)
  have "decode_many parse_block (length bs) ((pre @ enc_block b) @ concat (map enc_block bs) @ rest) (length (pre @ enc_block b)) =
      Inr (block_metas (length (pre @ enc_block b)) bs, length (pre @ enc_block b) + length (concat (map enc_block bs)))"
    by (rule Cons.IH) (simp add: Cons.prems)
  then show ?case
    using block_decoded [of b pre "concat (map enc_block bs) @ rest"] Cons.prems by (simp add: add.assoc)
qed simp

text \<open>What the settlement reads at the offset of a block, as the code does in its second pass.\<close>

definition recovered_block :: "bytes \<Rightarrow> participant_block_meta \<Rightarrow> round_block" where
  "recovered_block msg m =
     (meta_participant_id m,
      case decode_many parse_channel_entry (unat (entry_count m)) msg (entries_offset m) of
        Inr (es, _) \<Rightarrow> es | Inl _ \<Rightarrow> [])"

lemma recovered_blocks:
  assumes "\<And>b. b \<in> set bs \<Longrightarrow> length (snd b) < 256"
  shows "map (recovered_block (pre @ concat (map enc_block bs) @ rest)) (block_metas (length pre) bs) = bs"
  using assms
proof (induction bs arbitrary: pre)
  case (Cons b bs)
  let ?c = "compact_loop (uint (fst b))" and ?n = "word_of_nat (length (snd b)) :: byte"
  have "decode_many parse_channel_entry (length (snd b))
      ((pre @ ?c @ [?n]) @ concat (map enc_entry (snd b)) @ (concat (map enc_block bs) @ rest)) (length (pre @ ?c @ [?n])) =
      Inr (snd b, length (pre @ ?c @ [?n]) + length (concat (map enc_entry (snd b))))"
    by (rule entries_decoded) simp
  then have "recovered_block (pre @ concat (map enc_block (b # bs)) @ rest) (block_meta (length pre) b) = b"
    using Cons.prems [of b]
    by (simp add: recovered_block_def block_meta_def enc_block_def unat_count prod_eq_iff)
  moreover have "map (recovered_block ((pre @ enc_block b) @ concat (map enc_block bs) @ rest))
      (block_metas (length (pre @ enc_block b)) bs) = bs"
    by (rule Cons.IH) (simp add: Cons.prems)
  ultimately show ?case by simp
qed simp

lemma block_metas_count:
  "(\<And>b. b \<in> set bs \<Longrightarrow> length (snd b) < 256) \<Longrightarrow>
    map (\<lambda>m. unat (entry_count m)) (block_metas off bs) = map (\<lambda>b. length (snd b)) bs"
  by (induction bs arbitrary: off) (auto simp: block_meta_def unat_count)

section \<open>The client writes that encoding\<close>

definition spec_of_block :: "round_block \<Rightarrow> participant_block_spec" where
  "spec_of_block b =
     \<lparr>blockParticipantId = uint (fst b),
      blockEntries = map (\<lambda>e. \<lparr>payeeRef = uint (fst e), targetCumulative = uint (snd e)\<rparr>) (snd b)\<rparr>"

lemma entry_part_spec: "entry_part \<lparr>payeeRef = uint r, targetCumulative = uint t\<rparr> = Inr (enc_entry (r, t))"
  by (simp add: entry_part_def enc_entry_def js_octet_def)

lemma block_part_spec: "block_part (spec_of_block b) = Inr (enc_block b)"
proof -
  have "mapR entry_part (map (\<lambda>e. \<lparr>payeeRef = uint (fst e), targetCumulative = uint (snd e)\<rparr>) (snd b)) =
      Inr (map enc_entry (snd b))"
    by (induction "snd b" arbitrary: b rule: list.induct)
      (simp_all add: mapR_eq_Inr_iff list_all2_map1 list_all2_map2 list_all2_same entry_part_spec)
  then show ?thesis by (simp add: block_part_def spec_of_block_def enc_block_def js_octet_def)
qed

lemma clearing_message_bytes:
  assumes "\<And>n k. 0 \<le> n \<Longrightarrow> n < 256 ^ k \<Longrightarrow> bn n k = Inr (le_bytes k (nat n))"
  shows "createClearingRoundMessage bn (uint (token :: u16)) domain (map spec_of_block bs) (Some v) =
    Inr (([0x02, word_of_int v] @ domain @ le_bytes 2 (unat token) @ [word_of_nat (length bs)]) @
      concat (map enc_block bs))"
proof -
  have "mapR block_part (map spec_of_block bs) = Inr (map enc_block bs)"
    by (simp add: mapR_eq_Inr_iff list_all2_map1 list_all2_map2 list_all2_same block_part_spec)
  moreover have "bn (uint token) 2 = Inr (le_bytes 2 (unat token))"
    using assms [of "uint token" 2] uint_lt2p [of token] by simp
  ultimately show ?thesis by (simp add: createClearingRoundMessage_def js_octet_def)
qed

lemma clearing_header_bytes:
  assumes "length domain = 16" "length domain' = 16"
    and "m = ([0x02, v] @ domain @ le_bytes 2 (unat token) @ [n]) @ rest"
  shows "parse_clearing_round_header_with_version m domain' v' =
    (if v \<noteq> v' then Inl InvalidClearingRoundMessage else if domain \<noteq> domain' then Inl InvalidMessageDomain
     else if n = 0 then Inl InvalidClearingRoundMessage else Inr (token, n, 21))"
proof -
  have "length m = 21 + length rest" using assms by simp
  moreover have "m ! 0 = 0x02" "m ! 1 = v" "subarray 2 16 m = domain"
    using assms by (simp_all add: nth_append subarray_def)
  moreover have "m ! 20 = n" using assms by (simp add: nth_append)
  moreover have "subarray 18 2 m = le_bytes 2 (unat token)"
    using subarray_middle [of "[0x02, v] @ domain" "le_bytes 2 (unat token)" "[n] @ rest"] assms by simp
  moreover have "\<not> n > 0 \<longleftrightarrow> n = 0" by (simp add: word_gt_0)
  ultimately show ?thesis
    by (auto simp: parse_clearing_round_header_with_version_def requireR_def Let_def)
qed

section \<open>Properties\<close>

lemma commitment_read:
  assumes bn: "\<And>n k. 0 \<le> n \<Longrightarrow> n < 256 ^ k \<Longrightarrow> bn n k = Inr (le_bytes k (nat n))"
    and "length domain = 16" "length domain' = 16" "0 \<le> payer" "0 \<le> payee" "0 \<le> amount"
  shows "\<exists>msg. createCommitmentMessage bn payer payee (Some amount) alias (uint (token :: u16)) domain = Inr msg
    \<and> parse_commitment_message msg domain' =
      (if domain \<noteq> domain' then Inl InvalidMessageDomain
       else if payer < 2 ^ 32 \<and> payee < 2 ^ 32 \<and> amount < 2 ^ 64 then
         Inr \<lparr>payer_id = word_of_int payer, payee_id = word_of_int payee, commitment_token_id = token,
              committed_amount = word_of_int amount, authorized_settler = None\<rparr>
       else Inl InvalidCommitmentMessage)"
proof -
  have t: "unat token < 2 ^ 16" using unsigned_less [of token] by simp
  have "bn (uint token) 2 = Inr (le_bytes 2 (unat token))"
    using bn [of "uint token" 2] uint_lt2p [of token] by simp
  then show ?thesis
    using parse_commitment_bytes [OF assms(2-6) t] assms(4-6)
    by (simp add: createCommitmentMessage_def)
qed

text \<open>
  C8: What the program parses from a commitment the client created: the same parties, token and
  amount and no settler, if the domain is its own and the ids fit 32 and the amount 64 bits; with
  another domain, or a number out of range, it rejects the message.
\<close>

theorem commitment_roundtrip:
  assumes bn: "\<And>n k. 0 \<le> n \<Longrightarrow> n < 256 ^ k \<Longrightarrow> bn n k = Inr (le_bytes k (nat n))"
    and "length domain = 16" "length domain' = 16" "0 \<le> payer" "0 \<le> payee" "0 \<le> amount"
  shows "\<exists>msg. createCommitmentMessage bn payer payee (Some amount) alias (uint (token :: u16)) domain = Inr msg
    \<and> parse_commitment_message msg domain' =
      (if domain \<noteq> domain' then Inl InvalidMessageDomain
       else if payer < 2 ^ 32 \<and> payee < 2 ^ 32 \<and> amount < 2 ^ 64 then
         Inr \<lparr>payer_id = word_of_int payer, payee_id = word_of_int payee, commitment_token_id = token,
              committed_amount = word_of_int amount, authorized_settler = None\<rparr>
       else Inl InvalidCommitmentMessage)"
  by (rule commitment_read [OF assms])

theorem commitment_roundtrip_witness:
  "\<exists>msg. createCommitmentMessage (\<lambda>n k. Inr (le_bytes k (nat n))) 3 5 (Some 1000) None (uint (1 :: u16)) (replicate 16 9) = Inr msg
    \<and> parse_commitment_message msg (replicate 16 9) =
      Inr \<lparr>payer_id = 3, payee_id = 5, commitment_token_id = 1, committed_amount = 1000, authorized_settler = None\<rparr>"
  using commitment_roundtrip [of "\<lambda>n k. Inr (le_bytes k (nat n))" "replicate 16 9" "replicate 16 9" 3 5 1000 None 1]
  by simp

lemma clearing_decoded:
  assumes bn: "\<And>n k. 0 \<le> n \<Longrightarrow> n < 256 ^ k \<Longrightarrow> bn n k = Inr (le_bytes k (nat n))"
    and "length domain = 16" "bs \<noteq> []" "length bs < 256"
    and entries: "\<forall>b \<in> set bs. length (snd b) < 256"
  shows "\<exists>msg layout. createClearingRoundMessage bn (uint (token :: u16)) domain (map spec_of_block bs) (Some (uint v)) = Inr msg
    \<and> parse_clearing_round_layout_with_version msg domain v = Inr layout
    \<and> layout_token_id layout = token
    \<and> map (recovered_block msg) (layout_blocks layout) = bs
    \<and> channel_count layout = sum_list (map (\<lambda>b. length (snd b)) bs)"
proof -
  let ?head = "[0x02, v] @ domain @ le_bytes 2 (unat token) @ [word_of_nat (length bs)]"
  let ?msg = "?head @ concat (map enc_block bs)"
  have head: "length ?head = 21" using assms(2) by simp
  have n: "word_of_nat (length bs) \<noteq> (0 :: byte)" "unat (word_of_nat (length bs) :: byte) = length bs"
    using assms(3,4) unat_count [OF assms(4)] by auto
  have blocks: "decode_many parse_block (length bs) ?msg 21 = Inr (block_metas 21 bs, length ?msg)"
    using blocks_decoded [of bs ?head "[]"] entries head by simp
  have header: "parse_clearing_round_header_with_version ?msg domain v = Inr (token, word_of_nat (length bs), 21)"
    using clearing_header_bytes [OF assms(2) assms(2) refl, of v token "word_of_nat (length bs)" "concat (map enc_block bs)" v] n(1)
    by simp
  have "parse_clearing_round_layout_with_version ?msg domain v =
      Inr \<lparr>layout_token_id = token, layout_blocks = block_metas 21 bs,
           channel_count = sum_list (map (\<lambda>b. length (snd b)) bs)\<rparr>"
    unfolding parse_clearing_round_layout_with_version_def header
    using n(2) blocks block_metas_count [of bs 21] entries by (simp del: append.simps append_assoc)
  moreover have "map (recovered_block ?msg) (block_metas 21 bs) = bs"
    using recovered_blocks [of bs ?head "[]"] entries head by simp
  ultimately show ?thesis
    using clearing_message_bytes [OF bn, of token domain bs "uint v"] by auto
qed

text \<open>
  C7: The program reads from a clearing round what the client put into it: for at most 255 blocks of
  at most 255 entries the layout has the token, the participants in order and the number of
  channels, and the entries found at the recorded offsets are the entries of the blocks.
\<close>

theorem clearing_roundtrip:
  assumes bn: "\<And>n k. 0 \<le> n \<Longrightarrow> n < 256 ^ k \<Longrightarrow> bn n k = Inr (le_bytes k (nat n))"
    and "length domain = 16" "bs \<noteq> []" "length bs < 256"
    and entries: "\<forall>b \<in> set bs. length (snd b) < 256"
  shows "\<exists>msg layout. createClearingRoundMessage bn (uint (token :: u16)) domain (map spec_of_block bs) (Some (uint v)) = Inr msg
    \<and> parse_clearing_round_layout_with_version msg domain v = Inr layout
    \<and> layout_token_id layout = token
    \<and> map (recovered_block msg) (layout_blocks layout) = bs
    \<and> channel_count layout = sum_list (map (\<lambda>b. length (snd b)) bs)"
  by (rule clearing_decoded [OF assms])

theorem clearing_roundtrip_witness:
  "\<exists>msg layout. createClearingRoundMessage (\<lambda>n k. Inr (le_bytes k (nat n))) (uint (1 :: u16)) (replicate 16 9)
      (map spec_of_block [(4, [(1, 700)]), (9, [])]) (Some (uint (5 :: byte))) = Inr msg
    \<and> parse_clearing_round_layout_with_version msg (replicate 16 9) 5 = Inr layout
    \<and> layout_token_id layout = 1
    \<and> map (recovered_block msg) (layout_blocks layout) = [(4, [(1, 700)]), (9, [])]
    \<and> channel_count layout = sum_list (map (\<lambda>b. length (snd b)) [(4 :: u32, [(1 :: byte, 700 :: u64)]), (9, [])])"
  by (rule clearing_roundtrip) simp_all



text \<open>
  The preview of a signed commitment shows the parties, the exact amount and the signature of the
  message that was signed, but a wrong version: it says 4 while the signed message carries 5.
\<close>

theorem commitment_preview:
  assumes "buildSignedCommitmentPreview bn cryptoSign domain (int decimals) symbol inputs = Inr preview"
    and "0 \<le> inputCommittedAmount (hd inputs)"
  shows "\<exists>msg. commitment_message_of bn domain (hd inputs) = Inr msg \<and>
    (let shown = previewExample preview; payload = directPayload shown in
      directSignature shown = signature_hex (signEd25519Message cryptoSign msg (walletKeypair (inputPayer (hd inputs))))
      \<and> payloadPayerId payload = walletParticipantId (inputPayer (hd inputs))
      \<and> payloadPayeeId payload = walletParticipantId (inputPayee (hd inputs))
      \<and> (\<exists>shown_amount. payloadCommittedAmount payload = shown_amount @ '' '' @ symbol
          \<and> int (read_amount decimals shown_amount) = inputCommittedAmount (hd inputs))
      \<and> payloadVersion payload = 4 \<and> msg ! 1 = 5)
    \<and> length (previewSignatures preview) = length inputs"
proof -
  from assms(1) obtain input rest where inputs: "inputs = input # rest"
    by (cases inputs) (auto simp: buildSignedCommitmentPreview_def)
  from assms(1) inputs obtain msg where msg: "commitment_message_of bn domain input = Inr msg"
    and n: "length (previewSignatures preview) = length inputs"
    and preview: "previewExample preview =
        \<lparr>directSignedBy = walletName (inputPayer input),
         directPayload = \<lparr>payloadKind = 1, payloadVersion = 4,
               payloadMessageDomain = trimHex (hex_string domain), payloadFlags = 0,
               payloadPayer = walletName (inputPayer input), payloadPayee = walletName (inputPayee input),
               payloadPayerId = walletParticipantId (inputPayer input),
               payloadPayeeId = walletParticipantId (inputPayee input),
               payloadTokenId = inputTokenId input,
               payloadCommittedAmount =
                 formatAmount (inputCommittedAmount input) (int decimals) @ '' '' @ symbol\<rparr>,
         directSignature = signature_hex (signEd25519Message cryptoSign msg (walletKeypair (inputPayer input)))\<rparr>"
    by (auto simp: buildSignedCommitmentPreview_def bindR_eq_Inr dest!: length_mapR)
  have "msg ! 1 = 5"
    using msg by (auto simp: commitment_message_of_def createCommitmentMessage_def bindR_eq_Inr)
  moreover have "int (read_amount decimals (formatAmount (inputCommittedAmount input) (int decimals))) = inputCommittedAmount input"
    using amount_read_back [of decimals "nat (inputCommittedAmount input)"] assms(2) inputs by simp
  ultimately show ?thesis
    using inputs msg n by (auto simp: preview Let_def)
qed

definition sample_wallet :: "int \<Rightarrow> demo_wallet" where
  "sample_wallet n =
     \<lparr>walletName = ''Alice'', walletKeypair = \<lparr>publicKey = replicate 32 1, secretKey = replicate 64 2\<rparr>,
      secretPath = ''alice.json'', participantPda = replicate 32 3, walletParticipantId = n,
      tokenAccount = replicate 32 4, blsSecretScalar = 5, blsPublicKeyOf = replicate 96 6\<rparr>"

theorem commitment_preview_witness:
  "\<exists>preview. buildSignedCommitmentPreview (\<lambda>n k. Inr (le_bytes k (nat n))) (\<lambda>key m. m) (replicate 16 9) (int 6) ''USDC''
      [\<lparr>inputPayer = sample_wallet 3, inputPayee = sample_wallet 5, inputCommittedAmount = 1500000, inputTokenId = 1\<rparr>] = Inr preview
    \<and> payloadVersion (directPayload (previewExample preview)) = 4"
proof -
  obtain preview where preview: "buildSignedCommitmentPreview (\<lambda>n k. Inr (le_bytes k (nat n))) (\<lambda>key m. m) (replicate 16 9) (int 6) ''USDC''
      [\<lparr>inputPayer = sample_wallet 3, inputPayee = sample_wallet 5, inputCommittedAmount = 1500000, inputTokenId = 1\<rparr>] = Inr preview"
    by (simp add: buildSignedCommitmentPreview_def commitment_message_of_def createCommitmentMessage_def sample_wallet_def)
  with commitment_preview [OF preview] show ?thesis by (auto simp: Let_def)
qed

end
