(* ===== verification/Graph.thy ===== *)
theory Graph
  imports Prelude
begin

text \<open>
  The channel graphs of the multilateral rounds: \<open>buildOrderedParticipantPairs\<close> and
  \<open>buildBoundedDenseGraphPairs\<close> of \<open>scripts/ryvo-protocol-demo.ts\<close>, which pick the directed channels
  to open, and \<open>uniqueWritableMetasForPubkeys\<close> and \<open>uniquePubkeys\<close>, which drop duplicate accounts.
\<close>

section \<open>All ordered pairs\<close>

definition buildOrderedParticipantPairs :: "'a list \<Rightarrow> ('a \<times> 'a) list" where
  "buildOrderedParticipantPairs participants =
     concat (map (\<lambda>offset. map (\<lambda>payerIndex.
         (participants ! payerIndex, participants ! ((payerIndex + offset) mod length participants)))
       [0..<length participants]) [1..<length participants])"

section \<open>The bounded dense graph\<close>

text \<open>\<open>participants.indexOf(x)\<close>, and the key of a pair.\<close>

fun js_indexOf :: "'a list \<Rightarrow> 'a \<Rightarrow> int" where
  "js_indexOf [] x = - 1"
| "js_indexOf (y # ys) x = (if y = x then 0 else let i = js_indexOf ys x in if i < 0 then - 1 else i + 1)"

definition pair_key :: "int \<Rightarrow> int \<Rightarrow> string" where
  "pair_key a b = show_int a @ ''->'' @ show_int b"

definition multilateralEdgeKey :: "int \<Rightarrow> int \<Rightarrow> string" where
  "multilateralEdgeKey payerParticipantId payeeParticipantId = pair_key payerParticipantId payeeParticipantId"

text \<open>The closure \<open>appendPair\<close>, on the selected pairs and the keys seen.\<close>

type_synonym 'a pair_state = "('a \<times> 'a) list \<times> string set"

definition appendPair :: "'a list \<Rightarrow> int \<Rightarrow> int \<Rightarrow> int \<Rightarrow> 'a pair_state \<Rightarrow> 'a pair_state" where
  "appendPair participants cap payerIndex payeeIndex st = (case st of (selectedPairs, seenPairKeys) \<Rightarrow>
     if payerIndex < 0 \<or> payeeIndex < 0 \<or> payerIndex \<ge> int (length participants)
        \<or> payeeIndex \<ge> int (length participants) \<or> payerIndex = payeeIndex then st
     else if pair_key payerIndex payeeIndex \<in> seenPairKeys \<or> int (length selectedPairs) \<ge> cap then st
     else (selectedPairs @ [(participants ! nat payerIndex, participants ! nat payeeIndex)],
           insert (pair_key payerIndex payeeIndex) seenPairKeys))"

text \<open>The loop over \<open>participantCount\<close> from 4 on.\<close>

definition ringPairs :: "int \<Rightarrow> (int \<times> int) list" where
  "ringPairs n = [(0, 1), (1, 2), (2, 0)] @
     concat (map (\<lambda>participantCount. [(participantCount - 2, participantCount - 1), (participantCount - 1, 0)])
       [4..n])"

definition appendPairs :: "'a list \<Rightarrow> int \<Rightarrow> (int \<times> int) list \<Rightarrow> 'a pair_state \<Rightarrow> 'a pair_state" where
  "appendPairs participants cap pairs st = foldl (\<lambda>st (i, j). appendPair participants cap i j st) st pairs"

text \<open>The last loop, which breaks when enough pairs are selected.\<close>

fun appendUntilFull :: "'a list \<Rightarrow> int \<Rightarrow> ('a \<times> 'a) list \<Rightarrow> 'a pair_state \<Rightarrow> 'a pair_state" where
  "appendUntilFull participants cap [] st = st"
| "appendUntilFull participants cap ((payer, payee) # pairs) st =
     (let st' = appendPair participants cap (js_indexOf participants payer) (js_indexOf participants payee) st in
      if int (length (fst st')) \<ge> cap then st' else appendUntilFull participants cap pairs st')"

definition buildBoundedDenseGraphPairs :: "'a list \<Rightarrow> int \<Rightarrow> ('a \<times> 'a) list" where
  "buildBoundedDenseGraphPairs participants maxDirectedChannels =
     (let n = int (length participants); cap = min maxDirectedChannels (n * max 0 (n - 1));
          start = (if n = 2 then [(0, 1), (1, 0)] else if n \<ge> 3 then ringPairs n else []) in
      fst (appendUntilFull participants cap (buildOrderedParticipantPairs participants)
        (appendPairs participants cap start ([], {}))))"

section \<open>Duplicate accounts\<close>

record account_meta =
  meta_pubkey :: pubkey
  meta_isSigner :: bool
  meta_isWritable :: bool

text \<open>\<open>pubkey.toString()\<close> is injective, so the set of strings is the set of the keys.\<close>

fun uniqueFrom :: "pubkey set \<Rightarrow> pubkey list \<Rightarrow> pubkey list" where
  "uniqueFrom seen [] = []"
| "uniqueFrom seen (key # keys) =
     (if key \<in> seen then uniqueFrom seen keys else key # uniqueFrom (insert key seen) keys)"

definition uniquePubkeys :: "pubkey list \<Rightarrow> pubkey list" where
  "uniquePubkeys pubkeys = uniqueFrom {} pubkeys"

definition uniqueWritableMetasForPubkeys :: "pubkey list \<Rightarrow> account_meta list" where
  "uniqueWritableMetasForPubkeys pubkeys =
     map (\<lambda>key. \<lparr>meta_pubkey = key, meta_isSigner = False, meta_isWritable = True\<rparr>) (uniqueFrom {} pubkeys)"

lemma uniqueFrom_set: "set (uniqueFrom seen keys) = set keys - seen"
  by (induction keys arbitrary: seen) auto

lemma uniqueFrom_distinct: "distinct (uniqueFrom seen keys)"
  by (induction keys arbitrary: seen) (auto simp: uniqueFrom_set)

section \<open>Every pair once\<close>

lemma ordered_indexes:
  fixes i j n :: nat
  assumes "i < n" "j < n" "i \<noteq> j"
  shows "\<exists>offset \<in> {1..<n}. (i + offset) mod n = j"
proof (cases "i < j")
  case True
  then have "(i + (j - i)) mod n = j" "j - i \<in> {1..<n}" using assms by auto
  then show ?thesis by blast
next
  case False
  then have "(i + (n + j - i)) mod n = j" "n + j - i \<in> {1..<n}" using assms by auto
  then show ?thesis by blast
qed

lemma ordered_set:
  assumes "distinct ps"
  shows "set (buildOrderedParticipantPairs ps) = {(a, b). a \<in> set ps \<and> b \<in> set ps \<and> a \<noteq> b}"
proof -
  let ?n = "length ps"
  have shifted: "(i + offset) mod ?n < ?n \<and> (i + offset) mod ?n \<noteq> i" if "i < ?n" "offset \<in> {1..<?n}" for i offset
    using that by (cases "i + offset < ?n") (auto simp: mod_if)
  have sub: "set (buildOrderedParticipantPairs ps) \<subseteq> {(a, b). a \<in> set ps \<and> b \<in> set ps \<and> a \<noteq> b}"
    using shifted assms
    by (auto simp: buildOrderedParticipantPairs_def nth_eq_iff_index_eq) (metis shifted atLeastLessThan_iff One_nat_def)
  have "(ps ! i, ps ! j) \<in> set (buildOrderedParticipantPairs ps)" if "i < ?n" "j < ?n" "i \<noteq> j" for i j
    using ordered_indexes [OF that] that(1)
    by (force simp: buildOrderedParticipantPairs_def image_iff)
  then have "(a, b) \<in> set (buildOrderedParticipantPairs ps)" if "a \<in> set ps" "b \<in> set ps" "a \<noteq> b" for a b
    using that by (metis in_set_conv_nth)
  with sub show ?thesis by blast
qed

lemma ordered_length: "length (buildOrderedParticipantPairs ps) = length ps * (length ps - 1)"
  by (simp add: buildOrderedParticipantPairs_def length_concat comp_def sum_list_triv)

lemma distinct_pairs_card:
  "finite A \<Longrightarrow> card {(a, b). a \<in> A \<and> b \<in> A \<and> a \<noteq> b} = card A * (card A - 1)"
proof -
  assume fin: "finite A"
  have "{(a, b). a \<in> A \<and> b \<in> A \<and> a \<noteq> b} = A \<times> A - (\<lambda>a. (a, a)) ` A" by auto
  moreover have "card ((\<lambda>a. (a, a)) ` A) = card A" by (rule card_image) (simp add: inj_on_def)
  moreover have "card (A \<times> A - (\<lambda>a. (a, a)) ` A) = card (A \<times> A) - card ((\<lambda>a. (a, a)) ` A)"
    using fin by (intro card_Diff_subset) auto
  ultimately show ?thesis using fin by (simp add: card_cartesian_product right_diff_distrib')
qed

lemma ordered_distinct:
  assumes "distinct ps"
  shows "distinct (buildOrderedParticipantPairs ps)"
proof (rule card_distinct)
  show "card (set (buildOrderedParticipantPairs ps)) = length (buildOrderedParticipantPairs ps)"
    using distinct_pairs_card [of "set ps"] assms
    by (simp add: ordered_set ordered_length distinct_card)
qed

section \<open>What the bounded graph contains\<close>

lemma show_nat_split:
  "show_nat a @ ''->'' @ s = show_nat b @ ''->'' @ t \<longleftrightarrow> a = b \<and> s = t"
proof
  assume eq: "show_nat a @ ''->'' @ s = show_nat b @ ''->'' @ t"
  have "takeWhile is_digit (show_nat n @ ''->'' @ u) = show_nat n" for n u
    using show_nat_digits [of _ n] by (simp add: takeWhile_append2 is_digit_def)
  then have "show_nat a = show_nat b" using eq by metis
  with eq show "a = b \<and> s = t" by simp
qed simp

lemma pair_key_inject:
  "0 \<le> a \<Longrightarrow> 0 \<le> b \<Longrightarrow> 0 \<le> c \<Longrightarrow> 0 \<le> d \<Longrightarrow> pair_key a b = pair_key c d \<longleftrightarrow> a = c \<and> b = d"
  using show_nat_split [of "nat a" "show_nat (nat b)" "nat c" "show_nat (nat d)"]
  by (simp add: pair_key_def show_int_def eq_nat_nat_iff)

definition valid_pair :: "nat \<Rightarrow> int \<times> int \<Rightarrow> bool" where
  "valid_pair n p \<longleftrightarrow> 0 \<le> fst p \<and> fst p < int n \<and> 0 \<le> snd p \<and> snd p < int n \<and> fst p \<noteq> snd p"

definition pick :: "'a list \<Rightarrow> int \<times> int \<Rightarrow> 'a \<times> 'a" where
  "pick ps p = (ps ! nat (fst p), ps ! nat (snd p))"

text \<open>
  The state after the pairs \<open>L\<close> have been offered: the picked pairs are those of a list \<open>S\<close> of
  different valid index pairs of \<open>L\<close>, all of them unless the cap is reached.
\<close>

definition picked :: "'a list \<Rightarrow> int \<Rightarrow> (int \<times> int) set \<Rightarrow> (int \<times> int) list \<Rightarrow> 'a pair_state \<Rightarrow> bool" where
  "picked ps cap V S st \<longleftrightarrow> st = (map (pick ps) S, (\<lambda>p. pair_key (fst p) (snd p)) ` set S)
     \<and> distinct S \<and> set S \<subseteq> V \<and> (\<forall>p \<in> V. valid_pair (length ps) p)
     \<and> int (length S) \<le> cap \<and> (int (length S) < cap \<longrightarrow> set S = V)"

lemma appendPair_picked:
  assumes "picked ps cap V S st"
  shows "\<exists>T. picked ps cap (V \<union> {p. p = (i, j) \<and> valid_pair (length ps) p}) (S @ T) (appendPair ps cap i j st)"
proof (cases "valid_pair (length ps) (i, j)")
  case False
  then have "appendPair ps cap i j st = st"
    by (auto simp: appendPair_def valid_pair_def split: prod.split)
  moreover have "V \<union> {p. p = (i, j) \<and> valid_pair (length ps) p} = V" using False by auto
  ultimately show ?thesis using assms by (metis append_Nil2)
next
  case True
  have st: "st = (map (pick ps) S, (\<lambda>p. pair_key (fst p) (snd p)) ` set S)"
    and valid: "\<forall>p \<in> V. valid_pair (length ps) p" and sub: "set S \<subseteq> V"
    using assms by (simp_all add: picked_def)
  have seen: "pair_key i j \<in> (\<lambda>p. pair_key (fst p) (snd p)) ` set S \<longleftrightarrow> (i, j) \<in> set S"
  proof -
    have "pair_key i j = pair_key (fst p) (snd p) \<longleftrightarrow> p = (i, j)" if "p \<in> set S" for p
      using that sub valid True pair_key_inject [of i j "fst p" "snd p"]
      by (auto simp: valid_pair_def prod_eq_iff)
    then show ?thesis by force
  qed
  have V: "V \<union> {p. p = (i, j) \<and> valid_pair (length ps) p} = insert (i, j) V" using True by auto
  show ?thesis
  proof (cases "(i, j) \<in> set S \<or> int (length S) \<ge> cap")
    case stop: True
    then have "appendPair ps cap i j st = st"
      using seen by (simp add: appendPair_def st)
    moreover have "picked ps cap (insert (i, j) V) S st"
      using assms stop True by (auto simp: picked_def)
    ultimately show ?thesis unfolding V by (metis append_Nil2)
  next
    case False
    then have "appendPair ps cap i j st = (map (pick ps) (S @ [(i, j)]), (\<lambda>p. pair_key (fst p) (snd p)) ` set (S @ [(i, j)]))"
      using seen True by (simp add: appendPair_def st valid_pair_def pick_def)
    moreover have "picked ps cap (insert (i, j) V) (S @ [(i, j)])
        (map (pick ps) (S @ [(i, j)]), (\<lambda>p. pair_key (fst p) (snd p)) ` set (S @ [(i, j)]))"
      using assms False True by (auto simp: picked_def)
    ultimately show ?thesis unfolding V by metis
  qed
qed

lemma appendPairs_picked:
  "picked ps cap V S st \<Longrightarrow>
    \<exists>T. picked ps cap (V \<union> {p \<in> set L. valid_pair (length ps) p}) (S @ T) (appendPairs ps cap L st)"
proof (induction L arbitrary: V S st)
  case Nil
  then show ?case by (auto simp: appendPairs_def intro: exI [of _ "[]"])
next
  case (Cons p L)
  obtain i j where p: "p = (i, j)" by force
  obtain T where T: "picked ps cap (V \<union> {q. q = (i, j) \<and> valid_pair (length ps) q}) (S @ T) (appendPair ps cap i j st)"
    using appendPair_picked [OF Cons.prems] by blast
  obtain U where "picked ps cap (V \<union> {q. q = (i, j) \<and> valid_pair (length ps) q} \<union> {q \<in> set L. valid_pair (length ps) q})
      ((S @ T) @ U) (appendPairs ps cap L (appendPair ps cap i j st))"
    using Cons.IH [OF T] by blast
  moreover have "V \<union> {q. q = (i, j) \<and> valid_pair (length ps) q} \<union> {q \<in> set L. valid_pair (length ps) q} =
      V \<union> {q \<in> set (p # L). valid_pair (length ps) q}" using p by auto
  ultimately show ?case by (auto simp: appendPairs_def p)
qed

lemma appendPair_full: "int (length (fst st)) \<ge> cap \<Longrightarrow> appendPair ps cap i j st = st"
  by (auto simp: appendPair_def split: prod.split)

lemma appendPairs_full: "int (length (fst st)) \<ge> cap \<Longrightarrow> appendPairs ps cap L st = st"
  by (induction L) (auto simp: appendPairs_def appendPair_full)

text \<open>Breaking out of the last loop changes nothing: a full selection takes no more pairs.\<close>

lemma appendUntilFull_eq:
  "appendUntilFull ps cap pairs st = appendPairs ps cap (map (\<lambda>(a, b). (js_indexOf ps a, js_indexOf ps b)) pairs) st"
proof (induction pairs arbitrary: st)
  case (Cons p pairs)
  obtain a b where p: "p = (a, b)" by force
  show ?case
    using Cons appendPairs_full [of cap "appendPair ps cap (js_indexOf ps a) (js_indexOf ps b) st"]
    by (auto simp: p Let_def appendPairs_def)
qed (simp add: appendPairs_def)

lemma js_indexOf_nth: "distinct ps \<Longrightarrow> i < length ps \<Longrightarrow> js_indexOf ps (ps ! i) = int i"
proof (induction ps arbitrary: i)
  case (Cons p ps)
  then show ?case by (cases i) (auto simp: Let_def)
qed simp

lemma ordered_index_pairs:
  assumes "distinct ps"
  shows "{p \<in> set (map (\<lambda>(a, b). (js_indexOf ps a, js_indexOf ps b)) (buildOrderedParticipantPairs ps)).
      valid_pair (length ps) p} = {p. valid_pair (length ps) p}"
proof -
  have "p \<in> (\<lambda>(a, b). (js_indexOf ps a, js_indexOf ps b)) ` set (buildOrderedParticipantPairs ps)"
    if "valid_pair (length ps) p" for p
  proof -
    let ?i = "nat (fst p)" and ?j = "nat (snd p)"
    have ij: "?i < length ps" "?j < length ps" "?i \<noteq> ?j" "fst p = int ?i" "snd p = int ?j"
      using that by (auto simp: valid_pair_def)
    then have "(ps ! ?i, ps ! ?j) \<in> set (buildOrderedParticipantPairs ps)"
      using assms by (simp add: ordered_set nth_eq_iff_index_eq)
    moreover have "p = (\<lambda>(a, b). (js_indexOf ps a, js_indexOf ps b)) (ps ! ?i, ps ! ?j)"
      using assms ij by (simp add: js_indexOf_nth prod_eq_iff)
    ultimately show ?thesis by blast
  qed
  then show ?thesis by auto
qed

lemma valid_pairs_card: "card {p. valid_pair n p} = n * (n - 1)"
proof -
  have "{p. valid_pair n p} = {(a, b). a \<in> {0..<int n} \<and> b \<in> {0..<int n} \<and> a \<noteq> b}"
    by (auto simp: valid_pair_def)
  then show ?thesis using distinct_pairs_card [of "{0..<int n}"] by simp
qed

lemma valid_pairs_finite: "finite {p. valid_pair n p}"
  by (rule finite_subset [of _ "{0..<int n} \<times> {0..<int n}"]) (auto simp: valid_pair_def)

definition dense_cap :: "'a list \<Rightarrow> int \<Rightarrow> int" where
  "dense_cap ps m = min m (int (length ps) * max 0 (int (length ps) - 1))"

definition start_pairs :: "nat \<Rightarrow> (int \<times> int) list" where
  "start_pairs n = (if n = 2 then [(0, 1), (1, 0)] else if n \<ge> 3 then ringPairs (int n) else [])"

text \<open>
  The bounded graph as picked index pairs; pairs offered first, up to the cap, are all in it.
\<close>

lemma dense_graph_picked:
  assumes "distinct ps" "0 \<le> m" "start_pairs (length ps) = L @ M"
  obtains S where "buildBoundedDenseGraphPairs ps m = map (pick ps) S"
    "distinct S" "\<forall>p \<in> set S. valid_pair (length ps) p" "int (length S) = dense_cap ps m"
    "int (card {p \<in> set L. valid_pair (length ps) p}) \<le> dense_cap ps m \<longrightarrow>
      {p \<in> set L. valid_pair (length ps) p} \<subseteq> set S"
proof -
  let ?cap = "dense_cap ps m" and ?n = "length ps"
  let ?V = "{p \<in> set L. valid_pair ?n p}"
  let ?last = "map (\<lambda>(a, b). (js_indexOf ps a, js_indexOf ps b)) (buildOrderedParticipantPairs ps)"
  have cap: "0 \<le> ?cap" using assms(2) by (simp add: dense_cap_def)
  have "picked ps ?cap {} [] ([], {})" using cap by (simp add: picked_def)
  from appendPairs_picked [OF this, of L] obtain A
    where A: "picked ps ?cap ?V A (appendPairs ps ?cap L ([], {}))" by auto
  from appendPairs_picked [OF A, of "M @ ?last"] obtain B
    where B: "picked ps ?cap (?V \<union> {p \<in> set (M @ ?last). valid_pair ?n p}) (A @ B)
      (appendPairs ps ?cap (M @ ?last) (appendPairs ps ?cap L ([], {})))" by auto
  have all: "?V \<union> {p \<in> set (M @ ?last). valid_pair ?n p} = {p. valid_pair ?n p}"
    using ordered_index_pairs [OF assms(1)] by auto
  have built: "buildBoundedDenseGraphPairs ps m =
      fst (appendPairs ps ?cap (M @ ?last) (appendPairs ps ?cap L ([], {})))"
  proof -
    have "(if int ?n = 2 then [(0, 1), (1, 0)] else if int ?n \<ge> 3 then ringPairs (int ?n) else []) = L @ M"
      using assms(3) by (auto simp: start_pairs_def split: if_splits)
    then show ?thesis
      by (simp add: buildBoundedDenseGraphPairs_def Let_def appendUntilFull_eq dense_cap_def appendPairs_def)
  qed
  let ?S = "A @ B"
  have S: "distinct ?S" "set ?S \<subseteq> {p. valid_pair ?n p}" "int (length ?S) \<le> ?cap"
    "int (length ?S) < ?cap \<longrightarrow> set ?S = {p. valid_pair ?n p}"
    using B unfolding all by (simp_all add: picked_def)
  have "int (length ?S) = ?cap"
  proof (rule ccontr)
    assume "int (length ?S) \<noteq> ?cap"
    with S have "set ?S = {p. valid_pair ?n p}" "int (length ?S) < ?cap" by auto
    then have "length ?S = ?n * (?n - 1)"
      using S(1) valid_pairs_card [of ?n] by (metis distinct_card)
    then have "?cap \<le> int (length ?S)"
      by (cases ?n) (simp_all add: dense_cap_def algebra_simps)
    with \<open>int (length ?S) < ?cap\<close> show False by simp
  qed
  moreover have "?V \<subseteq> set ?S" if "int (card ?V) \<le> ?cap"
  proof (cases "int (length A) < ?cap")
    case True
    then show ?thesis using A by (auto simp: picked_def)
  next
    case False
    then have "length A = nat ?cap" "distinct A" "set A \<subseteq> ?V" using A cap by (auto simp: picked_def)
    then have "card ?V \<le> card (set A)" using that distinct_card [of A] by simp
    then have "set A = ?V" using \<open>set A \<subseteq> ?V\<close> by (intro card_seteq) auto
    then show ?thesis by auto
  qed
  moreover have "buildBoundedDenseGraphPairs ps m = map (pick ps) ?S"
    using B by (simp add: built picked_def)
  ultimately show thesis using that S(1,2) by blast
qed

lemma ringPairs_prefix:
  assumes "3 \<le> k" "k \<le> n"
  shows "\<exists>M. ringPairs n = ringPairs k @ M"
proof -
  have "[4..n] = [4..k] @ [k + 1..n]"
    using assms upto_split2 [of 4 k n] by (cases "k = 3") simp_all
  then show ?thesis by (simp add: ringPairs_def)
qed

lemma ringPairs_length: "3 \<le> k \<Longrightarrow> length (ringPairs k) = nat (2 * k - 3)"
proof -
  assume "3 \<le> k"
  have "length (concat (map (\<lambda>c. [(c - 2, c - 1), (c - 1, 0 :: int)]) [4..k])) = 2 * length [4..k]"
    by (simp add: length_concat comp_def sum_list_triv)
  then have "length (ringPairs k) = 3 + 2 * nat (k - 3)" by (simp add: ringPairs_def)
  with \<open>3 \<le> k\<close> show ?thesis by (simp add: nat_diff_distrib' nat_mult_distrib)
qed

lemma ringPairs_edges:
  "3 \<le> k \<Longrightarrow> 0 \<le> i \<Longrightarrow> i < k \<Longrightarrow> (i, if i + 1 = k then 0 else i + 1) \<in> set (ringPairs k)"
proof -
  assume k: "3 \<le> k" "0 \<le> i" "i < k"
  have later: "(c - 2, c - 1) \<in> set (ringPairs k)" "(c - 1, 0) \<in> set (ringPairs k)" if "4 \<le> c" "c \<le> k" for c
    using that by (auto simp: ringPairs_def)
  have first: "(0, 1) \<in> set (ringPairs k)" "(1, 2) \<in> set (ringPairs k)" "(2, 0) \<in> set (ringPairs k)"
    by (simp_all add: ringPairs_def)
  show ?thesis
  proof (cases "i + 1 = k")
    case True
    then show ?thesis using later(2) [of k] first k by (cases "k = 3") auto
  next
    case False
    consider "i = 0" | "i = 1" | "2 \<le> i" using k by linarith
    then show ?thesis
    proof cases
      case 3
      then show ?thesis using later(1) [of "i + 2"] False k by (simp add: add.commute)
    qed (use first False in auto)
  qed
qed

section \<open>Properties\<close>

text \<open>
  C34: The bounded dense graph opens directed channels between different participants, none twice,
  and exactly as many as the cap allows or as there are pairs.
\<close>

theorem dense_graph_size:
  assumes "distinct participants" "0 \<le> cap"
  shows "let graph = buildBoundedDenseGraphPairs participants cap in
    distinct graph \<and> set graph \<subseteq> {(a, b). a \<in> set participants \<and> b \<in> set participants \<and> a \<noteq> b}
    \<and> int (length graph) = min cap (int (length participants * (length participants - 1)))"
proof -
  obtain S where S: "buildBoundedDenseGraphPairs participants cap = map (pick participants) S"
    "distinct S" "\<forall>p \<in> set S. valid_pair (length participants) p" "int (length S) = dense_cap participants cap"
    using dense_graph_picked [OF assms, of "start_pairs (length participants)" "[]"] by (metis append_Nil2)
  have "inj_on (pick participants) (set S)"
  proof (rule inj_onI)
    fix p q
    assume pq: "p \<in> set S" "q \<in> set S" "pick participants p = pick participants q"
    with S(3) have "valid_pair (length participants) p" "valid_pair (length participants) q" by blast+
    then have "nat (fst p) = nat (fst q)" "nat (snd p) = nat (snd q)"
      using pq(3) assms(1) by (auto simp: pick_def valid_pair_def nth_eq_iff_index_eq)
    with \<open>valid_pair (length participants) p\<close> \<open>valid_pair (length participants) q\<close> show "p = q"
      by (auto simp: valid_pair_def prod_eq_iff)
  qed
  then have "distinct (map (pick participants) S)" using S(2) by (simp add: distinct_map)
  moreover have "set (map (pick participants) S) \<subseteq> {(a, b). a \<in> set participants \<and> b \<in> set participants \<and> a \<noteq> b}"
    using S(3) assms(1) by (auto simp: pick_def valid_pair_def nth_eq_iff_index_eq)
  moreover have "dense_cap participants cap = min cap (int (length participants * (length participants - 1)))"
    by (cases "length participants") (simp_all add: dense_cap_def algebra_simps)
  ultimately show ?thesis using S(1,4) by simp
qed

theorem dense_graph_size_witness:
  "let graph = buildBoundedDenseGraphPairs [10, 20, 30 :: nat] 4 in
    distinct graph \<and> set graph \<subseteq> {(a, b). a \<in> set [10, 20, 30] \<and> b \<in> set [10, 20, 30] \<and> a \<noteq> b}
    \<and> int (length graph) = min 4 (int (length [10, 20, 30 :: nat] * (length [10, 20, 30 :: nat] - 1)))"
  by (rule dense_graph_size) simp_all

text \<open>
  The graph opens the ring of every prefix of the participants it can afford: with a cap of at
  least \<open>2 k - 3\<close> channels, the first \<open>k\<close> participants form a directed ring.
\<close>

theorem dense_graph_rings:
  assumes "distinct participants" "3 \<le> k" "k \<le> length participants" "2 * int k - 3 \<le> cap" "i < k"
  shows "(participants ! i, participants ! ((i + 1) mod k)) \<in> set (buildBoundedDenseGraphPairs participants cap)"
proof -
  let ?n = "length participants"
  obtain M where M: "start_pairs ?n = ringPairs (int k) @ M"
    using ringPairs_prefix [of "int k" "int ?n"] assms(2,3) by (auto simp: start_pairs_def)
  let ?V = "{p \<in> set (ringPairs (int k)). valid_pair ?n p}"
  have cap: "0 \<le> cap" using assms(2,4) by simp
  have "card ?V \<le> card (set (ringPairs (int k)))" by (rule card_mono) auto
  also have "\<dots> \<le> length (ringPairs (int k))" by (rule card_length)
  finally have "int (card ?V) \<le> cap" using ringPairs_length [of "int k"] assms(2,4) by simp
  moreover have "int (card ?V) \<le> int (?n * (?n - 1))"
  proof -
    have "card ?V \<le> card {p. valid_pair ?n p}" by (rule card_mono [OF valid_pairs_finite]) auto
    then show ?thesis by (simp only: valid_pairs_card of_nat_le_iff)
  qed
  ultimately have fits: "int (card ?V) \<le> dense_cap participants cap"
    by (cases ?n) (simp_all add: dense_cap_def algebra_simps)
  obtain S where S: "buildBoundedDenseGraphPairs participants cap = map (pick participants) S"
    and "?V \<subseteq> set S"
    using dense_graph_picked [OF assms(1) cap M] fits by metis
  let ?e = "(int i, if int i + 1 = int k then 0 else int i + 1)"
  have "?e \<in> set (ringPairs (int k))" using ringPairs_edges [of "int k" "int i"] assms by simp
  moreover have "valid_pair ?n ?e" using assms by (auto simp: valid_pair_def)
  ultimately have "?e \<in> set S" using \<open>?V \<subseteq> set S\<close> by blast
  moreover have "pick participants ?e = (participants ! i, participants ! ((i + 1) mod k))"
    using assms(5) by (cases "i + 1 = k") (auto simp: pick_def nat_add_distrib)
  ultimately show ?thesis unfolding S by (metis image_eqI set_map)
qed

theorem dense_graph_rings_witness:
  "([10, 20, 30, 40 :: nat] ! 3, [10, 20, 30, 40] ! ((3 + 1) mod 4)) \<in> set (buildBoundedDenseGraphPairs [10, 20, 30, 40] 5)"
  by (rule dense_graph_rings) simp_all

end
