(* ===== verification/Rpc.thy ===== *)
theory Rpc
  imports Effects ClientBuckets Messages Graph
begin

text \<open>
  The client's use of the RPC connection, in \<open>scripts/ryvo-protocol-demo.ts\<close>: retries
  (\<open>withRpcRetry\<close>), confirmation timeouts (\<open>waitForConfirmedSignature\<close> and its helpers), sending legacy
  and versioned transactions, simulation, lookup tables, the fee sponsor, and reading accounts and
  balances.

  The connection, the clock and the transaction classes of \<open>@solana/web3.js\<close>, \<open>BN.toNumber\<close> and the
  account decoder of Anchor are not code of the repository: they are the fields of \<open>cluster\<close>.
\<close>

section \<open>The world outside\<close>

record signature_status =
  statusErr :: "string option"
  confirmationStatus :: "string option"

text \<open>
  \<open>'i\<close> is an instruction, \<open>'t\<close> a lookup table. \<open>statusErr\<close>, the result of \<open>netConfirm\<close> and the error of
  \<open>netSimulate\<close> are \<open>JSON.stringify\<close> of the \<open>err\<close> field where there is one; \<open>netGetTransactionLogs\<close> is
  \<open>meta.logMessages\<close> of \<open>getTransaction\<close>. \<open>webV0\<close> and \<open>webLegacy\<close> compile, sign and serialize.
\<close>

record ('w, 'i, 't) cluster =
  netLatestBlockhash :: "('w, string \<times> int) io"
  netAccountInfo :: "pubkey \<Rightarrow> ('w, bytes option) io"
  netMultipleAccountsInfo :: "pubkey list \<Rightarrow> ('w, bytes option list) io"
  netBalance :: "pubkey \<Rightarrow> ('w, int) io"
  netSlot :: "string \<Rightarrow> ('w, int) io"
  netSignatureStatus :: "string \<Rightarrow> ('w, signature_status option) io"
  netTransactionLogs :: "string \<Rightarrow> ('w, string list option) io"
  netSendRaw :: "bytes \<Rightarrow> bool \<Rightarrow> ('w, string) io"
  netConfirm :: "string \<Rightarrow> string \<Rightarrow> int \<Rightarrow> ('w, string option) io"
  netSimulate :: "bytes \<Rightarrow> ('w, string option \<times> string list) io"
  netLookupTable :: "pubkey \<Rightarrow> ('w, 't option) io"
  netErrorLogs :: "js_exn \<Rightarrow> ('w, string list) io"
  netOwnerIndex :: "pubkey \<Rightarrow> ('w, (bool \<times> pubkey \<times> int) list) io"
  netSleep :: "int \<Rightarrow> ('w, unit) io"
  netNow :: "('w, int) io"
  webV0 :: "pubkey \<Rightarrow> string \<Rightarrow> 'i list \<Rightarrow> 't list \<Rightarrow> keypair list \<Rightarrow> bytes js"
  webLegacy :: "pubkey \<Rightarrow> string \<Rightarrow> 'i list \<Rightarrow> keypair list \<Rightarrow> bytes js"
  webCreateLookupTable :: "pubkey \<Rightarrow> pubkey \<Rightarrow> int \<Rightarrow> 'i \<times> pubkey"
  webExtendLookupTable :: "pubkey \<Rightarrow> pubkey \<Rightarrow> pubkey \<Rightarrow> pubkey list \<Rightarrow> 'i"
  webPublicKey :: make_pubkey
  webKeyString :: "pubkey \<Rightarrow> string"
  bnToNumber :: "int \<Rightarrow> int js"

section \<open>Retries\<close>

definition isTransientRpcError :: "js_exn \<Rightarrow> bool" where
  "isTransientRpcError e = (let message = toLowerCase (errorMessage e) in
     js_includes message ''fetch failed'' \<or> js_includes message ''econnreset''
     \<or> js_includes message ''etimedout'' \<or> js_includes message ''socket''
     \<or> js_includes message ''429'' \<or> js_includes message ''too many requests'')"

text \<open>The loop of \<open>withRpcRetry\<close> from \<open>attempt\<close> on, with the last error.\<close>

function retry_loop ::
  "(int \<Rightarrow> ('w, unit) io) \<Rightarrow> string \<Rightarrow> ('w, 'a) io \<Rightarrow> int \<Rightarrow> int \<Rightarrow> js_exn option \<Rightarrow> ('w, 'a) io" where
  "retry_loop sleep label operation maxAttempts attempt lastError =
     (if attempt \<le> maxAttempts then
        catchIO operation (\<lambda>error.
          if \<not> isTransientRpcError error \<or> attempt = maxAttempts then throwIO error
          else bindIO (sleep (400 * attempt)) (\<lambda>_.
            retry_loop sleep label operation maxAttempts (attempt + 1) (Some error)))
      else (case lastError of
          Some error \<Rightarrow> if is_Error error then throwIO error
            else throwIO (JsError ''Error'' (label @ '' failed after '' @ show_int maxAttempts @ '' attempts''))
        | None \<Rightarrow> throwIO (JsError ''Error'' (label @ '' failed after '' @ show_int maxAttempts @ '' attempts''))))"
  by pat_completeness auto
termination
  by (relation "measure (\<lambda>(_, _, _, maxAttempts, attempt, _). nat (maxAttempts + 1 - attempt))") auto

declare retry_loop.simps [simp del]

definition withRpcRetry ::
  "('w, 'i, 't) cluster \<Rightarrow> string \<Rightarrow> ('w, 'a) io \<Rightarrow> int \<Rightarrow> ('w, 'a) io" where
  "withRpcRetry net label operation maxAttempts = retry_loop (netSleep net) label operation maxAttempts 1 None"

section \<open>Confirmation timeouts\<close>

definition isConfirmationTimeoutError :: "js_exn \<Rightarrow> bool" where
  "isConfirmationTimeoutError e \<longleftrightarrow> is_Error e \<and>
     (js_includes (exn_name_of e) ''TransactionExpiredTimeoutError''
      \<or> js_includes (exn_text e) ''was not confirmed in 30.00 seconds'')"

definition is_base58 :: "char \<Rightarrow> bool" where
  "is_base58 c \<longleftrightarrow> c \<in> set ''123456789ABCDEFGHJKLMNPQRSTUVWXYZabcdefghijkmnopqrstuvwxyz''"

text \<open>The regular expression \<open>Check signature ([1-9A-HJ-NP-Za-km-z]{32,88})\<close>, matched as far left as possible.\<close>

fun match_signature :: "string \<Rightarrow> string option" where
  "match_signature [] = None"
| "match_signature (c # s) =
     (let run = takeWhile is_base58 (drop 16 (c # s)) in
      if prefix ''Check signature '' (c # s) \<and> 32 \<le> length run then Some (take 88 run)
      else match_signature s)"

definition extractTimedOutSignature :: "js_exn \<Rightarrow> string option" where
  "extractTimedOutSignature e = (if is_Error e then match_signature (exn_text e) else None)"

text \<open>The polling loop may never end: nothing but the clock stops it.\<close>

definition is_confirmed :: "signature_status option \<Rightarrow> bool" where
  "is_confirmed status = (case status of None \<Rightarrow> False
     | Some s \<Rightarrow> confirmationStatus s = Some ''confirmed'' \<or> confirmationStatus s = Some ''finalized'')"

definition status_error :: "signature_status option \<Rightarrow> string option" where
  "status_error status = (case status of None \<Rightarrow> None | Some s \<Rightarrow> statusErr s)"

partial_function (option) poll_loop ::
  "('w, 'i, 't) cluster \<Rightarrow> string \<Rightarrow> string \<Rightarrow> int \<Rightarrow> 'w \<Rightarrow> (string js \<times> 'w) option" where
  "poll_loop net signature label deadline w =
     bindIO (netNow net) (\<lambda>now w1.
       if now < deadline then
         bindIO (netSignatureStatus net signature) (\<lambda>status w2.
           if status_error status \<noteq> None then
             throwIO (JsError ''Error'' (label @ '' landed on-chain but failed: '' @ the (status_error status))) w2
           else if is_confirmed status then returnIO signature w2
           else bindIO (netSleep net 1000) (\<lambda>_ w3. poll_loop net signature label deadline w3) w2) w1
       else throwIO (JsError ''Error'' (label @
         '' exceeded the local confirmation timeout and never reached confirmed/finalized status for signature '' @
         signature)) w1) w"

definition waitForConfirmedSignature ::
  "('w, 'i, 't) cluster \<Rightarrow> string \<Rightarrow> string \<Rightarrow> int \<Rightarrow> ('w, string) io" where
  "waitForConfirmedSignature net signature label timeoutMs =
     bindIO (netNow net) (\<lambda>now. poll_loop net signature label (now + timeoutMs))"

definition recoverTimedOutRpcSignature ::
  "('w, 'i, 't) cluster \<Rightarrow> js_exn \<Rightarrow> string \<Rightarrow> ('w, string option) io" where
  "recoverTimedOutRpcSignature net error label =
     (if \<not> isConfirmationTimeoutError error then returnIO None
      else case extractTimedOutSignature error of None \<Rightarrow> returnIO None
        | Some signature \<Rightarrow>
            bindIO (waitForConfirmedSignature net signature label 120000) (\<lambda>s. returnIO (Some s)))"

section \<open>Sending transactions\<close>

definition sendLegacyTransaction ::
  "('w, 'i, 't) cluster \<Rightarrow> keypair \<Rightarrow> 'i list \<Rightarrow> keypair list \<Rightarrow> ('w, string) io" where
  "sendLegacyTransaction net feePayer instructions extraSigners =
     bindIO (netLatestBlockhash net) (\<lambda>(blockhash, lastValidBlockHeight).
     bindIO (liftIO (webLegacy net (publicKey feePayer) blockhash instructions (feePayer # extraSigners)))
       (\<lambda>transaction.
     bindIO (netSendRaw net transaction False) (\<lambda>signature.
     bindIO (catchIO (bindIO (netConfirm net signature blockhash lastValidBlockHeight) (\<lambda>_. returnIO ()))
       (\<lambda>error. if \<not> isConfirmationTimeoutError error then throwIO error
          else bindIO (waitForConfirmedSignature net signature ''Legacy transaction'' 120000) (\<lambda>_. returnIO ())))
       (\<lambda>_. returnIO signature))))"

definition estimateVersionedTransactionBytes ::
  "('w, 'i, 't) cluster \<Rightarrow> keypair \<Rightarrow> 'i list \<Rightarrow> 't list \<Rightarrow> keypair list \<Rightarrow> ('w, int) io" where
  "estimateVersionedTransactionBytes net feePayer instructions lookupTables extraSigners =
     bindIO (netLatestBlockhash net) (\<lambda>(blockhash, _).
     bindIO (liftIO (webV0 net (publicKey feePayer) blockhash instructions lookupTables (feePayer # extraSigners)))
       (\<lambda>transaction. returnIO (int (length transaction))))"

record simulation_result =
  simulationOk :: bool
  simulationErrorText :: "string option"
  simulationLogLines :: "string list"

definition simulateVersionedTransaction ::
  "('w, 'i, 't) cluster \<Rightarrow> keypair \<Rightarrow> 'i list \<Rightarrow> 't list \<Rightarrow> keypair list \<Rightarrow> ('w, simulation_result) io" where
  "simulateVersionedTransaction net feePayer instructions lookupTables extraSigners =
     withRpcRetry net ''simulate versioned transaction''
       (bindIO (netLatestBlockhash net) (\<lambda>(blockhash, _).
        bindIO (liftIO (webV0 net (publicKey feePayer) blockhash instructions lookupTables (feePayer # extraSigners)))
          (\<lambda>transaction.
        bindIO (netSimulate net transaction) (\<lambda>(err, logs).
        returnIO \<lparr>simulationOk = (err = None), simulationErrorText = err, simulationLogLines = logs\<rparr>)))) 4"

text \<open>\<open>getTransactionErrorLogs\<close>: a \<open>SendTransactionError\<close> is asked for its logs, others may carry some.\<close>

definition getTransactionErrorLogs :: "('w, 'i, 't) cluster \<Rightarrow> js_exn \<Rightarrow> ('w, string list) io" where
  "getTransactionErrorLogs net error =
     (case error of
        SendTransactionError _ logs \<Rightarrow> catchIO (netErrorLogs net error) (\<lambda>_. returnIO logs)
      | LoggedError _ logs \<Rightarrow> returnIO logs
      | _ \<Rightarrow> returnIO [])"

text \<open>\<open>JSON.stringify(logs, null, 2)\<close> of a list of ASCII strings.\<close>

definition json_char :: "char \<Rightarrow> string" where
  "json_char c = (let n = of_char c :: nat in
     if n = 34 then [CHR 0x5C, c] else if n = 92 then [c, c]
     else if n = 8 then [CHR 0x5C, CHR ''b''] else if n = 9 then [CHR 0x5C, CHR ''t'']
     else if n = 10 then [CHR 0x5C, CHR ''n''] else if n = 12 then [CHR 0x5C, CHR ''f'']
     else if n = 13 then [CHR 0x5C, CHR ''r'']
     else if n < 32 then CHR 0x5C # ''u00'' @ hex_string [word_of_nat n] else [c])"

definition json_string :: "string \<Rightarrow> string" where
  "json_string s = [CHR 0x22] @ concat (map json_char s) @ [CHR 0x22]"

fun json_items :: "string list \<Rightarrow> string" where
  "json_items [] = []"
| "json_items [s] = ''  '' @ json_string s @ [CHR 0x0A]"
| "json_items (s # ss) = ''  '' @ json_string s @ '','' @ [CHR 0x0A] @ json_items ss"

definition json_array :: "string list \<Rightarrow> string" where
  "json_array ss = (if ss = [] then ''[]'' else ''['' @ [CHR 0x0A] @ json_items ss @ '']'')"

definition enrichTransactionError :: "('w, 'i, 't) cluster \<Rightarrow> js_exn \<Rightarrow> ('w, js_exn) io" where
  "enrichTransactionError net error =
     bindIO (getTransactionErrorLogs net error) (\<lambda>logs.
     returnIO (LoggedError
       (if length logs > 0 then errorMessage error @ [CHR 0x0A] @ ''Full transaction logs:'' @ [CHR 0x0A] @ json_array logs
        else errorMessage error) logs))"

text \<open>
  The \<open>try\<close> block of \<open>sendVersionedTransaction\<close>: send, confirm, and where the confirmation reports an
  error, throw it with the logs of the failed transaction (none, where they cannot be fetched).
\<close>

definition submit_and_confirm ::
  "('w, 'i, 't) cluster \<Rightarrow> bytes \<Rightarrow> bool \<Rightarrow> string \<Rightarrow> int \<Rightarrow> ('w, string) io" where
  "submit_and_confirm net serialized skipPreflight blockhash lastValidBlockHeight =
     bindIO (withRpcRetry net ''send raw transaction'' (netSendRaw net serialized skipPreflight) 4) (\<lambda>signature.
     bindIO (withRpcRetry net ''confirm transaction'' (netConfirm net signature blockhash lastValidBlockHeight) 4)
       (\<lambda>confirmation.
     case confirmation of
       None \<Rightarrow> returnIO signature
     | Some err \<Rightarrow>
         bindIO (catchIO (withRpcRetry net ''fetch failed transaction logs'' (netTransactionLogs net signature) 2)
           (\<lambda>_. returnIO None)) (\<lambda>logs.
         throwIO (LoggedError (''Transaction '' @ signature @ '' failed after submission: '' @ err)
           (case logs of None \<Rightarrow> [] | Some l \<Rightarrow> l)))))"

definition sendVersionedTransaction ::
  "('w, 'i, 't) cluster \<Rightarrow> keypair \<Rightarrow> 'i list \<Rightarrow> 't list \<Rightarrow> keypair list \<Rightarrow> bool \<Rightarrow> ('w, string) io" where
  "sendVersionedTransaction net feePayer instructions lookupTables extraSigners skipPreflight =
     bindIO (withRpcRetry net ''get latest blockhash'' (netLatestBlockhash net) 4)
       (\<lambda>(blockhash, lastValidBlockHeight).
     bindIO (liftIO (webV0 net (publicKey feePayer) blockhash instructions lookupTables (feePayer # extraSigners)))
       (\<lambda>serialized.
     catchIO (submit_and_confirm net serialized skipPreflight blockhash lastValidBlockHeight)
       (\<lambda>error. bindIO (enrichTransactionError net error) throwIO)))"

section \<open>What a retry returns\<close>

text \<open>The world after \<open>k\<close> transient failures from attempt number \<open>a\<close> on, each with its pause.\<close>

fun after_failures :: "(int \<Rightarrow> ('w, unit) io) \<Rightarrow> ('w, 'a) io \<Rightarrow> nat \<Rightarrow> int \<Rightarrow> 'w \<Rightarrow> 'w option" where
  "after_failures sleep operation 0 a w = Some w"
| "after_failures sleep operation (Suc k) a w = (case operation w of
     Some (Inl e, w1) \<Rightarrow>
       if isTransientRpcError e then
         (case sleep (400 * a) w1 of Some (Inr _, w2) \<Rightarrow> after_failures sleep operation k (a + 1) w2 | _ \<Rightarrow> None)
       else None
   | _ \<Rightarrow> None)"

definition final_outcome :: "int \<Rightarrow> int \<Rightarrow> 'a js \<Rightarrow> bool" where
  "final_outcome attempt maxAttempts r =
     (case r of Inr _ \<Rightarrow> True | Inl e \<Rightarrow> \<not> isTransientRpcError e \<or> attempt = maxAttempts)"

lemma retry_loop_last:
  assumes "attempt \<le> maxAttempts" "operation w = Some (r, w')" "final_outcome attempt maxAttempts r"
  shows "retry_loop sleep label operation maxAttempts attempt lastError w = Some (r, w')"
  using assms by (subst retry_loop.simps) (auto simp: final_outcome_def catchIO_def split: sum.splits)

lemma retry_loop_again:
  assumes "attempt < maxAttempts" "operation w = Some (Inl e, w1)" "isTransientRpcError e"
  shows "retry_loop sleep label operation maxAttempts attempt lastError w =
    bindIO (sleep (400 * attempt)) (\<lambda>_. retry_loop sleep label operation maxAttempts (attempt + 1) (Some e)) w1"
  using assms by (subst retry_loop.simps) (simp add: catchIO_def)

lemma retry_loop_diverges:
  assumes "attempt \<le> maxAttempts" "operation w = None"
  shows "retry_loop sleep label operation maxAttempts attempt lastError w = None"
  using assms by (subst retry_loop.simps) (simp add: catchIO_def)

lemma retry_loop_iff:
  assumes "\<And>ms w e w'. sleep ms w \<noteq> Some (Inl e, w')" and "attempt \<le> maxAttempts"
  shows "retry_loop sleep label operation maxAttempts attempt lastError w = Some (r, w') \<longleftrightarrow>
    (\<exists>k w1. attempt + int k \<le> maxAttempts \<and> after_failures sleep operation k attempt w = Some w1
      \<and> operation w1 = Some (r, w') \<and> final_outcome (attempt + int k) maxAttempts r)"
  (is "?run attempt lastError w \<longleftrightarrow> ?spec attempt w")
  using assms(2)
proof (induction "nat (maxAttempts - attempt)" arbitrary: attempt lastError w)
  case 0
  then have "attempt = maxAttempts" by simp
  then have "?spec attempt w \<longleftrightarrow> operation w = Some (r, w') \<and> final_outcome attempt maxAttempts r"
    by (auto intro: exI [of _ "0 :: nat"])
  moreover have "?run attempt lastError w \<longleftrightarrow> operation w = Some (r, w') \<and> final_outcome attempt maxAttempts r"
  proof (cases "operation w")
    case None
    then show ?thesis using \<open>attempt = maxAttempts\<close> by (simp add: retry_loop_diverges)
  next
    case (Some p)
    then show ?thesis
      using retry_loop_last [of attempt maxAttempts operation w "fst p" "snd p"] \<open>attempt = maxAttempts\<close>
      by (auto simp: final_outcome_def split: sum.splits)
  qed
  ultimately show ?case by simp
next
  case (Suc n)
  then have less: "attempt < maxAttempts" by simp
  have spec: "?spec attempt w \<longleftrightarrow> (operation w = Some (r, w') \<and> final_outcome attempt maxAttempts r) \<or>
      (\<exists>k w1. attempt + 1 + int k \<le> maxAttempts \<and> after_failures sleep operation (Suc k) attempt w = Some w1
        \<and> operation w1 = Some (r, w') \<and> final_outcome (attempt + 1 + int k) maxAttempts r)"
    using less by (subst ex_nat_split) (simp add: algebra_simps)
  show ?case
  proof (cases "\<exists>e w1. operation w = Some (Inl e, w1) \<and> isTransientRpcError e")
    case True
    then obtain e w1 where e: "operation w = Some (Inl e, w1)" "isTransientRpcError e" by blast
    with less have nope: "\<not> (operation w = Some (r, w') \<and> final_outcome attempt maxAttempts r)"
      by (auto simp: final_outcome_def)
    show ?thesis
    proof (cases "sleep (400 * attempt) w1")
      case None
      then show ?thesis unfolding spec using nope e retry_loop_again [of attempt maxAttempts operation w e w1, OF less e] by (simp add: bindIO_def)
    next
      case (Some p)
      then obtain u w2 where u: "sleep (400 * attempt) w1 = Some (Inr u, w2)" using assms(1) by (cases p; cases "fst p") auto
      have "?run (attempt + 1) (Some e) w2 \<longleftrightarrow> ?spec (attempt + 1) w2" by (rule Suc.hyps(1)) (use Suc.hyps less in auto)
      then show ?thesis unfolding spec using nope e u retry_loop_again [of attempt maxAttempts operation w e w1, OF less e]
        by simp blast
    qed
  next
    case False
    then have "after_failures sleep operation (Suc k) attempt w = None" for k
      by (auto split: option.splits sum.splits prod.splits)
    moreover have "?run attempt lastError w \<longleftrightarrow> operation w = Some (r, w') \<and> final_outcome attempt maxAttempts r"
    proof (cases "operation w")
      case None
      then show ?thesis using less by (simp add: retry_loop_diverges)
    next
      case (Some p)
      then have "final_outcome attempt maxAttempts (fst p)"
        using False by (cases p; cases "fst p") (auto simp: final_outcome_def)
      then show ?thesis using retry_loop_last [of attempt maxAttempts operation w "fst p" "snd p"] Some less by auto
    qed
    ultimately show ?thesis unfolding spec by simp
  qed
qed

lemma withRpcRetry_returnIO [simp]: "1 \<le> n \<Longrightarrow> withRpcRetry net label (returnIO x) n = returnIO x"
  unfolding withRpcRetry_def by (rule ext) (simp add: retry_loop_last final_outcome_def)

lemma withRpcRetry_ok:
  assumes "withRpcRetry net label operation maxAttempts w = Some (Inr x, w')"
  shows "\<exists>w1. operation w1 = Some (Inr x, w')"
proof -
  have "retry_loop sleep label operation maxAttempts attempt lastError w = Some (Inr x, w') \<Longrightarrow>
      \<exists>w1. operation w1 = Some (Inr x, w')" for sleep label attempt lastError w
  proof (induction sleep label operation maxAttempts attempt lastError arbitrary: w rule: retry_loop.induct)
    case (1 sleep label operation maxAttempts attempt lastError)
    from "1.prems" show ?case
      by (subst (asm) retry_loop.simps)
        (auto simp: io_iffs dest: "1.IH" split: if_splits option.splits)
  qed
  then show ?thesis using assms unfolding withRpcRetry_def by blast
qed

text \<open>
  C22: An RPC call is retried only after transient failures and at most \<open>maxAttempts\<close> times in all:
  its outcome is that of the first attempt that succeeds, fails for another reason, or is the last.
\<close>

theorem rpc_retry:
  assumes "\<And>ms w e w'. netSleep net ms w \<noteq> Some (Inl e, w')" and "1 \<le> maxAttempts"
  shows "withRpcRetry net label operation maxAttempts w = Some (r, w') \<longleftrightarrow>
    (\<exists>k w1. 1 + int k \<le> maxAttempts \<and> after_failures (netSleep net) operation k 1 w = Some w1
      \<and> operation w1 = Some (r, w') \<and> final_outcome (1 + int k) maxAttempts r)"
  unfolding withRpcRetry_def by (rule retry_loop_iff [OF assms])

text \<open>A cluster whose world is its clock: nothing is ever confirmed, and every transaction fails.\<close>

definition clock_cluster :: "(int, string, unit) cluster" where
  "clock_cluster = \<lparr>netLatestBlockhash = returnIO (''hash'', 100), netAccountInfo = (\<lambda>_. returnIO None),
     netMultipleAccountsInfo = (\<lambda>keys. returnIO (map (\<lambda>_. None) keys)), netBalance = (\<lambda>_. returnIO 0),
     netSlot = (\<lambda>_. returnIO 7), netSignatureStatus = (\<lambda>_. returnIO None),
     netTransactionLogs = (\<lambda>_. returnIO None), netSendRaw = (\<lambda>_ _. returnIO ''sig''),
     netConfirm = (\<lambda>_ _ _. returnIO (Some ''InstructionError'')), netSimulate = (\<lambda>_. returnIO (None, [])),
     netLookupTable = (\<lambda>_. returnIO None), netErrorLogs = (\<lambda>_. returnIO []),
     netOwnerIndex = (\<lambda>_. returnIO []), netSleep = (\<lambda>ms w. Some (Inr (), w + ms)),
     netNow = (\<lambda>w. Some (Inr w, w)), webV0 = (\<lambda>_ _ _ _ _. Inr [1]), webLegacy = (\<lambda>_ _ _ _. Inr [2]),
     webCreateLookupTable = (\<lambda>_ _ _. (''create'', [])), webExtendLookupTable = (\<lambda>_ _ _ _. ''extend''),
     webPublicKey = Inr, webKeyString = (\<lambda>_. ''key''), bnToNumber = Inr\<rparr>"

text \<open>An operation that the network refuses until the clock has reached a time.\<close>

definition busy_until :: "int \<Rightarrow> (int, int) io" where
  "busy_until t w = (if w < t then Some (Inl (JsError ''Error'' ''HTTP 429''), w) else Some (Inr w, w))"

theorem rpc_retry_witness:
  "withRpcRetry clock_cluster ''read'' (busy_until 1000) 4 0 = Some (Inr 1200, 1200) \<longleftrightarrow>
    (\<exists>k w1. 1 + int k \<le> 4 \<and> after_failures (netSleep clock_cluster) (busy_until 1000) k 1 0 = Some w1
      \<and> busy_until 1000 w1 = Some (Inr 1200, 1200) \<and> final_outcome (1 + int k) 4 (Inr (1200 :: int)))"
  by (rule rpc_retry) (simp_all add: clock_cluster_def)

section \<open>Confirmation\<close>

lemma poll_loop_ends:
  assumes clock: "\<And>w. netNow net w = Some (Inr (clock w), w)"
    and sleep: "\<And>w. \<exists>w'. netSleep net 1000 w = Some (Inr (), w') \<and> clock w + 1000 \<le> clock w'"
    and status: "\<And>w. \<exists>r w'. netSignatureStatus net signature w = Some (r, w') \<and> clock w \<le> clock w'"
  shows "\<exists>r w'. poll_loop net signature label deadline w = Some (r, w') \<and>
    (\<forall>s. r = Inr s \<longrightarrow> s = signature \<and> (\<exists>w1 st. netSignatureStatus net signature w1 = Some (Inr st, w')
      \<and> is_confirmed st \<and> status_error st = None))"
proof (induction "nat (deadline - clock w)" arbitrary: w rule: less_induct)
  case less
  show ?case
  proof (cases "clock w < deadline")
    case False
    then show ?thesis by (subst poll_loop.simps) (simp add: clock)
  next
    case True
    obtain r w2 where st: "netSignatureStatus net signature w = Some (r, w2)" "clock w \<le> clock w2"
      using status by blast
    show ?thesis
    proof (cases r)
      case (Inl e)
      with True st show ?thesis by (subst poll_loop.simps) (simp add: clock)
    next
      case (Inr st')
      consider "status_error st' \<noteq> None" | "status_error st' = None" "is_confirmed st'"
        | "status_error st' = None" "\<not> is_confirmed st'" by blast
      then show ?thesis
      proof cases
        case 3
        obtain w3 where w3: "netSleep net 1000 w2 = Some (Inr (), w3)" "clock w2 + 1000 \<le> clock w3" using sleep by blast
        then have "nat (deadline - clock w3) < nat (deadline - clock w)" using st(2) True by simp
        from less [OF this] show ?thesis
          using True st Inr 3 w3 by (subst poll_loop.simps) (simp add: clock)
      next
        case 2
        then show ?thesis using True st Inr by (subst poll_loop.simps) (auto simp: clock)
      qed (use True st Inr in \<open>subst poll_loop.simps, simp add: clock\<close>)
    qed
  qed
qed

text \<open>
  C23: Waiting for a confirmation always ends when every pause of a second advances the clock by one,
  and a signature is only returned when the cluster has just reported it confirmed or finalized,
  without an error.
\<close>

theorem confirmation_wait_ends:
  assumes clock: "\<And>w. netNow net w = Some (Inr (clock w), w)"
    and sleep: "\<And>w. \<exists>w'. netSleep net 1000 w = Some (Inr (), w') \<and> clock w + 1000 \<le> clock w'"
    and status: "\<And>w. \<exists>r w'. netSignatureStatus net signature w = Some (r, w') \<and> clock w \<le> clock w'"
  shows "\<exists>r w'. waitForConfirmedSignature net signature label timeoutMs w = Some (r, w') \<and>
    (\<forall>s. r = Inr s \<longrightarrow> s = signature \<and> (\<exists>w1 st. netSignatureStatus net signature w1 = Some (Inr st, w')
      \<and> is_confirmed st \<and> status_error st = None))"
  using poll_loop_ends [where net = net and clock = clock and w = w and deadline = "clock w + timeoutMs", OF assms]
  by (simp add: waitForConfirmedSignature_def clock)

theorem confirmation_wait_ends_witness:
  "\<exists>r w'. waitForConfirmedSignature clock_cluster ''sig'' ''settle'' 120000 5 = Some (r, w') \<and>
    (\<forall>s. r = Inr s \<longrightarrow> s = ''sig'' \<and> (\<exists>w1 st. netSignatureStatus clock_cluster ''sig'' w1 = Some (Inr st, w')
      \<and> is_confirmed st \<and> status_error st = None))"
  by (rule confirmation_wait_ends [where clock = id]) (simp_all add: clock_cluster_def)

text \<open>
  C14: A versioned transaction counts as sent only when the cluster has confirmed the very bytes that
  were compiled from its instructions, and the confirmation carries no error.
\<close>

theorem versioned_confirmed:
  assumes "sendVersionedTransaction net feePayer instructions tables signers skip w = Some (Inr signature, w')"
  shows "\<exists>hash height transaction w1 w2 w3.
    webV0 net (publicKey feePayer) hash instructions tables (feePayer # signers) = Inr transaction
    \<and> netSendRaw net transaction skip w1 = Some (Inr signature, w2)
    \<and> netConfirm net signature hash height w3 = Some (Inr None, w')"
proof -
  obtain hash height transaction w0 where tx:
      "webV0 net (publicKey feePayer) hash instructions tables (feePayer # signers) = Inr transaction"
    and sent: "submit_and_confirm net transaction skip hash height w0 = Some (Inr signature, w')"
    using assms by (auto simp: sendVersionedTransaction_def io_iffs)
  from sent obtain s c w1 w2 where
      "withRpcRetry net ''send raw transaction'' (netSendRaw net transaction skip) 4 w0 = Some (Inr s, w1)"
      "withRpcRetry net ''confirm transaction'' (netConfirm net s hash height) 4 w1 = Some (Inr c, w2)"
      "c = None \<and> s = signature \<and> w2 = w'"
    by (auto simp: submit_and_confirm_def io_iffs split: option.splits)
  with tx show ?thesis by (blast dest: withRpcRetry_ok)
qed

definition confirming_cluster :: "(int, string, unit) cluster" where
  "confirming_cluster = clock_cluster\<lparr>netConfirm := \<lambda>_ _ _. returnIO None\<rparr>"

theorem versioned_confirmed_witness:
  "\<exists>hash height transaction w1 w2 w3.
    webV0 confirming_cluster (publicKey (walletKeypair (sample_wallet 3))) hash [''settle''] [()] (walletKeypair (sample_wallet 3) # []) = Inr transaction
    \<and> netSendRaw confirming_cluster transaction False w1 = Some (Inr ''sig'', w2)
    \<and> netConfirm confirming_cluster ''sig'' hash height w3 = Some (Inr None, 0)"
proof (rule versioned_confirmed)
  have "netLatestBlockhash confirming_cluster = returnIO (''hash'', 100)"
    "netSendRaw confirming_cluster t b = returnIO ''sig''" "netConfirm confirming_cluster a b' n = returnIO None"
    "webV0 confirming_cluster k h i ts ss = Inr [1]" for t b a b' n k h i ts ss
    by (simp_all add: confirming_cluster_def clock_cluster_def)
  then show "sendVersionedTransaction confirming_cluster (walletKeypair (sample_wallet 3)) [''settle''] [()] [] False 0 = Some (Inr ''sig'', 0)"
    by (simp add: sendVersionedTransaction_def submit_and_confirm_def)
qed

text \<open>
  A legacy transaction that fails on chain is reported as sent: the error in the result of the
  confirmation is never looked at.
\<close>

theorem legacy_failure_ignored:
  assumes "netLatestBlockhash net w = Some (Inr (hash, height), w1)"
    and "webLegacy net (publicKey feePayer) hash instructions (feePayer # signers) = Inr transaction"
    and "netSendRaw net transaction False w1 = Some (Inr signature, w2)"
    and "netConfirm net signature hash height w2 = Some (Inr (Some err), w3)"
  shows "sendLegacyTransaction net feePayer instructions signers w = Some (Inr signature, w3)"
  using assms by (simp add: sendLegacyTransaction_def bindIO_def catchIO_def)

theorem legacy_failure_ignored_witness:
  "sendLegacyTransaction clock_cluster (walletKeypair (sample_wallet 3)) [''extend''] [] 3 = Some (Inr ''sig'', 3)"
  by (rule legacy_failure_ignored [where hash = "''hash''" and height = 100 and err = "''InstructionError''"
      and transaction = "[2]" and ?w1.0 = 3 and ?w2.0 = 3]) (simp_all add: clock_cluster_def)

end
