(* ===== verification/Accounts.thy ===== *)
theory Accounts
  imports Rpc
begin

text \<open>
  What \<open>scripts/ryvo-protocol-demo.ts\<close> builds on the connection: the addresses of the global accounts,
  fetching and decoding accounts and balances, choosing the fee sponsor, and creating address lookup
  tables in chunks.
\<close>

section \<open>Global accounts\<close>

definition findTokenRegistryPda :: "derive_address \<Rightarrow> pubkey \<Rightarrow> pubkey" where
  "findTokenRegistryPda derive programId = derive [ascii ''token-registry''] programId"

definition findGlobalConfigPda :: "derive_address \<Rightarrow> pubkey \<Rightarrow> pubkey" where
  "findGlobalConfigPda derive programId = derive [ascii ''global-config''] programId"

definition findVaultTokenAccountPda :: "bn_to_le \<Rightarrow> derive_address \<Rightarrow> pubkey \<Rightarrow> int \<Rightarrow> pubkey js" where
  "findVaultTokenAccountPda bn derive programId token =
     bindR (bn token 2) (\<lambda>le. Inr (derive [ascii ''vault-token-account'', le] programId))"

section \<open>Reading accounts\<close>

definition fetchAccountData :: "('w, 'i, 't) cluster \<Rightarrow> pubkey \<Rightarrow> string \<Rightarrow> ('w, bytes) io" where
  "fetchAccountData net key label =
     bindIO (netAccountInfo net key) (\<lambda>accountInfo. case accountInfo of
       None \<Rightarrow> throwIO (JsError ''Error'' (''Missing '' @ label @ '' account data for '' @ webKeyString net key))
     | Some data \<Rightarrow> returnIO data)"

definition fetchRawChannelBucketState ::
  "('w, 'i, 't) cluster \<Rightarrow> pubkey \<Rightarrow> int \<Rightarrow> int \<Rightarrow> ('w, raw_lane pair_channel) io" where
  "fetchRawChannelBucketState net channelPda payer payee =
     bindIO (fetchAccountData net channelPda ''channel bucket'') (\<lambda>data.
     liftIO (readRawChannelBucketState (webPublicKey net) data payer payee))"

definition fetchDirectionalChannelState ::
  "('w, 'i, 't) cluster \<Rightarrow> pubkey \<Rightarrow> int \<Rightarrow> int \<Rightarrow> ('w, raw_lane directional_channel) io" where
  "fetchDirectionalChannelState net channelPda payer payee =
     bindIO (fetchRawChannelBucketState net channelPda payer payee) (\<lambda>pairChannel.
     liftIO (normalizeDirectionalChannelState pairChannel payer payee))"

text \<open>A loop over an array in slices of \<open>n\<close>.\<close>

fun chunks :: "nat \<Rightarrow> 'a list \<Rightarrow> 'a list list" where
  "chunks n xs = (if xs = [] \<or> n = 0 then [] else take n xs # chunks n (drop n xs))"

declare chunks.simps [simp del]

text \<open>
  The \<open>Map\<close> from the keys to the data. Accounts come back in the order of the chunk; one that is
  missing ends the reading.
\<close>

definition add_chunk ::
  "('w, 'i, 't) cluster \<Rightarrow> pubkey list \<Rightarrow> (pubkey \<rightharpoonup> bytes) \<Rightarrow> ('w, pubkey \<rightharpoonup> bytes) io" where
  "add_chunk net chunk result =
     bindIO (netMultipleAccountsInfo net chunk) (\<lambda>accounts.
     liftIO (foldR (\<lambda>(accountInfo, key) m. case accountInfo of
         None \<Rightarrow> throwError (''Missing account data for '' @ webKeyString net key @ '' during RPC verification'')
       | Some data \<Rightarrow> Inr (m(key \<mapsto> data))) (zip accounts chunk) result))"

definition fetchAccountInfosByKey :: "('w, 'i, 't) cluster \<Rightarrow> pubkey list \<Rightarrow> ('w, pubkey \<rightharpoonup> bytes) io" where
  "fetchAccountInfosByKey net pubkeys = foldIO (add_chunk net) (chunks 100 pubkeys) Map.empty"

section \<open>Balances\<close>

record token_balance_view =
  viewAvailable :: int
  viewWithdrawing :: int

definition getParticipantTokenBalance ::
  "(int \<Rightarrow> int js) \<Rightarrow> normalized_participant \<Rightarrow> int \<Rightarrow> token_balance_view js" where
  "getParticipantTokenBalance toNumber participant token =
     (case find (\<lambda>(entryTokenId, _). entryTokenId = token) (normalizedBalances participant) of
        None \<Rightarrow> Inr \<lparr>viewAvailable = 0, viewWithdrawing = 0\<rparr>
      | Some (_, available, withdrawing, _) \<Rightarrow>
          bindR (toNumber available) (\<lambda>a. bindR (toNumber withdrawing) (\<lambda>b.
          Inr \<lparr>viewAvailable = a, viewWithdrawing = b\<rparr>)))"

definition fetchParticipantById ::
  "('w, 'i, 't) cluster \<Rightarrow> bn_to_le \<Rightarrow> derive_address \<Rightarrow> pubkey \<Rightarrow> int \<Rightarrow> ('w, normalized_participant \<times> pubkey) io" where
  "fetchParticipantById net bn derive programId participant =
     bindIO (liftIO (findParticipantBucketPda bn derive programId participant)) (\<lambda>pda.
     bindIO (fetchAccountData net pda ''participant bucket'') (\<lambda>data.
     bindIO (liftIO (readRawParticipantBucketSlot (webPublicKey net) data participant)) (\<lambda>slot.
     returnIO (normalizeParticipantBucketSlot slot, pda))))"

definition fetchParticipantByOwner ::
  "('w, 'i, 't) cluster \<Rightarrow> bn_to_le \<Rightarrow> derive_address \<Rightarrow> (bytes \<Rightarrow> bytes) \<Rightarrow> pubkey \<Rightarrow> pubkey \<Rightarrow>
    ('w, normalized_participant \<times> pubkey) io" where
  "fetchParticipantByOwner net bn derive sha256 programId ownerKey =
     bindIO (liftIO (findOwnerIndexBucketPda bn derive sha256 programId ownerKey)) (\<lambda>indexPda.
     bindIO (netOwnerIndex net indexPda) (\<lambda>slots.
     case find (\<lambda>(initialized, key, _). initialized \<and> key = ownerKey) slots of
       None \<Rightarrow> throwIO (JsError ''Error'' (''Participant owner '' @ webKeyString net ownerKey @ '' is not indexed''))
     | Some (_, _, participant) \<Rightarrow> fetchParticipantById net bn derive programId participant))"

text \<open>\<open>fetchInternalBalance\<close> also updates the wallet, which is returned.\<close>

definition fetchInternalBalance ::
  "('w, 'i, 't) cluster \<Rightarrow> bn_to_le \<Rightarrow> derive_address \<Rightarrow> (bytes \<Rightarrow> bytes) \<Rightarrow> pubkey \<Rightarrow> demo_wallet \<Rightarrow> int \<Rightarrow>
    ('w, token_balance_view \<times> demo_wallet) io" where
  "fetchInternalBalance net bn derive sha256 programId wallet token =
     bindIO (fetchParticipantByOwner net bn derive sha256 programId (publicKey (walletKeypair wallet)))
       (\<lambda>(participant, pda).
     if normalizedOwner participant \<noteq> publicKey (walletKeypair wallet) then
       throwIO (JsError ''Error'' (''Participant owner mismatch for '' @ walletName wallet @ '': on-chain owner '' @
         webKeyString net (normalizedOwner participant) @ '' does not match wallet '' @
         webKeyString net (publicKey (walletKeypair wallet))))
     else
       bindIO (liftIO (getParticipantTokenBalance (bnToNumber net) participant token)) (\<lambda>balance.
       returnIO (balance, wallet\<lparr>participantPda := pda, walletParticipantId := normalizedParticipantId participant\<rparr>)))"

section \<open>The fee sponsor\<close>

text \<open>The candidates without duplicates: first come in order, the last keypair of a key wins.\<close>

fun set_candidate :: "keypair \<Rightarrow> keypair list \<Rightarrow> keypair list" where
  "set_candidate c [] = [c]"
| "set_candidate c (k # ks) = (if publicKey k = publicKey c then c # ks else k # set_candidate c ks)"

definition uniqueCandidates :: "keypair list \<Rightarrow> keypair list" where
  "uniqueCandidates candidates = foldl (\<lambda>ks c. set_candidate c ks) [] candidates"

definition better_sponsor ::
  "('w, 'i, 't) cluster \<Rightarrow> keypair \<Rightarrow> keypair option \<times> int \<Rightarrow> ('w, keypair option \<times> int) io" where
  "better_sponsor net candidate best =
     bindIO (netBalance net (publicKey candidate)) (\<lambda>balance.
     returnIO (if balance > snd best then (Some candidate, balance) else best))"

definition selectFeeSponsor :: "('w, 'i, 't) cluster \<Rightarrow> keypair list \<Rightarrow> ('w, keypair) io" where
  "selectFeeSponsor net candidates =
     bindIO (foldIO (better_sponsor net) (uniqueCandidates candidates) (None, - 1)) (\<lambda>(best, _).
     case best of None \<Rightarrow> throwIO (JsError ''Error'' ''No fee sponsor candidates were provided'')
     | Some candidate \<Rightarrow> returnIO candidate)"

section \<open>Lookup tables\<close>

text \<open>The first loop of \<open>createLookupTableForAddresses\<close>, over the slots to go back.\<close>

fun try_recent_slots ::
  "('w, 'i, 't) cluster \<Rightarrow> keypair \<Rightarrow> keypair \<Rightarrow> int list \<Rightarrow> js_exn option \<Rightarrow> ('w, pubkey) io" where
  "try_recent_slots net authority payer [] lastError =
     throwIO (case lastError of
         Some e \<Rightarrow> if is_Error e then e else JsError ''Error'' ''Failed to create lookup table with a recent finalized slot''
       | None \<Rightarrow> JsError ''Error'' ''Failed to create lookup table with a recent finalized slot'')"
| "try_recent_slots net authority payer (backoff # backoffs) lastError =
     bindIO (netSlot net ''finalized'') (\<lambda>finalizedSlot.
     let (createIx, table) = webCreateLookupTable net (publicKey authority) (publicKey payer)
           (max 0 (finalizedSlot - backoff));
         signers = (if publicKey payer = publicKey authority then [] else [authority]) in
     catchIO (bindIO (sendLegacyTransaction net payer [createIx] signers) (\<lambda>_. returnIO table)) (\<lambda>error.
       if \<not> js_includes (exn_text error) ''not a recent slot'' then throwIO error
       else bindIO (netSleep net 500) (\<lambda>_. try_recent_slots net authority payer backoffs (Some error))))"

text \<open>The loop that waits, at most 20 times, for the cluster to pass the slot of the last extension.\<close>

fun await_slot :: "('w, 'i, 't) cluster \<Rightarrow> nat \<Rightarrow> int \<Rightarrow> ('w, unit) io" where
  "await_slot net 0 observed = returnIO ()"
| "await_slot net (Suc n) observed =
     bindIO (netSlot net ''confirmed'') (\<lambda>currentSlot.
     if currentSlot > observed then returnIO ()
     else bindIO (netSleep net 500) (\<lambda>_. await_slot net n observed))"

definition createLookupTableForAddresses ::
  "('w, 'i, 't) cluster \<Rightarrow> keypair \<Rightarrow> keypair \<Rightarrow> pubkey list \<Rightarrow> ('w, 't) io" where
  "createLookupTableForAddresses net authority payer addresses =
     (let signers = (if publicKey payer = publicKey authority then [] else [authority]) in
      bindIO (try_recent_slots net authority payer [5, 10, 20, 40] None) (\<lambda>table.
      bindIO (netSlot net ''confirmed'') (\<lambda>slot.
      bindIO (foldIO (\<lambda>chunk _.
          bindIO (sendLegacyTransaction net payer
            [webExtendLookupTable net (publicKey authority) (publicKey payer) table chunk] signers) (\<lambda>_.
          netSlot net ''confirmed'')) (chunks 20 addresses) slot) (\<lambda>lastExtendObservedSlot.
      bindIO (await_slot net 20 lastExtendObservedSlot) (\<lambda>_.
      bindIO (netLookupTable net table) (\<lambda>lookupTable. case lookupTable of
        None \<Rightarrow> throwIO (JsError ''Error'' ''Lookup table was created but could not be fetched'')
      | Some t \<Rightarrow> returnIO t))))))"

definition createLookupTablesForAddresses ::
  "('w, 'i, 't) cluster \<Rightarrow> keypair \<Rightarrow> keypair \<Rightarrow> pubkey list \<Rightarrow> ('w, 't list) io" where
  "createLookupTablesForAddresses net authority payer addresses =
     mapIO (createLookupTableForAddresses net authority payer) (chunks 256 (uniquePubkeys addresses))"

section \<open>Chunks\<close>

lemma chunks_concat: "0 < n \<Longrightarrow> concat (chunks n xs) = xs"
proof (induction n xs rule: chunks.induct)
  case (1 n xs)
  then show ?case by (cases "xs = []") (subst chunks.simps, simp)+
qed

lemma chunks_size: "c \<in> set (chunks n xs) \<Longrightarrow> c \<noteq> [] \<and> length c \<le> n"
proof (induction n xs rule: chunks.induct)
  case (1 n xs)
  then show ?case by (subst (asm) (2) chunks.simps) (auto split: if_splits)
qed

text \<open>A cluster whose accounts do not change while they are read.\<close>

lemma add_chunk_steady:
  assumes "netMultipleAccountsInfo net chunk = returnIO (map accounts chunk)"
    and "\<forall>key \<in> set chunk. accounts key \<noteq> None"
  shows "add_chunk net chunk m = returnIO (\<lambda>key. if key \<in> set chunk then accounts key else m key)"
proof -
  have "foldR (\<lambda>(accountInfo, key) m. case accountInfo of
         None \<Rightarrow> throwError (''Missing account data for '' @ webKeyString net key @ '' during RPC verification'')
       | Some data \<Rightarrow> Inr (m(key \<mapsto> data))) (zip (map accounts chunk) chunk) m
     = Inr (\<lambda>key. if key \<in> set chunk then accounts key else m key)"
    using assms(2)
  proof (induction chunk arbitrary: m)
    case (Cons key chunk)
    then show ?case by (auto simp: fun_eq_iff)
  qed simp
  then show ?thesis unfolding add_chunk_def assms(1) bindIO_returnIO by (simp only: liftIO_Inr)
qed

lemma add_chunk_missing:
  assumes "netMultipleAccountsInfo net chunk = returnIO (map accounts chunk)"
    and "\<exists>key \<in> set chunk. accounts key = None"
  shows "\<exists>msg. add_chunk net chunk m = throwIO (JsError ''Error'' msg)"
proof -
  have "\<exists>msg. foldR (\<lambda>(accountInfo, key) m. case accountInfo of
         None \<Rightarrow> throwError (''Missing account data for '' @ webKeyString net key @ '' during RPC verification'')
       | Some data \<Rightarrow> Inr (m(key \<mapsto> data))) (zip (map accounts chunk) chunk) m = Inl (JsError ''Error'' msg)"
    using assms(2)
  proof (induction chunk arbitrary: m)
    case (Cons key chunk)
    then show ?case by (cases "accounts key") (auto simp: throwError_def)
  qed simp
  then show ?thesis unfolding add_chunk_def assms(1) bindIO_returnIO by (metis liftIO_Inl)
qed

lemma fold_chunks_steady:
  assumes "\<forall>c \<in> set cs. netMultipleAccountsInfo net c = returnIO (map accounts c)"
    and "\<forall>key \<in> set (concat cs). accounts key \<noteq> None"
  shows "foldIO (add_chunk net) cs m = returnIO (\<lambda>key. if key \<in> set (concat cs) then accounts key else m key)"
  using assms
proof (induction cs arbitrary: m)
  case (Cons c cs)
  have c: "add_chunk net c m = returnIO (\<lambda>key. if key \<in> set c then accounts key else m key)"
    by (rule add_chunk_steady) (use Cons.prems in \<open>simp_all del: returnIO_apply\<close>)
  have "foldIO (add_chunk net) cs (\<lambda>key. if key \<in> set c then accounts key else m key) =
      returnIO (\<lambda>key. if key \<in> set (concat cs) then accounts key else if key \<in> set c then accounts key else m key)"
    by (rule Cons.IH) (use Cons.prems in \<open>simp_all del: returnIO_apply\<close>)
  also have "(\<lambda>key. if key \<in> set (concat cs) then accounts key else if key \<in> set c then accounts key else m key) =
      (\<lambda>key. if key \<in> set (concat (c # cs)) then accounts key else m key)" by (auto simp: fun_eq_iff)
  finally show ?case unfolding foldIO.simps c bindIO_returnIO .
qed simp

lemma fold_chunks_missing:
  assumes "\<forall>c \<in> set cs. netMultipleAccountsInfo net c = returnIO (map accounts c)"
    and "\<exists>key \<in> set (concat cs). accounts key = None"
  shows "\<exists>msg. foldIO (add_chunk net) cs m = throwIO (JsError ''Error'' msg)"
  using assms
proof (induction cs arbitrary: m)
  case (Cons c cs)
  have c: "netMultipleAccountsInfo net c = returnIO (map accounts c)" using Cons.prems by (simp del: returnIO_apply)
  show ?case
  proof (cases "\<exists>key \<in> set c. accounts key = None")
    case True
    then obtain msg where "add_chunk net c m = throwIO (JsError ''Error'' msg)"
      using add_chunk_missing [OF c] by blast
    then show ?thesis unfolding foldIO.simps by (simp only: bindIO_throwIO) blast
  next
    case False
    then have "add_chunk net c m = returnIO (\<lambda>key. if key \<in> set c then accounts key else m key)"
      by (intro add_chunk_steady [OF c]) simp
    moreover have "\<exists>msg. foldIO (add_chunk net) cs m' = throwIO (JsError ''Error'' msg)" for m'
      by (rule Cons.IH) (use Cons.prems False in \<open>auto simp del: returnIO_apply\<close>)
    ultimately show ?thesis unfolding foldIO.simps by (simp only: bindIO_returnIO)
  qed
qed simp

text \<open>
  C31: Reading accounts in chunks of a hundred is reading them all: from an RPC node that answers for
  up to a hundred keys at a time the client gets exactly the accounts of the keys, and it throws
  when one of them does not exist.
\<close>

theorem accounts_read:
  assumes "\<And>keys. length keys \<le> 100 \<Longrightarrow> netMultipleAccountsInfo net keys = returnIO (map accounts keys)"
  shows "if \<forall>key \<in> set pubkeys. accounts key \<noteq> None
    then fetchAccountInfosByKey net pubkeys = returnIO (\<lambda>key. if key \<in> set pubkeys then accounts key else None)
    else \<exists>msg. fetchAccountInfosByKey net pubkeys = throwIO (JsError ''Error'' msg)"
proof -
  have served: "\<forall>c \<in> set (chunks 100 pubkeys). netMultipleAccountsInfo net c = returnIO (map accounts c)"
    using assms chunks_size by blast
  have "concat (chunks 100 pubkeys) = pubkeys" by (simp add: chunks_concat)
  then show ?thesis
    unfolding fetchAccountInfosByKey_def
    using fold_chunks_steady [OF served, of Map.empty] fold_chunks_missing [OF served, of Map.empty] by auto
qed

theorem accounts_read_witness:
  "if \<forall>key \<in> set [[1], [2 :: byte]]. (Map.empty([1 :: byte] \<mapsto> [7, 7 :: byte])) key \<noteq> None
    then fetchAccountInfosByKey (clock_cluster\<lparr>netMultipleAccountsInfo := \<lambda>keys. returnIO (map (Map.empty([1 :: byte] \<mapsto> [7, 7 :: byte])) keys)\<rparr>) [[1], [2]] =
      returnIO (\<lambda>key. if key \<in> set [[1], [2 :: byte]] then (Map.empty([1 :: byte] \<mapsto> [7, 7 :: byte])) key else None)
    else \<exists>msg. fetchAccountInfosByKey (clock_cluster\<lparr>netMultipleAccountsInfo := \<lambda>keys. returnIO (map (Map.empty([1 :: byte] \<mapsto> [7, 7 :: byte])) keys)\<rparr>) [[1], [2]] =
      throwIO (JsError ''Error'' msg)"
  by (rule accounts_read [where accounts = "Map.empty([1 :: byte] \<mapsto> [7, 7 :: byte])"]) (simp del: returnIO_apply)

section \<open>The sponsor has the most\<close>

lemma set_candidate_keys: "publicKey ` set (set_candidate c ks) = insert (publicKey c) (publicKey ` set ks)"
  by (induction ks) (simp_all add: insert_commute)

lemma set_candidate_set: "set (set_candidate c ks) \<subseteq> insert c (set ks)"
proof (induction ks)
  case (Cons k ks)
  then show ?case by (cases "publicKey k = publicKey c") (simp_all, blast+)
qed simp

lemma uniqueCandidates_keys:
  "publicKey ` set (uniqueCandidates cs) = publicKey ` set cs" "set (uniqueCandidates cs) \<subseteq> set cs"
proof -
  have "publicKey ` set (foldl (\<lambda>ks c. set_candidate c ks) ks cs) = publicKey ` set ks \<union> publicKey ` set cs
    \<and> set (foldl (\<lambda>ks c. set_candidate c ks) ks cs) \<subseteq> set ks \<union> set cs" for ks
  proof (induction cs arbitrary: ks)
    case (Cons c cs)
    then show ?case using set_candidate_keys [of c ks] set_candidate_set [of c ks] by (simp del: set_candidate.simps) blast
  qed simp
  from this [of "[]"] show "publicKey ` set (uniqueCandidates cs) = publicKey ` set cs"
    "set (uniqueCandidates cs) \<subseteq> set cs" by (simp_all add: uniqueCandidates_def)
qed

lemma sponsor_fold:
  assumes "\<And>key. netBalance net key = returnIO (balance key)" "\<And>key. 0 \<le> balance key"
    and "case best of None \<Rightarrow> b = - 1 | Some c \<Rightarrow> b = balance (publicKey c)"
  shows "\<exists>best' b'. foldIO (better_sponsor net) cs (best, b) = returnIO (best', b')
    \<and> (best' = None \<longrightarrow> cs = [] \<and> best = None)
    \<and> (\<forall>c. best' = Some c \<longrightarrow> (c \<in> set cs \<or> best = Some c) \<and> b' = balance (publicKey c)
        \<and> b \<le> b' \<and> (\<forall>k \<in> set cs. balance (publicKey k) \<le> b'))"
  using assms(3)
proof (induction cs arbitrary: best b)
  case Nil
  then show ?case by (auto split: option.splits)
next
  case (Cons c cs)
  define chosen where "chosen = (if balance (publicKey c) > b then (Some c, balance (publicKey c)) else (best, b))"
  obtain best2 b2 where pair: "chosen = (best2, b2)" by (cases chosen)
  have step: "better_sponsor net c (best, b) = returnIO (best2, b2)"
    unfolding better_sponsor_def assms(1) bindIO_returnIO pair [symmetric] chosen_def by simp
  have facts: "best2 \<noteq> None" "best2 = Some c \<or> best2 = best" "b \<le> b2" "balance (publicKey c) \<le> b2"
    "case best2 of None \<Rightarrow> b2 = - 1 | Some k \<Rightarrow> b2 = balance (publicKey k)"
    using pair Cons.prems assms(2) [of "publicKey c"]
    by (auto simp: chosen_def split: option.splits if_splits)
  obtain best' b' where IH: "foldIO (better_sponsor net) cs (best2, b2) = returnIO (best', b')"
    "best' = None \<longrightarrow> cs = [] \<and> best2 = None"
    "\<forall>k. best' = Some k \<longrightarrow> (k \<in> set cs \<or> best2 = Some k) \<and> b' = balance (publicKey k)
        \<and> b2 \<le> b' \<and> (\<forall>k \<in> set cs. balance (publicKey k) \<le> b')"
    using Cons.IH [OF facts(5)] by blast
  have "foldIO (better_sponsor net) (c # cs) (best, b) = returnIO (best', b')"
    unfolding foldIO.simps step bindIO_returnIO by (rule IH(1))
  moreover have "\<forall>k. best' = Some k \<longrightarrow> (k \<in> set (c # cs) \<or> best = Some k) \<and> b' = balance (publicKey k)
        \<and> b \<le> b' \<and> (\<forall>k \<in> set (c # cs). balance (publicKey k) \<le> b')"
    using IH(3) facts by (auto intro: order_trans)
  ultimately show ?case using IH(2) facts(1) by blast
qed

text \<open>
  The fee sponsor is one of the candidates, and none of them has a higher balance; only where
  there is no candidate at all does the choice fail.
\<close>

theorem sponsor_richest:
  assumes "\<And>key. netBalance net key = returnIO (balance key)" "\<And>key. 0 \<le> balance key"
  shows "if candidates = [] then \<exists>msg. selectFeeSponsor net candidates = throwIO (JsError ''Error'' msg)
    else \<exists>c \<in> set candidates. selectFeeSponsor net candidates = returnIO c
      \<and> (\<forall>k \<in> set candidates. balance (publicKey k) \<le> balance (publicKey c))"
proof -
  obtain best b where fold: "foldIO (better_sponsor net) (uniqueCandidates candidates) (None, - 1) = returnIO (best, b)"
    and none: "best = None \<longrightarrow> uniqueCandidates candidates = []"
    and some: "\<forall>c. best = Some c \<longrightarrow> c \<in> set (uniqueCandidates candidates) \<and> b = balance (publicKey c)
      \<and> (\<forall>k \<in> set (uniqueCandidates candidates). balance (publicKey k) \<le> b)"
    using sponsor_fold [where best = None and b = "- 1" and cs = "uniqueCandidates candidates", OF assms] by auto
  have run: "selectFeeSponsor net candidates = (case best of
      None \<Rightarrow> throwIO (JsError ''Error'' ''No fee sponsor candidates were provided'') | Some c \<Rightarrow> returnIO c)"
    unfolding selectFeeSponsor_def fold bindIO_returnIO by simp
  show ?thesis
  proof (cases best)
    case None
    with none uniqueCandidates_keys(1) [of candidates] have "candidates = []" by auto
    then show ?thesis using run None by auto
  next
    case (Some c)
    with some have "c \<in> set candidates" using uniqueCandidates_keys(2) by blast
    moreover have "balance (publicKey k) \<le> balance (publicKey c)" if "k \<in> set candidates" for k
      using that some Some uniqueCandidates_keys(1) [of candidates] by (metis image_eqI image_iff)
    ultimately show ?thesis using run Some by auto
  qed
qed

theorem sponsor_richest_witness:
  "if [walletKeypair (sample_wallet 3), walletKeypair (sample_wallet 5)] = [] then
      \<exists>msg. selectFeeSponsor (clock_cluster\<lparr>netBalance := \<lambda>key. returnIO (int (length key))\<rparr>)
        [walletKeypair (sample_wallet 3), walletKeypair (sample_wallet 5)] = throwIO (JsError ''Error'' msg)
    else \<exists>c \<in> set [walletKeypair (sample_wallet 3), walletKeypair (sample_wallet 5)].
      selectFeeSponsor (clock_cluster\<lparr>netBalance := \<lambda>key. returnIO (int (length key))\<rparr>)
        [walletKeypair (sample_wallet 3), walletKeypair (sample_wallet 5)] = returnIO c
      \<and> (\<forall>k \<in> set [walletKeypair (sample_wallet 3), walletKeypair (sample_wallet 5)].
          int (length (publicKey k)) \<le> int (length (publicKey c)))"
  by (rule sponsor_richest) (simp_all del: returnIO_apply)

section \<open>The two readers of a balance\<close>

lemma entry_fields:
  assumes "readRawTokenBalanceEntry newPublicKey data c = Inr b"
  shows "js_readUIntLE 2 data (c + 1) = Inr (balanceTokenId b)" "js_flag data c = balanceInitialized b"
    "readRawU64 data (c + 3) = Inr (availableBalance b)" "readRawU64 data (c + 11) = Inr (withdrawingBalance b)"
  using assms
  by (auto simp: readRawTokenBalanceEntry_def readRawU64_def readRawU64Bn_def Let_def bindR_eq_Inr)

lemma scan_finds:
  assumes "mapR (\<lambda>index. readRawTokenBalanceEntry newPublicKey data (cursor + int index * 59)) [i..<i + n] = Inr balances"
  shows "scanTokenBalances n data (cursor + int i * 59) token =
    Inr (case find (\<lambda>b. balanceInitialized b \<and> balanceTokenId b = token) balances of
        None \<Rightarrow> (0, 0) | Some b \<Rightarrow> (availableBalance b, withdrawingBalance b))"
  using assms
proof (induction n arbitrary: i balances)
  case (Suc n)
  have "[i..<i + Suc n] = i # [Suc i..<Suc i + n]" by (simp add: upt_rec)
  with Suc.prems obtain b bs where b: "readRawTokenBalanceEntry newPublicKey data (cursor + int i * 59) = Inr b"
    and bs: "mapR (\<lambda>index. readRawTokenBalanceEntry newPublicKey data (cursor + int index * 59)) [Suc i..<Suc i + n] = Inr bs"
    and "balances = b # bs"
    by (auto simp: bindR_eq_Inr)
  moreover have "scanTokenBalances n data (cursor + int i * 59 + 59) token =
      Inr (case find (\<lambda>b. balanceInitialized b \<and> balanceTokenId b = token) bs of
        None \<Rightarrow> (0, 0) | Some b \<Rightarrow> (availableBalance b, withdrawingBalance b))"
    using Suc.IH [OF bs] by (simp add: algebra_simps)
  ultimately show ?case using entry_fields [OF b] by simp
qed simp

lemma find_filter_map:
  "find (\<lambda>(t, _). t = token) (map (\<lambda>b. (balanceTokenId b, f b)) (filter balanceInitialized bs)) =
    map_option (\<lambda>b. (balanceTokenId b, f b)) (find (\<lambda>b. balanceInitialized b \<and> balanceTokenId b = token) bs)"
  by (induction bs) auto

text \<open>
  The two ways the client reads a balance agree: decoding the participant's slot and looking the
  token up in it gives the amounts that the direct reader finds in the bytes, 0 for a token the
  participant does not hold.
\<close>

theorem balance_readers_agree:
  assumes "readRawParticipantBucketSlot newPublicKey data participant = Inr slot"
    and "js_readUIntLE 4 data 8 = Inr (participantBucketIdForParticipantId participant)"
    and "\<And>n. toNumber n = Inr n"
  shows "\<exists>balance. getParticipantTokenBalance toNumber (normalizeParticipantBucketSlot slot) token = Inr balance
    \<and> readRawParticipantBucketTokenBalance data participant token = Inr (viewAvailable balance, viewWithdrawing balance)"
proof -
  let ?off = "13 + participantBucketSlotIndex participant * 1079"
  obtain actual balances where slot: "js_readUIntLE 4 data (?off + 33) = Inr actual"
      "js_flag data ?off" "actual = participant" "tokenBalances slot = balances"
    and entries: "mapR (\<lambda>index. readRawTokenBalanceEntry newPublicKey data (?off + 135 + int index * 59)) [0..<16] = Inr balances"
    using assms(1) by (auto simp: readRawParticipantBucketSlot_def Let_def bindR_eq_Inr split: if_splits)
  have "scanTokenBalances 16 data (?off + 135) token =
      Inr (case find (\<lambda>b. balanceInitialized b \<and> balanceTokenId b = token) balances of
        None \<Rightarrow> (0, 0) | Some b \<Rightarrow> (availableBalance b, withdrawingBalance b))"
    using scan_finds [of newPublicKey data "?off + 135" 0 16 balances token] entries by simp
  then show ?thesis
    using assms(2) slot
    by (auto simp: readRawParticipantBucketTokenBalance_def getParticipantTokenBalance_def Let_def
        normalizeParticipantBucketSlot_def find_filter_map assms(3) split: option.splits)
qed

text \<open>The bucket of a participant 0 who holds nothing yet: only the flag of the slot is set.\<close>

definition fresh_bucket :: bytes where
  "fresh_bucket = replicate 13 0 @ [1] @ replicate 1078 0"

lemma fresh_read: "14 \<le> off \<Longrightarrow> off + int k \<le> 1092 \<Longrightarrow> js_readUIntLE k fresh_bucket off = Inr 0"
proof -
  assume off: "14 \<le> off" "off + int k \<le> 1092"
  then have "14 \<le> nat off" "k \<le> 1092 - nat off" by linarith+
  then have "subarray (nat off) k fresh_bucket = replicate k 0"
    by (simp add: fresh_bucket_def subarray_append_right subarray_def drop_Cons' min_def)
  with off show ?thesis by (simp add: js_readUIntLE_def fresh_bucket_def)
qed

lemma fresh_byte: "14 \<le> off \<Longrightarrow> off < 1092 \<Longrightarrow> js_flag fresh_bucket off = False"
  by (simp add: js_flag_def js_byte_def fresh_bucket_def nth_append nth_Cons')

lemma fresh_entry:
  "14 \<le> c \<Longrightarrow> c + 59 \<le> 1092 \<Longrightarrow> readRawTokenBalanceEntry (\<lambda>_. Inr []) fresh_bucket c =
    Inr \<lparr>balanceInitialized = False, balanceTokenId = 0, availableBalance = 0, withdrawingBalance = 0,
      withdrawalUnlockAt = 0, withdrawalDestination = []\<rparr>"
  by (simp add: readRawTokenBalanceEntry_def readRawU64Bn_def readRawI64Bn_def readRawPubkey_def fresh_read fresh_byte)

lemma fresh_slot: "\<exists>slot. readRawParticipantBucketSlot (\<lambda>_. Inr []) fresh_bucket 0 = Inr slot"
proof -
  have "mapR (\<lambda>index. readRawTokenBalanceEntry (\<lambda>_. Inr []) fresh_bucket (148 + int index * 59)) [0..<16] =
      Inr (map (\<lambda>_. \<lparr>balanceInitialized = False, balanceTokenId = 0, availableBalance = 0, withdrawingBalance = 0,
        withdrawalUnlockAt = 0, withdrawalDestination = []\<rparr>) [0..<16])"
    by (rule mapR_Inr) (simp add: fresh_entry)
  moreover have "js_flag fresh_bucket 13" by (simp add: js_flag_def js_byte_def fresh_bucket_def nth_append)
  ultimately show ?thesis
    by (simp add: readRawParticipantBucketSlot_def participantBucketSlotIndex_def js_mod_nonneg layout_simps
        fresh_read readRawPubkey_def)
qed

theorem balance_readers_agree_witness:
  "\<exists>slot. readRawParticipantBucketSlot (\<lambda>_. Inr []) fresh_bucket 0 = Inr slot \<and>
    (\<exists>balance. getParticipantTokenBalance Inr (normalizeParticipantBucketSlot slot) 1 = Inr balance
      \<and> readRawParticipantBucketTokenBalance fresh_bucket 0 1 = Inr (viewAvailable balance, viewWithdrawing balance))"
proof -
  obtain slot where slot: "readRawParticipantBucketSlot (\<lambda>_. Inr []) fresh_bucket 0 = Inr slot"
    using fresh_slot by blast
  moreover have "js_readUIntLE 4 fresh_bucket 8 = Inr (participantBucketIdForParticipantId 0)"
    by (simp add: js_readUIntLE_def fresh_bucket_def subarray_append_left participantBucketIdForParticipantId_def layout_simps)
  ultimately show ?thesis using balance_readers_agree [where toNumber = Inr, OF slot] by blast
qed

end
