(* ===== verification/Bls.thy ===== *)
theory Bls
  imports Prelude
begin

text \<open>
  \<open>shared/protocol-bls.ts\<close>: message domains, BLS secret scalars, signatures and the registration
  message. SHA-256 and the curve library (\<open>@noble/curves\<close>) are parameters: \<open>sha256\<close> gives 32 bytes,
  and \<open>curve\<close> holds the point operations the file calls, \<open>multiply\<close> possibly failing.
\<close>

section \<open>Scalars\<close>

definition BLS_SCALAR_MODULUS :: int where
  "BLS_SCALAR_MODULUS = 0x73eda753299d7d483339d80809a1d80553bda402fffe5bfeffffffff00000001"

definition MESSAGE_DOMAIN_TAG :: bytes where
  "MESSAGE_DOMAIN_TAG = ascii ''ryvo-message-domain-v1''"

definition BLS_SIGNING_POINT_TAG :: bytes where
  "BLS_SIGNING_POINT_TAG = ascii ''ryvo-bls-signing-point-v1''"

definition deriveMessageDomain :: "(bytes \<Rightarrow> bytes) \<Rightarrow> pubkey \<Rightarrow> int \<Rightarrow> bytes" where
  "deriveMessageDomain sha256 programId chainId =
     js_subarray (sha256 (MESSAGE_DOMAIN_TAG @ programId @
       [word_of_int (chainId mod 256), word_of_int (chainId div 256 mod 256)])) 0 16"

text \<open>The \<open>while\<close> loop of \<open>reduceBlsScalarBytes\<close>.\<close>

function reduce_loop :: "int \<Rightarrow> int" where
  "reduce_loop v = (if v \<ge> BLS_SCALAR_MODULUS then reduce_loop (v - BLS_SCALAR_MODULUS) else v)"
  by pat_completeness auto
termination
  by (relation "measure nat") (auto simp: BLS_SCALAR_MODULUS_def)

declare reduce_loop.simps [simp del]

text \<open>\<open>BigInt("0x" + hex)\<close>, the loop, and back to 64 hex digits.\<close>

definition reduceBlsScalarBytes :: "bytes \<Rightarrow> bytes" where
  "reduceBlsScalarBytes bs = be_bytes 32 (nat (reduce_loop (int (be_nat bs))))"

definition normalizeZeroScalar :: "bytes \<Rightarrow> bytes" where
  "normalizeZeroScalar scalarBytes =
     (if scalarBytes \<noteq> replicate 32 0 then scalarBytes else (replicate 32 0)[31 := 1])"

definition secret_scalar_from_seed :: "(bytes \<Rightarrow> bytes) \<Rightarrow> bytes \<Rightarrow> int" where
  "secret_scalar_from_seed sha256 seed =
     int (be_nat (normalizeZeroScalar (reduceBlsScalarBytes (sha256 seed))))"

definition hashMessageToBlsScalar :: "(bytes \<Rightarrow> bytes) \<Rightarrow> bytes \<Rightarrow> int" where
  "hashMessageToBlsScalar sha256 message =
     (let scalarBytes = reduceBlsScalarBytes (sha256 (BLS_SIGNING_POINT_TAG @ message));
          scalarBytes' = (if scalarBytes = replicate 32 0
            then normalizeZeroScalar (reduceBlsScalarBytes (sha256 (BLS_SIGNING_POINT_TAG @ message @ [1])))
            else scalarBytes) in
      int (be_nat scalarBytes'))"

section \<open>Keys and signatures\<close>

record 'g bls_curve =
  g1_base :: 'g
  g1_zero :: 'g
  g1_multiply :: "'g \<Rightarrow> int \<Rightarrow> 'g js"
  g1_add :: "'g \<Rightarrow> 'g \<Rightarrow> 'g"
  g1_toRawBytes :: "'g \<Rightarrow> bytes"
  g1_fromHex :: "bytes \<Rightarrow> 'g js"
  g2_public :: "int \<Rightarrow> bytes js"

record bls_keypair =
  secretScalar :: int
  publicKeyCompressed :: bytes

definition createBlsKeypairFromSeed ::
  "(bytes \<Rightarrow> bytes) \<Rightarrow> 'g bls_curve \<Rightarrow> bytes \<Rightarrow> bls_keypair js" where
  "createBlsKeypairFromSeed sha256 curve seed =
     (let scalar = secret_scalar_from_seed sha256 seed in
      bindR (g2_public curve scalar) (\<lambda>key.
      Inr \<lparr>secretScalar = scalar, publicKeyCompressed = key\<rparr>))"

definition hashMessageToBlsPoint :: "(bytes \<Rightarrow> bytes) \<Rightarrow> 'g bls_curve \<Rightarrow> bytes \<Rightarrow> 'g js" where
  "hashMessageToBlsPoint sha256 curve message =
     g1_multiply curve (g1_base curve) (hashMessageToBlsScalar sha256 message)"

definition signBlsMessage :: "(bytes \<Rightarrow> bytes) \<Rightarrow> 'g bls_curve \<Rightarrow> int \<Rightarrow> bytes \<Rightarrow> bytes js" where
  "signBlsMessage sha256 curve secret message =
     bindR (hashMessageToBlsPoint sha256 curve message) (\<lambda>point.
     bindR (g1_multiply curve point secret) (\<lambda>signature.
     Inr (g1_toRawBytes curve signature)))"

definition aggregateBlsSignatures :: "'g bls_curve \<Rightarrow> bytes list \<Rightarrow> bytes js" where
  "aggregateBlsSignatures curve signatures =
     bindR (foldR (\<lambda>signature point.
       bindR (g1_fromHex curve signature) (\<lambda>s. Inr (g1_add curve point s))) signatures (g1_zero curve)) (\<lambda>aggregate.
     Inr (g1_toRawBytes curve aggregate))"

text \<open>\<open>writeUInt32LE\<close> throws outside the range of a \<open>u32\<close>.\<close>

definition createBlsRegistrationMessage :: "int \<Rightarrow> pubkey \<Rightarrow> bytes \<Rightarrow> bytes \<Rightarrow> bytes js" where
  "createBlsRegistrationMessage participantId ownerKey blsPubkeyCompressed messageDomain =
     (if \<not> (0 \<le> participantId \<and> participantId < 2 ^ 32)
      then rangeError (''The value of \"value\" is out of range. It must be >= 0 and <= 4294967295. Received '' @
        show_int participantId)
      else Inr ([0x03, 0x01] @ messageDomain @ le_bytes 4 (nat participantId) @ ownerKey @ blsPubkeyCompressed))"

section \<open>Reduction\<close>

lemma reduce_loop_mod: "0 \<le> v \<Longrightarrow> reduce_loop v = v mod BLS_SCALAR_MODULUS"
proof (induction v rule: reduce_loop.induct)
  case (1 v)
  show ?case
  proof (cases "v \<ge> BLS_SCALAR_MODULUS")
    case True
    then have "reduce_loop v = (v - BLS_SCALAR_MODULUS) mod BLS_SCALAR_MODULUS"
      using 1 by (subst reduce_loop.simps) simp
    then show ?thesis by simp
  next
    case False
    then show ?thesis using "1.prems" by (subst reduce_loop.simps) simp
  qed
qed

lemma modulus_bounds: "1 < BLS_SCALAR_MODULUS" "BLS_SCALAR_MODULUS < 256 ^ 32"
  by (simp_all add: BLS_SCALAR_MODULUS_def)

lemma mod_in_range: "0 \<le> int n mod BLS_SCALAR_MODULUS" "int n mod BLS_SCALAR_MODULUS < BLS_SCALAR_MODULUS"
  using modulus_bounds by simp_all

lemma be_nat_reduced: "int (be_nat (reduceBlsScalarBytes bs)) = int (be_nat bs) mod BLS_SCALAR_MODULUS"
proof -
  let ?v = "int (be_nat bs) mod BLS_SCALAR_MODULUS"
  have v: "0 \<le> ?v" "?v < 256 ^ 32"
    by (rule mod_in_range(1), rule less_trans [OF mod_in_range(2) modulus_bounds(2)])
  then have "nat ?v < 256 ^ 32" by (simp add: nat_less_iff)
  then show ?thesis
    using v by (simp add: reduceBlsScalarBytes_def reduce_loop_mod be_nat_be_bytes)
qed

lemma be_nat_zero_iff: "length bs = n \<Longrightarrow> be_nat bs = 0 \<longleftrightarrow> bs = replicate n 0"
proof
  assume n: "length bs = n" and "be_nat bs = 0"
  then have "le_bytes n (le_nat (rev bs)) = rev bs" using le_bytes_le_nat [of "rev bs"] by simp
  then have "rev bs = le_bytes n 0" using \<open>be_nat bs = 0\<close> by (simp add: be_nat_def)
  moreover have "le_bytes n 0 = replicate n 0" by (induction n) auto
  ultimately show "bs = replicate n 0" by (metis rev_replicate rev_rev_ident)
qed (simp add: be_nat_def)

lemma be_nat_one: "be_nat ((replicate 32 0)[31 := 1]) = 1"
  by (simp add: be_nat_def numeral_eq_Suc)

lemma normalized_scalar:
  "int (be_nat (normalizeZeroScalar (reduceBlsScalarBytes bs))) =
    (let v = int (be_nat bs) mod BLS_SCALAR_MODULUS in if v = 0 then 1 else v)"
proof -
  have "length (reduceBlsScalarBytes bs) = 32" by (simp add: reduceBlsScalarBytes_def)
  note zero = be_nat_zero_iff [OF this]
  show ?thesis
    using zero be_nat_reduced [of bs] by (auto simp: normalizeZeroScalar_def be_nat_one Let_def)
qed

lemma scalar_range: "(let v = int n mod BLS_SCALAR_MODULUS in if v = 0 then 1 else v) \<in> {1 ..< BLS_SCALAR_MODULUS}"
proof -
  have "1 \<le> v \<and> v < m" if "0 \<le> v" "v < m" "v \<noteq> 0" for v m :: int using that by linarith
  then show ?thesis using mod_in_range [of n] modulus_bounds(1) by (metis atLeastLessThan_iff order_refl)
qed

lemma hash_scalar_range: "hashMessageToBlsScalar sha256 message \<in> {1 ..< BLS_SCALAR_MODULUS}"
proof -
  have len: "length (reduceBlsScalarBytes bs) = 32" for bs by (simp add: reduceBlsScalarBytes_def)
  have reduced: "int (be_nat (reduceBlsScalarBytes bs)) \<in> {1 ..< BLS_SCALAR_MODULUS}"
    if "reduceBlsScalarBytes bs \<noteq> replicate 32 0" for bs
    using scalar_range [of "be_nat bs"] be_nat_reduced [of bs] be_nat_zero_iff [OF len, of bs] that
    by (metis of_nat_eq_0_iff)
  have normalized: "int (be_nat (normalizeZeroScalar (reduceBlsScalarBytes bs))) \<in> {1 ..< BLS_SCALAR_MODULUS}" for bs
    unfolding normalized_scalar by (rule scalar_range)
  show ?thesis
    unfolding hashMessageToBlsScalar_def Let_def using reduced normalized by (simp only: split: if_split) blast
qed

section \<open>Properties\<close>

text \<open>
  Every seed gives a usable secret scalar: the digest modulo the group order, and 1 where that
  would be 0, so the scalar is in the range the curve accepts; the scalar of a signing point is too.
\<close>

theorem bls_scalar_range:
  "secret_scalar_from_seed sha256 seed =
      (let v = int (be_nat (sha256 seed)) mod BLS_SCALAR_MODULUS in if v = 0 then 1 else v)
    \<and> secret_scalar_from_seed sha256 seed \<in> {1 ..< BLS_SCALAR_MODULUS}
    \<and> hashMessageToBlsScalar sha256 message \<in> {1 ..< BLS_SCALAR_MODULUS}"
  unfolding secret_scalar_from_seed_def normalized_scalar
  using scalar_range hash_scalar_range by blast

lemma aggregate_fold:
  assumes "\<And>p. g1_fromHex curve (g1_toRawBytes curve p) = Inr p"
    and "\<And>p a b. g1_add curve (mult p a) (mult p b) = mult p (a + b)"
  shows "foldR (\<lambda>signature point. bindR (g1_fromHex curve signature) (\<lambda>s. Inr (g1_add curve point s)))
      (map (\<lambda>k. g1_toRawBytes curve (mult p k)) ks) (mult p a) = Inr (mult p (a + sum_list ks))"
proof (induction ks arbitrary: a)
  case (Cons k ks)
  from Cons [of "a + k"] show ?case by (simp add: assms add.assoc)
qed simp

text \<open>
  The aggregate of the signatures of several keys on one message is the signature of the sum of
  their scalars on it, and no signature fails, on any curve library whose \<open>multiply\<close> accepts the
  scalars from 1 to the group order, adds up, and reads its own encoding.
\<close>

theorem bls_aggregate_sum:
  assumes mult: "\<And>p k. k \<in> {1 ..< BLS_SCALAR_MODULUS} \<Longrightarrow> g1_multiply curve p k = Inr (mult p k)"
    and add: "\<And>p a b. g1_add curve (mult p a) (mult p b) = mult p (a + b)"
    and zero: "\<And>p. mult p 0 = g1_zero curve"
    and codec: "\<And>p. g1_fromHex curve (g1_toRawBytes curve p) = Inr p"
    and scalars: "\<forall>k \<in> set secrets. k \<in> {1 ..< BLS_SCALAR_MODULUS}"
  shows "\<exists>signatures. mapR (\<lambda>k. signBlsMessage sha256 curve k message) secrets = Inr signatures
    \<and> aggregateBlsSignatures curve signatures = Inr (g1_toRawBytes curve
        (mult (mult (g1_base curve) (hashMessageToBlsScalar sha256 message)) (sum_list secrets)))"
proof -
  let ?p = "mult (g1_base curve) (hashMessageToBlsScalar sha256 message)"
  have "hashMessageToBlsScalar sha256 message \<in> {1 ..< BLS_SCALAR_MODULUS}"
    using hash_scalar_range by blast
  then have "mapR (\<lambda>k. signBlsMessage sha256 curve k message) secrets =
      Inr (map (\<lambda>k. g1_toRawBytes curve (mult ?p k)) secrets)"
    using scalars by (intro mapR_Inr) (simp add: signBlsMessage_def hashMessageToBlsPoint_def mult)
  then show ?thesis
    using aggregate_fold [where curve = curve and mult = mult and p = ?p and a = 0, OF codec add, of secrets]
    by (simp add: aggregateBlsSignatures_def zero)
qed

definition parity_curve :: "bool bls_curve" where
  "parity_curve = \<lparr>g1_base = True, g1_zero = False, g1_multiply = (\<lambda>p k. Inr (p \<and> odd k)),
     g1_add = (\<lambda>p q. p \<noteq> q), g1_toRawBytes = (\<lambda>p. [of_bool p]),
     g1_fromHex = (\<lambda>bs. Inr (bs = [1])), g2_public = (\<lambda>k. Inr [])\<rparr>"

theorem bls_aggregate_sum_witness:
  "\<exists>signatures. mapR (\<lambda>k. signBlsMessage (\<lambda>bs. replicate 32 7) parity_curve k [1, 2]) [3, 4, 5] = Inr signatures
    \<and> aggregateBlsSignatures parity_curve signatures = Inr (g1_toRawBytes parity_curve
        ((g1_base parity_curve \<and> odd (hashMessageToBlsScalar (\<lambda>bs. replicate 32 7) [1, 2])) \<and> odd (sum_list [3, 4, 5 :: int])))"
  by (rule bls_aggregate_sum [where mult = "\<lambda>p k. p \<and> odd k"])
    (auto simp: parity_curve_def BLS_SCALAR_MODULUS_def)

end
