(* ===== verification/RoundPlan.thy ===== *)
theory RoundPlan
  imports Accounts Bls "HOL-Library.Product_Lexorder" "HOL-Library.Multiset"
begin

text \<open>
  The planning of a multilateral clearing round in \<open>scripts/ryvo-protocol-demo.ts\<close>: raw amounts
  (\<open>toRawAmount\<close>, \<open>deterministicRawChannelAmount\<close>), and \<open>prepareMultilateralRound\<close>, which turns the
  chosen channels into blocks, the signed message, the settlement instruction and the previews.

  The libraries it calls are the fields of \<open>toolbox\<close>: \<open>BN\<close>, the hash, Ed25519, the curve, the address
  derivation, and the instruction builders of Anchor and \<open>@solana/web3.js\<close>.
\<close>

section \<open>Amounts\<close>

text \<open>
  A \<open>number\<close> that need not be an integer: \<open>Float m k\<close> is the double \<open>m / 2 ^ k\<close>. Arithmetic rounds to
  53 significant bits; since rounding commutes with scaling by a power of two, it is done on the
  mantissa. \<open>js_plus\<close> is \<open>+\<close> on integral doubles.
\<close>

datatype js_num = Float int nat | NotFinite

definition js_round :: "int \<Rightarrow> int" where
  "js_round n = (if n < 0 then - js_Number (- n) else js_Number n)"

definition js_plus :: "int \<Rightarrow> int \<Rightarrow> int" where
  "js_plus a b = js_round (a + b)"

text \<open>\<open>Math.round(x)\<close> is the floor of \<open>x + 1/2\<close>.\<close>

definition toRawAmount :: "(js_num \<Rightarrow> string) \<Rightarrow> js_num \<Rightarrow> nat \<Rightarrow> int js" where
  "toRawAmount showNumber amount decimals =
     (case amount of
        NotFinite \<Rightarrow> throwError (''Amount '' @ showNumber amount @ '' is not safely representable'')
      | Float m k \<Rightarrow>
          let product = js_round (m * js_round (10 ^ decimals)); raw = (2 * product + 2 ^ k) div 2 ^ (k + 1) in
          if \<bar>raw\<bar> < 2 ^ 53 then Inr raw
          else throwError (''Amount '' @ showNumber amount @ '' is not safely representable''))"

definition amount_digest :: "(bytes \<Rightarrow> bytes) \<Rightarrow> string \<Rightarrow> string \<Rightarrow> demo_wallet \<Rightarrow> demo_wallet \<Rightarrow> bytes" where
  "amount_digest sha256 seed scenario payer payee =
     sha256 (ascii (seed @ '':'' @ scenario @ '':'' @ show_int (walletParticipantId payer) @ ''->'' @
       show_int (walletParticipantId payee)))"

definition deterministicRawChannelAmount ::
  "(bytes \<Rightarrow> bytes) \<Rightarrow> (js_num \<Rightarrow> string) \<Rightarrow> string \<Rightarrow> string \<Rightarrow> demo_wallet \<Rightarrow> demo_wallet \<Rightarrow> nat \<Rightarrow> js_num \<Rightarrow> js_num \<Rightarrow> int js" where
  "deterministicRawChannelAmount sha256 showNumber seed scenario payer payee decimals minAmount maxAmount =
     bindR (toRawAmount showNumber minAmount decimals) (\<lambda>minRaw.
     bindR (toRawAmount showNumber maxAmount decimals) (\<lambda>maxRaw.
     if maxRaw \<le> minRaw then Inr minRaw else
       let digest = amount_digest sha256 seed scenario payer payee;
           span = js_plus (js_round (maxRaw - minRaw)) 1;
           offset = js_round (int (be_nat (js_subarray digest 0 8)) mod span) in
       Inr (js_plus minRaw offset)))"

lemma js_round_exact [simp]: "\<bar>n\<bar> \<le> 2 ^ 53 \<Longrightarrow> js_round n = n"
  by (simp add: js_round_def)

lemma js_plus_exact [simp]: "\<bar>a + b\<bar> \<le> 2 ^ 53 \<Longrightarrow> js_plus a b = a + b"
  by (simp add: js_plus_def)

lemma toRawAmount_safe: "toRawAmount showNumber amount decimals = Inr raw \<Longrightarrow> \<bar>raw\<bar> < 2 ^ 53"
  by (auto simp: toRawAmount_def Let_def split: js_num.splits if_splits)

lemma obligation_between:
  assumes "toRawAmount showNumber minAmount decimals = Inr lo" "toRawAmount showNumber maxAmount decimals = Inr hi"
    and "0 \<le> lo"
  shows "\<exists>amount. deterministicRawChannelAmount sha256 showNumber seed scenario payer payee decimals minAmount maxAmount = Inr amount
    \<and> lo \<le> amount \<and> amount \<le> max lo hi"
proof (cases "hi \<le> lo")
  case True
  then show ?thesis using assms by (simp add: deterministicRawChannelAmount_def)
next
  case False
  let ?n = "int (be_nat (js_subarray (amount_digest sha256 seed scenario payer payee) 0 8))"
  have hi: "hi < 2 ^ 53" using toRawAmount_safe [OF assms(2)] by simp
  have pos: "0 < hi - lo + 1" using False by simp
  have "0 \<le> ?n mod (hi - lo + 1)" using pos by (rule pos_mod_sign)
  moreover have "?n mod (hi - lo + 1) \<le> hi - lo" using pos_mod_bound [OF pos, of ?n] by (simp only: zle_add1_eq_le)
  ultimately show ?thesis using assms False hi by (simp add: deterministicRawChannelAmount_def Let_def)
qed

text \<open>
  The obligation of a channel lies between the two configured amounts (it is the minimum where the
  maximum is not larger), and the computation cannot fail once both amounts are representable.
\<close>

theorem obligation_bounds:
  assumes "toRawAmount showNumber minAmount decimals = Inr lo" "toRawAmount showNumber maxAmount decimals = Inr hi"
    and "0 \<le> lo"
  shows "\<exists>amount. deterministicRawChannelAmount sha256 showNumber seed scenario payer payee decimals minAmount maxAmount = Inr amount
    \<and> lo \<le> amount \<and> amount \<le> max lo hi"
  by (rule obligation_between [OF assms])

theorem obligation_bounds_witness:
  "\<exists>amount. deterministicRawChannelAmount (\<lambda>bs. map (\<lambda>b. b * 7 + 1) bs) (\<lambda>_. ''amount'') ''seed'' ''round'' (sample_wallet 3) (sample_wallet 5) 6 (Float 1 1) (Float 2 0) = Inr amount
    \<and> 500000 \<le> amount \<and> amount \<le> max 500000 2000000"
  by (rule obligation_bounds) (simp_all add: toRawAmount_def)

section \<open>Scenarios\<close>

record channel_edge =
  edgePayer :: demo_wallet
  edgePayee :: demo_wallet
  edgeChannelPda :: pubkey
  edgeSettledCumulative :: int

record edge_selection =
  selectionEdges :: "channel_edge list"
  selectionParticipants :: "demo_wallet list"

datatype scenario_mode = MaxParticipants | MaxChannels

record scenario_definition =
  scenarioId :: string
  scenarioTitle :: string
  scenarioMode :: scenario_mode
  fullParticipantSet :: "demo_wallet list"
  lowerBound :: int
  upperBound :: int

record 't search_context =
  fullParticipants :: "demo_wallet list"
  completeGraphEdges :: "channel_edge list"
  lookupTables :: "'t list"
  sponsor :: keypair
  extraSigners :: "keypair list"
  contextDecimals :: nat
  contextTokenId :: int
  contextTokenSymbol :: string
  contextMessageDomain :: bytes
  edgeCommitmentCount :: int
  resultsLogPath :: string
  runId :: string
  scenarioSeed :: string
  randomMinAmount :: js_num
  randomMaxAmount :: js_num
  denseChannelCap :: int
  computeUnitLimit :: int

record ('g, 'i) toolbox =
  boxBn :: bn_le
  boxToNumber :: "int \<Rightarrow> int js"
  boxShowNumber :: "js_num \<Rightarrow> string"
  boxSha256 :: "bytes \<Rightarrow> bytes"
  boxSign :: ed25519_sign
  boxCurve :: "'g bls_curve"
  boxDerive :: derive_address
  boxProgramId :: pubkey
  boxSysvar :: pubkey
  boxSettleInstruction :: "bytes \<Rightarrow> bytes \<Rightarrow> pubkey list \<Rightarrow> account_meta list \<Rightarrow> 'i js"
  boxHeapFrame :: "int \<Rightarrow> 'i"
  boxComputeUnits :: "int \<Rightarrow> 'i"

record 'i prepared_round =
  roundParticipantsOf :: "demo_wallet list"
  roundEdges :: "channel_edge list"
  roundBlocks :: "round_preview_block list"
  roundMessage :: bytes
  roundAggregate :: bytes
  roundInstruction :: 'i
  roundClearingPreview :: round_preview
  roundCommitmentPreview :: signed_commitment_preview
  totalGrossRouted :: int
  totalUnderlyingCommitments :: int

definition BLS_CLEARING_ROUND_MESSAGE_VERSION :: int where "BLS_CLEARING_ROUND_MESSAGE_VERSION = 5"

definition SIGNED_COMMITMENT_PREVIEW_COUNT :: nat where "SIGNED_COMMITMENT_PREVIEW_COUNT = 4"

definition buildBlsExecutionInstructions :: "('g, 'i) toolbox \<Rightarrow> int \<Rightarrow> 'i \<Rightarrow> 'i list" where
  "buildBlsExecutionInstructions box units mainInstruction =
     [boxHeapFrame box (256 * 1024), boxComputeUnits box units, mainInstruction]"

text \<open>The client's own \<open>signBlsMessage\<close>, with the scalar of a wallet.\<close>

definition signWalletBlsMessage :: "('g, 'i) toolbox \<Rightarrow> demo_wallet \<Rightarrow> bytes \<Rightarrow> bytes js" where
  "signWalletBlsMessage box wallet message = signBlsMessage (boxSha256 box) (boxCurve box) (blsSecretScalar wallet) message"

section \<open>Preparing a round\<close>

text \<open>\<open>new Map(...)\<close> from a list of pairs: the last pair of a key counts.\<close>

definition js_map :: "('k \<times> 'v) list \<Rightarrow> 'k \<rightharpoonup> 'v" where
  "js_map pairs = map_of (rev pairs)"

definition participantIndexById :: "demo_wallet list \<Rightarrow> int \<rightharpoonup> int" where
  "participantIndexById participants =
     js_map (zip (map walletParticipantId participants) (map int [0..<length participants]))"

definition MAX_SAFE_INTEGER :: int where "MAX_SAFE_INTEGER = 2 ^ 53 - 1"

definition index_or_max :: "demo_wallet list \<Rightarrow> demo_wallet \<Rightarrow> int" where
  "index_or_max participants wallet =
     (case participantIndexById participants (walletParticipantId wallet) of Some i \<Rightarrow> i | None \<Rightarrow> MAX_SAFE_INTEGER)"

text \<open>The comparator orders by the payer's position, then by the payee's; \<open>sort\<close> is stable.\<close>

definition orderEdges :: "demo_wallet list \<Rightarrow> channel_edge list \<Rightarrow> channel_edge list" where
  "orderEdges participants edges =
     sort_key (\<lambda>edge. (index_or_max participants (edgePayer edge), index_or_max participants (edgePayee edge))) edges"

type_synonym round_state = "(int \<rightharpoonup> round_preview_block) \<times> int"

definition emptyBlocks :: "demo_wallet list \<Rightarrow> int \<rightharpoonup> round_preview_block" where
  "emptyBlocks participants =
     js_map (map (\<lambda>p. (walletParticipantId p, \<lparr>roundParticipant = p, roundEntries = []\<rparr>)) participants)"

definition edge_obligation :: "('g, 'i) toolbox \<Rightarrow> 't search_context \<Rightarrow> scenario_definition \<Rightarrow> channel_edge \<Rightarrow> int js" where
  "edge_obligation box context scenario edge =
     deterministicRawChannelAmount (boxSha256 box) (boxShowNumber box) (scenarioSeed context) (scenarioId scenario)
       (edgePayer edge) (edgePayee edge) (contextDecimals context) (randomMinAmount context) (randomMaxAmount context)"

text \<open>
  One round of the loop over the ordered edges. The payer's block is looked up with \<open>?.\<close>, so an edge
  whose payer has no block adds no entry.
\<close>

definition addEdge ::
  "('g, 'i) toolbox \<Rightarrow> 't search_context \<Rightarrow> scenario_definition \<Rightarrow> demo_wallet list \<Rightarrow> channel_edge \<Rightarrow> round_state \<Rightarrow> round_state js" where
  "addEdge box context scenario participants edge st = (case st of (blocks, gross) \<Rightarrow>
     case participantIndexById participants (walletParticipantId (edgePayee edge)) of
       None \<Rightarrow> throwError (''Payee '' @ walletName (edgePayee edge) @ '' is missing from the candidate participant set'')
     | Some payeeIndex \<Rightarrow>
         bindR (edge_obligation box context scenario edge) (\<lambda>obligationRaw.
         let gross' = js_plus gross obligationRaw; payer = walletParticipantId (edgePayer edge) in
         case blocks payer of
           None \<Rightarrow> Inr (blocks, gross')
         | Some block \<Rightarrow>
             bindR (boxToNumber box (edgeSettledCumulative edge)) (\<lambda>settled.
             Inr (blocks(payer \<mapsto> block\<lparr>roundEntries := roundEntries block @
                    [\<lparr>roundPayeeRef = payeeIndex, roundPayee = edgePayee edge,
                      roundTargetCumulative = js_plus settled obligationRaw\<rparr>]\<rparr>), gross'))))"

definition collectBlocks :: "demo_wallet list \<Rightarrow> (int \<rightharpoonup> round_preview_block) \<Rightarrow> round_preview_block list js" where
  "collectBlocks participants blocks =
     mapR (\<lambda>p. case blocks (walletParticipantId p) of
         None \<Rightarrow> throwError (''Candidate participant '' @ walletName p @ '' is missing from round blocks'')
       | Some block \<Rightarrow> Inr block) participants"

text \<open>The input of the commitment preview for one edge.\<close>

definition preview_input ::
  "('g, 'i) toolbox \<Rightarrow> 't search_context \<Rightarrow> demo_wallet list \<Rightarrow> (int \<rightharpoonup> round_preview_block) \<Rightarrow> channel_edge \<Rightarrow> commitment_preview_input js" where
  "preview_input box context participants blocks edge =
     (let entries = (case blocks (walletParticipantId (edgePayer edge)) of None \<Rightarrow> [] | Some b \<Rightarrow> roundEntries b);
          matchingEntry = find (\<lambda>entry. 0 \<le> roundPayeeRef entry \<and> roundPayeeRef entry < int (length participants)
            \<and> walletParticipantId (edgePayee edge) = walletParticipantId (participants ! nat (roundPayeeRef entry))) entries in
      bindR (case matchingEntry of Some entry \<Rightarrow> Inr (roundTargetCumulative entry)
             | None \<Rightarrow> boxToNumber box (edgeSettledCumulative edge)) (\<lambda>amount.
      Inr \<lparr>inputPayer = edgePayer edge, inputPayee = edgePayee edge, inputCommittedAmount = amount,
           inputTokenId = contextTokenId context\<rparr>))"

definition undefined_keypair :: "'a js" where
  "undefined_keypair = Inl (JsError ''TypeError''
     (''Cannot read properties of undefined (reading '' @ [CHR 0x27] @ ''keypair'' @ [CHR 0x27] @ '')''))"

definition prepareMultilateralRound ::
  "('g, 'i) toolbox \<Rightarrow> 't search_context \<Rightarrow> scenario_definition \<Rightarrow> edge_selection \<Rightarrow> 'i prepared_round js" where
  "prepareMultilateralRound box context scenario selection =
     (let participants = selectionParticipants selection;
          orderedEdges = orderEdges participants (selectionEdges selection) in
      bindR (foldR (addEdge box context scenario participants) orderedEdges (emptyBlocks participants, 0)) (\<lambda>(blockMap, gross).
      bindR (collectBlocks participants blockMap) (\<lambda>blocks.
      bindR (createClearingRoundMessage (boxBn box) (contextTokenId context) (contextMessageDomain context)
        (map round_block_spec blocks) (Some BLS_CLEARING_ROUND_MESSAGE_VERSION)) (\<lambda>message.
      let active = map roundParticipant (filter (\<lambda>block. 0 < length (roundEntries block)) blocks) in
      bindR (mapR (\<lambda>p. signWalletBlsMessage box p message) active) (\<lambda>signatures.
      bindR (aggregateBlsSignatures (boxCurve box) signatures) (\<lambda>aggregate.
      let remainingAccounts = uniqueWritableMetasForPubkeys (map participantPda participants) @
            uniqueWritableMetasForPubkeys (map edgeChannelPda orderedEdges) in
      bindR (case participants of [] \<Rightarrow> undefined_keypair | submitter # _ \<Rightarrow> Inr submitter) (\<lambda>submitter.
      bindR (boxSettleInstruction box message aggregate
        [findTokenRegistryPda (boxDerive box) (boxProgramId box), findGlobalConfigPda (boxDerive box) (boxProgramId box),
         publicKey (walletKeypair submitter), boxSysvar box] remainingAccounts) (\<lambda>instruction.
      bindR (buildClearingRoundPayloadPreview (boxBn box) (boxSign box) (contextMessageDomain context) (contextTokenId context)
        (contextTokenSymbol context) (int (contextDecimals context)) blocks (Some BLS_CLEARING_ROUND_MESSAGE_VERSION)
        (Some aggregate)) (\<lambda>clearingRoundPreview.
      bindR (mapR (preview_input box context participants blockMap) (take SIGNED_COMMITMENT_PREVIEW_COUNT orderedEdges)) (\<lambda>inputs.
      bindR (buildSignedCommitmentPreview (boxBn box) (boxSign box) (contextMessageDomain context)
        (int (contextDecimals context)) (contextTokenSymbol context) inputs) (\<lambda>signedCommitmentPreview.
      Inr \<lparr>roundParticipantsOf = participants, roundEdges = orderedEdges, roundBlocks = blocks, roundMessage = message,
           roundAggregate = aggregate, roundInstruction = instruction, roundClearingPreview = clearingRoundPreview,
           roundCommitmentPreview = signedCommitmentPreview, totalGrossRouted = gross,
           totalUnderlyingCommitments = edgeCommitmentCount context * int (length orderedEdges)\<rparr>)))))))))))"

section \<open>The blocks of a round\<close>

lemma js_map_distinct: "distinct (map fst pairs) \<Longrightarrow> js_map pairs = map_of pairs"
  unfolding js_map_def
  by (rule map_of_inject_set [THEN iffD2]) (simp_all add: rev_map [symmetric] distinct_rev)

lemma participantIndex_some:
  assumes "distinct (map walletParticipantId ps)"
  shows "participantIndexById ps pid = Some i \<longleftrightarrow> (\<exists>k < length ps. i = int k \<and> walletParticipantId (ps ! k) = pid)"
proof -
  have "participantIndexById ps pid = map_of (zip (map walletParticipantId ps) (map int [0..<length ps])) pid"
    unfolding participantIndexById_def by (subst js_map_distinct) (use assms in simp_all)
  also have "\<dots> = Some i \<longleftrightarrow> (pid, i) \<in> set (zip (map walletParticipantId ps) (map int [0..<length ps]))"
    using assms by (subst map_of_eq_Some_iff) simp_all
  also have "\<dots> \<longleftrightarrow> (\<exists>k < length ps. map walletParticipantId ps ! k = pid \<and> map int [0..<length ps] ! k = i)"
    by (auto simp: in_set_zip)
  also have "\<dots> \<longleftrightarrow> (\<exists>k < length ps. i = int k \<and> walletParticipantId (ps ! k) = pid)" by auto
  finally show ?thesis .
qed

lemma emptyBlocks_eq:
  assumes "distinct (map walletParticipantId ps)" "p \<in> set ps"
  shows "emptyBlocks ps (walletParticipantId p) = Some \<lparr>roundParticipant = p, roundEntries = []\<rparr>"
  unfolding emptyBlocks_def
  by (subst js_map_distinct) (use assms in \<open>auto simp: comp_def map_of_eq_Some_iff\<close>)

text \<open>What one edge contributes: the payee's position, the payee and the new cumulative amount.\<close>

definition entry_for ::
  "('g, 'i) toolbox \<Rightarrow> 't search_context \<Rightarrow> scenario_definition \<Rightarrow> demo_wallet list \<Rightarrow> channel_edge \<Rightarrow> round_preview_entry" where
  "entry_for box context scenario ps edge =
     (let amount = projr (edge_obligation box context scenario edge) in
      \<lparr>roundPayeeRef = the (participantIndexById ps (walletParticipantId (edgePayee edge))), roundPayee = edgePayee edge,
       roundTargetCumulative = js_plus (projr (boxToNumber box (edgeSettledCumulative edge))) amount\<rparr>)"

definition payer_of :: "channel_edge \<Rightarrow> int" where
  "payer_of edge = walletParticipantId (edgePayer edge)"

lemma addEdge_block:
  assumes "addEdge box context scenario ps edge (m, g) = Inr (m', g')" "m (payer_of edge) \<noteq> None"
  shows "m' = m(payer_of edge \<mapsto> (the (m (payer_of edge)))
      \<lparr>roundEntries := roundEntries (the (m (payer_of edge))) @ [entry_for box context scenario ps edge]\<rparr>)
    \<and> g' = js_plus g (projr (edge_obligation box context scenario edge))"
  using assms
  by (auto simp: addEdge_def payer_of_def entry_for_def Let_def bindR_eq_Inr split: option.splits)

lemma addEdges_blocks:
  assumes "foldR (addEdge box context scenario ps) edges (m, g) = Inr (m', g')"
    and "\<forall>edge \<in> set edges. m (payer_of edge) \<noteq> None"
  shows "m' pid = map_option (\<lambda>block. block\<lparr>roundEntries := roundEntries block @
      map (entry_for box context scenario ps) (filter (\<lambda>edge. payer_of edge = pid) edges)\<rparr>) (m pid)
    \<and> g' = foldl js_plus g (map (\<lambda>edge. projr (edge_obligation box context scenario edge)) edges)"
  using assms
proof (induction edges arbitrary: m g)
  case Nil
  then show ?case by (cases "m pid") simp_all
next
  case (Cons edge edges)
  from Cons.prems(1) obtain m1 g1 where first: "addEdge box context scenario ps edge (m, g) = Inr (m1, g1)"
    and rest: "foldR (addEdge box context scenario ps) edges (m1, g1) = Inr (m', g')"
    by (auto simp: bindR_eq_Inr)
  have m1: "m1 = m(payer_of edge \<mapsto> (the (m (payer_of edge)))
      \<lparr>roundEntries := roundEntries (the (m (payer_of edge))) @ [entry_for box context scenario ps edge]\<rparr>)"
    and g1: "g1 = js_plus g (projr (edge_obligation box context scenario edge))"
    using addEdge_block [OF first] Cons.prems(2) by auto
  have "\<forall>edge \<in> set edges. m1 (payer_of edge) \<noteq> None" using Cons.prems(2) by (simp add: m1)
  from Cons.IH [OF rest this] show ?case
    using Cons.prems(2) by (cases "m pid") (auto simp: m1 g1)
qed

lemma orderEdges_mset: "mset (orderEdges ps edges) = mset edges"
  by (simp add: orderEdges_def)

lemma orderEdges_set: "set (orderEdges ps edges) = set edges"
  by (metis orderEdges_mset set_mset_mset)

text \<open>The blocks of a prepared round, where all edges are between different participants of the selection.\<close>

definition closed_selection :: "edge_selection \<Rightarrow> bool" where
  "closed_selection selection \<longleftrightarrow> distinct (map walletParticipantId (selectionParticipants selection))
     \<and> (\<forall>edge \<in> set (selectionEdges selection). payer_of edge \<in> walletParticipantId ` set (selectionParticipants selection)
         \<and> walletParticipantId (edgePayee edge) \<in> walletParticipantId ` set (selectionParticipants selection))"

definition planned_block ::
  "('g, 'i) toolbox \<Rightarrow> 't search_context \<Rightarrow> scenario_definition \<Rightarrow> edge_selection \<Rightarrow> demo_wallet \<Rightarrow> round_preview_block" where
  "planned_block box context scenario selection p =
     (let ps = selectionParticipants selection; edges = orderEdges ps (selectionEdges selection) in
      \<lparr>roundParticipant = p, roundEntries = map (entry_for box context scenario ps)
        (filter (\<lambda>edge. payer_of edge = walletParticipantId p) edges)\<rparr>)"

lemma blocks_collected:
  assumes "closed_selection selection"
    and fold: "foldR (addEdge box context scenario (selectionParticipants selection))
        (orderEdges (selectionParticipants selection) (selectionEdges selection))
        (emptyBlocks (selectionParticipants selection), 0) = Inr (m, g)"
  shows "p \<in> set (selectionParticipants selection) \<Longrightarrow>
      m (walletParticipantId p) = Some (planned_block box context scenario selection p)"
    and "collectBlocks (selectionParticipants selection) m =
      Inr (map (planned_block box context scenario selection) (selectionParticipants selection))"
    and "g = foldl js_plus 0 (map (\<lambda>edge. projr (edge_obligation box context scenario edge))
      (orderEdges (selectionParticipants selection) (selectionEdges selection)))"
proof -
  let ?ps = "selectionParticipants selection" and ?edges = "orderEdges (selectionParticipants selection) (selectionEdges selection)"
  have distinct: "distinct (map walletParticipantId ?ps)" using assms(1) by (simp add: closed_selection_def)
  have closed: "\<forall>edge \<in> set ?edges. emptyBlocks ?ps (payer_of edge) \<noteq> None"
    using assms(1) emptyBlocks_eq [OF distinct] by (force simp: closed_selection_def orderEdges_set)
  note parts = addEdges_blocks [OF fold closed]
  have block: "m (walletParticipantId p) = Some (planned_block box context scenario selection p)" if "p \<in> set ?ps" for p
    using parts [of "walletParticipantId p"] emptyBlocks_eq [OF distinct that]
    by (simp add: planned_block_def Let_def)
  then show "p \<in> set ?ps \<Longrightarrow> m (walletParticipantId p) = Some (planned_block box context scenario selection p)" .
  show "collectBlocks ?ps m = Inr (map (planned_block box context scenario selection) ?ps)"
    unfolding collectBlocks_def by (intro mapR_Inr) (simp add: block)
  show "g = foldl js_plus 0 (map (\<lambda>edge. projr (edge_obligation box context scenario edge)) ?edges)"
    using parts [of 0] by simp
qed

lemma filter_lengths:
  assumes "distinct (map f ps)" "\<forall>x \<in> set xs. g x \<in> f ` set ps"
  shows "sum_list (map (\<lambda>p. length (filter (\<lambda>x. g x = f p) xs)) ps) = length xs"
  using assms
proof (induction xs)
  case (Cons x xs)
  have "sum_list (map (\<lambda>p. if g x = f p then 1 else 0 :: nat) ps) = 1" if "g x \<in> f ` set ps" "distinct (map f ps)"
    using that by (induction ps) (auto simp: sum_list_0)
  moreover have "sum_list (map (\<lambda>p. length (filter (\<lambda>x. g x = f p) (x # xs))) ps) =
      sum_list (map (\<lambda>p. if g x = f p then 1 else 0) ps) + sum_list (map (\<lambda>p. length (filter (\<lambda>x. g x = f p) xs)) ps)"
    by (simp add: sum_list_addf [symmetric]) (rule arg_cong [where f = sum_list], simp)
  ultimately show ?case using Cons by simp
qed simp

text \<open>A round whose numbers fit the message: ids, positions, amounts and counts.\<close>

definition fitting_round ::
  "('g, 'i) toolbox \<Rightarrow> 't search_context \<Rightarrow> edge_selection \<Rightarrow> int \<Rightarrow> int \<Rightarrow> bool" where
  "fitting_round box context selection lo hi \<longleftrightarrow> closed_selection selection
     \<and> toRawAmount (boxShowNumber box) (randomMinAmount context) (contextDecimals context) = Inr lo
     \<and> toRawAmount (boxShowNumber box) (randomMaxAmount context) (contextDecimals context) = Inr hi
     \<and> 0 \<le> lo \<and> lo \<le> hi \<and> selectionParticipants selection \<noteq> [] \<and> length (selectionParticipants selection) < 256
     \<and> (\<forall>p \<in> set (selectionParticipants selection). 0 \<le> walletParticipantId p \<and> walletParticipantId p < 2 ^ 32
          \<and> length (filter (\<lambda>edge. payer_of edge = walletParticipantId p) (selectionEdges selection)) < 256)
     \<and> (\<forall>edge \<in> set (selectionEdges selection). 0 \<le> edgeSettledCumulative edge \<and> edgeSettledCumulative edge + hi < 2 ^ 53)"

lemma obligation_range:
  assumes "fitting_round box context selection lo hi"
  shows "\<exists>amount. edge_obligation box context scenario edge = Inr amount \<and> lo \<le> amount \<and> amount \<le> hi"
  using assms obligation_between [where lo = lo and hi = hi]
  by (auto simp: fitting_round_def edge_obligation_def)

definition settled_entry ::
  "('g, 'i) toolbox \<Rightarrow> 't search_context \<Rightarrow> scenario_definition \<Rightarrow> demo_wallet list \<Rightarrow> channel_edge \<Rightarrow> byte \<times> u64" where
  "settled_entry box context scenario ps edge =
     (word_of_int (the (participantIndexById ps (walletParticipantId (edgePayee edge)))),
      word_of_int (edgeSettledCumulative edge + projr (edge_obligation box context scenario edge)))"

definition settled_block ::
  "('g, 'i) toolbox \<Rightarrow> 't search_context \<Rightarrow> scenario_definition \<Rightarrow> edge_selection \<Rightarrow> demo_wallet \<Rightarrow> round_block" where
  "settled_block box context scenario selection p =
     (word_of_int (walletParticipantId p),
      map (settled_entry box context scenario (selectionParticipants selection))
        (filter (\<lambda>edge. payer_of edge = walletParticipantId p)
          (orderEdges (selectionParticipants selection) (selectionEdges selection))))"

lemma entry_spec:
  assumes fit: "fitting_round box context selection lo hi" and edge: "edge \<in> set (selectionEdges selection)"
    and toNumber: "\<And>n. 0 \<le> n \<Longrightarrow> n < 2 ^ 53 \<Longrightarrow> boxToNumber box n = Inr n"
  shows "roundPayeeRef (entry_for box context scenario (selectionParticipants selection) edge) =
      uint (fst (settled_entry box context scenario (selectionParticipants selection) edge))"
    and "roundTargetCumulative (entry_for box context scenario (selectionParticipants selection) edge) =
      uint (snd (settled_entry box context scenario (selectionParticipants selection) edge))"
proof -
  let ?ps = "selectionParticipants selection"
  obtain amount where amount: "edge_obligation box context scenario edge = Inr amount" "lo \<le> amount" "amount \<le> hi"
    using obligation_range [OF fit] by blast
  have settled: "0 \<le> edgeSettledCumulative edge" "edgeSettledCumulative edge + hi < 2 ^ 53" "0 \<le> lo"
    using fit edge by (auto simp: fitting_round_def)
  obtain p where p: "p \<in> set ?ps" "walletParticipantId p = walletParticipantId (edgePayee edge)"
    using fit edge by (force simp: fitting_round_def closed_selection_def)
  then obtain k where k: "k < length ?ps" "?ps ! k = p" by (metis in_set_conv_nth)
  have "length ?ps < 256" "distinct (map walletParticipantId ?ps)"
    using fit by (simp_all add: fitting_round_def closed_selection_def)
  then have ref: "participantIndexById ?ps (walletParticipantId (edgePayee edge)) = Some (int k)" "k < 256"
    using k p by (auto simp: participantIndex_some)
  have position: "uint (word_of_nat k :: byte) = int k" by (metis ref(2) uint_nat unat_count)
  show "roundPayeeRef (entry_for box context scenario ?ps edge) = uint (fst (settled_entry box context scenario ?ps edge))"
    using ref(1) position by (simp add: entry_for_def settled_entry_def Let_def)
  have sum: "0 \<le> edgeSettledCumulative edge + amount" "edgeSettledCumulative edge + amount < 2 ^ 53"
    "edgeSettledCumulative edge < 2 ^ 53" using settled amount by linarith+
  have target: "uint (word_of_int (edgeSettledCumulative edge + amount) :: u64) = edgeSettledCumulative edge + amount"
    unfolding uint_word_of_int using sum by simp
  show "roundTargetCumulative (entry_for box context scenario ?ps edge) =
      uint (snd (settled_entry box context scenario ?ps edge))"
    unfolding entry_for_def settled_entry_def Let_def amount(1) sum.sel
    using target sum settled toNumber [of "edgeSettledCumulative edge"] by (simp del: of_int_add)
qed

lemma planned_spec:
  assumes fit: "fitting_round box context selection lo hi" and "p \<in> set (selectionParticipants selection)"
    and toNumber: "\<And>n. 0 \<le> n \<Longrightarrow> n < 2 ^ 53 \<Longrightarrow> boxToNumber box n = Inr n"
  shows "round_block_spec (planned_block box context scenario selection p) =
    spec_of_block (settled_block box context scenario selection p)"
proof -
  have "0 \<le> walletParticipantId p" "walletParticipantId p < 2 ^ 32"
    using fit assms(2) by (auto simp: fitting_round_def)
  then show ?thesis
    using entry_spec [OF fit _ toNumber]
    by (auto simp: round_block_spec_def planned_block_def spec_of_block_def settled_block_def Let_def
        uint_word_of_int orderEdges_set)
qed

lemma orderEdges_count: "length (filter P (orderEdges ps edges)) = length (filter P edges)"
  by (metis mset_filter orderEdges_mset size_mset)

section \<open>Every fitting round can be prepared\<close>

text \<open>What the round relies on of the libraries: none of the calls fails on the arguments it gets.\<close>

definition working_box :: "('g, 'i) toolbox \<Rightarrow> edge_selection \<Rightarrow> bool" where
  "working_box box selection \<longleftrightarrow>
     (\<forall>n k. 0 \<le> n \<and> n < 256 ^ k \<longrightarrow> boxBn box n k = Inr (le_bytes k (nat n)))
     \<and> (\<forall>n. 0 \<le> n \<and> n < 2 ^ 53 \<longrightarrow> boxToNumber box n = Inr n)
     \<and> (\<forall>p k. k \<in> {1 ..< BLS_SCALAR_MODULUS} \<longrightarrow> isOk (g1_multiply (boxCurve box) p k))
     \<and> (\<forall>p. g1_fromHex (boxCurve box) (g1_toRawBytes (boxCurve box) p) = Inr p)
     \<and> (\<forall>p \<in> set (selectionParticipants selection). blsSecretScalar p \<in> {1 ..< BLS_SCALAR_MODULUS})
     \<and> (\<forall>message signature keys accounts. isOk (boxSettleInstruction box message signature keys accounts))"

lemma addEdges_ok:
  assumes fit: "fitting_round box context selection lo hi" and box: "working_box box selection"
    and "set edges \<subseteq> set (selectionEdges selection)"
  shows "\<exists>st'. foldR (addEdge box context scenario (selectionParticipants selection)) edges st = Inr st'"
  using assms(3)
proof (induction edges arbitrary: st)
  case (Cons edge edges)
  let ?ps = "selectionParticipants selection"
  have distinct: "distinct (map walletParticipantId ?ps)" using fit by (simp add: fitting_round_def closed_selection_def)
  obtain p where p: "p \<in> set ?ps" "walletParticipantId (edgePayee edge) = walletParticipantId p"
    using fit Cons.prems by (force simp: fitting_round_def closed_selection_def)
  then obtain k where "k < length ?ps" "?ps ! k = p" by (metis in_set_conv_nth)
  then have "participantIndexById ?ps (walletParticipantId (edgePayee edge)) = Some (int k)"
    using participantIndex_some [OF distinct] p by auto
  moreover obtain amount where "edge_obligation box context scenario edge = Inr amount"
    using obligation_range [OF fit] by blast
  moreover have "0 \<le> hi" using fit by (simp add: fitting_round_def)
  then have "boxToNumber box (edgeSettledCumulative edge) = Inr (edgeSettledCumulative edge)"
    using fit box Cons.prems by (auto simp: fitting_round_def working_box_def)
  ultimately have "\<exists>st'. addEdge box context scenario ?ps edge st = Inr st'"
    by (cases st) (auto simp: addEdge_def Let_def split: option.splits)
  then show ?case using Cons by auto
qed simp

lemma find_member: "find P xs = Some x \<Longrightarrow> x \<in> set xs"
  by (induction xs) (auto split: if_splits)

lemma isOk_mapR: "(\<And>x. x \<in> set xs \<Longrightarrow> isOk (f x)) \<Longrightarrow> isOk (mapR f xs)"
  by (induction xs) (auto simp: isOk_iff bindR_eq_Inr)

lemma isOk_bindR: "isOk m \<Longrightarrow> (\<And>x. m = Inr x \<Longrightarrow> isOk (f x)) \<Longrightarrow> isOk (bindR m f)"
  by (auto simp: isOk_iff)

lemma signatures_ok:
  assumes "working_box box selection" "set ps \<subseteq> set (selectionParticipants selection)"
  shows "\<exists>points. mapR (\<lambda>p. signWalletBlsMessage box p message) ps = Inr (map (g1_toRawBytes (boxCurve box)) points)"
  using assms(2)
proof (induction ps)
  case (Cons p ps)
  have "hashMessageToBlsScalar (boxSha256 box) message \<in> {1 ..< BLS_SCALAR_MODULUS}" by (rule hash_scalar_range)
  then obtain q r where "g1_multiply (boxCurve box) (g1_base (boxCurve box)) (hashMessageToBlsScalar (boxSha256 box) message) = Inr q"
    "g1_multiply (boxCurve box) q (blsSecretScalar p) = Inr r"
    using assms(1) Cons.prems unfolding working_box_def isOk_iff by (metis insert_subset list.simps(15) subsetD)
  moreover obtain points where "mapR (\<lambda>p. signWalletBlsMessage box p message) ps = Inr (map (g1_toRawBytes (boxCurve box)) points)"
    using Cons by auto
  ultimately have "mapR (\<lambda>p. signWalletBlsMessage box p message) (p # ps) = Inr (map (g1_toRawBytes (boxCurve box)) (r # points))"
    by (simp add: signWalletBlsMessage_def signBlsMessage_def hashMessageToBlsPoint_def)
  then show ?case by blast
qed (simp add: exI [of _ "[]"])

lemma aggregate_ok:
  assumes "working_box box selection"
  shows "isOk (aggregateBlsSignatures (boxCurve box) (map (g1_toRawBytes (boxCurve box)) points))"
proof -
  have "isOk (foldR (\<lambda>signature point. bindR (g1_fromHex (boxCurve box) signature) (\<lambda>s. Inr (g1_add (boxCurve box) point s)))
      (map (g1_toRawBytes (boxCurve box)) points) p)" for p
    using assms by (induction points arbitrary: p) (simp_all add: working_box_def)
  then show ?thesis by (auto simp: aggregateBlsSignatures_def intro: isOk_bindR)
qed

lemma planned_targets:
  assumes fit: "fitting_round box context selection lo hi" and box: "working_box box selection"
    and "entry \<in> set (roundEntries (planned_block box context scenario selection p))"
  shows "0 \<le> roundTargetCumulative entry"
proof -
  obtain edge where edge: "edge \<in> set (selectionEdges selection)"
    "entry = entry_for box context scenario (selectionParticipants selection) edge"
    using assms(3) by (auto simp: planned_block_def Let_def orderEdges_set)
  then show ?thesis using entry_spec(2) [OF fit edge(1)] box by (simp add: working_box_def)
qed

lemma preview_input_ok:
  assumes fit: "fitting_round box context selection lo hi" and box: "working_box box selection"
    and edge: "edge \<in> set (selectionEdges selection)"
    and block: "\<And>p. p \<in> set (selectionParticipants selection) \<Longrightarrow>
      m (walletParticipantId p) = Some (planned_block box context scenario selection p)"
  shows "\<exists>amount \<ge> 0. preview_input box context (selectionParticipants selection) m edge =
    Inr \<lparr>inputPayer = edgePayer edge, inputPayee = edgePayee edge, inputCommittedAmount = amount,
      inputTokenId = contextTokenId context\<rparr>"
proof -
  have "0 \<le> edgeSettledCumulative edge" "edgeSettledCumulative edge < 2 ^ 53"
    using fit edge by (auto simp: fitting_round_def)
  then have number: "boxToNumber box (edgeSettledCumulative edge) = Inr (edgeSettledCumulative edge)" "0 \<le> edgeSettledCumulative edge"
    using box by (auto simp: working_box_def)
  obtain p where "p \<in> set (selectionParticipants selection)" "payer_of edge = walletParticipantId p"
    using fit edge by (force simp: fitting_round_def closed_selection_def)
  then have "m (walletParticipantId (edgePayer edge)) = Some (planned_block box context scenario selection p)"
    using block by (simp add: payer_of_def)
  then show ?thesis
    using number planned_targets [OF fit box]
    by (auto simp: preview_input_def Let_def dest: find_member split: option.splits)
qed

lemma prepared:
  assumes fit: "fitting_round box context selection lo hi" and box: "working_box box selection"
    and "length (contextMessageDomain context) = 16" "contextTokenId context = uint (token :: u16)"
    and "selectionEdges selection \<noteq> []"
    and payers: "\<forall>edge \<in> set (selectionEdges selection). edgePayer edge \<in> set (selectionParticipants selection)"
  shows "\<exists>round. prepareMultilateralRound box context scenario selection = Inr round
    \<and> createClearingRoundMessage (boxBn box) (uint token) (contextMessageDomain context)
        (map spec_of_block (map (settled_block box context scenario selection) (selectionParticipants selection)))
        (Some 5) = Inr (roundMessage round)"
proof -
  let ?ps = "selectionParticipants selection" and ?edges = "orderEdges (selectionParticipants selection) (selectionEdges selection)"
  let ?blocks = "map (planned_block box context scenario selection) (selectionParticipants selection)"
  have closed: "closed_selection selection" and ps: "?ps \<noteq> []" using fit by (simp_all add: fitting_round_def)
  have toNumber: "\<And>n. 0 \<le> n \<Longrightarrow> n < 2 ^ 53 \<Longrightarrow> boxToNumber box n = Inr n"
    and bn: "\<And>n k. 0 \<le> n \<Longrightarrow> n < 256 ^ k \<Longrightarrow> boxBn box n k = Inr (le_bytes k (nat n))"
    using box by (simp_all add: working_box_def)
  obtain m g where fold: "foldR (addEdge box context scenario ?ps) ?edges (emptyBlocks ?ps, 0) = Inr (m, g)"
    using addEdges_ok [where st = "(emptyBlocks ?ps, 0)" and edges = ?edges and scenario = scenario, OF fit box]
    by (auto simp: orderEdges_set)
  note blocks = blocks_collected(2) [OF closed fold]
  have specs: "map round_block_spec ?blocks = map spec_of_block (map (settled_block box context scenario selection) ?ps)"
    using planned_spec [OF fit _ toNumber] by simp
  obtain message where message: "createClearingRoundMessage (boxBn box) (uint token) (contextMessageDomain context)
      (map round_block_spec ?blocks) (Some 5) = Inr message"
    unfolding specs using clearing_message_bytes [OF bn] by blast
  have active: "set (map roundParticipant (filter (\<lambda>block. 0 < length (roundEntries block)) ?blocks)) \<subseteq> set ?ps"
    by (auto simp: planned_block_def Let_def)
  then obtain points where signatures: "mapR (\<lambda>p. signWalletBlsMessage box p message)
      (map roundParticipant (filter (\<lambda>block. 0 < length (roundEntries block)) ?blocks)) =
      Inr (map (g1_toRawBytes (boxCurve box)) points)"
    using signatures_ok [OF box] by blast
  obtain aggregate where aggregate: "aggregateBlsSignatures (boxCurve box) (map (g1_toRawBytes (boxCurve box)) points) = Inr aggregate"
    using aggregate_ok [OF box] by (auto simp: isOk_iff)
  obtain submitter rest where submitter: "?ps = submitter # rest" using ps by (cases ?ps) auto
  have instruction: "\<exists>i. boxSettleInstruction box message aggregate keys accounts = Inr i" for keys accounts
    using box by (simp add: working_box_def isOk_iff)
  have preview: "\<exists>p. buildClearingRoundPayloadPreview (boxBn box) (boxSign box) (contextMessageDomain context) (uint token)
      symbol decimals ?blocks (Some 5) (Some aggregate) = Inr p" for symbol decimals
    unfolding buildClearingRoundPayloadPreview_def Let_def message bindR_Inr by (rule exI, rule refl)
  have "\<exists>inputs. mapR (preview_input box context ?ps m) es = Inr inputs \<and> length inputs = length es
      \<and> (\<forall>input \<in> set inputs. 0 \<le> inputCommittedAmount input \<and> inputTokenId input = uint token
          \<and> inputPayer input \<in> set ?ps \<and> walletParticipantId (inputPayee input) \<in> walletParticipantId ` set ?ps)"
    if "set es \<subseteq> set ?edges" for es
    using that
  proof (induction es)
    case (Cons e es)
    then have e: "e \<in> set (selectionEdges selection)" by (simp add: orderEdges_set)
    then show ?case
      using Cons preview_input_ok [OF fit box e blocks_collected(1) [OF closed fold]] payers assms(4) fit
      by (auto simp: fitting_round_def closed_selection_def)
  qed simp
  then obtain inputs where inputs: "mapR (preview_input box context ?ps m) (take SIGNED_COMMITMENT_PREVIEW_COUNT ?edges) = Inr inputs"
      "length inputs = length (take SIGNED_COMMITMENT_PREVIEW_COUNT ?edges)"
    and good: "\<forall>input \<in> set inputs. 0 \<le> inputCommittedAmount input \<and> inputTokenId input = uint token
          \<and> inputPayer input \<in> set ?ps \<and> walletParticipantId (inputPayee input) \<in> walletParticipantId ` set ?ps"
    by (meson set_take_subset)
  have token: "boxBn box (uint token) 2 = Inr (le_bytes 2 (unat token))"
    using bn [of "uint token" 2] uint_lt2p [of token] by simp
  have "isOk (commitment_message_of (boxBn box) domain input)" if "input \<in> set inputs" for input domain
    using good that fit token
    by (auto simp: commitment_message_of_def createCommitmentMessage_def fitting_round_def)
  then have messages: "\<exists>entries. mapR (\<lambda>input. bindR (commitment_message_of (boxBn box) domain input) (f input)) inputs = Inr entries"
    if "\<And>input x. isOk (f input x)" for domain and f :: "commitment_preview_input \<Rightarrow> bytes \<Rightarrow> direct_commitment_preview js"
    using that by (intro isOk_iff [THEN iffD1] isOk_mapR isOk_bindR) auto
  have "length ?edges = length (selectionEdges selection)" by (metis orderEdges_mset size_mset)
  then have "0 < length inputs" using inputs(2) assms(5) by (simp add: SIGNED_COMMITMENT_PREVIEW_COUNT_def)
  then have commitment: "\<exists>p. buildSignedCommitmentPreview (boxBn box) (boxSign box) domain decimals symbol inputs = Inr p"
    for domain decimals symbol
    using messages by (simp add: buildSignedCommitmentPreview_def bindR_eq_Inr)
  have first: "(case ?ps of [] \<Rightarrow> undefined_keypair | s # _ \<Rightarrow> Inr s) = Inr submitter" by (simp add: submitter)
  obtain i where i: "boxSettleInstruction box message aggregate
      [findTokenRegistryPda (boxDerive box) (boxProgramId box), findGlobalConfigPda (boxDerive box) (boxProgramId box),
       publicKey (walletKeypair submitter), boxSysvar box]
      (uniqueWritableMetasForPubkeys (map participantPda ?ps) @ uniqueWritableMetasForPubkeys (map edgeChannelPda ?edges)) = Inr i"
    using instruction by blast
  obtain round_view where view: "buildClearingRoundPayloadPreview (boxBn box) (boxSign box) (contextMessageDomain context)
      (uint token) (contextTokenSymbol context) (int (contextDecimals context)) ?blocks (Some 5) (Some aggregate) = Inr round_view"
    using preview by blast
  obtain commitments where commitments: "buildSignedCommitmentPreview (boxBn box) (boxSign box) (contextMessageDomain context)
      (int (contextDecimals context)) (contextTokenSymbol context) inputs = Inr commitments"
    using commitment by blast
  show ?thesis
    unfolding prepareMultilateralRound_def Let_def fold bindR_Inr prod.case blocks BLS_CLEARING_ROUND_MESSAGE_VERSION_def
      assms(4) message signatures aggregate first i view inputs(1) commitments
    by (intro exI conjI, rule refl) (simp only: message [unfolded specs] prepared_round.simps)
qed

lemma gross_fold:
  assumes "closed_selection selection" "prepareMultilateralRound box context scenario selection = Inr round"
  shows "totalGrossRouted round = foldl js_plus 0 (map (\<lambda>edge. projr (edge_obligation box context scenario edge))
      (orderEdges (selectionParticipants selection) (selectionEdges selection)))"
proof -
  obtain m g where "foldR (addEdge box context scenario (selectionParticipants selection))
        (orderEdges (selectionParticipants selection) (selectionEdges selection))
        (emptyBlocks (selectionParticipants selection), 0) = Inr (m, g)" "totalGrossRouted round = g"
    using assms(2) by (auto simp: prepareMultilateralRound_def Let_def bindR_eq_Inr)
  then show ?thesis using blocks_collected(3) [OF assms(1)] by simp
qed

lemma foldl_js_plus:
  assumes "\<forall>a \<in> set amounts. 0 \<le> a" "0 \<le> s" "s + sum_list amounts \<le> 2 ^ 53"
  shows "foldl js_plus s amounts = s + sum_list amounts"
  using assms
proof (induction amounts arbitrary: s)
  case (Cons a amounts)
  moreover have "0 \<le> sum_list amounts" using Cons.prems(1) by (intro sum_list_nonneg) auto
  ultimately show ?case by simp
qed simp

lemma obligations_listed:
  assumes "fitting_round box context selection lo hi"
  shows "\<exists>amounts. mapR (edge_obligation box context scenario) edges = Inr amounts \<and> (\<forall>a \<in> set amounts. lo \<le> a \<and> a \<le> hi)
    \<and> map (\<lambda>edge. projr (edge_obligation box context scenario edge)) edges = amounts"
proof (induction edges)
  case (Cons edge edges)
  then show ?case using obligation_range [OF assms, of scenario edge] by auto
qed simp

text \<open>
  C1: The round the client prepares is the round the program settles. Where the numbers fit and no
  library call fails, the preparation succeeds, and from the signed message the program reads one
  block per participant, in the order of the selection, and in it exactly one entry per channel the
  participant pays on, naming the payee's position and the channel's settled amount plus its
  obligation. The gross total the client reports is the obligations of the channels added up in the
  round's order with the rounding of JavaScript numbers, which is their plain sum up to \<open>2 ^ 53\<close>.
\<close>

theorem round_as_prepared:
  assumes fit: "fitting_round box context selection lo hi" and box: "working_box box selection"
    and "length (contextMessageDomain context) = 16" "contextTokenId context = uint (token :: u16)"
    and "selectionEdges selection \<noteq> []"
    and "\<forall>edge \<in> set (selectionEdges selection). edgePayer edge \<in> set (selectionParticipants selection)"
  shows "\<exists>round layout amounts. prepareMultilateralRound box context scenario selection = Inr round
    \<and> parse_clearing_round_layout_with_version (roundMessage round) (contextMessageDomain context) 5 = Inr layout
    \<and> layout_token_id layout = token
    \<and> channel_count layout = length (selectionEdges selection)
    \<and> map (recovered_block (roundMessage round)) (layout_blocks layout) =
        map (settled_block box context scenario selection) (selectionParticipants selection)
    \<and> mapR (edge_obligation box context scenario)
        (orderEdges (selectionParticipants selection) (selectionEdges selection)) = Inr amounts
    \<and> totalGrossRouted round = foldl js_plus 0 amounts
    \<and> (sum_list amounts \<le> 2 ^ 53 \<longrightarrow> totalGrossRouted round = sum_list amounts)"
proof -
  let ?ps = "selectionParticipants selection" and ?bs = "map (settled_block box context scenario selection) (selectionParticipants selection)"
  have closed: "closed_selection selection" and ps: "?ps \<noteq> []" "length ?ps < 256"
    using fit by (simp_all add: fitting_round_def)
  have bn: "\<And>n k. 0 \<le> n \<Longrightarrow> n < 256 ^ k \<Longrightarrow> boxBn box n k = Inr (le_bytes k (nat n))"
    using box by (simp add: working_box_def)
  obtain round where round: "prepareMultilateralRound box context scenario selection = Inr round"
    and message: "createClearingRoundMessage (boxBn box) (uint token) (contextMessageDomain context)
      (map spec_of_block ?bs) (Some (uint (5 :: byte))) = Inr (roundMessage round)"
    using prepared [OF assms] by auto
  have small: "\<forall>b \<in> set ?bs. length (snd b) < 256"
    using fit by (auto simp: settled_block_def orderEdges_count fitting_round_def)
  have "sum_list (map (\<lambda>b. length (snd b)) ?bs) = length (selectionEdges selection)"
    using filter_lengths [of walletParticipantId ?ps "selectionEdges selection" payer_of] closed
    by (simp add: comp_def settled_block_def orderEdges_count closed_selection_def)
  moreover obtain amounts where amounts: "mapR (edge_obligation box context scenario) (orderEdges ?ps (selectionEdges selection)) = Inr amounts"
      "\<forall>a \<in> set amounts. lo \<le> a \<and> a \<le> hi" "totalGrossRouted round = foldl js_plus 0 amounts"
    using obligations_listed [OF fit, of scenario "orderEdges ?ps (selectionEdges selection)"] gross_fold [OF closed round] by auto
  moreover have "\<forall>a \<in> set amounts. 0 \<le> a" using amounts(2) fit by (force simp: fitting_round_def)
  then have "sum_list amounts \<le> 2 ^ 53 \<longrightarrow> totalGrossRouted round = sum_list amounts"
    using foldl_js_plus [of amounts 0] amounts(3) by simp
  ultimately show ?thesis
    using clearing_decoded [of "boxBn box" "contextMessageDomain context" ?bs token 5, OF bn assms(3) _ _ small] ps message round
    by auto
qed

text \<open>A ring of three wallets, on libraries with simple values.\<close>

definition sample_box :: "(bool, nat) toolbox" where
  "sample_box = \<lparr>boxBn = \<lambda>n k. Inr (le_bytes k (nat n)), boxToNumber = Inr, boxShowNumber = (\<lambda>_. ''amount''),
     boxSha256 = (\<lambda>bs. replicate 32 (of_nat (length bs))), boxSign = (\<lambda>_ _. replicate 64 1), boxCurve = parity_curve,
     boxDerive = (\<lambda>_ _. []), boxProgramId = [], boxSysvar = [],
     boxSettleInstruction = (\<lambda>message _ _ accounts. Inr (length message + length accounts)),
     boxHeapFrame = nat, boxComputeUnits = nat\<rparr>"

definition sample_edge :: "int \<Rightarrow> int \<Rightarrow> channel_edge" where
  "sample_edge a b = \<lparr>edgePayer = sample_wallet a, edgePayee = sample_wallet b, edgeChannelPda = [7],
     edgeSettledCumulative = 100\<rparr>"

definition sample_selection :: edge_selection where
  "sample_selection = \<lparr>selectionEdges = [sample_edge 5 9, sample_edge 3 5, sample_edge 9 3],
     selectionParticipants = [sample_wallet 3, sample_wallet 5, sample_wallet 9]\<rparr>"

definition sample_context :: "unit search_context" where
  "sample_context = \<lparr>fullParticipants = selectionParticipants sample_selection,
     completeGraphEdges = selectionEdges sample_selection, lookupTables = [], sponsor = walletKeypair (sample_wallet 3),
     extraSigners = [], contextDecimals = 2, contextTokenId = 1, contextTokenSymbol = ''USDC'',
     contextMessageDomain = replicate 16 9, edgeCommitmentCount = 220, resultsLogPath = ''log'', runId = ''run'',
     scenarioSeed = ''seed'', randomMinAmount = Float 1 1, randomMaxAmount = Float 2 0, denseChannelCap = 150,
     computeUnitLimit = 1400000\<rparr>"

definition sample_scenario :: scenario_definition where
  "sample_scenario = \<lparr>scenarioId = ''ring'', scenarioTitle = ''Ring'', scenarioMode = MaxParticipants,
     fullParticipantSet = selectionParticipants sample_selection, lowerBound = 3, upperBound = 3\<rparr>"

theorem round_as_prepared_witness:
  "\<exists>round layout amounts. prepareMultilateralRound sample_box sample_context sample_scenario sample_selection = Inr round
    \<and> parse_clearing_round_layout_with_version (roundMessage round) (contextMessageDomain sample_context) 5 = Inr layout
    \<and> layout_token_id layout = 1
    \<and> channel_count layout = length (selectionEdges sample_selection)
    \<and> map (recovered_block (roundMessage round)) (layout_blocks layout) =
        map (settled_block sample_box sample_context sample_scenario sample_selection) (selectionParticipants sample_selection)
    \<and> mapR (edge_obligation sample_box sample_context sample_scenario)
        (orderEdges (selectionParticipants sample_selection) (selectionEdges sample_selection)) = Inr amounts
    \<and> totalGrossRouted round = foldl js_plus 0 amounts
    \<and> (sum_list amounts \<le> 2 ^ 53 \<longrightarrow> totalGrossRouted round = sum_list amounts)"
proof (rule round_as_prepared)
  show "fitting_round sample_box sample_context sample_selection 50 200"
    by (simp add: fitting_round_def closed_selection_def payer_of_def toRawAmount_def sample_box_def sample_context_def
        sample_selection_def sample_edge_def sample_wallet_def)
  show "working_box sample_box sample_selection"
    by (simp add: working_box_def sample_box_def parity_curve_def sample_selection_def sample_wallet_def BLS_SCALAR_MODULUS_def)
qed (simp_all add: sample_context_def sample_selection_def sample_edge_def)

end
