(* ===== verification/Setup.thy ===== *)
theory Setup
  imports RoundPlan Accounts
begin

text \<open>
  How the demo prepares the chain: it checks the program's accounts, funds the wallets, registers
  participants and their BLS keys, deposits what is missing to a target, and creates and funds channels.

  Anchor's client of the program and \<open>@solana/spl-token\<close> are the fields of \<open>session\<close>: fetching and decoding
  the two global accounts, the associated token accounts, transfers, and \<open>rpc()\<close> of a method with its
  accounts and signers. A function that assigns fields of a wallet returns the wallet.
\<close>

section \<open>The program's client\<close>

datatype program_method =
    InitializeParticipant int int
  | RegisterParticipantBlsKey bytes bytes
  | Deposit int int
  | CreateChannel int int int int
  | LockChannelFunds int int int

record program_call =
  callMethod :: program_method
  callAccounts :: "(string \<times> pubkey) list"
  callSigners :: "keypair list"

record global_config =
  configChainId :: int
  configMessageDomain :: bytes
  configFeeRecipient :: pubkey
  configNextParticipantId :: int

record ('w, 'i, 't, 'g) session =
  sesNet :: "('w, 'i, 't) cluster"
  sesBn :: bn_to_le
  sesBnNew :: "int \<Rightarrow> int js"
  sesDerive :: derive_address
  sesSha256 :: "bytes \<Rightarrow> bytes"
  sesCurve :: "'g bls_curve"
  sesProgramId :: pubkey
  sesSystemProgram :: pubkey
  sesTokenProgram :: pubkey
  sesShowNumber :: "js_num \<Rightarrow> string"
  sesGlobalConfig :: "pubkey \<Rightarrow> ('w, global_config) io"
  sesTokenRegistry :: "pubkey \<Rightarrow> ('w, (int \<times> pubkey) list) io"
  sesMintDecimals :: "pubkey \<Rightarrow> ('w, nat) io"
  sesTokenAccount :: "keypair \<Rightarrow> pubkey \<Rightarrow> pubkey \<Rightarrow> ('w, pubkey) io"
  sesTokenAmount :: "pubkey \<Rightarrow> ('w, int) io"
  sesTransferSol :: "keypair \<Rightarrow> pubkey \<Rightarrow> int \<Rightarrow> ('w, string) io"
  sesTransferTokens :: "keypair \<Rightarrow> pubkey \<Rightarrow> pubkey \<Rightarrow> int \<Rightarrow> ('w, string) io"
  sesRpc :: "program_call \<Rightarrow> ('w, string) io"

definition throwErrorIO :: "string \<Rightarrow> ('w, 'a) io" where
  "throwErrorIO msg = throwIO (JsError ''Error'' msg)"

text \<open>The lookups of the demo for a session.\<close>

definition session_key :: "('w, 'i, 't, 'g) session \<Rightarrow> pubkey \<Rightarrow> string" where
  "session_key s key = webKeyString (sesNet s) key"

definition owner_index :: "('w, 'i, 't, 'g) session \<Rightarrow> pubkey \<Rightarrow> pubkey js" where
  "owner_index s key = findOwnerIndexBucketPda (sesBn s) (sesDerive s) (sesSha256 s) (sesProgramId s) key"

definition participant_bucket :: "('w, 'i, 't, 'g) session \<Rightarrow> int \<Rightarrow> pubkey js" where
  "participant_bucket s participant = findParticipantBucketPda (sesBn s) (sesDerive s) (sesProgramId s) participant"

definition by_id :: "('w, 'i, 't, 'g) session \<Rightarrow> int \<Rightarrow> ('w, normalized_participant \<times> pubkey) io" where
  "by_id s participant = fetchParticipantById (sesNet s) (sesBn s) (sesDerive s) (sesProgramId s) participant"

definition by_owner :: "('w, 'i, 't, 'g) session \<Rightarrow> pubkey \<Rightarrow> ('w, normalized_participant \<times> pubkey) io" where
  "by_owner s key = fetchParticipantByOwner (sesNet s) (sesBn s) (sesDerive s) (sesSha256 s) (sesProgramId s) key"

definition internal_balance :: "('w, 'i, 't, 'g) session \<Rightarrow> demo_wallet \<Rightarrow> int \<Rightarrow> ('w, token_balance_view \<times> demo_wallet) io" where
  "internal_balance s wallet token =
     fetchInternalBalance (sesNet s) (sesBn s) (sesDerive s) (sesSha256 s) (sesProgramId s) wallet token"

definition config_pda :: "('w, 'i, 't, 'g) session \<Rightarrow> pubkey" where
  "config_pda s = findGlobalConfigPda (sesDerive s) (sesProgramId s)"

definition registry_pda :: "('w, 'i, 't, 'g) session \<Rightarrow> pubkey" where
  "registry_pda s = findTokenRegistryPda (sesDerive s) (sesProgramId s)"

abbreviation wallet_key :: "demo_wallet \<Rightarrow> pubkey" where
  "wallet_key w \<equiv> publicKey (walletKeypair w)"

section \<open>The program and the wallets' tokens\<close>

record program_state =
  stateChainId :: int
  stateMessageDomain :: bytes
  stateFeeRecipient :: pubkey
  stateVault :: pubkey
  stateDecimals :: nat

definition ensureProgramReady :: "('w, 'i, 't, 'g) session \<Rightarrow> int \<Rightarrow> pubkey \<Rightarrow> ('w, program_state) io" where
  "ensureProgramReady s token mint =
     bindIO (sesGlobalConfig s (config_pda s)) (\<lambda>globalConfig.
     bindIO (sesTokenRegistry s (registry_pda s)) (\<lambda>tokens.
     case find (\<lambda>entry. fst entry = token) tokens of
       None \<Rightarrow> throwErrorIO (''Token id '' @ show_int token @
         '' is not allowlisted on-chain. Run deployment with RYVO_ALLOWLIST_TOKENS first.'')
     | Some (_, onChainMint) \<Rightarrow>
         if onChainMint \<noteq> mint then
           throwErrorIO (''Token id '' @ show_int token @ '' points to '' @ session_key s onChainMint @ '', not '' @ session_key s mint)
         else
         bindIO (sesMintDecimals s mint) (\<lambda>decimals.
         bindIO (liftIO (findVaultTokenAccountPda (sesBn s) (sesDerive s) (sesProgramId s) token)) (\<lambda>vault.
         returnIO \<lparr>stateChainId = configChainId globalConfig, stateMessageDomain = configMessageDomain globalConfig,
           stateFeeRecipient = configFeeRecipient globalConfig, stateVault = vault, stateDecimals = decimals\<rparr>))))"

text \<open>\<open>Math.round(solPerWallet * LAMPORTS_PER_SOL)\<close>; nothing is below a target that is no number.\<close>

definition target_lamports :: "js_num \<Rightarrow> int option" where
  "target_lamports solPerWallet = (case solPerWallet of
     NotFinite \<Rightarrow> None
   | Float m k \<Rightarrow> Some ((2 * js_round (m * 1000000000) + 2 ^ k) div 2 ^ (k + 1)))"

definition fund_wallet ::
  "('w, 'i, 't, 'g) session \<Rightarrow> keypair \<Rightarrow> pubkey \<Rightarrow> pubkey \<Rightarrow> int option \<Rightarrow> int \<Rightarrow> demo_wallet \<Rightarrow> ('w, demo_wallet) io" where
  "fund_wallet s deployer mint deployerTokenAccount targetLamports rawTokensPerWallet wallet =
     bindIO (netBalance (sesNet s) (wallet_key wallet)) (\<lambda>currentLamports.
     bindIO (case targetLamports of
         Some target \<Rightarrow> if currentLamports < target
           then bindIO (sesTransferSol s deployer (wallet_key wallet) (target - currentLamports)) (\<lambda>_. returnIO ())
           else returnIO ()
       | None \<Rightarrow> returnIO ()) (\<lambda>_.
     bindIO (sesTokenAccount s deployer mint (wallet_key wallet)) (\<lambda>account.
     bindIO (sesTokenAmount s account) (\<lambda>currentTokenBalance.
     bindIO (if currentTokenBalance < rawTokensPerWallet
       then bindIO (sesTransferTokens s deployer deployerTokenAccount account (rawTokensPerWallet - currentTokenBalance)) (\<lambda>_. returnIO ())
       else returnIO ()) (\<lambda>_.
     returnIO (wallet\<lparr>tokenAccount := account\<rparr>))))))"

definition fundDemoWallets ::
  "('w, 'i, 't, 'g) session \<Rightarrow> keypair \<Rightarrow> demo_wallet list \<Rightarrow> pubkey \<Rightarrow> nat \<Rightarrow> js_num \<Rightarrow> js_num \<Rightarrow> ('w, demo_wallet list) io" where
  "fundDemoWallets s deployer wallets mint decimals solPerWallet tokensPerWallet =
     bindIO (liftIO (toRawAmount (sesShowNumber s) tokensPerWallet decimals)) (\<lambda>rawTokensPerWallet.
     bindIO (sesTokenAccount s deployer mint (publicKey deployer)) (\<lambda>deployerTokenAccount.
     bindIO (sesTokenAmount s deployerTokenAccount) (\<lambda>deployerTokenBalance.
     let requiredTokenBalance = rawTokensPerWallet * int (length wallets) in
     if deployerTokenBalance < requiredTokenBalance then
       throwErrorIO (''Deployer token account '' @ session_key s deployerTokenAccount @ '' only holds '' @
         formatAmount deployerTokenBalance (int decimals) @ '', but '' @ formatAmount requiredTokenBalance (int decimals) @
         '' is required to seed '' @ show_int (int (length wallets)) @ '' wallets.'')
     else mapIO (fund_wallet s deployer mint deployerTokenAccount (target_lamports solPerWallet) rawTokensPerWallet) wallets)))"

definition ensureWalletTokenAccounts ::
  "('w, 'i, 't, 'g) session \<Rightarrow> keypair \<Rightarrow> demo_wallet list \<Rightarrow> pubkey \<Rightarrow> ('w, demo_wallet list) io" where
  "ensureWalletTokenAccounts s deployer wallets mint =
     mapIO (\<lambda>wallet. bindIO (sesTokenAccount s deployer mint (wallet_key wallet)) (\<lambda>account.
       returnIO (wallet\<lparr>tokenAccount := account\<rparr>))) wallets"

section \<open>Participants\<close>

definition initialize_participant ::
  "('w, 'i, 't, 'g) session \<Rightarrow> pubkey \<Rightarrow> demo_wallet \<Rightarrow> ('w, demo_wallet) io" where
  "initialize_participant s feeRecipient wallet =
     bindIO (sesGlobalConfig s (config_pda s)) (\<lambda>config.
     let newId = configNextParticipantId config in
     bindIO (liftIO (participant_bucket s newId)) (\<lambda>pda.
     bindIO (liftIO (owner_index s (wallet_key wallet))) (\<lambda>indexPda.
     bindIO (sesRpc s
       \<lparr>callMethod = InitializeParticipant (participantBucketIdForParticipantId newId)
          (ownerIndexBucketIdForOwner (sesSha256 s) (wallet_key wallet)),
        callAccounts = [(''globalConfig'', config_pda s), (''participantBucket'', pda), (''ownerIndexBucket'', indexPda),
          (''feeRecipient'', feeRecipient), (''owner'', wallet_key wallet), (''systemProgram'', sesSystemProgram s)],
        callSigners = [walletKeypair wallet]\<rparr>) (\<lambda>_.
     bindIO (by_id s newId) (\<lambda>(participant, _).
     returnIO (wallet\<lparr>participantPda := pda, walletParticipantId := normalizedParticipantId participant\<rparr>))))))"

definition ensure_participant ::
  "('w, 'i, 't, 'g) session \<Rightarrow> pubkey \<Rightarrow> bool \<Rightarrow> demo_wallet \<Rightarrow> ('w, demo_wallet) io" where
  "ensure_participant s feeRecipient skipInitialization wallet =
     catchIO
       (bindIO (by_owner s (wallet_key wallet)) (\<lambda>(participant, pda).
        if normalizedOwner participant \<noteq> wallet_key wallet then
          throwErrorIO (''Participant PDA '' @ session_key s pda @ '' belongs to '' @
            session_key s (normalizedOwner participant) @ '', not '' @ session_key s (wallet_key wallet))
        else returnIO (wallet\<lparr>participantPda := pda, walletParticipantId := normalizedParticipantId participant\<rparr>)))
       (\<lambda>_. if skipInitialization then
          throwErrorIO (''Participant '' @ walletName wallet @
            '' is not initialized on-chain, but RYVO_DEMO_SKIP_PARTICIPANT_INIT is enabled'')
        else initialize_participant s feeRecipient wallet)"

definition ensureParticipants ::
  "('w, 'i, 't, 'g) session \<Rightarrow> pubkey \<Rightarrow> demo_wallet list \<Rightarrow> bool \<Rightarrow> ('w, demo_wallet list) io" where
  "ensureParticipants s feeRecipient wallets skipInitialization =
     mapIO (ensure_participant s feeRecipient skipInitialization) wallets"

definition ensure_bls_key :: "('w, 'i, 't, 'g) session \<Rightarrow> bytes \<Rightarrow> demo_wallet \<Rightarrow> unit \<Rightarrow> ('w, unit) io" where
  "ensure_bls_key s messageDomain wallet _ =
     (if walletParticipantId wallet < 0 then
        throwErrorIO (''Cannot register a BLS key for '' @ walletName wallet @ '' before participant initialization'')
      else
      bindIO (by_id s (walletParticipantId wallet)) (\<lambda>(participant, _).
      let registeredSchemeVersion = (case normalizedBlsVersion participant of None \<Rightarrow> 0 | Some v \<Rightarrow> uint v) in
      if registeredSchemeVersion = 1 \<and> normalizedBlsPubkey participant = blsPublicKeyOf wallet then returnIO ()
      else if registeredSchemeVersion \<noteq> 0 then
        throwErrorIO (''Unsupported BLS scheme version '' @ show_int registeredSchemeVersion @ '' already registered for '' @ walletName wallet)
      else
      bindIO (liftIO (createBlsRegistrationMessage (walletParticipantId wallet) (wallet_key wallet) (blsPublicKeyOf wallet) messageDomain)) (\<lambda>popMessage.
      bindIO (liftIO (signBlsMessage (sesSha256 s) (sesCurve s) (blsSecretScalar wallet) popMessage)) (\<lambda>popSignature.
      bindIO (liftIO (owner_index s (wallet_key wallet))) (\<lambda>indexPda.
      bindIO (sesRpc s
        \<lparr>callMethod = RegisterParticipantBlsKey (blsPublicKeyOf wallet) popSignature,
         callAccounts = [(''globalConfig'', config_pda s), (''participantBucket'', participantPda wallet),
           (''ownerIndexBucket'', indexPda), (''owner'', wallet_key wallet)],
         callSigners = [walletKeypair wallet]\<rparr>) (\<lambda>_. returnIO ()))))))"

definition ensureParticipantBlsKeys :: "('w, 'i, 't, 'g) session \<Rightarrow> bytes \<Rightarrow> demo_wallet list \<Rightarrow> ('w, unit) io" where
  "ensureParticipantBlsKeys s messageDomain wallets = foldIO (ensure_bls_key s messageDomain) wallets ()"

section \<open>Deposits\<close>

definition depositForWallet ::
  "('w, 'i, 't, 'g) session \<Rightarrow> demo_wallet \<Rightarrow> int \<Rightarrow> int \<Rightarrow> pubkey \<Rightarrow> ('w, string \<times> demo_wallet) io" where
  "depositForWallet s wallet token amount vaultTokenAccount =
     bindIO (if walletParticipantId wallet < 0
       then bindIO (by_owner s (wallet_key wallet)) (\<lambda>(participant, pda).
         returnIO (wallet\<lparr>walletParticipantId := normalizedParticipantId participant, participantPda := pda\<rparr>))
       else bindIO (liftIO (participant_bucket s (walletParticipantId wallet))) (\<lambda>pda.
         returnIO (wallet\<lparr>participantPda := pda\<rparr>))) (\<lambda>wallet.
     bindIO (catchIO
       (bindIO (liftIO (sesBnNew s amount)) (\<lambda>bnAmount.
        bindIO (liftIO (owner_index s (wallet_key wallet))) (\<lambda>indexPda.
        sesRpc s
          \<lparr>callMethod = Deposit token bnAmount,
           callAccounts = [(''tokenRegistry'', registry_pda s), (''globalConfig'', config_pda s),
             (''participantBucket'', participantPda wallet), (''ownerIndexBucket'', indexPda),
             (''ownerTokenAccount'', tokenAccount wallet), (''vaultTokenAccount'', vaultTokenAccount),
             (''owner'', wallet_key wallet), (''tokenProgram'', sesTokenProgram s)],
           callSigners = [walletKeypair wallet]\<rparr>)))
       (\<lambda>error. throwErrorIO (''Deposit failed for '' @ walletName wallet @ '' (owner='' @ session_key s (wallet_key wallet) @
          '', participantPda='' @ session_key s (participantPda wallet) @ '', tokenAccount='' @
          session_key s (tokenAccount wallet) @ ''): '' @ errorMessage error))) (\<lambda>signature.
     returnIO (signature, wallet)))"

text \<open>The three functions that deposit what is missing share the loop body.\<close>

definition top_up ::
  "('w, 'i, 't, 'g) session \<Rightarrow> int \<Rightarrow> pubkey \<Rightarrow> int \<Rightarrow> demo_wallet \<Rightarrow> ('w, demo_wallet) io" where
  "top_up s token vaultTokenAccount targetRaw wallet =
     bindIO (internal_balance s wallet token) (\<lambda>(currentBalance, wallet).
     if targetRaw \<le> viewAvailable currentBalance then returnIO wallet
     else bindIO (depositForWallet s wallet token (targetRaw - viewAvailable currentBalance) vaultTokenAccount) (\<lambda>(_, wallet).
       returnIO wallet))"

definition not_positive :: "js_num \<Rightarrow> bool" where
  "not_positive x = (case x of Float m _ \<Rightarrow> m \<le> 0 | NotFinite \<Rightarrow> False)"

definition ensure_deposit ::
  "('w, 'i, 't, 'g) session \<Rightarrow> int \<Rightarrow> nat \<Rightarrow> pubkey \<Rightarrow> (string \<rightharpoonup> js_num) \<Rightarrow> demo_wallet \<Rightarrow> ('w, demo_wallet) io" where
  "ensure_deposit s token decimals vaultTokenAccount depositPlan wallet =
     (let targetAmount = (case depositPlan (walletName wallet) of Some a \<Rightarrow> a | None \<Rightarrow> Float 0 0) in
      if not_positive targetAmount then returnIO wallet
      else bindIO (liftIO (toRawAmount (sesShowNumber s) targetAmount decimals)) (\<lambda>targetRaw.
        top_up s token vaultTokenAccount targetRaw wallet))"

definition ensureDeposits ::
  "('w, 'i, 't, 'g) session \<Rightarrow> demo_wallet list \<Rightarrow> int \<Rightarrow> nat \<Rightarrow> pubkey \<Rightarrow> (string \<rightharpoonup> js_num) \<Rightarrow> bool \<Rightarrow> ('w, demo_wallet list) io" where
  "ensureDeposits s wallets token decimals vaultTokenAccount depositPlan skipDeposits =
     (if skipDeposits then returnIO wallets
      else mapIO (ensure_deposit s token decimals vaultTokenAccount depositPlan) wallets)"

definition ensureMinimumInternalBalances ::
  "('w, 'i, 't, 'g) session \<Rightarrow> demo_wallet list \<Rightarrow> int \<Rightarrow> pubkey \<Rightarrow> (int \<rightharpoonup> int) \<Rightarrow> ('w, demo_wallet list) io" where
  "ensureMinimumInternalBalances s wallets token vaultTokenAccount minimumRawByParticipantId =
     mapIO (\<lambda>wallet.
       let requiredRaw = (case minimumRawByParticipantId (walletParticipantId wallet) of Some m \<Rightarrow> m | None \<Rightarrow> 0) in
       if requiredRaw \<le> 0 then returnIO wallet else top_up s token vaultTokenAccount requiredRaw wallet) wallets"

definition ensureTargetInternalBalances ::
  "('w, 'i, 't, 'g) session \<Rightarrow> demo_wallet list \<Rightarrow> int \<Rightarrow> nat \<Rightarrow> pubkey \<Rightarrow> js_num \<Rightarrow> ('w, demo_wallet list) io" where
  "ensureTargetInternalBalances s wallets token decimals vaultTokenAccount targetAmount =
     bindIO (liftIO (toRawAmount (sesShowNumber s) targetAmount decimals)) (\<lambda>targetRaw.
     mapIO (top_up s token vaultTokenAccount targetRaw) wallets)"

section \<open>Channels\<close>

definition session_channel :: "('w, 'i, 't, 'g) session \<Rightarrow> demo_wallet \<Rightarrow> demo_wallet \<Rightarrow> int \<Rightarrow> pubkey js" where
  "session_channel s payer payee token =
     findChannelPda (sesBn s) (sesDerive s) (sesProgramId s) (walletParticipantId payer) (walletParticipantId payee) token"

text \<open>What is found at the address of a channel: the lane is initialized, it is not, or the data are of another layout.\<close>

definition existing_lane :: "('w, 'i, 't, 'g) session \<Rightarrow> demo_wallet \<Rightarrow> demo_wallet \<Rightarrow> int \<Rightarrow> bytes \<Rightarrow> bool js" where
  "existing_lane s payer payee token data =
     bindR (readRawChannelBucketState (webPublicKey (sesNet s)) data (walletParticipantId payer) (walletParticipantId payee)) (\<lambda>pair.
     if tokenId pair \<noteq> token then
       throwError (''channel bucket token mismatch: expected '' @ show_int token @ '', got '' @ show_int (tokenId pair))
     else bindR (normalizeDirectionalChannelState pair (walletParticipantId payer) (walletParticipantId payee)) (\<lambda>channel.
       Inr (laneInitialized (channelLane channel))))"

definition channel_exists ::
  "('w, 'i, 't, 'g) session \<Rightarrow> demo_wallet \<Rightarrow> demo_wallet \<Rightarrow> int \<Rightarrow> pubkey \<Rightarrow> bytes option \<Rightarrow> bool js" where
  "channel_exists s payer payee token channelPda account =
     (case account of None \<Rightarrow> Inr False
      | Some data \<Rightarrow> (case existing_lane s payer payee token data of
          Inr found \<Rightarrow> Inr found
        | Inl error \<Rightarrow>
            if isChannelBucketSlotNotInitializedError error then Inr False
            else throwError (''Channel '' @ session_key s channelPda @ '' for '' @ walletName payer @ '' -> '' @ walletName payee @
              '' (token '' @ show_int token @ '') already exists on-chain but could not be decoded by the current program layout: '' @
              formatDecodeError error @ ''. Use a fresh wallet manifest or rotate participants before rerunning the demo.'')))"

definition create_channel_call ::
  "('w, 'i, 't, 'g) session \<Rightarrow> demo_wallet \<Rightarrow> demo_wallet \<Rightarrow> int \<Rightarrow> pubkey \<Rightarrow> program_call js" where
  "create_channel_call s payer payee token channelPda =
     (let c = getCanonicalChannelParticipants (walletParticipantId payer) (walletParticipantId payee) in
      bindR (sesBnNew s (channelBucketIdForPair (walletParticipantId payer) (walletParticipantId payee))) (\<lambda>bucket.
      bindR (owner_index s (wallet_key payer)) (\<lambda>indexPda.
      Inr \<lparr>callMethod = CreateChannel token (lowerParticipantId c) (higherParticipantId c) bucket,
        callAccounts = [(''tokenRegistry'', registry_pda s), (''payerBucket'', participantPda payer),
          (''payeeBucket'', participantPda payee), (''ownerIndexBucket'', indexPda), (''payeeOwner'', wallet_key payee),
          (''channelBucket'', channelPda), (''owner'', wallet_key payer), (''systemProgram'', sesSystemProgram s)],
        callSigners = [walletKeypair payer, walletKeypair payee]\<rparr>)))"

definition ensureChannel ::
  "('w, 'i, 't, 'g) session \<Rightarrow> demo_wallet \<Rightarrow> demo_wallet \<Rightarrow> int \<Rightarrow> ('w, pubkey) io" where
  "ensureChannel s payer payee token =
     bindIO (liftIO (session_channel s payer payee token)) (\<lambda>channelPda.
     bindIO (netAccountInfo (sesNet s) channelPda) (\<lambda>existingAccount.
     bindIO (liftIO (channel_exists s payer payee token channelPda existingAccount)) (\<lambda>there.
     if there then returnIO channelPda else
     bindIO (liftIO (create_channel_call s payer payee token channelPda)) (\<lambda>call.
     bindIO (catchIO (sesRpc s call) (\<lambda>error.
       bindIO (recoverTimedOutRpcSignature (sesNet s) error (''Create channel '' @ walletName payer @ '' -> '' @ walletName payee))
         (\<lambda>recovered. case recovered of None \<Rightarrow> throwIO error | Some signature \<Rightarrow>
           if signature = '''' then throwIO error else returnIO signature))) (\<lambda>_.
     returnIO channelPda)))))"

definition prepare_edge :: "('w, 'i, 't, 'g) session \<Rightarrow> int \<Rightarrow> demo_wallet \<times> demo_wallet \<Rightarrow> ('w, channel_edge) io" where
  "prepare_edge s token pair = (case pair of (payer, payee) \<Rightarrow>
     bindIO (liftIO (session_channel s payer payee token)) (\<lambda>channelPda.
     bindIO (netAccountInfo (sesNet s) channelPda) (\<lambda>_.
     bindIO (ensureChannel s payer payee token) (\<lambda>channelPdaResolved.
     bindIO (fetchDirectionalChannelState (sesNet s) channelPdaResolved (walletParticipantId payer) (walletParticipantId payee)) (\<lambda>channel.
     returnIO \<lparr>edgePayer = payer, edgePayee = payee, edgeChannelPda = channelPdaResolved,
       edgeSettledCumulative = settledCumulative (channelLane channel)\<rparr>)))))"

definition ensureDenseGraphChannels ::
  "('w, 'i, 't, 'g) session \<Rightarrow> demo_wallet list \<Rightarrow> int \<Rightarrow> int \<Rightarrow> ('w, channel_edge list) io" where
  "ensureDenseGraphChannels s participants token maxDirectedChannels =
     mapIO (prepare_edge s token) (buildBoundedDenseGraphPairs participants maxDirectedChannels)"

definition ensureLockedChannelFunds ::
  "('w, 'i, 't, 'g) session \<Rightarrow> demo_wallet \<Rightarrow> demo_wallet \<Rightarrow> int \<Rightarrow> pubkey \<Rightarrow> int \<Rightarrow> ('w, unit) io" where
  "ensureLockedChannelFunds s payer payee token channelPda targetLockedRaw =
     bindIO (fetchDirectionalChannelState (sesNet s) channelPda (walletParticipantId payer) (walletParticipantId payee)) (\<lambda>channel.
     bindIO (liftIO (bnToNumber (sesNet s) (lockedBalance (channelLane channel)))) (\<lambda>currentLocked.
     if targetLockedRaw \<le> currentLocked then returnIO () else
     bindIO (liftIO (sesBnNew s (targetLockedRaw - currentLocked))) (\<lambda>lockDelta.
     bindIO (liftIO (owner_index s (wallet_key payer))) (\<lambda>indexPda.
     bindIO (sesRpc s
       \<lparr>callMethod = LockChannelFunds token (walletParticipantId payee) lockDelta,
        callAccounts = [(''tokenRegistry'', registry_pda s), (''payerBucket'', participantPda payer), (''channelBucket'', channelPda),
          (''ownerIndexBucket'', indexPda), (''owner'', wallet_key payer), (''systemProgram'', sesSystemProgram s)],
        callSigners = [walletKeypair payer]\<rparr>) (\<lambda>_. returnIO ())))))"

section \<open>Participants are ready\<close>

lemma by_id_ok:
  assumes "by_id s i w = Some (Inr (participant, pda), w')"
  shows "normalizedParticipantId participant = i \<and> participant_bucket s i = Inr pda \<and> 0 \<le> i"
proof -
  obtain w1 data w2 slot where pda: "findParticipantBucketPda (sesBn s) (sesDerive s) (sesProgramId s) i = Inr pda"
    and slot: "readRawParticipantBucketSlot (webPublicKey (sesNet s)) data i = Inr slot"
    and participant: "participant = normalizeParticipantBucketSlot slot"
    using assms unfolding by_id_def fetchParticipantById_def
    by (elim bindIO_InrE) (auto simp only: liftIO_apply returnIO_apply option.inject prod.inject sum.inject)
  have "participantId slot = i \<and> 0 \<le> i"
    using slot by (auto simp: readRawParticipantBucketSlot_def Let_def bindR_eq_Inr js_readUIntLE_def split: if_splits)
  then show ?thesis using pda by (simp add: participant participant_bucket_def normalizeParticipantBucketSlot_def)
qed

lemma by_owner_ok:
  assumes "by_owner s key w = Some (Inr (participant, pda), w')"
  shows "participant_bucket s (normalizedParticipantId participant) = Inr pda \<and> 0 \<le> normalizedParticipantId participant"
proof -
  obtain w1 w2 slots indexPda where found: "(case find (\<lambda>(initialized, k, _). initialized \<and> k = key) slots of
       None \<Rightarrow> throwIO (JsError ''Error'' (''Participant owner '' @ webKeyString (sesNet s) key @ '' is not indexed''))
     | Some (_, _, i) \<Rightarrow> fetchParticipantById (sesNet s) (sesBn s) (sesDerive s) (sesProgramId s) i) w1 =
       Some (Inr (participant, pda), w')"
    using assms unfolding by_owner_def fetchParticipantByOwner_def by (elim bindIO_InrE) blast
  obtain i where "by_id s i w1 = Some (Inr (participant, pda), w')"
    using found by (auto simp: by_id_def split: option.splits)
  from by_id_ok [OF this] show ?thesis by auto
qed

text \<open>A wallet with the id of its participant and the address of that participant's bucket.\<close>

definition participant_ready :: "('w, 'i, 't, 'g) session \<Rightarrow> demo_wallet \<Rightarrow> demo_wallet \<Rightarrow> bool" where
  "participant_ready s wallet wallet' \<longleftrightarrow> 0 \<le> walletParticipantId wallet'
    \<and> participant_bucket s (walletParticipantId wallet') = Inr (participantPda wallet')
    \<and> wallet' = wallet\<lparr>participantPda := participantPda wallet', walletParticipantId := walletParticipantId wallet'\<rparr>"

lemma initialized_ready:
  assumes "initialize_participant s feeRecipient wallet w = Some (Inr wallet', w')"
  shows "participant_ready s wallet wallet'"
proof -
  obtain pda i participant pda' w1 where "participant_bucket s i = Inr pda" "by_id s i w1 = Some (Inr (participant, pda'), w')"
    and "wallet' = wallet\<lparr>participantPda := pda, walletParticipantId := normalizedParticipantId participant\<rparr>"
    using assms unfolding initialize_participant_def Let_def
    by (elim bindIO_InrE) (auto simp only: liftIO_apply returnIO_apply option.inject prod.inject sum.inject split: prod.splits)
  with by_id_ok [OF this(2)] show ?thesis by (simp add: participant_ready_def)
qed

lemma ensured_ready:
  assumes "ensure_participant s feeRecipient skip wallet w = Some (Inr wallet', w')"
  shows "participant_ready s wallet wallet'"
proof -
  let ?read = "bindIO (by_owner s (wallet_key wallet)) (\<lambda>(participant, pda).
        if normalizedOwner participant \<noteq> wallet_key wallet then
          throwErrorIO (''Participant PDA '' @ session_key s pda @ '' belongs to '' @
            session_key s (normalizedOwner participant) @ '', not '' @ session_key s (wallet_key wallet))
        else returnIO (wallet\<lparr>participantPda := pda, walletParticipantId := normalizedParticipantId participant\<rparr>))"
  from assms consider "?read w = Some (Inr wallet', w')"
    | w1 where "initialize_participant s feeRecipient wallet w1 = Some (Inr wallet', w')"
    unfolding ensure_participant_def catchIO_eq_Inr by (auto simp: throwErrorIO_def split: if_splits)
  then show ?thesis
  proof cases
    case 1
    then obtain participant pda w1 where read: "by_owner s (wallet_key wallet) w = Some (Inr (participant, pda), w1)"
      and "wallet' = wallet\<lparr>participantPda := pda, walletParticipantId := normalizedParticipantId participant\<rparr>"
      by (elim bindIO_InrE) (auto simp: throwErrorIO_def split: if_splits)
    then show ?thesis using by_owner_ok [OF read] by (simp add: participant_ready_def)
  qed (rule initialized_ready)
qed

lemma mapIO_all2:
  "(\<And>x y w w'. x \<in> set xs \<Longrightarrow> f x w = Some (Inr y, w') \<Longrightarrow> P x y) \<Longrightarrow> mapIO f xs w = Some (Inr ys, w') \<Longrightarrow> list_all2 P xs ys"
proof (induction xs arbitrary: w ys)
  case (Cons x xs)
  obtain y w1 ys1 where "f x w = Some (Inr y, w1)" "mapIO f xs w1 = Some (Inr ys1, w')" "ys = y # ys1"
    using Cons.prems(2) unfolding mapIO.simps by (elim bindIO_InrE) (auto simp only: returnIO_apply option.inject prod.inject sum.inject)
  then show ?case using Cons.IH Cons.prems(1) by (metis list.rel_intros(2) list.set_intros(1) list.set_intros(2))
qed simp

text \<open>
  C40: When \<open>ensureParticipants\<close> returns, whatever the cluster answered on the way, every wallet has a participant
  id and the address of the bucket of that id, and nothing else of it has changed.
\<close>

theorem participants_ready:
  assumes "ensureParticipants s feeRecipient wallets skipInitialization w = Some (Inr wallets', w')"
  shows "list_all2 (participant_ready s) wallets wallets'"
  using assms ensured_ready unfolding ensureParticipants_def by (rule mapIO_all2 [rotated])

text \<open>
  Every error of the lookup counts as \<open>not initialized\<close>: a failed connection, and also the error that reports
  that the participant belongs to another owner.
\<close>

lemma lookup_errors_hidden:
  assumes "by_owner s (wallet_key wallet) w = Some (Inl e, w1)
    \<or> (\<exists>participant pda. by_owner s (wallet_key wallet) w = Some (Inr (participant, pda), w1) \<and> normalizedOwner participant \<noteq> wallet_key wallet)"
  shows "ensure_participant s feeRecipient False wallet w = initialize_participant s feeRecipient wallet w1"
  using assms unfolding ensure_participant_def catchIO_def bindIO_def by (auto simp: throwErrorIO_def)

section \<open>Locked funds\<close>

text \<open>What the client reads from the bytes of a channel whose lane is open.\<close>

lemma lane_fetched:
  assumes "\<And>k. length k = 32 \<Longrightarrow> webPublicKey net k = Inr k"
    and "p < 910000000" "q < 910000000" "lanes data (p, q) = Some ln"
  shows "netAccountInfo net pda w = Some (Inr (Some data), w) \<Longrightarrow>
      \<exists>channel. fetchDirectionalChannelState net pda (uint p) (uint q) w = Some (Inr channel, w) \<and> channelLane channel = lane_view ln"
    and "readRawChannelBucketLaneState data (uint p) (uint q) = Inr (uint (settled_cumulative ln), uint (locked_balance ln))"
    and "\<exists>pair. readRawChannelBucketState (webPublicKey net) data (uint p) (uint q) = Inr pair
      \<and> getDirectionalLaneState pair (uint p) (uint q) = Inr (lane_view ln)"
proof -
  have holds: "holds_lane data p q" "ln = lane_at data (lane_position p q)" using assms(4) by (simp_all add: lanes_iff)
  then have ne: "p \<noteq> q" and core: "read_resolved_lane_core_from_data data p q = Inr ln"
    by (simp_all add: holds_lane_def lane_core_iff)
  obtain pair where pair: "readRawChannelBucketState (webPublicKey net) data (uint p) (uint q) = Inr pair"
    "getDirectionalLaneState pair (uint p) (uint q) = Inr (lane_view ln)"
    using client_channel_state [OF assms(1) ne assms(2,3) core] by blast
  then show "\<exists>pair. readRawChannelBucketState (webPublicKey net) data (uint p) (uint q) = Inr pair
      \<and> getDirectionalLaneState pair (uint p) (uint q) = Inr (lane_view ln)" by blast
  show "\<exists>channel. fetchDirectionalChannelState net pda (uint p) (uint q) w = Some (Inr channel, w) \<and> channelLane channel = lane_view ln"
    if "netAccountInfo net pda w = Some (Inr (Some data), w)"
    using pair by (simp add: fetchDirectionalChannelState_def fetchRawChannelBucketState_def fetchAccountData_def bindIO_def that
        normalizeDirectionalChannelState_def)
  show "readRawChannelBucketLaneState data (uint p) (uint q) = Inr (uint (settled_cumulative ln), uint (locked_balance ln))"
    using read_lane_amounts [OF ne assms(2,3) holds(1)] holds(2) by simp
qed

lemma nat_sum_less: "0 \<le> a \<Longrightarrow> 0 \<le> b \<Longrightarrow> a + b < 18446744073709551616 \<Longrightarrow> nat a + nat b < 2 ^ 64"
  by (simp add: flip: nat_add_distrib)

text \<open>
  C37: Against the program's own lock operation, \<open>ensureLockedChannelFunds\<close> returns and leaves exactly the larger
  of the target and what was locked before in the lane from payer to payee, which the client then reads; every
  other lane is as it was. (The world is the data of the channel account, to which \<open>lockChannelFunds\<close> applies
  \<open>add_lane_locked_balance_in_data\<close>; amounts are below \<open>2 ^ 53\<close>.)
\<close>

theorem locked_funds_reached:
  fixes s :: "(bytes, 'i, 't, 'g) session" and p q :: u32
  assumes ids: "walletParticipantId payer = uint p" "walletParticipantId payee = uint q" "p < 910000000" "q < 910000000"
    and account: "\<And>data. netAccountInfo (sesNet s) pda data = Some (Inr (Some data), data)"
    and program: "\<And>call amount data. callMethod call = LockChannelFunds token (uint q) (uint amount) \<Longrightarrow>
      sesRpc s call data = (case add_lane_locked_balance_in_data data p q amount of
          Inr (data', _) \<Rightarrow> Some (Inr signature, data') | Inl _ \<Rightarrow> Some (throwError ''refused'', data))"
    and bn: "\<And>n. 0 \<le> n \<Longrightarrow> n < 2 ^ 53 \<Longrightarrow> sesBnNew s n = Inr n \<and> bnToNumber (sesNet s) n = Inr n"
    and keys: "\<And>k. length k = 32 \<Longrightarrow> webPublicKey (sesNet s) k = Inr k" "owner_index s (wallet_key payer) = Inr indexPda"
    and lane: "lanes data (p, q) = Some ln" "uint (locked_balance ln) < 2 ^ 53" "target < 2 ^ 53"
  shows "\<exists>data' ln'. ensureLockedChannelFunds s payer payee token pda target data = Some (Inr (), data')
    \<and> lanes data' = (lanes data)((p, q) \<mapsto> ln') \<and> settled_cumulative ln' = settled_cumulative ln
    \<and> readRawChannelBucketLaneState data' (uint p) (uint q) =
        Inr (uint (settled_cumulative ln), max target (uint (locked_balance ln)))"
proof -
  note before = lane_fetched(1) [OF keys(1) ids(3,4) lane(1) account] lane_fetched(2) [OF keys(1) ids(3,4) lane(1)]
  obtain channel where channel: "fetchDirectionalChannelState (sesNet s) pda (uint p) (uint q) data = Some (Inr channel, data)"
    "lockedBalance (channelLane channel) = uint (locked_balance ln)"
    using before(1) by (auto simp: lane_view_def)
  have current: "bnToNumber (sesNet s) (uint (locked_balance ln)) = Inr (uint (locked_balance ln))"
    using bn lane(2) by simp
  note run = ensureLockedChannelFunds_def ids(1,2) bindIO_def channel current
  show ?thesis
  proof (cases "target \<le> uint (locked_balance ln)")
    case True
    then have "ensureLockedChannelFunds s payer payee token pda target data = Some (Inr (), data)" by (simp add: run)
    moreover have "lanes data = (lanes data)((p, q) \<mapsto> ln)" using lane(1) by (simp add: map_upd_triv)
    ultimately show ?thesis using before(2) True by (intro exI [of _ data] exI [of _ ln]) (simp add: max_def)
  next
    case False
    define amount :: u64 where "amount = word_of_int (target - uint (locked_balance ln))"
    have amount: "uint amount = target - uint (locked_balance ln)"
      unfolding amount_def uint_word_of_int
      by (rule mod_pos_pos_trivial) (use False lane(3) uint_ge_0 [of "locked_balance ln"] in \<open>simp_all, linarith\<close>)
    have "uint amount < 2 ^ 53" using amount lane(3) uint_ge_0 [of "locked_balance ln"] by linarith
    then have boxed: "sesBnNew s (uint amount) = Inr (uint amount)" using bn by simp
    have sum: "uint (locked_balance ln) + uint amount < 2 ^ LENGTH(64)" using amount lane(3) by simp
    have unats: "unat (locked_balance ln) = nat (uint (locked_balance ln))" "unat amount = nat (uint amount)"
      by (simp_all only: unat_eq_nat_uint)
    have room: "unat (locked_balance ln) + unat amount < 2 ^ 64"
      unfolding unats by (rule nat_sum_less [OF _ _ sum [simplified]]) simp_all
    from room obtain data' where locked: "add_lane_locked_balance_in_data data p q amount = Inr (data', locked_balance ln + amount)"
      "lanes data' = (lanes data)((p, q) \<mapsto> ln\<lparr>locked_balance := locked_balance ln + amount\<rparr>)"
      using lock.op_run [OF TrueI lane(1), of amount] by (auto simp: lock_lane_def)
    have "uint (locked_balance ln + amount) = target"
      using uint_add_lem [THEN iffD1, OF sum] amount by simp
    moreover have "lanes data' (p, q) = Some (ln\<lparr>locked_balance := locked_balance ln + amount\<rparr>)" using locked(2) by simp
    note after = lane_fetched(2) [OF keys(1) ids(3,4) this]
    moreover have "ensureLockedChannelFunds s payer payee token pda target data = Some (Inr (), data')"
      using False by (simp add: run keys(2) program locked(1) boxed flip: amount)
    ultimately show ?thesis using locked(2) False
      by (intro exI [of _ data'] exI [of _ "ln\<lparr>locked_balance := locked_balance ln + amount\<rparr>"]) (simp add: max_def)
  qed
qed

section \<open>Deposits reach their targets\<close>

text \<open>
  A chain that keeps balances: the participant of each key in \<open>keys\<close> is indexed, its bucket shows the balance of
  the world (below \<open>2 ^ 53\<close>), and a deposit signed for the key raises that balance alone.
\<close>

definition slot_available :: "raw_participant \<Rightarrow> int \<Rightarrow> int" where
  "slot_available slot token =
     (case find (\<lambda>b. balanceInitialized b \<and> balanceTokenId b = token) (tokenBalances slot) of
        None \<Rightarrow> 0 | Some b \<Rightarrow> availableBalance b)"

definition shows_balance :: "('w, 'i, 't, 'g) session \<Rightarrow> int \<Rightarrow> (pubkey \<Rightarrow> int) \<Rightarrow> ('w \<Rightarrow> pubkey \<Rightarrow> int) \<Rightarrow> 'w \<Rightarrow> pubkey \<Rightarrow> bool" where
  "shows_balance s token ids balance w key \<longleftrightarrow>
     (\<exists>indexPda slots pda data slot.
        owner_index s key = Inr indexPda \<and> netOwnerIndex (sesNet s) indexPda w = Some (Inr slots, w)
        \<and> find (\<lambda>(initialized, k, _). initialized \<and> k = key) slots = Some (True, key, ids key)
        \<and> participant_bucket s (ids key) = Inr pda \<and> netAccountInfo (sesNet s) pda w = Some (Inr (Some data), w)
        \<and> readRawParticipantBucketSlot (webPublicKey (sesNet s)) data (ids key) = Inr slot
        \<and> owner slot = key \<and> slot_available slot token = balance w key
        \<and> (\<forall>b \<in> set (tokenBalances slot). withdrawingBalance b < 2 ^ 53))"

definition takes_deposit :: "('w, 'i, 't, 'g) session \<Rightarrow> int \<Rightarrow> ('w \<Rightarrow> pubkey \<Rightarrow> int) \<Rightarrow> 'w \<Rightarrow> pubkey \<Rightarrow> bool" where
  "takes_deposit s token balance w key \<longleftrightarrow>
     (\<forall>call amount. 0 \<le> amount \<longrightarrow> callMethod call = Deposit token amount \<longrightarrow> (''owner'', key) \<in> set (callAccounts call) \<longrightarrow>
        (\<exists>signature w'. sesRpc s call w = Some (Inr signature, w') \<and> balance w' = (balance w)(key := balance w key + amount)))"

definition keeps_balances :: "('w, 'i, 't, 'g) session \<Rightarrow> int \<Rightarrow> (pubkey \<Rightarrow> int) \<Rightarrow> ('w \<Rightarrow> pubkey \<Rightarrow> int) \<Rightarrow> pubkey set \<Rightarrow> bool" where
  "keeps_balances s token ids balance keys \<longleftrightarrow>
     (\<forall>w. \<forall>key \<in> keys. balance w key < 2 ^ 53 \<longrightarrow> shows_balance s token ids balance w key \<and> takes_deposit s token balance w key)
     \<and> (\<forall>n < 2 ^ 53. sesBnNew s n = Inr n \<and> bnToNumber (sesNet s) n = Inr n)"

lemma keeps_balancesD:
  assumes "keeps_balances s token ids balance keys" "key \<in> keys" "balance w key < 2 ^ 53"
  shows "shows_balance s token ids balance w key" "takes_deposit s token balance w key"
  using assms unfolding keeps_balances_def by blast+

lemma balance_shown:
  assumes shown: "shows_balance s token ids balance w (wallet_key wallet)"
    and number: "\<And>n. n < 2 ^ 53 \<Longrightarrow> bnToNumber (sesNet s) n = Inr n" and small: "balance w (wallet_key wallet) < 2 ^ 53"
  shows "\<exists>view pda. internal_balance s wallet token w =
      Some (Inr (view, wallet\<lparr>participantPda := pda, walletParticipantId := ids (wallet_key wallet)\<rparr>), w)
    \<and> viewAvailable view = balance w (wallet_key wallet) \<and> 0 \<le> ids (wallet_key wallet)
    \<and> participant_bucket s (ids (wallet_key wallet)) = Inr pda"
proof -
  let ?key = "wallet_key wallet"
  from shown obtain indexPda slots pda data slot where index: "owner_index s ?key = Inr indexPda" "netOwnerIndex (sesNet s) indexPda w = Some (Inr slots, w)"
      "find (\<lambda>(initialized, k, _). initialized \<and> k = ?key) slots = Some (True, ?key, ids ?key)"
    and bucket: "participant_bucket s (ids ?key) = Inr pda" "netAccountInfo (sesNet s) pda w = Some (Inr (Some data), w)"
      "readRawParticipantBucketSlot (webPublicKey (sesNet s)) data (ids ?key) = Inr slot" "owner slot = ?key"
    and amounts: "slot_available slot token = balance w ?key" "\<forall>b \<in> set (tokenBalances slot). withdrawingBalance b < 2 ^ 53"
    unfolding shows_balance_def by blast
  have id: "by_id s (ids ?key) w = Some (Inr (normalizeParticipantBucketSlot slot, pda), w)"
    using bucket by (simp add: by_id_def fetchParticipantById_def fetchAccountData_def bindIO_def participant_bucket_def)
  have owner': "by_owner s ?key w = Some (Inr (normalizeParticipantBucketSlot slot, pda), w)"
    using index id by (simp add: by_owner_def fetchParticipantByOwner_def bindIO_def owner_index_def by_id_def)
  have ids: "normalizedParticipantId (normalizeParticipantBucketSlot slot) = ids ?key" "0 \<le> ids ?key"
    using by_id_ok [OF id] by simp_all
  have "\<exists>view. getParticipantTokenBalance (bnToNumber (sesNet s)) (normalizeParticipantBucketSlot slot) token = Inr view
      \<and> viewAvailable view = balance w ?key"
  proof (cases "find (\<lambda>b. balanceInitialized b \<and> balanceTokenId b = token) (tokenBalances slot)")
    case None
    then show ?thesis using amounts(1)
      by (simp add: getParticipantTokenBalance_def normalizeParticipantBucketSlot_def find_filter_map slot_available_def)
  next
    case (Some b)
    then have "b \<in> set (tokenBalances slot)" by (metis find_Some_iff nth_mem)
    then show ?thesis using Some amounts small
      by (simp add: getParticipantTokenBalance_def normalizeParticipantBucketSlot_def find_filter_map slot_available_def number)
  qed
  then obtain view where view: "getParticipantTokenBalance (bnToNumber (sesNet s)) (normalizeParticipantBucketSlot slot) token = Inr view"
    "viewAvailable view = balance w ?key" by blast
  have "normalizedOwner (normalizeParticipantBucketSlot slot) = ?key" using bucket(4) by (simp add: normalizeParticipantBucketSlot_def)
  then have "internal_balance s wallet token w = Some (Inr (view, wallet\<lparr>participantPda := pda, walletParticipantId := ids ?key\<rparr>), w)"
    using owner' view(1) ids(1) by (simp add: internal_balance_def fetchInternalBalance_def bindIO_def by_owner_def)
  then show ?thesis using view(2) ids(2) bucket(1) by blast
qed

lemma topped_up:
  assumes keeps: "keeps_balances s token ids balance keys" and key: "wallet_key wallet \<in> keys"
    and small: "balance w (wallet_key wallet) < 2 ^ 53" "target < 2 ^ 53" "0 \<le> balance w (wallet_key wallet)"
  shows "\<exists>wallet' w'. top_up s token vault target wallet w = Some (Inr wallet', w') \<and> participant_ready s wallet wallet'
    \<and> balance w' = (balance w)(wallet_key wallet := max target (balance w (wallet_key wallet)))"
proof -
  let ?key = "wallet_key wallet"
  obtain view pda where read: "internal_balance s wallet token w =
      Some (Inr (view, wallet\<lparr>participantPda := pda, walletParticipantId := ids ?key\<rparr>), w)"
    and view: "viewAvailable view = balance w ?key" and id: "0 \<le> ids ?key" "participant_bucket s (ids ?key) = Inr pda"
    using balance_shown [OF keeps_balancesD(1) [OF keeps key small(1)] _ small(1)] keeps unfolding keeps_balances_def by blast
  have ready: "participant_ready s wallet (wallet\<lparr>participantPda := pda, walletParticipantId := ids ?key\<rparr>)"
    using id by (simp add: participant_ready_def)
  show ?thesis
  proof (cases "target \<le> balance w ?key")
    case True
    then have "top_up s token vault target wallet w = Some (Inr (wallet\<lparr>participantPda := pda, walletParticipantId := ids ?key\<rparr>), w)"
      by (simp add: top_up_def bindIO_def read view)
    then show ?thesis using ready True by (intro exI conjI) (auto simp: max_def)
  next
    case False
    let ?amount = "target - balance w ?key"
    have boxed: "sesBnNew s ?amount = Inr ?amount" using keeps small by (simp add: keeps_balances_def)
    obtain indexPda where index: "owner_index s ?key = Inr indexPda"
      using keeps_balancesD(1) [OF keeps key small(1)] unfolding shows_balance_def by blast
    let ?call = "\<lparr>callMethod = Deposit token ?amount,
      callAccounts = [(''tokenRegistry'', registry_pda s), (''globalConfig'', config_pda s), (''participantBucket'', pda),
        (''ownerIndexBucket'', indexPda), (''ownerTokenAccount'', tokenAccount wallet), (''vaultTokenAccount'', vault),
        (''owner'', ?key), (''tokenProgram'', sesTokenProgram s)],
      callSigners = [walletKeypair wallet]\<rparr>"
    note takes = keeps_balancesD(2) [OF keeps key small(1)]
    obtain signature w' where sent: "sesRpc s ?call w = Some (Inr signature, w')"
      and balance: "balance w' = (balance w)(?key := balance w ?key + ?amount)"
      using takes [unfolded takes_deposit_def, rule_format, of ?amount ?call] False by auto
    have "top_up s token vault target wallet w = Some (Inr (wallet\<lparr>participantPda := pda, walletParticipantId := ids ?key\<rparr>), w')"
      using False id sent by (simp add: top_up_def depositForWallet_def bindIO_def catchIO_def read view boxed index)
    then show ?thesis using ready False balance by (intro exI conjI) (auto simp: max_def)
  qed
qed

lemma all_topped_up:
  assumes keeps: "keeps_balances s token ids balance keys" and target: "target < 2 ^ 53"
    and "wallet_key ` set wallets \<subseteq> keys" "\<forall>key \<in> keys. 0 \<le> balance w key \<and> balance w key < 2 ^ 53"
  shows "\<exists>wallets' w'. mapIO (top_up s token vault target) wallets w = Some (Inr wallets', w')
    \<and> list_all2 (participant_ready s) wallets wallets'
    \<and> balance w' = (\<lambda>key. if key \<in> wallet_key ` set wallets then max target (balance w key) else balance w key)"
  using assms(3,4)
proof (induction wallets arbitrary: w)
  case (Cons wallet wallets)
  obtain wallet' w1 where one: "top_up s token vault target wallet w = Some (Inr wallet', w1)" "participant_ready s wallet wallet'"
    and b1: "balance w1 = (balance w)(wallet_key wallet := max target (balance w (wallet_key wallet)))"
    using topped_up [OF keeps _ _ target, where wallet = wallet and w = w and vault = vault] Cons.prems by auto
  have "\<forall>key \<in> keys. 0 \<le> balance w1 key \<and> balance w1 key < 2 ^ 53" using Cons.prems(2) target by (auto simp: b1 max_def)
  then obtain wallets' w' where others: "mapIO (top_up s token vault target) wallets w1 = Some (Inr wallets', w')"
    "list_all2 (participant_ready s) wallets wallets'"
    and b2: "balance w' = (\<lambda>key. if key \<in> wallet_key ` set wallets then max target (balance w1 key) else balance w1 key)"
    using Cons.IH [of w1] Cons.prems(1) by auto
  have "mapIO (top_up s token vault target) (wallet # wallets) w = Some (Inr (wallet' # wallets'), w')"
    using one(1) others(1) by (simp add: bindIO_def)
  moreover have "balance w' = (\<lambda>key. if key \<in> wallet_key ` set (wallet # wallets) then max target (balance w key) else balance w key)"
    by (auto simp: b2 b1 fun_eq_iff)
  ultimately show ?case using one(2) others(2) by blast
qed simp

text \<open>
  C38: On a chain that keeps balances, \<open>ensureTargetInternalBalances\<close> returns, and it leaves every wallet with the
  larger of the target and its balance before: enough is deposited, never more than is missing, and nobody
  else's balance changes. The wallets come back with their participants.
\<close>

theorem target_balances_reached:
  assumes "keeps_balances s token ids balance keys" "toRawAmount (sesShowNumber s) targetAmount decimals = Inr target"
    and "wallet_key ` set wallets \<subseteq> keys" "\<forall>key \<in> keys. 0 \<le> balance w key \<and> balance w key < 2 ^ 53"
  shows "\<exists>wallets' w'. ensureTargetInternalBalances s wallets token decimals vault targetAmount w = Some (Inr wallets', w')
    \<and> list_all2 (participant_ready s) wallets wallets'
    \<and> balance w' = (\<lambda>key. if key \<in> wallet_key ` set wallets then max target (balance w key) else balance w key)"
proof -
  have "target < 2 ^ 53" using toRawAmount_safe [OF assms(2)] by simp
  from all_topped_up [OF assms(1) this assms(3,4)] show ?thesis
    by (simp add: ensureTargetInternalBalances_def assms(2))
qed

section \<open>Channels are created where the program expects them\<close>

text \<open>
  C39: For two participants below 910 million, in either direction, the call that creates their channel names the
  pair in the program's order, the bucket id the program computes for it, and the account derived from the seeds
  the program verifies, and both owners sign it. \<open>ensureChannel\<close> sends no other call: with a program that answers
  this one alike, it does the same.
\<close>

theorem channel_creation_agrees:
  assumes "walletParticipantId payer = uint p" "walletParticipantId payee = uint q" "p < 910000000" "q < 910000000"
    and pair: "canonicalize p q = Inr (l, h, lane)" "bucket_id_for_pair l h = Inr bucket"
    and bn: "\<And>n k. 0 \<le> n \<Longrightarrow> n < 256 ^ k \<Longrightarrow> sesBn s n k = Inr (le_bytes k (nat n))" "\<And>n. n < 2 ^ 53 \<Longrightarrow> sesBnNew s n = Inr n"
    and index: "owner_index s (wallet_key payer) = Inr indexPda"
  shows "\<exists>call. session_channel s payer payee (uint token) = Inr (sesDerive s (channel_bucket_seeds token bucket) (sesProgramId s))
    \<and> create_channel_call s payer payee (uint token) (sesDerive s (channel_bucket_seeds token bucket) (sesProgramId s)) = Inr call
    \<and> callMethod call = CreateChannel (uint token) (uint l) (uint h) (uint bucket)
    \<and> (''channelBucket'', sesDerive s (channel_bucket_seeds token bucket) (sesProgramId s)) \<in> set (callAccounts call)
    \<and> callSigners call = [walletKeypair payer, walletKeypair payee]
    \<and> (\<forall>rpc. rpc call = sesRpc s call \<longrightarrow>
        ensureChannel (s\<lparr>sesRpc := rpc\<rparr>) payer payee (uint token) = ensureChannel s payer payee (uint token))"
proof -
  let ?pda = "sesDerive s (channel_bucket_seeds token bucket) (sesProgramId s)"
  note client = client_bucket_id [OF assms(3,4) pair]
  have lh: "uint l = min (uint p) (uint q)" "uint h = max (uint p) (uint q)"
    unfolding uint_nat [of l] uint_nat [of h] canonicalize_Inr(4,5) [OF pair(1), symmetric] by (simp_all add: max_def)
  have here: "session_channel s payer payee (uint token) = Inr ?pda"
    using client_channel_seeds [OF bn(1) assms(3,4) pair] by (simp add: session_channel_def assms(1,2))
  obtain call where call: "create_channel_call s payer payee (uint token) ?pda = Inr call"
    "callMethod call = CreateChannel (uint token) (uint l) (uint h) (uint bucket)"
    "(''channelBucket'', ?pda) \<in> set (callAccounts call)" "callSigners call = [walletKeypair payer, walletKeypair payee]"
    using client bn(2) index
    by (simp add: create_channel_call_def assms(1,2) Let_def getCanonicalChannelParticipants_def canonical_participants.defs lh)
  have "ensureChannel (s\<lparr>sesRpc := rpc\<rparr>) payer payee (uint token) = ensureChannel s payer payee (uint token)"
    if "rpc call = sesRpc s call" for rpc
  proof -
    let ?s = "s\<lparr>sesRpc := rpc\<rparr>"
    have parts: "sesNet ?s = sesNet s" "sesBn ?s = sesBn s" "sesBnNew ?s = sesBnNew s" "sesDerive ?s = sesDerive s"
      "sesSha256 ?s = sesSha256 s" "sesProgramId ?s = sesProgramId s" "sesSystemProgram ?s = sesSystemProgram s" by simp_all
    have same: "session_channel ?s payer payee (uint token) = session_channel s payer payee (uint token)"
      "channel_exists ?s payer payee (uint token) = channel_exists s payer payee (uint token)"
      "create_channel_call ?s payer payee (uint token) = create_channel_call s payer payee (uint token)"
      unfolding session_channel_def channel_exists_def [abs_def] existing_lane_def session_key_def create_channel_call_def [abs_def]
        owner_index_def registry_pda_def parts by (rule refl)+
    have sent: "sesRpc ?s call = sesRpc s call" using that by simp
    show ?thesis
      unfolding ensureChannel_def same parts here liftIO_Inr bindIO_returnIO call(1) sent by (rule refl)
  qed
  then show ?thesis using here call by blast
qed

section \<open>Witnesses\<close>

text \<open>A session on a world whose accounts are given, with one kind of answer to a call.\<close>

definition sample_net :: "make_pubkey \<Rightarrow> ('w \<Rightarrow> bytes) \<Rightarrow> ('w, string, unit) cluster" where
  "sample_net newKey account = \<lparr>netLatestBlockhash = returnIO (''hash'', 100), netAccountInfo = (\<lambda>_ w. Some (Inr (Some (account w)), w)),
     netMultipleAccountsInfo = (\<lambda>keys w. Some (Inr (map (\<lambda>_. Some (account w)) keys), w)), netBalance = (\<lambda>_. returnIO 0),
     netSlot = (\<lambda>_. returnIO 7), netSignatureStatus = (\<lambda>_. returnIO None),
     netTransactionLogs = (\<lambda>_. returnIO None), netSendRaw = (\<lambda>_ _. returnIO ''sig''),
     netConfirm = (\<lambda>_ _ _. returnIO None), netSimulate = (\<lambda>_. returnIO (None, [])),
     netLookupTable = (\<lambda>_. returnIO None), netErrorLogs = (\<lambda>_. returnIO []),
     netOwnerIndex = (\<lambda>_. returnIO [(True, [], 0)]), netSleep = (\<lambda>_. returnIO ()),
     netNow = returnIO 0, webV0 = (\<lambda>_ _ _ _ _. Inr [1]), webLegacy = (\<lambda>_ _ _ _. Inr [2]),
     webCreateLookupTable = (\<lambda>_ _ _. (''create'', [])), webExtendLookupTable = (\<lambda>_ _ _ _. ''extend''),
     webPublicKey = newKey, webKeyString = (\<lambda>_. ''key''), bnToNumber = Inr\<rparr>"

definition sample_session :: "make_pubkey \<Rightarrow> ('w \<Rightarrow> bytes) \<Rightarrow> (program_call \<Rightarrow> ('w, string) io) \<Rightarrow> ('w, string, unit, unit) session" where
  "sample_session newKey account rpc = \<lparr>sesNet = sample_net newKey account, sesBn = (\<lambda>n k. Inr (le_bytes k (nat n))), sesBnNew = Inr,
     sesDerive = (\<lambda>seeds programId. concat seeds @ programId), sesSha256 = (\<lambda>_. replicate 32 0),
     sesCurve = \<lparr>g1_base = (), g1_zero = (), g1_multiply = (\<lambda>_ _. Inr ()), g1_add = (\<lambda>_ _. ()),
       g1_toRawBytes = (\<lambda>_. []), g1_fromHex = (\<lambda>_. Inr ()), g2_public = (\<lambda>_. Inr [5])\<rparr>,
     sesProgramId = [9], sesSystemProgram = [0], sesTokenProgram = [6], sesShowNumber = (\<lambda>_. ''n''),
     sesGlobalConfig = (\<lambda>_. returnIO \<lparr>configChainId = 1, configMessageDomain = replicate 16 0, configFeeRecipient = [3], configNextParticipantId = 0\<rparr>),
     sesTokenRegistry = (\<lambda>_. returnIO [(1, [7])]), sesMintDecimals = (\<lambda>_. returnIO 6),
     sesTokenAccount = (\<lambda>_ _ key. returnIO key), sesTokenAmount = (\<lambda>_. returnIO 0),
     sesTransferSol = (\<lambda>_ _ _. returnIO ''sol''), sesTransferTokens = (\<lambda>_ _ _ _. returnIO ''tokens''), sesRpc = rpc\<rparr>"

lemma sample_index: "\<exists>pda. owner_index (sample_session newKey account rpc) key = Inr pda"
  by (simp add: owner_index_def findOwnerIndexBucketPda_def u32Le_def sample_session_def)

definition locking_rpc :: "program_call \<Rightarrow> (bytes, string) io" where
  "locking_rpc call data = (case callMethod call of
     LockChannelFunds _ _ n \<Rightarrow> (case add_lane_locked_balance_in_data data 3 5 (word_of_int n) of
       Inr (data', _) \<Rightarrow> Some (Inr ''sig'', data') | Inl _ \<Rightarrow> Some (throwError ''refused'', data))
   | _ \<Rightarrow> Some (Inr ''sig'', data))"

theorem locked_funds_reached_witness:
  "\<exists>data data'. ensureLockedChannelFunds (sample_session Inr (\<lambda>data. data) locking_rpc) (sample_wallet 3) (sample_wallet 5) 1 [] 40 data =
      Some (Inr (), data')
    \<and> readRawChannelBucketLaneState data' (uint (3 :: u32)) (uint (5 :: u32)) = Inr (0, 40)"
proof -
  obtain data where data: "lanes data (3, 5) = Some (fresh_lane sample_signer)" using sample_run by blast
  obtain pda where pda: "owner_index (sample_session Inr (\<lambda>data. data) locking_rpc) (wallet_key (sample_wallet 3)) = Inr pda"
    using sample_index by blast
  have "\<exists>data' ln'. ensureLockedChannelFunds (sample_session Inr (\<lambda>data. data) locking_rpc) (sample_wallet 3) (sample_wallet 5) 1 [] 40 data =
      Some (Inr (), data')
    \<and> lanes data' = (lanes data)((3, 5) \<mapsto> ln') \<and> settled_cumulative ln' = settled_cumulative (fresh_lane sample_signer)
    \<and> readRawChannelBucketLaneState data' (uint (3 :: u32)) (uint (5 :: u32)) =
      Inr (uint (settled_cumulative (fresh_lane sample_signer)), max 40 (uint (locked_balance (fresh_lane sample_signer))))"
    by (rule locked_funds_reached [where signature = "''sig''" and token = 1, OF _ _ _ _ _ _ _ _ pda data])
      (simp_all add: sample_session_def sample_net_def sample_wallet_def locking_rpc_def fresh_lane_def split: sum.split)
  then show ?thesis by (auto simp: fresh_lane_def)
qed

text \<open>The wallet of the participant that \<open>fresh_bucket\<close> holds, whose key reads as the empty key.\<close>

definition keyless_wallet :: demo_wallet where
  "keyless_wallet = (sample_wallet 9)\<lparr>walletKeypair := \<lparr>publicKey = [], secretKey = []\<rparr>\<rparr>"

lemma fresh_owner: "readRawParticipantBucketSlot (\<lambda>_. Inr []) fresh_bucket 0 = Inr slot \<Longrightarrow> owner slot = []"
  by (auto simp: readRawParticipantBucketSlot_def Let_def bindR_eq_Inr readRawPubkey_def split: if_splits)

theorem participants_ready_witness:
  "\<exists>wallet'. ensureParticipants (sample_session (\<lambda>_. Inr []) (\<lambda>_. fresh_bucket) (\<lambda>_. returnIO ''sig'')) [3] [keyless_wallet] False () =
      Some (Inr [wallet'], ())
    \<and> participant_ready (sample_session (\<lambda>_. Inr []) (\<lambda>_ :: unit. fresh_bucket) (\<lambda>_. returnIO ''sig'')) keyless_wallet wallet'"
proof -
  let ?s = "sample_session (\<lambda>_. Inr []) (\<lambda>_ :: unit. fresh_bucket) (\<lambda>_. returnIO ''sig'')"
  obtain slot where slot: "readRawParticipantBucketSlot (\<lambda>_. Inr []) fresh_bucket 0 = Inr slot" using fresh_slot by blast
  have "\<exists>wallet'. ensureParticipants ?s [3] [keyless_wallet] False () = Some (Inr [wallet'], ())"
    by (simp add: ensureParticipants_def ensure_participant_def by_owner_def fetchParticipantByOwner_def fetchParticipantById_def
        fetchAccountData_def bindIO_def catchIO_def sample_session_def sample_net_def findOwnerIndexBucketPda_def findParticipantBucketPda_def
        u32Le_def keyless_wallet_def slot normalizeParticipantBucketSlot_def fresh_owner [OF slot])
  then obtain wallet' where run: "ensureParticipants ?s [3] [keyless_wallet] False () = Some (Inr [wallet'], ())" by blast
  from participants_ready [OF run] run show ?thesis by auto
qed

theorem channel_creation_agrees_witness:
  "\<exists>call. create_channel_call (sample_session Inr (\<lambda>_ :: unit. []) (\<lambda>_. returnIO ''sig'')) (sample_wallet 9) (sample_wallet 4) (uint (1 :: u16))
      (concat (channel_bucket_seeds 1 0) @ [9]) = Inr call
    \<and> callMethod call = CreateChannel 1 4 9 0"
proof -
  let ?s = "sample_session Inr (\<lambda>_ :: unit. []) (\<lambda>_. returnIO ''sig'')"
  obtain pda where pda: "owner_index ?s (wallet_key (sample_wallet 9)) = Inr pda" using sample_index by blast
  have "canonicalize 9 4 = Inr (4, 9, HigherToLower)" "bucket_id_for_pair 4 9 = Inr 0"
    by (simp_all add: canonicalize_def bucket_id_total pair_number_def)
  from channel_creation_agrees [where s = ?s and token = 1, OF _ _ _ _ this _ _ pda, where payee = "sample_wallet 4"]
  obtain call where call: "create_channel_call ?s (sample_wallet 9) (sample_wallet 4) (uint (1 :: u16))
      (sesDerive ?s (channel_bucket_seeds 1 0) (sesProgramId ?s)) = Inr call"
    "callMethod call = CreateChannel (uint (1 :: u16)) (uint (4 :: u32)) (uint (9 :: u32)) (uint (0 :: u64))"
    by (auto simp: sample_wallet_def sample_session_def)
  have "sesDerive ?s (channel_bucket_seeds 1 0) (sesProgramId ?s) = concat (channel_bucket_seeds 1 0) @ [9]"
    by (simp add: sample_session_def)
  then show ?thesis using call by simp
qed

text \<open>A bucket whose participant \<open>i\<close>, with the given key, holds \<open>v\<close> of token 1, and nobody else is in it.\<close>

definition held_bucket :: "pubkey \<Rightarrow> nat \<Rightarrow> nat \<Rightarrow> bytes" where
  "held_bucket key i v = replicate 13 0 @ [1] @ key @ le_bytes 4 i @ replicate 98 0 @ [1, 1, 0] @ le_bytes 8 v @ replicate 933 0"

lemma length_held: "length key = 32 \<Longrightarrow> length (held_bucket key i v) = 1092"
  by (simp add: held_bucket_def)

lemma read_middle:
  assumes "data = a @ b @ c" "0 \<le> off" "nat off = length a" "length b = k"
  shows "js_readUIntLE k data off = Inr (int (le_nat b))"
proof -
  have "off + int k \<le> int (length data)" using assms by simp
  moreover have "subarray (nat off) k data = b" using assms by (simp add: subarray_def)
  ultimately show ?thesis using assms(2) by (simp add: js_readUIntLE_def)
qed

lemma held_reads:
  assumes "length key = 32"
  shows "v < 2 ^ 64 \<Longrightarrow> js_readUIntLE 8 (held_bucket key i v) 151 = Inr (int v)"
    and "js_readUIntLE 2 (held_bucket key i v) 149 = Inr 1"
    and "i < 2 ^ 32 \<Longrightarrow> js_readUIntLE 4 (held_bucket key i v) 46 = Inr (int i)"
proof -
  show "js_readUIntLE 8 (held_bucket key i v) 151 = Inr (int v)" if "v < 2 ^ 64"
  proof -
    have "js_readUIntLE 8 (held_bucket key i v) 151 = Inr (int (le_nat (le_bytes 8 v)))"
      using assms read_middle [of "held_bucket key i v" "replicate 13 0 @ [1] @ key @ le_bytes 4 i @ replicate 98 0 @ [1, 1, 0]"
          "le_bytes 8 v" "replicate 933 0" 151 8] by (simp add: held_bucket_def)
    then show ?thesis using that by (simp add: le_nat_le_bytes)
  qed
  have "held_bucket key i v = (replicate 13 0 @ [1] @ key @ le_bytes 4 i @ replicate 98 0 @ [1]) @ [1, 0] @ le_bytes 8 v @ replicate 933 0"
    by (simp add: held_bucket_def)
  from read_middle [OF this, of 149 2] assms show "js_readUIntLE 2 (held_bucket key i v) 149 = Inr 1" by simp
  show "js_readUIntLE 4 (held_bucket key i v) 46 = Inr (int i)" if "i < 2 ^ 32"
  proof -
    have "js_readUIntLE 4 (held_bucket key i v) 46 = Inr (int (le_nat (le_bytes 4 i)))"
      using assms read_middle [of "held_bucket key i v" "replicate 13 0 @ [1] @ key" "le_bytes 4 i"
          "replicate 98 0 @ [1, 1, 0] @ le_bytes 8 v @ replicate 933 0" 46 4] by (simp add: held_bucket_def)
    then show ?thesis using that by (simp add: le_nat_le_bytes)
  qed
qed

lemma held_tail:
  assumes "length key = 32" "159 \<le> off" "off + int k \<le> 1092"
  shows "js_readUIntLE k (held_bucket key i v) off = Inr 0"
proof -
  have "replicate 933 (0 :: byte) = replicate (nat off - 159) 0 @ replicate k 0 @ replicate (1092 - nat off - k) 0"
    using assms by (simp flip: replicate_add)
  then have "held_bucket key i v = (replicate 13 0 @ [1] @ key @ le_bytes 4 i @ replicate 98 0 @ [1, 1, 0] @ le_bytes 8 v @
      replicate (nat off - 159) 0) @ replicate k 0 @ replicate (1092 - nat off - k) 0"
    by (simp add: held_bucket_def)
  from read_middle [OF this, of off k] assms show ?thesis by (simp add: le_nat_zeros)
qed

lemma held_flags:
  assumes "length key = 32"
  shows "js_flag (held_bucket key i v) 13" "js_flag (held_bucket key i v) 148"
    "159 \<le> off \<Longrightarrow> off < 1092 \<Longrightarrow> \<not> js_flag (held_bucket key i v) off"
proof -
  show "js_flag (held_bucket key i v) 13" "js_flag (held_bucket key i v) 148"
    using assms by (simp_all add: js_flag_def js_byte_def held_bucket_def nth_append nth_Cons')
  assume off: "159 \<le> off" "off < 1092"
  then have "nat off - 159 < 933" by linarith
  then have "held_bucket key i v ! nat off = 0"
    using assms off by (simp add: held_bucket_def nth_append nth_Cons')
  then show "\<not> js_flag (held_bucket key i v) off" using assms off by (simp add: js_flag_def js_byte_def length_held)
qed

lemma held_key: "length key = 32 \<Longrightarrow> js_subarray (held_bucket key i v) 14 46 = key"
  by (simp add: js_subarray_def js_index_def held_bucket_def)

lemma held_slot:
  assumes key: "length key = 32" and small: "i < 2 ^ 32" "i mod 9 = 0" "v < 2 ^ 64"
    and newKey: "\<And>k. length k = 32 \<Longrightarrow> newKey k = Inr (f k)"
  shows "\<exists>slot. readRawParticipantBucketSlot newKey (held_bucket key i v) (int i) = Inr slot \<and> owner slot = f key
    \<and> slot_available slot 1 = int v \<and> (\<forall>b \<in> set (tokenBalances slot). withdrawingBalance b = 0)"
proof -
  let ?data = "held_bucket key i v"
  let ?read = "\<lambda>index :: nat. readRawTokenBalanceEntry newKey ?data (148 + int index * 59)"
  have pubkey: "\<exists>k. readRawPubkey newKey ?data off = Inr k" if "0 \<le> off" "off + 32 \<le> 1092" for off
    using that newKey by (simp add: readRawPubkey_def js_subarray_def js_index_def length_held [OF key])
  define d where "d = (\<lambda>index :: nat. projr (readRawPubkey newKey ?data (148 + int index * 59 + 27)))"
  have d: "readRawPubkey newKey ?data (148 + int index * 59 + 27) = Inr (d index)" if "index < 16" for index
    using that pubkey [of "148 + int index * 59 + 27"] by (auto simp: d_def)
  define entry where "entry = (\<lambda>index :: nat. \<lparr>balanceInitialized = (index = 0), balanceTokenId = (if index = 0 then 1 else 0),
    availableBalance = (if index = 0 then int v else 0), withdrawingBalance = 0, withdrawalUnlockAt = 0,
    withdrawalDestination = d index\<rparr>)"
  have "?read index = Inr (entry index)" if "index < 16" for index
    using that d [OF that] small
    by (cases "index = 0") (simp_all add: readRawTokenBalanceEntry_def readRawU64Bn_def readRawI64Bn_def held_reads [OF key]
        held_tail [OF key] held_flags [OF key] entry_def)
  then have entries: "mapR ?read [0..<16] = Inr (map entry [0..<16])" by (intro mapR_Inr) simp
  have owner: "readRawPubkey newKey ?data 14 = Inr (f key)" using newKey [OF key] by (simp add: readRawPubkey_def held_key [OF key])
  have "int i mod 9 = 0" using small(2) by presburger
  then obtain slot where slot: "readRawParticipantBucketSlot newKey ?data (int i) = Inr slot" "owner slot = f key"
    "tokenBalances slot = map entry [0..<16]"
    using entries owner small
    by (simp add: readRawParticipantBucketSlot_def participantBucketSlotIndex_def js_mod_nonneg layout_simps
        held_reads [OF key] held_flags [OF key])
  have "find (\<lambda>b. balanceInitialized b \<and> balanceTokenId b = 1) (map entry [0..<16]) = Some (entry 0)"
    by (simp add: upt_conv_Cons entry_def)
  then have "slot_available slot 1 = int v" by (simp add: slot_available_def slot(3)) (simp add: entry_def)
  then show ?thesis using slot by (auto simp: entry_def)
qed

text \<open>A chain on which the deposits of participant 0 are booked, whose key reads as the empty key.\<close>

definition funded_bucket :: "nat \<Rightarrow> bytes" where
  "funded_bucket v = held_bucket default_pubkey 0 v"

definition booking_rpc :: "program_call \<Rightarrow> (nat, string) io" where
  "booking_rpc call v = (case callMethod call of
     Deposit _ amount \<Rightarrow> Some (Inr ''sig'', if (''owner'', []) \<in> set (callAccounts call) then v + nat amount else v)
   | _ \<Rightarrow> Some (Inr ''sig'', v))"

definition booked :: "nat \<Rightarrow> pubkey \<Rightarrow> int" where
  "booked v key = (if key = [] then int v else 0)"

lemma sample_keeps: "keeps_balances (sample_session (\<lambda>_. Inr []) funded_bucket booking_rpc) 1 (\<lambda>_. 0) booked {[]}"
proof -
  let ?s = "sample_session (\<lambda>_. Inr []) funded_bucket booking_rpc"
  have "shows_balance ?s 1 (\<lambda>_. 0) booked v []" if v: "int v < 2 ^ 53" for v
  proof -
    have "v < 2 ^ 64" using v by simp
    then obtain slot where slot: "readRawParticipantBucketSlot (\<lambda>_. Inr []) (funded_bucket v) 0 = Inr slot" "owner slot = []"
      "slot_available slot 1 = int v" "\<forall>b \<in> set (tokenBalances slot). withdrawingBalance b = 0"
      using held_slot [of default_pubkey 0 v "\<lambda>_. Inr []" "\<lambda>_. []"] by (auto simp: default_pubkey_def funded_bucket_def)
    obtain indexPda where index: "owner_index ?s [] = Inr indexPda" using sample_index by blast
    obtain pda where pda: "participant_bucket ?s 0 = Inr pda"
      by (auto simp: participant_bucket_def findParticipantBucketPda_def u32Le_def sample_session_def)
    show ?thesis
      unfolding shows_balance_def
      by (intro exI [of _ indexPda] exI [of _ "[(True, [], 0)]"] exI [of _ pda] exI [of _ "funded_bucket v"] exI [of _ slot])
        (use slot index pda in \<open>auto simp: sample_session_def sample_net_def booked_def\<close>)
  qed
  moreover have "takes_deposit ?s 1 booked v []" for v
    by (auto simp: takes_deposit_def sample_session_def booking_rpc_def booked_def fun_eq_iff)
  ultimately show ?thesis by (simp add: keeps_balances_def booked_def) (simp add: sample_session_def sample_net_def)
qed

theorem target_balances_reached_witness:
  "\<exists>wallets' w'. ensureTargetInternalBalances (sample_session (\<lambda>_. Inr []) funded_bucket booking_rpc) [keyless_wallet] 1 6 [8] (Float 5 0) 3000000 =
      Some (Inr wallets', w') \<and> booked w' [] = 5000000"
proof -
  let ?s = "sample_session (\<lambda>_. Inr []) funded_bucket booking_rpc"
  have raw: "toRawAmount (sesShowNumber ?s) (Float 5 0) 6 = Inr 5000000" by (simp add: toRawAmount_def)
  have "\<exists>wallets' w'. ensureTargetInternalBalances ?s [keyless_wallet] 1 6 [8] (Float 5 0) 3000000 = Some (Inr wallets', w')
      \<and> list_all2 (participant_ready ?s) [keyless_wallet] wallets'
      \<and> booked w' = (\<lambda>key. if key \<in> wallet_key ` set [keyless_wallet] then max 5000000 (booked 3000000 key) else booked 3000000 key)"
    by (rule target_balances_reached [OF sample_keeps raw]) (simp_all add: keyless_wallet_def booked_def)
  then show ?thesis by (auto dest: fun_cong [where x = "[]"] simp: keyless_wallet_def booked_def)
qed

end
