(* ===== verification/Double.thy ===== *)
theory Double
  imports Formats "HOL-Library.Log_Nat"
begin

text \<open>
  Doubles, as the money and ratio figures of the client use them. A finite double is the rational
  number it denotes; \<open>round_dbl\<close> rounds a real result to 53 significant bits, ties to even, as IEEE 754
  does, with the exponent unbounded: the figures lie between a millionth and the number of payments, far
  inside the range. \<open>to_fixed\<close> is \<open>Number.prototype.toFixed\<close> below \<open>10 ^ 21\<close>, and \<open>to_locale\<close> is
  \<open>toLocaleString("en-US", ...)\<close>, both of the exact value.
\<close>

section \<open>Rounding\<close>

definition half_even :: "rat \<Rightarrow> int" where
  "half_even x = (let f = floor x; d = x - of_int f in
     if d < 1 / 2 then f else if d > 1 / 2 then f + 1 else if even f then f else f + 1)"

text \<open>The exponent \<open>e\<close> with \<open>2 ^ e \<le> x < 2 ^ (e + 1)\<close>, of a positive number.\<close>

definition exponent_of :: "rat \<Rightarrow> int" where
  "exponent_of x = (case quotient_of x of (a, b) \<Rightarrow>
     let e = bitlen a - bitlen b in if 2 powi e \<le> x then e else e - 1)"

definition round_dbl :: "rat \<Rightarrow> rat" where
  "round_dbl x = (if x = 0 then 0 else
     let unit = 2 powi (exponent_of \<bar>x\<bar> - 52) in of_int (half_even (x / unit)) * unit)"

definition dbl_add :: "rat \<Rightarrow> rat \<Rightarrow> rat" where
  "dbl_add x y = round_dbl (x + y)"

definition dbl_sub :: "rat \<Rightarrow> rat \<Rightarrow> rat" where
  "dbl_sub x y = round_dbl (x - y)"

definition dbl_mul :: "rat \<Rightarrow> rat \<Rightarrow> rat" where
  "dbl_mul x y = round_dbl (x * y)"

text \<open>Division by a number that is not zero.\<close>

definition dbl_div :: "rat \<Rightarrow> rat \<Rightarrow> rat" where
  "dbl_div x y = round_dbl (x / y)"

section \<open>Printing\<close>

definition to_fixed :: "nat \<Rightarrow> rat \<Rightarrow> string" where
  "to_fixed f x =
     (let n = floor (\<bar>x\<bar> * 10 ^ f + 1 / 2);
          digits = pad_start (int f + 1) (show_int n); cut = length digits - f in
      (if x < 0 then ''-'' else '''') @ take cut digits @ (if f = 0 then '''' else ''.'' @ drop cut digits))"

text \<open>Digits in groups of three, from the right.\<close>

fun group_rev :: "string \<Rightarrow> string" where
  "group_rev (a # b # c # d # s) = a # b # c # CHR '','' # group_rev (d # s)"
| "group_rev s = s"

definition group_digits :: "string \<Rightarrow> string" where
  "group_digits s = rev (group_rev (rev s))"

definition to_locale :: "nat \<Rightarrow> nat \<Rightarrow> rat \<Rightarrow> string" where
  "to_locale minDigits maxDigits x =
     (let n = floor (\<bar>x\<bar> * 10 ^ maxDigits + 1 / 2);
          digits = pad_start (int maxDigits + 1) (show_int n); cut = length digits - maxDigits;
          frac = drop cut digits; kept = strip_zeros frac;
          shown = kept @ replicate (minDigits - length kept) (CHR ''0'') in
      (if x < 0 \<and> n \<noteq> 0 then ''-'' else '''') @ group_digits (take cut digits) @
      (if shown = '''' then '''' else ''.'' @ shown))"

definition formatUsd :: "rat \<Rightarrow> string" where
  "formatUsd amount =
     (if amount \<ge> 1000 then ''$'' @ to_locale 2 2 amount
      else if amount \<ge> 1 then ''$'' @ to_fixed 2 amount
      else if amount \<ge> round_dbl (1 / 100) then ''$'' @ to_fixed 4 amount
      else ''$'' @ to_fixed 6 amount)"

text \<open>\<open>None\<close> stands for a number that is not finite.\<close>

definition formatCompressionRatio :: "rat option \<Rightarrow> string" where
  "formatCompressionRatio v =
     (case v of None \<Rightarrow> ''inf''
      | Some x \<Rightarrow> if x \<ge> 1000 then to_locale 0 0 x else if x \<ge> 10 then to_fixed 1 x else to_fixed 2 x)"

section \<open>Rounding is monotone and exact on integers\<close>

lemma half_even_of_int [simp]: "half_even (of_int n) = n"
  by (simp add: half_even_def)

lemma half_even_floor: "floor x \<le> half_even x" "half_even x \<le> floor x + 1"
  by (simp_all add: half_even_def Let_def)

lemma half_even_mono:
  assumes "x \<le> y"
  shows "half_even x \<le> half_even y"
proof (cases "floor x = floor y")
  case True
  define f where "f = floor y"
  have "x - of_int f \<le> y - of_int f" using assms by simp
  then show ?thesis unfolding half_even_def Let_def True f_def [symmetric] by auto
next
  case False
  then have "floor x + 1 \<le> floor y" using floor_mono [OF assms] by simp
  then show ?thesis using half_even_floor [of x] half_even_floor [of y] by linarith
qed

lemma half_even_minus: "half_even (- x) = - half_even x"
proof (cases "of_int (floor x) = x")
  case True
  then have "half_even x = floor x" "half_even (- x) = - floor x"
    by (metis half_even_of_int, metis half_even_of_int of_int_minus)
  then show ?thesis by simp
next
  case False
  define f where "f = floor x"
  have "floor (- x) = - f - 1" using False unfolding f_def by linarith
  then show ?thesis unfolding half_even_def Let_def f_def [symmetric] by auto
qed

lemma exponent_of_bounds:
  assumes "0 < x"
  shows "2 powi exponent_of x \<le> x" "x < 2 powi (exponent_of x + 1)"
proof -
  obtain a b where q: "quotient_of x = (a, b)" by (cases "quotient_of x")
  then have x: "x = of_int a / of_int b" and b: "0 < b"
    by (rule quotient_of_div, rule quotient_of_denom_pos)
  have a: "0 < a" using assms b x by (simp add: zero_less_divide_iff)
  have powi: "(2 :: rat) powi n = of_int (2 ^ nat n)" if "0 \<le> n" for n
    using that by (simp add: power_int_def)
  let ?i = "bitlen a" and ?j = "bitlen b"
  have "2 ^ nat (?i - 1) \<le> a" "a < 2 ^ nat ?i" "2 ^ nat (?j - 1) \<le> b" "b < 2 ^ nat ?j"
    using bitlen_bounds [OF a] bitlen_bounds [OF b] by auto
  moreover have "0 < ?i" "0 < ?j"
    using bitlen_nonneg [of a] bitlen_nonneg [of b] bitlen_eq_zero_iff [of a] bitlen_eq_zero_iff [of b] a b by linarith+
  ultimately have bnd: "2 powi (?i - 1) \<le> (of_int a :: rat)" "(of_int a :: rat) < 2 powi ?i"
      "2 powi (?j - 1) \<le> (of_int b :: rat)" "(of_int b :: rat) < 2 powi ?j"
    unfolding powi [of "?i - 1"] by (simp_all add: powi del: of_int_power)
  have "2 powi (?i - 1) / 2 powi ?j \<le> x" unfolding x by (rule frac_le) (use bnd a b in auto)
  then have lo: "2 powi (?i - ?j - 1) \<le> x" by (simp add: power_int_diff power_int_add algebra_simps)
  have "x < 2 powi ?i / 2 powi (?j - 1)" unfolding x by (rule frac_less) (use bnd a b in auto)
  then have hi: "x < 2 powi (?i - ?j + 1)" by (simp add: power_int_diff power_int_add)
  show "2 powi exponent_of x \<le> x" "x < 2 powi (exponent_of x + 1)"
    using lo hi by (auto simp: exponent_of_def q Let_def not_le)
qed

lemma exponent_of_mono:
  assumes "0 < x" "x \<le> y"
  shows "exponent_of x \<le> exponent_of y"
proof (rule ccontr)
  assume "\<not> exponent_of x \<le> exponent_of y"
  then have "(2 :: rat) powi (exponent_of y + 1) \<le> 2 powi exponent_of x"
    by (intro power_int_increasing) auto
  then show False using exponent_of_bounds [of x] exponent_of_bounds [of y] assms by linarith
qed

lemma round_dbl_bounds:
  assumes "0 < x"
  shows "2 powi exponent_of x \<le> round_dbl x" "round_dbl x \<le> 2 powi (exponent_of x + 1)"
proof -
  define e where "e = exponent_of x"
  have unit: "(0 :: rat) < 2 powi (e - 52)" by simp
  have scale: "(2 :: rat) powi e = of_int (2 ^ 52) * 2 powi (e - 52)"
    "(2 :: rat) powi (e + 1) = of_int (2 ^ 53) * 2 powi (e - 52)"
    by (simp_all add: power_int_diff power_int_add)
  have lo: "of_int (2 ^ 52) \<le> x / 2 powi (e - 52)"
    using exponent_of_bounds(1) [OF assms] unfolding e_def [symmetric] scale by (simp only: pos_le_divide_eq [OF unit])
  have hi: "x / 2 powi (e - 52) \<le> of_int (2 ^ 53)"
    using exponent_of_bounds(2) [OF assms] unfolding e_def [symmetric] scale
    by (simp only: pos_divide_le_eq [OF unit] less_imp_le)
  have "2 ^ 52 \<le> half_even (x / 2 powi (e - 52))" using half_even_mono [OF lo] by (simp only: half_even_of_int)
  moreover have "half_even (x / 2 powi (e - 52)) \<le> 2 ^ 53" using half_even_mono [OF hi] by (simp only: half_even_of_int)
  ultimately have "of_int (2 ^ 52) * 2 powi (e - 52) \<le> of_int (half_even (x / 2 powi (e - 52))) * (2 powi (e - 52) :: rat)"
    "of_int (half_even (x / 2 powi (e - 52))) * (2 powi (e - 52) :: rat) \<le> of_int (2 ^ 53) * 2 powi (e - 52)"
    by (simp_all only: mult_le_cancel_right_pos [OF unit] of_int_le_iff)
  then show "2 powi exponent_of x \<le> round_dbl x" "round_dbl x \<le> 2 powi (exponent_of x + 1)"
    using assms unfolding e_def [symmetric] scale by (simp_all add: round_dbl_def e_def Let_def)
qed

lemma round_dbl_zero [simp]: "round_dbl 0 = 0"
  by (simp add: round_dbl_def)

lemma round_dbl_minus: "round_dbl (- x) = - round_dbl x"
  by (simp add: round_dbl_def Let_def half_even_minus)

lemma round_dbl_pos: "0 < x \<Longrightarrow> 0 < round_dbl x"
  using round_dbl_bounds(1) [of x] zero_less_power_int [of "2 :: rat" "exponent_of x"] by linarith

lemma round_dbl_mono_pos:
  assumes "0 < x" "x \<le> y"
  shows "round_dbl x \<le> round_dbl y"
proof (cases "exponent_of x = exponent_of y")
  case True
  then show ?thesis
    using assms by (auto simp: round_dbl_def Let_def intro!: mult_right_mono half_even_mono divide_right_mono)
next
  case False
  then have "exponent_of x + 1 \<le> exponent_of y" using exponent_of_mono [OF assms] by simp
  then have "(2 :: rat) powi (exponent_of x + 1) \<le> 2 powi exponent_of y" by (intro power_int_increasing) auto
  then show ?thesis using round_dbl_bounds [of x] round_dbl_bounds [of y] assms by linarith
qed

lemma round_dbl_mono:
  assumes "x \<le> y"
  shows "round_dbl x \<le> round_dbl y"
proof -
  consider "0 < x" | "x = 0" | "x < 0" "y < 0" | "x < 0" "0 \<le> y" by linarith
  then show ?thesis
  proof cases
    case 1
    then show ?thesis using assms by (rule round_dbl_mono_pos)
  next
    case 2
    then show ?thesis using assms round_dbl_pos [of y] by (cases "y = 0") auto
  next
    case 3
    then have "round_dbl (- y) \<le> round_dbl (- x)" using assms by (intro round_dbl_mono_pos) auto
    then show ?thesis by (simp add: round_dbl_minus)
  next
    case 4
    then have "0 < round_dbl (- x)" by (intro round_dbl_pos) simp
    moreover have "0 \<le> round_dbl y" using 4 round_dbl_pos [of y] by (cases "y = 0") auto
    ultimately show ?thesis by (simp add: round_dbl_minus)
  qed
qed

lemma round_dbl_nonneg [simp]: "0 \<le> x \<Longrightarrow> 0 \<le> round_dbl x"
  using round_dbl_mono [of 0 x] by simp

text \<open>An integer of at most 53 bits is a double.\<close>

lemma round_dbl_of_int:
  assumes "\<bar>n\<bar> < 2 ^ 53"
  shows "round_dbl (of_int n) = of_int n"
proof (cases "n = 0")
  case False
  define e where "e = exponent_of \<bar>of_int n\<bar>"
  have pos: "0 < \<bar>of_int n :: rat\<bar>" using False by simp
  have "\<bar>of_int n :: rat\<bar> < of_int (2 ^ 53)" using assms by (simp only: of_int_abs [symmetric] of_int_less_iff)
  then have "\<bar>of_int n :: rat\<bar> < 2 powi 53" by (simp add: power_int_def)
  then have "(2 :: rat) powi e < 2 powi 53" using exponent_of_bounds(1) [OF pos] unfolding e_def by linarith
  then have "e < 53" using power_int_increasing [of 53 e "2 :: rat"] by (cases "53 \<le> e") auto
  define k where "k = nat (52 - e)"
  have k: "e - 52 = - int k" using \<open>e < 53\<close> by (simp add: k_def)
  have unit: "(2 :: rat) powi (e - 52) = inverse (2 ^ k)" unfolding k by (simp add: power_int_minus)
  have inv: "of_int n / inverse (2 ^ k) = (of_int (n * 2 ^ k) :: rat)" by (simp add: divide_inverse)
  show ?thesis using False
    unfolding round_dbl_def e_def [symmetric] Let_def unit inv half_even_of_int by simp
qed simp

end
