(* ===== verification/Benchmarks.thy ===== *)
theory Benchmarks
  imports Double
begin

text \<open>
  The benchmark figures: \<open>scripts/lib/benchmark-artifacts.ts\<close>, \<open>createBenchmarkScenario\<close> of the demo,
  and the live page that \<open>scripts/export-benchmarks.ts\<close> generates. Numbers of payments, transactions and
  bytes are integers below \<open>2 ^ 53\<close>, money and ratios are doubles (\<open>Double\<close>).
\<close>

section \<open>Savings\<close>

record benchmark_savings =
  savingsBaselineModel :: string
  baselineTransactionCount :: int
  savingsSettlementCount :: int
  savedTransactions :: int
  reductionPercent :: rat
  compressionRatio :: rat
  estimatedBaselineCostUsd :: rat
  estimatedRyvoCostUsd :: rat
  estimatedSavingsUsd :: rat

definition X402_SOLANA_COST_PER_TX_USD :: rat where
  "X402_SOLANA_COST_PER_TX_USD = round_dbl (44 / 100000)"

definition computeSavingsMetrics :: "string option \<Rightarrow> int \<Rightarrow> int \<Rightarrow> rat option \<Rightarrow> benchmark_savings" where
  "computeSavingsMetrics baselineModel underlyingPaymentCount settlementTransactionCount perTransactionCostUsd =
     (let model = (case baselineModel of Some m \<Rightarrow> m | None \<Rightarrow> ''Exact-payment x402 onchain baseline'');
          cost = (case perTransactionCostUsd of Some c \<Rightarrow> c | None \<Rightarrow> X402_SOLANA_COST_PER_TX_USD);
          saved = underlyingPaymentCount - settlementTransactionCount;
          baselineCost = dbl_mul (of_int underlyingPaymentCount) cost;
          ryvoCost = dbl_mul (of_int settlementTransactionCount) cost in
      \<lparr>savingsBaselineModel = model, baselineTransactionCount = underlyingPaymentCount,
       savingsSettlementCount = settlementTransactionCount, savedTransactions = saved,
       reductionPercent = (if underlyingPaymentCount = 0 then 0
         else dbl_mul (dbl_div (of_int saved) (of_int underlyingPaymentCount)) 100),
       compressionRatio = (if settlementTransactionCount = 0 then 0
         else dbl_div (of_int underlyingPaymentCount) (of_int settlementTransactionCount)),
       estimatedBaselineCostUsd = baselineCost, estimatedRyvoCostUsd = ryvoCost,
       estimatedSavingsUsd = dbl_sub baselineCost ryvoCost\<rparr>)"

section \<open>Scenarios\<close>

record benchmark_shape =
  shapeParticipantCount :: int
  shapeChannelCount :: int

datatype settlement_mode = LatestCommitment | Bundle | SinglePayerClearing | BilateralClearing
  | AtomicRoutedClearing | MultilateralClearing

record benchmark_scenario =
  benchmarkId :: string
  benchmarkTitle :: string
  settlementMode :: settlement_mode
  participantCount :: int
  channelCount :: int
  underlyingPaymentCount :: int
  grossValueRaw :: string
  grossValueFormatted :: string
  settlementTransactionCount :: int
  signatures :: "string list"
  explorerLinks :: "string list"
  serializedTransactionBytes :: "int list"
  totalSerializedTransactionBytes :: int
  signedMessageBytes :: int
  signatureCount :: int
  participantBalanceWrites :: int
  channelLaneWrites :: int
  baselineModel :: string
  savings :: benchmark_savings
  scenarioNotes :: "string list"
  requestedShape :: "benchmark_shape option"
  achievedShape :: "benchmark_shape option"

text \<open>The parameters of \<open>createBenchmarkScenario\<close>.\<close>

record scenario_params =
  paramId :: string
  paramTitle :: string
  paramSettlementMode :: settlement_mode
  paramParticipantCount :: int
  paramChannelCount :: int
  paramUnderlyingPaymentCount :: int
  paramGrossValueRaw :: int
  paramDecimals :: int
  paramTokenSymbol :: string
  paramSignatures :: "string list"
  paramSerializedTransactionBytes :: "int list"
  paramSignedMessageBytes :: int
  paramSignatureCount :: int
  paramParticipantBalanceWrites :: int
  paramChannelLaneWrites :: int
  paramNotes :: "string list option"
  paramRequestedShape :: "benchmark_shape option"
  paramAchievedShape :: "benchmark_shape option"

definition buildExplorerUrl :: "string \<Rightarrow> string \<Rightarrow> string" where
  "buildExplorerUrl signature cluster = ''https://explorer.solana.com/tx/'' @ signature @ ''?cluster='' @ cluster"

definition explorerUrl :: "string \<Rightarrow> string" where
  "explorerUrl signature = buildExplorerUrl signature ''devnet''"

definition createBenchmarkScenario :: "scenario_params \<Rightarrow> benchmark_scenario" where
  "createBenchmarkScenario p =
     (let s = computeSavingsMetrics None (paramUnderlyingPaymentCount p) (int (length (paramSignatures p))) None in
      \<lparr>benchmarkId = paramId p, benchmarkTitle = paramTitle p, settlementMode = paramSettlementMode p,
       participantCount = paramParticipantCount p, channelCount = paramChannelCount p,
       underlyingPaymentCount = paramUnderlyingPaymentCount p, grossValueRaw = show_int (paramGrossValueRaw p),
       grossValueFormatted = formatAmount (paramGrossValueRaw p) (paramDecimals p) @ '' '' @ paramTokenSymbol p,
       settlementTransactionCount = int (length (paramSignatures p)), signatures = paramSignatures p,
       explorerLinks = map explorerUrl (paramSignatures p),
       serializedTransactionBytes = paramSerializedTransactionBytes p,
       totalSerializedTransactionBytes = foldl (+) 0 (paramSerializedTransactionBytes p),
       signedMessageBytes = paramSignedMessageBytes p, signatureCount = paramSignatureCount p,
       participantBalanceWrites = paramParticipantBalanceWrites p, channelLaneWrites = paramChannelLaneWrites p,
       baselineModel = savingsBaselineModel s, savings = s,
       scenarioNotes = (case paramNotes p of Some n \<Rightarrow> n | None \<Rightarrow> []),
       requestedShape = paramRequestedShape p, achievedShape = paramAchievedShape p\<rparr>)"

section \<open>Pages\<close>

fun js_join :: "string \<Rightarrow> string list \<Rightarrow> string" where
  "js_join separator [] = ''''"
| "js_join separator [s] = s"
| "js_join separator (s # ss) = s @ separator @ js_join separator ss"

text \<open>A cell of a table is a string or a number (here an integer).\<close>

datatype cell = Text string | Number int

fun cell_text :: "cell \<Rightarrow> string" where
  "cell_text (Text s) = s"
| "cell_text (Number n) = show_int n"

definition table_row :: "string list \<Rightarrow> string" where
  "table_row cells = ''| '' @ js_join '' | '' cells @ '' |''"

definition renderMarkdownTable :: "string list \<Rightarrow> cell list list \<Rightarrow> string" where
  "renderMarkdownTable headers rows =
     js_join [CHR 0x0A] ([table_row headers, table_row (map (\<lambda>_. ''---'') headers)] @
       map (\<lambda>row. table_row (map cell_text row)) rows)"

definition formatUsd_artifact :: "rat \<Rightarrow> string" where
  "formatUsd_artifact v = ''$'' @ to_fixed 6 v"

definition formatRatio :: "rat option \<Rightarrow> string" where
  "formatRatio v = (case v of Some x \<Rightarrow> to_fixed 2 x | None \<Rightarrow> ''0.00'')"

definition renderSavingsCell :: "benchmark_savings \<Rightarrow> string" where
  "renderSavingsCell s = formatRatio (Some (compressionRatio s)) @ ''x / '' @
     to_locale 0 3 (of_int (savedTransactions s)) @ '' tx saved''"

record live_token =
  liveTokenId :: int
  liveTokenSymbol :: string
  liveTokenMint :: string
  liveTokenDecimals :: int

record live_snapshot =
  liveGeneratedAt :: string
  liveCommit :: "string option"
  liveCluster :: string
  liveRunId :: string
  liveProgramId :: string
  liveMessageDomain :: string
  liveToken :: live_token
  liveScenarios :: "benchmark_scenario list"

record deployment_manifest =
  deploymentProgramId :: string
  deploymentNetwork :: string
  deploymentMessageDomain :: string

record demo_manifest =
  manifestRunId :: string
  manifestNetwork :: string
  manifestProgramId :: string
  manifestGeneratedAt :: string
  manifestToken :: live_token
  manifestMessageDomain :: "string option"
  manifestScenarios :: "benchmark_scenario list option"

text \<open>\<open>commit\<close> is what \<open>git rev-parse HEAD\<close> printed, where it could be run; \<open>path_text\<close> the manifest's path.\<close>

definition createLiveSnapshot ::
  "string option \<Rightarrow> string \<Rightarrow> deployment_manifest \<Rightarrow> demo_manifest \<Rightarrow> live_snapshot js" where
  "createLiveSnapshot commit path_text deployment manifest =
     (case manifestScenarios manifest of
        None \<Rightarrow> throwError (''Demo manifest '' @ path_text @
          '' does not include benchmarkScenarios yet. Re-run the upgraded demo first.'')
      | Some scenarios \<Rightarrow> Inr \<lparr>liveGeneratedAt = manifestGeneratedAt manifest, liveCommit = commit,
          liveCluster = manifestNetwork manifest, liveRunId = manifestRunId manifest,
          liveProgramId = manifestProgramId manifest,
          liveMessageDomain = (case manifestMessageDomain manifest of Some d \<Rightarrow> d
            | None \<Rightarrow> deploymentMessageDomain deployment),
          liveToken = manifestToken manifest, liveScenarios = scenarios\<rparr>)"

text \<open>The rows of the two tables of the live page.\<close>

definition live_row :: "benchmark_scenario \<Rightarrow> cell list" where
  "live_row s = [Text (benchmarkTitle s), Number (participantCount s), Number (channelCount s),
     Text (to_locale 0 3 (of_int (underlyingPaymentCount s))), Number (settlementTransactionCount s),
     Number (totalSerializedTransactionBytes s), Number (signedMessageBytes s), Number (signatureCount s),
     Text (renderSavingsCell (savings s))]"

definition link_text :: "nat \<Rightarrow> string \<Rightarrow> string" where
  "link_text index url = ''[tx '' @ show_int (int index + 1) @ '']('' @ url @ '')''"

definition explorer_row :: "benchmark_scenario \<Rightarrow> cell list" where
  "explorer_row s = [Text (benchmarkTitle s),
     Text (js_join '', '' (map (\<lambda>(index, url). link_text index url) (List.enumerate 0 (explorerLinks s))))]"

definition newline :: string where "newline = [CHR 0x0A]"

definition renderLiveBenchmarkPage :: "live_snapshot \<Rightarrow> string" where
  "renderLiveBenchmarkPage snapshot =
     ''---'' @ newline @ ''title: '' @ [CHR 0x22] @ ''Generated Live Devnet Benchmarks'' @ [CHR 0x22] @ newline @
     ''description: '' @ [CHR 0x22] @ ''Generated from the latest protocol-only Ryvo devnet demo run.'' @ [CHR 0x22] @ newline @
     ''---'' @ newline @ newline @
     ''The table below is generated from the latest committed live demo snapshot for program '' @ [CHR 0x60] @
     liveProgramId snapshot @ [CHR 0x60] @ '' on '' @ [CHR 0x60] @ liveCluster snapshot @ [CHR 0x60] @ ''.'' @ newline @ newline @
     renderMarkdownTable
       [''Scenario'', ''Participants'', ''Channels'', ''Underlying Payments'', ''Settlement Txs'',
        ''Serialized Tx Bytes'', ''Signed Message Bytes'', ''Signature Count'', ''Compression'']
       (map live_row (liveScenarios snapshot)) @ newline @ newline @
     ''## Explorer Links'' @ newline @ newline @
     renderMarkdownTable [''Scenario'', ''Explorer''] (map explorer_row (liveScenarios snapshot)) @ newline"

section \<open>What the figures say\<close>

lemma dbl_of_int [simp]: "\<bar>n\<bar> < 2 ^ 53 \<Longrightarrow> round_dbl (of_int n) = of_int n"
  by (rule round_dbl_of_int)

lemma round_dbl_numerals [simp]: "round_dbl 1 = 1" "round_dbl 100 = 100"
  using dbl_of_int [of 1] dbl_of_int [of 100] by (simp_all del: dbl_of_int)

lemma savings_sound:
  fixes model :: "string option"
  assumes "0 < settled" "settled \<le> payments" "case cost of None \<Rightarrow> True | Some c \<Rightarrow> 0 \<le> c"
  defines "s \<equiv> computeSavingsMetrics model payments settled cost"
  shows "0 \<le> reductionPercent s" "reductionPercent s \<le> 100" "1 \<le> compressionRatio s"
    "estimatedRyvoCostUsd s \<le> estimatedBaselineCostUsd s" "0 \<le> estimatedSavingsUsd s"
proof -
  define c where "c = (case cost of Some c \<Rightarrow> c | None \<Rightarrow> X402_SOLANA_COST_PER_TX_USD)"
  have c: "0 \<le> c" using assms(3) by (auto simp: c_def X402_SOLANA_COST_PER_TX_USD_def split: option.splits)
  have share: "0 \<le> round_dbl ((of_int payments - of_int settled) / of_int payments :: rat)"
    "round_dbl ((of_int payments - of_int settled) / of_int payments :: rat) \<le> 1"
    using assms(1,2) round_dbl_mono [of "(of_int payments - of_int settled) / of_int payments" 1] by simp_all
  then show "0 \<le> reductionPercent s" "reductionPercent s \<le> 100"
    using assms(1,2) round_dbl_mono [of "round_dbl ((of_int payments - of_int settled) / of_int payments :: rat) * 100" 100]
    by (simp_all add: s_def computeSavingsMetrics_def Let_def dbl_mul_def dbl_div_def)
  show "1 \<le> compressionRatio s"
    using assms(1,2) round_dbl_mono [of 1 "of_int payments / of_int settled"]
    by (simp add: s_def computeSavingsMetrics_def Let_def dbl_div_def)
  have le: "round_dbl (of_int settled * c) \<le> round_dbl (of_int payments * c)"
    using assms(2) c by (intro round_dbl_mono mult_right_mono) simp_all
  then show "estimatedRyvoCostUsd s \<le> estimatedBaselineCostUsd s" "0 \<le> estimatedSavingsUsd s"
    by (simp_all add: s_def computeSavingsMetrics_def Let_def dbl_mul_def dbl_sub_def flip: c_def)
qed

text \<open>
  The savings a benchmark reports for at most as many transactions as payments are sound in spite of
  the rounding of doubles: the reduction is between 0 and 100 percent, the compression at least one, and
  the estimated savings are never negative. The transactions are the signatures, each with its link.
\<close>

theorem benchmark_savings_sound:
  assumes "paramSignatures p \<noteq> []" "int (length (paramSignatures p)) \<le> paramUnderlyingPaymentCount p"
  shows "let b = createBenchmarkScenario p; s = savings b in
    0 \<le> reductionPercent s \<and> reductionPercent s \<le> 100 \<and> 1 \<le> compressionRatio s \<and>
    estimatedRyvoCostUsd s \<le> estimatedBaselineCostUsd s \<and> 0 \<le> estimatedSavingsUsd s \<and>
    savedTransactions s + settlementTransactionCount b = underlyingPaymentCount b \<and>
    settlementTransactionCount b = int (length (signatures b)) \<and> length (explorerLinks b) = length (signatures b)"
proof -
  have pos: "0 < int (length (paramSignatures p))" using assms(1) by simp
  note sound = savings_sound [OF pos assms(2), where cost = None and model = None, simplified]
  then show ?thesis by (simp add: createBenchmarkScenario_def Let_def) (simp add: computeSavingsMetrics_def Let_def)
qed

definition sample_params :: scenario_params where
  "sample_params = \<lparr>paramId = ''m1'', paramTitle = ''Clearing'', paramSettlementMode = MultilateralClearing,
     paramParticipantCount = 3, paramChannelCount = 3, paramUnderlyingPaymentCount = 660, paramGrossValueRaw = 3750000,
     paramDecimals = 6, paramTokenSymbol = ''USDC'', paramSignatures = [''sig''], paramSerializedTransactionBytes = [812],
     paramSignedMessageBytes = 61, paramSignatureCount = 1, paramParticipantBalanceWrites = 3, paramChannelLaneWrites = 3,
     paramNotes = None, paramRequestedShape = None, paramAchievedShape = None\<rparr>"

lemma benchmark_savings_sound_witness:
  "0 \<le> estimatedSavingsUsd (savings (createBenchmarkScenario sample_params))"
  using benchmark_savings_sound [of sample_params] by (simp add: sample_params_def Let_def)

end
