(* ===== verification/Json.thy ===== *)
theory Json
  imports Rpc
begin

text \<open>
  \<open>JSON.stringify\<close> of the objects the client writes to its log: a property whose value is \<open>undefined\<close>
  (\<open>None\<close>) is left out. Strings are ASCII, numbers are integers below \<open>2 ^ 53\<close>.
\<close>

datatype json = JsonNull | JsonBool bool | JsonNumber int | JsonText string | JsonArray "json list"
  | JsonObject "(string \<times> json option) list"

definition joined :: "char \<Rightarrow> string list \<Rightarrow> string" where
  "joined separator parts = concat (if parts = [] then [] else hd parts # map (\<lambda>p. separator # p) (tl parts))"

fun stringify :: "json \<Rightarrow> string" where
  "stringify JsonNull = ''null''"
| "stringify (JsonBool b) = (if b then ''true'' else ''false'')"
| "stringify (JsonNumber n) = show_int n"
| "stringify (JsonText s) = json_string s"
| "stringify (JsonArray items) = ''['' @ joined (CHR '','') (map stringify items) @ '']''"
| "stringify (JsonObject members) =
     ''{'' @ joined (CHR '','') (concat (map (\<lambda>(name, v). case v of None \<Rightarrow> []
       | Some j \<Rightarrow> [json_string name @ '':'' @ stringify j]) members)) @ ''}''"

text \<open>\<open>stringify\<close> never writes a line break, so that a log of lines can be split again.\<close>

definition one_line :: "string \<Rightarrow> bool" where
  "one_line s \<longleftrightarrow> CHR 0x0A \<notin> set s"

lemma one_line_simps [simp]:
  "one_line []" "one_line (c # s) \<longleftrightarrow> c \<noteq> CHR 0x0A \<and> one_line s" "one_line (s @ t) \<longleftrightarrow> one_line s \<and> one_line t"
  by (auto simp: one_line_def)

lemma one_line_concat: "(\<And>s. s \<in> set ss \<Longrightarrow> one_line s) \<Longrightarrow> one_line (concat ss)"
  by (auto simp: one_line_def)

lemma one_line_joined:
  "separator \<noteq> CHR 0x0A \<Longrightarrow> (\<And>s. s \<in> set ss \<Longrightarrow> one_line s) \<Longrightarrow> one_line (joined separator ss)"
  unfolding joined_def by (rule one_line_concat) (auto dest: list.set_sel split: if_splits)

lemma hex_no_newline: "one_line (hex_string bs)"
proof -
  have digit: "hex_digit d \<noteq> CHR 0x0A" if "d < 16" for d
  proof
    assume "hex_digit d = CHR 0x0A"
    then have "of_char (hex_digit d) = (10 :: nat)" by simp
    then show False using that by (simp add: hex_digit_def split: if_splits)
  qed
  have "unat b div 16 < 16" "unat b mod 16 < 16" for b :: byte
    using unsigned_less [of b, where ?'a = nat] by (simp_all add: less_mult_imp_div_less)
  then show ?thesis unfolding hex_string_def by (intro one_line_concat) (auto simp: digit)
qed

lemma show_int_one_line: "one_line (show_int n)"
proof -
  have "c \<noteq> CHR 0x0A" if "is_digit c" for c using that by (auto simp: is_digit_def)
  then show ?thesis using show_nat_digits by (auto simp: show_int_def one_line_def)
qed

lemma json_string_one_line: "one_line (json_string s)"
proof -
  have "one_line (json_char c)" for c
  proof (cases "c = CHR 0x0A")
    case True
    then show ?thesis by (simp add: json_char_def)
  next
    case False
    then show ?thesis by (simp add: json_char_def Let_def hex_no_newline)
  qed
  then show ?thesis unfolding json_string_def one_line_simps by (auto intro!: one_line_concat)
qed

lemma stringify_one_line: "one_line (stringify j)"
proof (induction j rule: stringify.induct)
  case (5 items)
  then show ?case by (auto intro!: one_line_joined)
next
  case (6 members)
  then show ?case by (auto intro!: one_line_joined simp: json_string_one_line split: option.splits)
qed (simp_all add: show_int_one_line json_string_one_line)

end
