(* ===== verification/Capacity.thy ===== *)
theory Capacity
  imports BucketAddress Messages Graph
begin

unbundle bit_operations_syntax

text \<open>
  How large a clearing round fits a packet: \<open>scripts/lib/clearing-round-capacity.ts\<close>. A synthetic round is
  built for a number of participants and channels, its transaction is sized, and the largest rounds that
  fit are searched.

  \<open>sizing\<close> holds what comes from \<open>@solana/web3.js\<close>: the address derivation, the random key pairs (the
  \<open>n\<close>-th one a measurement generates), and the compilation, signing and serialization of transactions, which may throw.
\<close>

section \<open>Instructions and sizes\<close>

record instruction =
  instructionProgramId :: pubkey
  instructionKeys :: "account_meta list"
  instructionData :: bytes

record lookup_table =
  tableKey :: pubkey
  tableAddresses :: "pubkey list"

record sizing =
  sizingDerive :: "bytes list \<Rightarrow> pubkey \<Rightarrow> pubkey"
  sizingSysvar :: pubkey
  sizingEd25519 :: pubkey
  sizingKeypair :: "nat \<Rightarrow> keypair"
  sizingLegacyMessage :: "pubkey \<Rightarrow> string \<Rightarrow> instruction list \<Rightarrow> bytes js"
  sizingV0Transaction :: "keypair \<Rightarrow> string \<Rightarrow> instruction list \<Rightarrow> lookup_table list \<Rightarrow> bytes js"

definition LEGACY_PACKET_DATA_SIZE :: int where "LEGACY_PACKET_DATA_SIZE = 1232"

definition MAX_SIZE :: int where "MAX_SIZE = 2 ^ 53 - 1"

definition SYNTHETIC_RECENT_BLOCKHASH :: string where
  "SYNTHETIC_RECENT_BLOCKHASH = replicate 32 (CHR ''1'')"

definition meta :: "pubkey \<Rightarrow> bool \<Rightarrow> bool \<Rightarrow> account_meta" where
  "meta key signer writable = \<lparr>meta_pubkey = key, meta_isSigner = signer, meta_isWritable = writable\<rparr>"

definition deriveProgramAddress :: "sizing \<Rightarrow> pubkey \<Rightarrow> string \<Rightarrow> pubkey" where
  "deriveProgramAddress lib programId seed = sizingDerive lib [ascii seed] programId"

text \<open>\<open>n >>> 0\<close> of an integer, and the bytes \<open>writeUInt32LE\<close> makes of it.\<close>

definition uint32_le :: "int \<Rightarrow> bytes" where
  "uint32_le n = le_bytes 4 (nat (n mod 2 ^ 32))"

definition uniquePublicKey :: "int \<Rightarrow> pubkey" where
  "uniquePublicKey seed = uint32_le seed @ uint32_le (seed XOR 0xa5a55a5a) @ replicate 24 0"

lemma shift_shrinks: "0 < drop_bit 7 (n :: int) \<Longrightarrow> 0 < n \<and> drop_bit 7 n < n"
  using int_div_less_self [of n 128] by (simp add: drop_bit_eq_div pos_imp_zdiv_pos_iff)

function shortvec_loop :: "int \<Rightarrow> int \<Rightarrow> int" where
  "shortvec_loop remaining len =
     (let next = drop_bit 7 remaining in if next > 0 then shortvec_loop next (len + 1) else len + 1)"
  by pat_completeness auto
termination
  by (relation "measure (\<lambda>(remaining, _). nat remaining)") (simp_all add: shift_shrinks)

declare shortvec_loop.simps [simp del]

definition shortvecLength :: "int \<Rightarrow> int" where
  "shortvecLength v = shortvec_loop (v mod 2 ^ 32) 0"

text \<open>\<open>catch { return Number.MAX_SAFE_INTEGER; }\<close>\<close>

definition size_or_max :: "int js \<Rightarrow> int" where
  "size_or_max r = (case r of Inr n \<Rightarrow> n | Inl _ \<Rightarrow> MAX_SIZE)"

definition estimateLegacySignedTransactionSize :: "sizing \<Rightarrow> pubkey \<Rightarrow> instruction list \<Rightarrow> int \<Rightarrow> int" where
  "estimateLegacySignedTransactionSize lib payerKey instructions requiredSignatures = size_or_max
     (bindR (sizingLegacyMessage lib payerKey SYNTHETIC_RECENT_BLOCKHASH instructions) (\<lambda>message.
      Inr (shortvecLength requiredSignatures + 64 * requiredSignatures + int (length message))))"

definition estimateV0AltSignedTransactionSize :: "sizing \<Rightarrow> keypair \<Rightarrow> instruction list \<Rightarrow> lookup_table \<Rightarrow> int" where
  "estimateV0AltSignedTransactionSize lib payer instructions lookupTable = size_or_max
     (bindR (sizingV0Transaction lib payer SYNTHETIC_RECENT_BLOCKHASH instructions [lookupTable]) (\<lambda>transaction.
      Inr (int (length transaction))))"

section \<open>The synthetic round\<close>

record synthetic_block =
  blockSigner :: keypair
  syntheticParticipantId :: int
  syntheticEntries :: "int list"

record synthetic_round =
  roundSubmitter :: keypair
  participantBucketAccounts :: "pubkey list"
  channelBucketAccounts :: "pubkey list"
  syntheticBlocks :: "synthetic_block list"

definition participantBucketIdForParticipantId_capacity :: "int \<Rightarrow> int" where
  "participantBucketIdForParticipantId_capacity participantId = participantId div 9"

definition channelBucketIdForPair_capacity :: "int \<Rightarrow> int \<Rightarrow> int" where
  "channelBucketIdForPair_capacity lower higher =
     js_Number (js_div (js_div (higher * (higher - 1)) 2 + lower) 46)"

definition buildOrderedPairs :: "int \<Rightarrow> (int \<times> int) list" where
  "buildOrderedPairs participants =
     concat (map (\<lambda>offset. map (\<lambda>payer. (payer, js_mod (payer + offset) participants)) [0..participants - 1])
       [1..participants - 1])"

text \<open>A map from bucket ids to accounts, with the accounts in the order they were added.\<close>

type_synonym bucket_state = "int list \<times> pubkey list"

definition add_bucket :: "int \<Rightarrow> int \<Rightarrow> bucket_state \<Rightarrow> bucket_state" where
  "add_bucket base bucketId st = (case st of (ids, accounts) \<Rightarrow>
     if bucketId \<in> set ids then st else (ids @ [bucketId], accounts @ [uniquePublicKey (base + bucketId)]))"

definition add_channel :: "int \<times> int \<Rightarrow> bucket_state \<times> synthetic_block list \<Rightarrow> bucket_state \<times> synthetic_block list" where
  "add_channel pair st = (case (pair, st) of ((payer, payee), (buckets, blocks)) \<Rightarrow>
     (add_bucket 5000 (channelBucketIdForPair_capacity (min payer payee) (max payer payee)) buckets,
      blocks[nat payer := (blocks ! nat payer)\<lparr>syntheticEntries := syntheticEntries (blocks ! nat payer) @ [payee]\<rparr>]))"

definition emptySyntheticBlocks :: "sizing \<Rightarrow> int \<Rightarrow> synthetic_block list" where
  "emptySyntheticBlocks lib participants =
     map (\<lambda>index. \<lparr>blockSigner = sizingKeypair lib (Suc (nat index)), syntheticParticipantId = index, syntheticEntries = []\<rparr>)
       [0..participants - 1]"

definition buildSyntheticRound :: "sizing \<Rightarrow> int \<Rightarrow> int \<Rightarrow> synthetic_round js" where
  "buildSyntheticRound lib participants channels =
     (if participants < 3 then throwError ''Multilateral clearing requires at least 3 participants''
      else if channels < participants then
        throwError (''Meaningful multilateral rounds need at least one channel per participant (channels='' @
          show_int channels @ '', participants='' @ show_int participants @ '')'')
      else if channels > participants * (participants - 1) then
        throwError (''Requested '' @ show_int channels @ '' directed channels, but only '' @
          show_int (participants * (participants - 1)) @ '' unique participant pairs exist'')
      else
        let blocks = emptySyntheticBlocks lib participants;
            participantBuckets = fold (\<lambda>block. add_bucket 1000
              (participantBucketIdForParticipantId_capacity (syntheticParticipantId block))) blocks ([], []);
            filled = fold add_channel (take (nat channels) (buildOrderedPairs participants)) (([], []), blocks) in
        Inr \<lparr>roundSubmitter = sizingKeypair lib 0, participantBucketAccounts = snd participantBuckets,
             channelBucketAccounts = snd (fst filled), syntheticBlocks = snd filled\<rparr>)"

text \<open>The message: each amount depends on the number of bytes written before it.\<close>

definition SYNTHETIC_MESSAGE_DOMAIN :: bytes where
  "SYNTHETIC_MESSAGE_DOMAIN = ascii ''ryvo-capacity-v4''"

definition add_entry_part :: "int \<Rightarrow> bytes \<Rightarrow> bytes" where
  "add_entry_part ref parts =
     (let parts1 = parts @ [js_octet ref] in
      parts1 @ encodeCompactU64_capacity (1000000 + int (length parts1)))"

definition add_block_part :: "synthetic_block \<Rightarrow> bytes \<Rightarrow> bytes" where
  "add_block_part block parts =
     fold add_entry_part (syntheticEntries block)
       (parts @ encodeCompactU64_capacity (syntheticParticipantId block) @ [js_octet (int (length (syntheticEntries block)))])"

definition createClearingRoundMessage_capacity :: "synthetic_block list \<Rightarrow> int \<Rightarrow> bytes" where
  "createClearingRoundMessage_capacity blocks version =
     [0x02, js_octet version] @ SYNTHETIC_MESSAGE_DOMAIN @ [0x01, 0x00] @ [js_octet (int (length blocks))] @
       fold add_block_part blocks []"

definition createClearingRoundInstruction ::
  "sizing \<Rightarrow> pubkey \<Rightarrow> pubkey \<Rightarrow> pubkey list \<Rightarrow> pubkey list \<Rightarrow> int \<Rightarrow> instruction" where
  "createClearingRoundInstruction lib programId submitter participantAccounts channelAccounts dataLength =
     \<lparr>instructionProgramId = programId,
      instructionKeys =
        [meta (deriveProgramAddress lib programId ''token-registry'') False False,
         meta (deriveProgramAddress lib programId ''global-config'') False False,
         meta submitter True True, meta (sizingSysvar lib) False False] @
        map (\<lambda>key. meta key False True) participantAccounts @ map (\<lambda>key. meta key False True) channelAccounts,
      instructionData = replicate (nat dataLength) 0\<rparr>"

definition buildSyntheticLookupTable :: "sizing \<Rightarrow> pubkey \<Rightarrow> pubkey list \<Rightarrow> pubkey list \<Rightarrow> lookup_table" where
  "buildSyntheticLookupTable lib programId participantAccounts channelAccounts =
     \<lparr>tableKey = uniquePublicKey 9000,
      tableAddresses = [deriveProgramAddress lib programId ''token-registry'',
        deriveProgramAddress lib programId ''global-config'', sizingSysvar lib] @ participantAccounts @ channelAccounts\<rparr>"

section \<open>Measuring a round\<close>

datatype capacity_mode = Bls | BlsV0Alt | HypotheticalBls | HypotheticalBlsV0Alt

record round_measurement =
  measuredMode :: capacity_mode
  measuredParticipants :: int
  measuredChannels :: int
  measuredMessageBytes :: int
  authEnvelopeBytes :: int
  serializedTxBytes :: int
  remainingBytes :: int
  participantBucketCount :: int
  channelBucketCount :: int
  dynamicWritableAccountCount :: int
  fits :: bool

text \<open>The parameters the measurements share; \<open>None\<close> stands for the default of the source.\<close>

record capacity_params =
  capacityProgramId :: pubkey
  capacityMode :: capacity_mode
  packetDataSize :: "int option"
  aggregateBytes :: "int option"

definition default_to :: "int \<Rightarrow> int option \<Rightarrow> int" where
  "default_to d v = (case v of None \<Rightarrow> d | Some n \<Rightarrow> n)"

definition DEFAULT_BLS_AGGREGATE_SIGNATURE_BYTES :: int where "DEFAULT_BLS_AGGREGATE_SIGNATURE_BYTES = 48"

definition measureClearingRoundCapacity :: "sizing \<Rightarrow> capacity_params \<Rightarrow> int \<Rightarrow> int \<Rightarrow> round_measurement js" where
  "measureClearingRoundCapacity lib params participants channels =
     (let packet = default_to LEGACY_PACKET_DATA_SIZE (packetDataSize params);
          aggregate = default_to DEFAULT_BLS_AGGREGATE_SIGNATURE_BYTES (aggregateBytes params);
          programId = capacityProgramId params in
      bindR (buildSyntheticRound lib participants channels) (\<lambda>synthetic.
      let message = createClearingRoundMessage_capacity (syntheticBlocks synthetic) 0x05;
          participantAccounts = participantBucketAccounts synthetic; channelAccounts = channelBucketAccounts synthetic;
          instructions = [createClearingRoundInstruction lib programId (publicKey (roundSubmitter synthetic))
            participantAccounts channelAccounts (8 + 4 + int (length message) + aggregate)];
          size = (if capacityMode params \<in> {BlsV0Alt, HypotheticalBlsV0Alt}
            then estimateV0AltSignedTransactionSize lib (roundSubmitter synthetic) instructions
              (buildSyntheticLookupTable lib programId participantAccounts channelAccounts)
            else estimateLegacySignedTransactionSize lib (publicKey (roundSubmitter synthetic)) instructions 1) in
      Inr \<lparr>measuredMode = capacityMode params, measuredParticipants = participants, measuredChannels = channels,
           measuredMessageBytes = int (length message), authEnvelopeBytes = 4 + int (length message) + aggregate,
           serializedTxBytes = size, remainingBytes = packet - size,
           participantBucketCount = int (length participantAccounts), channelBucketCount = int (length channelAccounts),
           dynamicWritableAccountCount = int (length participantAccounts) + int (length channelAccounts),
           fits = (size \<le> packet)\<rparr>))"

section \<open>Searching the largest rounds\<close>

function cycle_loop ::
  "(int \<Rightarrow> int \<Rightarrow> round_measurement js) \<Rightarrow> int \<Rightarrow> int \<Rightarrow> round_measurement \<Rightarrow> round_measurement js" where
  "cycle_loop measurement maxParticipants n best =
     (if n \<le> maxParticipants then
        bindR (measurement n n) (\<lambda>m. if \<not> fits m then Inr best else cycle_loop measurement maxParticipants (n + 1) m)
      else Inr best)"
  by pat_completeness auto
termination
  by (relation "measure (\<lambda>(_, maxParticipants, n, _). nat (maxParticipants + 1 - n))") auto

declare cycle_loop.simps [simp del]

definition findLargestCycleRound :: "sizing \<Rightarrow> capacity_params \<Rightarrow> int option \<Rightarrow> round_measurement js" where
  "findLargestCycleRound lib params maxParticipants =
     bindR (measureClearingRoundCapacity lib params 3 3)
       (cycle_loop (measureClearingRoundCapacity lib params) (default_to 32 maxParticipants) 4)"

definition larger_round :: "round_measurement \<Rightarrow> round_measurement \<Rightarrow> bool" where
  "larger_round m best \<longleftrightarrow> measuredChannels m > measuredChannels best \<or>
     (measuredChannels m = measuredChannels best \<and> measuredParticipants m > measuredParticipants best)"

function channel_loop ::
  "(int \<Rightarrow> round_measurement js) \<Rightarrow> int \<Rightarrow> int \<Rightarrow> round_measurement \<Rightarrow> round_measurement js" where
  "channel_loop measurement maxChannels c best =
     (if c \<le> maxChannels then
        bindR (measurement c) (\<lambda>m. if \<not> fits m then Inr best
          else channel_loop measurement maxChannels (c + 1) (if larger_round m best then m else best))
      else Inr best)"
  by pat_completeness auto
termination
  by (relation "measure (\<lambda>(_, maxChannels, c, _). nat (maxChannels + 1 - c))") auto

declare channel_loop.simps [simp del]

definition findLargestOverallRound :: "sizing \<Rightarrow> capacity_params \<Rightarrow> int option \<Rightarrow> round_measurement js" where
  "findLargestOverallRound lib params maxParticipants =
     bindR (measureClearingRoundCapacity lib params 3 3) (\<lambda>start.
     foldR (\<lambda>n. channel_loop (measureClearingRoundCapacity lib params n) (n * (n - 1)) n)
       [3..default_to 32 maxParticipants] start)"

record capacity_summary =
  blsCycle :: round_measurement
  blsOverall :: round_measurement
  blsV0AltCycle :: round_measurement
  blsV0AltOverall :: round_measurement

definition summarizeClearingRoundCapacity :: "sizing \<Rightarrow> pubkey \<Rightarrow> int option \<Rightarrow> capacity_summary js" where
  "summarizeClearingRoundCapacity lib programId aggregate =
     (let params = \<lambda>mode. \<lparr>capacityProgramId = programId, capacityMode = mode, packetDataSize = None,
            aggregateBytes = Some (default_to DEFAULT_BLS_AGGREGATE_SIGNATURE_BYTES aggregate)\<rparr> in
      bindR (findLargestCycleRound lib (params Bls) None) (\<lambda>cycle.
      bindR (findLargestOverallRound lib (params Bls) None) (\<lambda>overall.
      bindR (findLargestCycleRound lib (params BlsV0Alt) None) (\<lambda>altCycle.
      bindR (findLargestOverallRound lib (params BlsV0Alt) None) (\<lambda>altOverall.
      Inr \<lparr>blsCycle = cycle, blsOverall = overall, blsV0AltCycle = altCycle, blsV0AltOverall = altOverall\<rparr>)))))"

section \<open>The measured message\<close>

text \<open>The blocks of the synthetic round as the program sees them, with the bytes written before each.\<close>

definition entry_target :: "nat \<Rightarrow> u64" where
  "entry_target k = word_of_int (1000000 + int k)"

fun measured_entries :: "bytes \<Rightarrow> int list \<Rightarrow> (byte \<times> u64) list" where
  "measured_entries parts [] = []"
| "measured_entries parts (r # rs) =
     (js_octet r, entry_target (length parts + 1)) # measured_entries (add_entry_part r parts) rs"

definition block_head :: "synthetic_block \<Rightarrow> bytes" where
  "block_head b = compact_loop (syntheticParticipantId b) @ [js_octet (int (length (syntheticEntries b)))]"

fun measured_blocks :: "bytes \<Rightarrow> synthetic_block list \<Rightarrow> round_block list" where
  "measured_blocks parts [] = []"
| "measured_blocks parts (b # bs) =
     (word_of_int (syntheticParticipantId b), measured_entries (parts @ block_head b) (syntheticEntries b)) #
     measured_blocks (add_block_part b parts) bs"

lemma add_block_part_head: "add_block_part b parts = fold add_entry_part (syntheticEntries b) (parts @ block_head b)"
  by (simp add: add_block_part_def block_head_def encodeCompactU64_capacity_def)

lemma length_measured_entries [simp]: "length (measured_entries parts rs) = length rs"
  by (induction rs arbitrary: parts) simp_all

lemma length_measured_blocks [simp]: "length (measured_blocks parts bs) = length bs"
  by (induction bs arbitrary: parts) simp_all

lemma target_fits: "k < 2 ^ 62 \<Longrightarrow> uint (entry_target k) = 1000000 + int k"
  unfolding entry_target_def by (subst uint_word_of_int) simp

lemma add_entry_part_eq:
  "length parts < 2 ^ 61 \<Longrightarrow> add_entry_part r parts = parts @ enc_entry (js_octet r, entry_target (length parts + 1))"
  using target_fits [of "length parts + 1"]
  by (simp add: add_entry_part_def enc_entry_def encodeCompactU64_capacity_def Let_def)

lemma add_entry_part_size: "length parts < 2 ^ 61 \<Longrightarrow> length (add_entry_part r parts) \<le> length parts + 11"
  using length_compact_loop [of "1000000 + int (length parts + 1)" 10]
  by (simp add: add_entry_part_def encodeCompactU64_capacity_def Let_def)

lemma entries_written:
  "length parts + 11 * length rs < 2 ^ 61 \<Longrightarrow>
    fold add_entry_part rs parts = parts @ concat (map enc_entry (measured_entries parts rs)) \<and>
    length (fold add_entry_part rs parts) \<le> length parts + 11 * length rs"
proof (induction rs arbitrary: parts)
  case (Cons r rs)
  then have small: "length parts < 2 ^ 61" by simp
  note size = add_entry_part_size [OF small, of r]
  have "length (add_entry_part r parts) + 11 * length rs < 2 ^ 61" using Cons.prems size by simp
  note IH = Cons.IH [OF this]
  have "length (fold add_entry_part (r # rs) parts) \<le> length parts + 11 * length (r # rs)"
    using conjunct2 [OF IH] size unfolding fold_Cons comp_def length_Cons mult_Suc_right by linarith
  moreover have "fold add_entry_part (r # rs) parts =
      add_entry_part r parts @ concat (map enc_entry (measured_entries (add_entry_part r parts) rs))"
    using IH by simp
  then have "fold add_entry_part (r # rs) parts = parts @ concat (map enc_entry (measured_entries parts (r # rs)))"
    by (simp only: measured_entries.simps list.map concat.simps append_assoc add_entry_part_eq [OF small, of r])
  ultimately show ?case by blast
qed simp

text \<open>A block adds its head, at most eleven bytes, and its entries; the id is a \<open>u32\<close>.\<close>

definition small_block :: "synthetic_block \<Rightarrow> bool" where
  "small_block b \<longleftrightarrow> 0 \<le> syntheticParticipantId b \<and> syntheticParticipantId b < 2 ^ 32 \<and> length (syntheticEntries b) < 256"

definition block_room :: "synthetic_block \<Rightarrow> nat" where
  "block_room b = 11 + 11 * length (syntheticEntries b)"

lemma block_head_size: "small_block b \<Longrightarrow> length (block_head b) \<le> 11"
  using length_compact_loop [of "syntheticParticipantId b" 10] by (simp add: small_block_def block_head_def)

lemma enc_measured_block:
  assumes "small_block b"
  shows "enc_block (word_of_int (syntheticParticipantId b), es) =
    compact_loop (syntheticParticipantId b) @ [word_of_nat (length es)] @ concat (map enc_entry es)"
  using assms by (simp add: enc_block_def small_block_def uint_word_of_int)

lemma block_written:
  assumes "small_block b" "length parts + block_room b < 2 ^ 61"
  shows "add_block_part b parts = parts @ enc_block (word_of_int (syntheticParticipantId b),
      measured_entries (parts @ block_head b) (syntheticEntries b)) \<and>
    length (add_block_part b parts) \<le> length parts + block_room b"
proof -
  have "length (parts @ block_head b) + 11 * length (syntheticEntries b) < 2 ^ 61"
    using assms(2) block_head_size [OF assms(1)] by (simp add: block_room_def)
  note written = entries_written [OF this]
  have "length (add_block_part b parts) \<le> length parts + block_room b"
    using conjunct2 [OF written] block_head_size [OF assms(1)]
    unfolding add_block_part_head block_room_def length_append by linarith
  moreover have "add_block_part b parts = parts @ block_head b @
      concat (map enc_entry (measured_entries (parts @ block_head b) (syntheticEntries b)))"
    using conjunct1 [OF written] unfolding add_block_part_head by simp
  then have "add_block_part b parts = parts @ enc_block (word_of_int (syntheticParticipantId b),
      measured_entries (parts @ block_head b) (syntheticEntries b))"
    unfolding enc_measured_block [OF assms(1)] by (simp add: block_head_def js_octet_def)
  ultimately show ?thesis by blast
qed

lemma blocks_written:
  "\<forall>b \<in> set bs. small_block b \<Longrightarrow> length parts + sum_list (map block_room bs) < 2 ^ 61 \<Longrightarrow>
    fold add_block_part bs parts = parts @ concat (map enc_block (measured_blocks parts bs))"
proof (induction bs arbitrary: parts)
  case (Cons b bs)
  have "small_block b" "length parts + block_room b < 2 ^ 61" using Cons.prems by simp_all
  note written = block_written [OF this]
  have "fold add_block_part bs (add_block_part b parts) =
      add_block_part b parts @ concat (map enc_block (measured_blocks (add_block_part b parts) bs))"
  proof (rule Cons.IH)
    show "length (add_block_part b parts) + sum_list (map block_room bs) < 2 ^ 61"
      using conjunct2 [OF written] Cons.prems(2) unfolding list.map sum_list.Cons by linarith
  qed (use Cons.prems(1) in simp)
  then show ?case
    unfolding fold_Cons comp_def measured_blocks.simps list.map concat.simps conjunct1 [OF written] by simp
qed simp


lemma measured_message_bytes:
  assumes "\<forall>b \<in> set bs. small_block b" "sum_list (map block_room bs) < 2 ^ 61"
  shows "createClearingRoundMessage_capacity bs v =
    ([0x02, word_of_int v] @ SYNTHETIC_MESSAGE_DOMAIN @ le_bytes 2 (unat (1 :: u16)) @
      [word_of_nat (length (measured_blocks [] bs))]) @ concat (map enc_block (measured_blocks [] bs))"
  using blocks_written [of bs "[]"] assms
  by (simp add: createClearingRoundMessage_capacity_def js_octet_def numeral_2_eq_2)

text \<open>The channels of a synthetic round: all pairs, each once, the nearest neighbours first.\<close>

definition valid_pair :: "int \<Rightarrow> int \<times> int \<Rightarrow> bool" where
  "valid_pair n p \<longleftrightarrow> 0 \<le> fst p \<and> fst p < n \<and> 0 \<le> snd p \<and> snd p < n \<and> fst p \<noteq> snd p"

lemma ordered_pairs_valid: "p \<in> set (buildOrderedPairs n) \<Longrightarrow> valid_pair n p"
proof -
  assume "p \<in> set (buildOrderedPairs n)"
  then obtain offset payer where p: "p = (payer, js_mod (payer + offset) n)" "1 \<le> offset" "offset < n" "0 \<le> payer" "payer < n"
    by (auto simp: buildOrderedPairs_def)
  have "(payer + offset) mod n \<noteq> payer"
  proof
    assume "(payer + offset) mod n = payer"
    then have "(payer + offset) mod n = payer mod n" using p by simp
    then have "n dvd offset" by (metis add_diff_cancel_left' mod_eq_dvd_iff)
    then show False using p by (auto dest: zdvd_imp_le)
  qed
  then show ?thesis using p by (simp add: valid_pair_def js_mod_nonneg)
qed

lemma ordered_pairs_distinct: "distinct (buildOrderedPairs n)"
proof (cases "0 < n")
  case True
  let ?row = "\<lambda>offset. map (\<lambda>payer. (payer, js_mod (payer + offset) n)) [0..n - 1]"
  have apart: "offset = offset'"
    if "p \<in> set (?row offset)" "p \<in> set (?row offset')" "1 \<le> offset" "offset < n" "1 \<le> offset'" "offset' < n"
    for p offset offset'
  proof -
    have "(fst p + offset) mod n = (fst p + offset') mod n"
      using that True by (auto simp: js_mod_nonneg)
    then have "n dvd offset - offset'" by (simp add: mod_eq_dvd_iff)
    then show ?thesis
      using that dvd_imp_le_int [of "offset - offset'" n] by (cases "offset = offset'") auto
  qed
  show ?thesis
    unfolding buildOrderedPairs_def distinct_map [symmetric]
  proof (rule distinct_concat)
    show "distinct (map ?row [1..n - 1])"
    proof (subst distinct_map, intro conjI inj_onI)
      fix offset offset' assume rows: "offset \<in> set [1..n - 1]" "offset' \<in> set [1..n - 1]" "?row offset = ?row offset'"
      have "(0, js_mod offset n) \<in> set (?row offset)" using True by (force simp: image_iff)
      with rows show "offset = offset'" using apart [of "(0, js_mod offset n)" offset offset'] by simp
    qed simp
    fix ys assume "ys \<in> set (map ?row [1..n - 1])"
    then show "distinct ys" by (auto simp: distinct_map inj_on_def)
  next
    fix ys zs assume rows: "ys \<in> set (map ?row [1..n - 1])" "zs \<in> set (map ?row [1..n - 1])" "ys \<noteq> zs"
    from rows(1) obtain offset where ys: "ys = ?row offset" "offset \<in> set [1..n - 1]"
      unfolding set_map by blast
    from rows(2) obtain offset' where zs: "zs = ?row offset'" "offset' \<in> set [1..n - 1]"
      unfolding set_map by blast
    show "set ys \<inter> set zs = {}"
    proof (rule ccontr)
      assume "set ys \<inter> set zs \<noteq> {}"
      then obtain p where "p \<in> set (?row offset)" "p \<in> set (?row offset')" unfolding ys(1) zs(1) by blast
      from apart [OF this] have "offset = offset'" using ys(2) zs(2) by simp
      then show False using rows(3) ys(1) zs(1) by blast
    qed
  qed
qed (simp add: buildOrderedPairs_def)

text \<open>Distributing the channels over the blocks of their payers.\<close>

definition payees_of :: "int \<Rightarrow> (int \<times> int) list \<Rightarrow> int list" where
  "payees_of payer pairs = map snd (filter (\<lambda>p. fst p = payer) pairs)"

lemma channels_distributed:
  assumes "\<forall>p \<in> set pairs. 0 \<le> fst p \<and> fst p < int (length bs)"
  shows "length (snd (fold add_channel pairs (st, bs))) = length bs \<and>
    (\<forall>k < length bs. snd (fold add_channel pairs (st, bs)) ! k =
      (bs ! k)\<lparr>syntheticEntries := syntheticEntries (bs ! k) @ payees_of (int k) pairs\<rparr>)"
  using assms
proof (induction pairs arbitrary: st bs)
  case (Cons p pairs)
  obtain st' where step: "add_channel p (st, bs) = (st', bs[nat (fst p) := (bs ! nat (fst p))
      \<lparr>syntheticEntries := syntheticEntries (bs ! nat (fst p)) @ [snd p]\<rparr>])"
    by (cases p) (simp add: add_channel_def)
  show ?case
    using Cons.IH [of "snd (add_channel p (st, bs))" st'] Cons.prems
    by (auto simp: step payees_of_def nth_list_update)
qed (simp add: payees_of_def)


lemma ordered_pairs_count: "1 \<le> n \<Longrightarrow> int (length (buildOrderedPairs n)) = n * (n - 1)"
  by (simp add: buildOrderedPairs_def length_concat comp_def sum_list_triv)

lemma payees_distinct:
  assumes "distinct pairs"
  shows "distinct (payees_of payer pairs)"
  using assms by (auto simp: payees_of_def distinct_map inj_on_def prod_eq_iff)

lemma payees_total:
  assumes "\<forall>p \<in> set pairs. 0 \<le> fst p \<and> fst p < int n"
  shows "sum_list (map (\<lambda>k. length (payees_of (int k) pairs)) [0..<n]) = length pairs"
  using assms
proof (induction pairs)
  case (Cons p pairs)
  have "(\<Sum>k<n. if fst p = int k then 1 else 0 :: nat) = (\<Sum>k<n. if k = nat (fst p) then 1 else 0)"
    using Cons.prems by (intro sum.cong) auto
  also have "\<dots> = 1" using Cons.prems by (simp add: sum.delta' nat_less_iff)
  finally have one: "(\<Sum>k<n. if fst p = int k then 1 else 0 :: nat) = 1" .
  have "sum_list (map (\<lambda>k. length (payees_of (int k) (p # pairs))) [0..<n]) =
      (\<Sum>k<n. (if fst p = int k then 1 else 0) + length (payees_of (int k) pairs))"
    unfolding interv_sum_list_conv_sum_set_nat by (intro sum.cong) (auto simp: payees_of_def)
  with one Cons show ?case
    by (simp add: sum.distrib interv_sum_list_conv_sum_set_nat atLeast0LessThan)
qed (simp add: payees_of_def interv_sum_list_conv_sum_set_nat)

definition round_pairs :: "int \<Rightarrow> int \<Rightarrow> (int \<times> int) list" where
  "round_pairs participants channels = take (nat channels) (buildOrderedPairs participants)"

lemma round_pairs_facts:
  assumes "3 \<le> n" "n \<le> c" "c \<le> n * (n - 1)"
  shows "distinct (round_pairs n c)" "\<forall>p \<in> set (round_pairs n c). valid_pair n p" "length (round_pairs n c) = nat c"
  using assms ordered_pairs_valid [of _ n] ordered_pairs_count [of n]
  by (auto simp: round_pairs_def ordered_pairs_distinct dest!: in_set_takeD)

lemma payees_bound:
  assumes "\<forall>p \<in> set pairs. valid_pair n p" "distinct pairs" "1 \<le> n"
  shows "set (payees_of payer pairs) \<subseteq> {0..<n} - {payer}" "length (payees_of payer pairs) \<le> nat n"
proof -
  show sub: "set (payees_of payer pairs) \<subseteq> {0..<n} - {payer}"
    using assms(1) by (auto simp: payees_of_def valid_pair_def)
  have "length (payees_of payer pairs) = card (set (payees_of payer pairs))"
    using payees_distinct [OF assms(2)] by (simp add: distinct_card)
  also have "\<dots> \<le> card {0..<n}" using sub by (intro card_mono) auto
  finally show "length (payees_of payer pairs) \<le> nat n" by simp
qed

lemma round_built:
  "(\<exists>s. buildSyntheticRound lib n c = Inr s) \<longleftrightarrow> 3 \<le> n \<and> n \<le> c \<and> c \<le> n * (n - 1)"
  by (auto simp: buildSyntheticRound_def Let_def)

lemma synthetic_blocks:
  assumes "buildSyntheticRound lib n c = Inr s"
  shows "length (syntheticBlocks s) = nat n"
    and "\<And>k. k < nat n \<Longrightarrow> syntheticParticipantId (syntheticBlocks s ! k) = int k \<and>
      syntheticEntries (syntheticBlocks s ! k) = payees_of (int k) (round_pairs n c)"
proof -
  have n: "3 \<le> n" "n \<le> c" "c \<le> n * (n - 1)" using round_built assms by blast+
  have blocks: "syntheticBlocks s = snd (fold add_channel (round_pairs n c) (([], []), emptySyntheticBlocks lib n))"
    using assms n by (auto simp: buildSyntheticRound_def Let_def round_pairs_def)
  have count: "length (emptySyntheticBlocks lib n) = nat n" by (simp add: emptySyntheticBlocks_def)
  have "\<forall>p \<in> set (round_pairs n c). 0 \<le> fst p \<and> fst p < int (length (emptySyntheticBlocks lib n))"
    using round_pairs_facts(2) [OF n] n by (auto simp: count valid_pair_def)
  note filled = channels_distributed [OF this, of "([], [])", folded blocks, unfolded count]
  show "length (syntheticBlocks s) = nat n" using filled by simp
  fix k assume "k < nat n"
  moreover have "emptySyntheticBlocks lib n ! k = \<lparr>blockSigner = sizingKeypair lib (Suc k),
      syntheticParticipantId = int k, syntheticEntries = []\<rparr>"
    using \<open>k < nat n\<close> by (simp add: emptySyntheticBlocks_def nth_upto)
  ultimately show "syntheticParticipantId (syntheticBlocks s ! k) = int k \<and>
      syntheticEntries (syntheticBlocks s ! k) = payees_of (int k) (round_pairs n c)"
    using filled by simp
qed


lemma measured_entries_refs: "map fst (measured_entries parts rs) = map js_octet rs"
  by (induction rs arbitrary: parts) simp_all

lemma measured_blocks_view:
  "map fst (measured_blocks parts bs) = map (\<lambda>b. word_of_int (syntheticParticipantId b)) bs"
  "map (\<lambda>b. map fst (snd b)) (measured_blocks parts bs) = map (\<lambda>b. map js_octet (syntheticEntries b)) bs"
  by (induction bs arbitrary: parts) (simp_all add: measured_entries_refs)

lemma measured_blocks_nth:
  assumes "k < length bs"
  shows "fst (measured_blocks parts bs ! k) = word_of_int (syntheticParticipantId (bs ! k))"
    and "map fst (snd (measured_blocks parts bs ! k)) = map js_octet (syntheticEntries (bs ! k))"
  using arg_cong [OF measured_blocks_view(1) [of parts bs], of "\<lambda>xs. xs ! k"]
    arg_cong [OF measured_blocks_view(2) [of parts bs], of "\<lambda>xs. xs ! k"] assms by simp_all

lemma blocks_small:
  assumes "buildSyntheticRound lib n c = Inr s" "n \<le> 255"
  shows "\<forall>b \<in> set (syntheticBlocks s). small_block b \<and> block_room b \<le> 3000"
proof
  have n: "3 \<le> n" "n \<le> c" "c \<le> n * (n - 1)" using round_built assms by blast+
  fix b assume "b \<in> set (syntheticBlocks s)"
  then obtain k where k: "k < nat n" "b = syntheticBlocks s ! k"
    using synthetic_blocks(1) [OF assms(1)] by (auto simp: in_set_conv_nth)
  have "length (payees_of (int k) (round_pairs n c)) \<le> nat n"
    using round_pairs_facts [OF n] n by (intro payees_bound) auto
  with k assms(2) synthetic_blocks(2) [OF assms(1) k(1)]
  show "small_block b \<and> block_room b \<le> 3000" by (auto simp: small_block_def block_room_def)
qed

lemma measured_blocks_small:
  assumes "\<forall>b \<in> set bs. small_block b" "b \<in> set (measured_blocks parts bs)"
  shows "length (snd b) < 256"
proof -
  from assms(2) obtain k where k: "k < length bs" "b = measured_blocks parts bs ! k" by (auto simp: in_set_conv_nth)
  have "length (snd b) = length (syntheticEntries (bs ! k))"
    using arg_cong [OF measured_blocks_nth(2) [OF k(1)], of length parts] k(2) by simp
  then show ?thesis using assms(1) k(1) by (simp add: small_block_def)
qed

lemma measured_block_contents:
  assumes s: "buildSyntheticRound lib n c = Inr s" "n \<le> 255" and k: "k < nat n"
  defines "b \<equiv> measured_blocks [] (syntheticBlocks s) ! k"
  shows "uint (fst b) = int k" "map (uint \<circ> fst) (snd b) = payees_of (int k) (round_pairs n c)"
    "distinct (map fst (snd b))" "int k \<notin> (uint \<circ> fst) ` set (snd b)"
proof -
  have n: "3 \<le> n" "n \<le> c" "c \<le> n * (n - 1)" using round_built s(1) by blast+
  note len = synthetic_blocks(1) [OF s(1)] and pairs = round_pairs_facts [OF n]
  have payees: "set (payees_of (int k) (round_pairs n c)) \<subseteq> {0..<n} - {int k}"
    using payees_bound(1) [of "round_pairs n c" n "int k"] pairs n(1) by auto
  have "map (uint \<circ> fst) (snd b) = map uint (map fst (snd b))" by simp
  also have "\<dots> = map uint (map js_octet (payees_of (int k) (round_pairs n c)))"
    unfolding b_def using measured_blocks_nth(2) [of k "syntheticBlocks s" "[]"] synthetic_blocks(2) [OF s(1) k] k len
    by simp
  also have "\<dots> = payees_of (int k) (round_pairs n c)"
    using payees s(2) by (auto simp: js_octet_def uint_word_of_int intro!: map_idI)
  finally show refs: "map (uint \<circ> fst) (snd b) = payees_of (int k) (round_pairs n c)" .
  show "uint (fst b) = int k"
    unfolding b_def using measured_blocks_nth(1) [of k "syntheticBlocks s" "[]"] synthetic_blocks(2) [OF s(1) k] k len s(2)
    by (simp add: unsigned_of_nat take_bit_nat_eq_self)
  have "distinct (map uint (map fst (snd b)))" using refs payees_distinct pairs(1) by simp
  then show "distinct (map fst (snd b))" unfolding distinct_map by blast
  have "set (map (uint \<circ> fst) (snd b)) \<subseteq> {0..<n} - {int k}" unfolding refs by (rule payees)
  then show "int k \<notin> (uint \<circ> fst) ` set (snd b)" by auto
qed

section \<open>Properties of the measured rounds\<close>

text \<open>
  C29: A round is measured on a message the program accepts. For at most 255 participants the synthetic
  message is what the demo's own message builder makes of some blocks, and the program's parser reads those
  blocks back: one for each participant, in order, \<open>c\<close> channels in all, and in the block of a participant
  the payees of the first \<open>c\<close> ordered pairs, none of them repeated and none the participant itself.
\<close>

theorem measured_message_parses:
  assumes bn: "\<And>n k. 0 \<le> n \<Longrightarrow> n < 256 ^ k \<Longrightarrow> bn n k = Inr (le_bytes k (nat n))"
    and s: "buildSyntheticRound lib n c = Inr s" "n \<le> 255"
  shows "\<exists>bs layout. let msg = createClearingRoundMessage_capacity (syntheticBlocks s) 5 in
    createClearingRoundMessage bn 1 SYNTHETIC_MESSAGE_DOMAIN (map spec_of_block bs) (Some 5) = Inr msg
    \<and> parse_clearing_round_layout_with_version msg SYNTHETIC_MESSAGE_DOMAIN 5 = Inr layout
    \<and> map (recovered_block msg) (layout_blocks layout) = bs
    \<and> length bs = nat n \<and> channel_count layout = nat c
    \<and> (\<forall>k < nat n. uint (fst (bs ! k)) = int k
        \<and> map (uint \<circ> fst) (snd (bs ! k)) = payees_of (int k) (round_pairs n c)
        \<and> distinct (map fst (snd (bs ! k))) \<and> int k \<notin> (uint \<circ> fst) ` set (snd (bs ! k)))"
proof -
  have n: "3 \<le> n" "n \<le> c" "c \<le> n * (n - 1)" using round_built s(1) by blast+
  let ?bs = "measured_blocks [] (syntheticBlocks s)"
  note len = synthetic_blocks(1) [OF s(1)] and small = blocks_small [OF s]
  have "sum_list (map block_room (syntheticBlocks s)) \<le> sum_list (map (\<lambda>_. 3000) (syntheticBlocks s))"
    using small by (intro sum_list_mono) auto
  then have room: "sum_list (map block_room (syntheticBlocks s)) < 2 ^ 61"
    using s(2) len by (simp add: sum_list_triv)
  note blocks = measured_block_contents [OF s]
  have "map (\<lambda>b. length (snd b)) ?bs = map (\<lambda>k. length (payees_of (int k) (round_pairs n c))) [0..<nat n]"
    using blocks(2) len by (intro nth_equalityI) (simp_all, metis length_map)
  then have count: "sum_list (map (\<lambda>b. length (snd b)) ?bs) = nat c"
    using payees_total [of "round_pairs n c" "nat n"] round_pairs_facts [OF n] n(1) by (simp add: valid_pair_def)
  have msg: "createClearingRoundMessage bn (uint (1 :: u16)) SYNTHETIC_MESSAGE_DOMAIN (map spec_of_block ?bs) (Some (uint (5 :: byte))) =
      Inr (createClearingRoundMessage_capacity (syntheticBlocks s) 5)"
    using clearing_message_bytes [OF bn, of 1 SYNTHETIC_MESSAGE_DOMAIN ?bs 5] measured_message_bytes [OF _ room, of 5] small
    by simp
  have "length SYNTHETIC_MESSAGE_DOMAIN = 16" "?bs \<noteq> []" "length ?bs < 256" "\<forall>b \<in> set ?bs. length (snd b) < 256"
    using n(1) s(2) len measured_blocks_small [of "syntheticBlocks s"] small length_measured_blocks [of "[]" "syntheticBlocks s"]
    by (auto simp: SYNTHETIC_MESSAGE_DOMAIN_def ascii_def simp del: length_measured_blocks)
  then obtain layout where "parse_clearing_round_layout_with_version (createClearingRoundMessage_capacity (syntheticBlocks s) 5)
        SYNTHETIC_MESSAGE_DOMAIN 5 = Inr layout"
      "map (recovered_block (createClearingRoundMessage_capacity (syntheticBlocks s) 5)) (layout_blocks layout) = ?bs"
      "channel_count layout = nat c"
    using clearing_decoded [OF bn, of SYNTHETIC_MESSAGE_DOMAIN ?bs "1" "5"] msg count by auto
  then show ?thesis using msg blocks len by (intro exI [of _ ?bs] exI [of _ layout]) (simp add: Let_def)
qed


text \<open>A library whose legacy messages have a hundred bytes, and which cannot use lookup tables.\<close>

definition plain_sizing :: sizing where
  "plain_sizing = \<lparr>sizingDerive = (\<lambda>seeds programId. concat seeds), sizingSysvar = replicate 32 7,
     sizingEd25519 = replicate 32 8,
     sizingKeypair = (\<lambda>n. \<lparr>publicKey = uint32_le (int n), secretKey = replicate 64 1\<rparr>),
     sizingLegacyMessage = (\<lambda>payer blockhash instructions. Inr (replicate 100 0)),
     sizingV0Transaction = (\<lambda>payer blockhash instructions tables. throwError ''too large'')\<rparr>"

theorem measured_message_parses_witness:
  "\<exists>s bs layout. buildSyntheticRound plain_sizing 4 5 = Inr s
    \<and> parse_clearing_round_layout_with_version (createClearingRoundMessage_capacity (syntheticBlocks s) 5)
      SYNTHETIC_MESSAGE_DOMAIN 5 = Inr layout
    \<and> map (recovered_block (createClearingRoundMessage_capacity (syntheticBlocks s) 5)) (layout_blocks layout) = bs
    \<and> map (uint \<circ> fst) (snd (bs ! 0)) = [1, 2]"
proof -
  obtain s where s: "buildSyntheticRound plain_sizing 4 5 = Inr s" using round_built [of plain_sizing 4 5] by auto
  have "payees_of 0 (round_pairs 4 5) = [1, 2]"
    by (simp add: payees_of_def round_pairs_def buildOrderedPairs_def js_mod_nonneg upto_rec1)
  with measured_message_parses [of "\<lambda>n k. Inr (le_bytes k (nat n))", OF refl s] s show ?thesis
    by (fastforce simp: Let_def)
qed

lemma smaller_trans: "\<not> larger_round a b \<Longrightarrow> \<not> larger_round b c \<Longrightarrow> \<not> larger_round a c"
  by (auto simp: larger_round_def)

lemma measurement_returns:
  assumes "3 \<le> n" "n \<le> c" "c \<le> n * (n - 1)"
  shows "\<exists>m. measureClearingRoundCapacity lib params n c = Inr m \<and> measuredParticipants m = n \<and> measuredChannels m = c"
proof -
  obtain s where "buildSyntheticRound lib n c = Inr s" using round_built assms by blast
  then show ?thesis by (simp add: measureClearingRoundCapacity_def Let_def)
qed

lemma measured_channels: "measureClearingRoundCapacity lib params n c = Inr m \<Longrightarrow> measuredChannels m = c"
  by (auto simp: measureClearingRoundCapacity_def bindR_eq_Inr Let_def)

text \<open>The rounds the search reaches: every smaller round of the same participants fits too.\<close>

definition reachable :: "sizing \<Rightarrow> capacity_params \<Rightarrow> int \<Rightarrow> int \<Rightarrow> bool" where
  "reachable lib params n c \<longleftrightarrow> 3 \<le> n \<and> n \<le> c \<and> c \<le> n * (n - 1) \<and>
     (\<forall>c' \<in> {n..c}. \<forall>m. measureClearingRoundCapacity lib params n c' = Inr m \<longrightarrow> fits m)"

text \<open>What a search of a set of rounds makes of the best round known before.\<close>

definition improves :: "sizing \<Rightarrow> capacity_params \<Rightarrow> (int \<times> int) set \<Rightarrow> round_measurement \<Rightarrow> round_measurement \<Rightarrow> bool" where
  "improves lib params rounds old best \<longleftrightarrow> \<not> larger_round old best
     \<and> (best = old \<or> (\<exists>(n, c) \<in> rounds. measureClearingRoundCapacity lib params n c = Inr best))
     \<and> (\<forall>(n, c) \<in> rounds. \<forall>m. measureClearingRoundCapacity lib params n c = Inr m \<longrightarrow> \<not> larger_round m best)"

lemma improves_trans:
  "improves lib params R a b \<Longrightarrow> improves lib params S b c \<Longrightarrow> improves lib params (R \<union> S) a c"
  unfolding improves_def using smaller_trans by (fast)

lemma improves_none: "improves lib params {} b b"
  by (simp add: improves_def larger_round_def)

definition reachable_from :: "sizing \<Rightarrow> capacity_params \<Rightarrow> int \<Rightarrow> int \<Rightarrow> (int \<times> int) set" where
  "reachable_from lib params n c = {n} \<times> {c'. c \<le> c' \<and> reachable lib params n c'}"

lemma channel_loop_improves:
  assumes "3 \<le> n" "n \<le> c" "\<forall>c' \<in> {n..<c}. \<forall>m. measureClearingRoundCapacity lib params n c' = Inr m \<longrightarrow> fits m"
  shows "\<exists>b. channel_loop (measureClearingRoundCapacity lib params n) (n * (n - 1)) c best = Inr b
    \<and> improves lib params (reachable_from lib params n c) best b"
  using assms
proof (induction "nat (n * (n - 1) + 1 - c)" arbitrary: c best)
  case 0
  then have "reachable_from lib params n c = {}" by (auto simp: reachable_from_def reachable_def)
  with 0 show ?case by (simp add: channel_loop.simps [of _ _ c] improves_none)
next
  case (Suc j)
  let ?M = "measureClearingRoundCapacity lib params n"
  have c: "c \<le> n * (n - 1)" using Suc.hyps(2) by simp
  obtain m where m: "?M c = Inr m" using measurement_returns [OF Suc.prems(1,2) c] by blast
  show ?case
  proof (cases "fits m")
    case False
    then have "reachable_from lib params n c = {}"
      using m Suc.prems(2) by (auto simp: reachable_from_def reachable_def)
    with False m c show ?thesis by (simp add: channel_loop.simps [of _ _ c] improves_none)
  next
    case True
    let ?best = "if larger_round m best then m else best"
    have fit: "\<forall>c' \<in> {n..<c + 1}. \<forall>m. ?M c' = Inr m \<longrightarrow> fits m"
      using Suc.prems(3) m True by (metis Inr_inject atLeastLessThan_iff order_le_less zless_add1_eq)
    have j: "j = nat (n * (n - 1) + 1 - (c + 1))" "n \<le> c + 1" using Suc.hyps(2) Suc.prems(2) by simp_all
    obtain b where b: "channel_loop ?M (n * (n - 1)) (c + 1) ?best = Inr b"
      "improves lib params (reachable_from lib params n (c + 1)) ?best b"
      using Suc.hyps(1) [OF j(1) Suc.prems(1) j(2) fit, of ?best] by blast
    have "improves lib params {(n, c)} best ?best" using m by (auto simp: improves_def larger_round_def)
    from improves_trans [OF this b(2)]
    have "improves lib params ({(n, c)} \<union> reachable_from lib params n (c + 1)) best b" .
    moreover have "{(n, c)} \<union> reachable_from lib params n (c + 1) = reachable_from lib params n c"
      using fit Suc.prems(1,2) c by (auto simp: reachable_from_def reachable_def)
    ultimately show ?thesis using b(1) c m True by (simp add: channel_loop.simps [of _ _ c])
  qed
qed

lemma rounds_improve:
  "\<forall>n \<in> set ns. 3 \<le> n \<Longrightarrow>
    \<exists>best. foldR (\<lambda>n. channel_loop (measureClearingRoundCapacity lib params n) (n * (n - 1)) n) ns b = Inr best
    \<and> improves lib params (\<Union>n \<in> set ns. reachable_from lib params n n) b best"
proof (induction ns arbitrary: b)
  case (Cons n ns)
  obtain b' where b': "channel_loop (measureClearingRoundCapacity lib params n) (n * (n - 1)) n b = Inr b'"
    "improves lib params (reachable_from lib params n n) b b'"
    using channel_loop_improves [of n n lib params b] Cons.prems by auto
  obtain best where best: "foldR (\<lambda>n. channel_loop (measureClearingRoundCapacity lib params n) (n * (n - 1)) n) ns b' = Inr best"
    "improves lib params (\<Union>n \<in> set ns. reachable_from lib params n n) b' best"
    using Cons.IH [of b'] Cons.prems by auto
  show ?case using b'(1) best(1) improves_trans [OF b'(2) best(2)] by simp
qed (simp add: improves_none)

lemma reachable_rounds: "(\<Union>n \<in> A. reachable_from lib params n n) = {(n, c). n \<in> A \<and> reachable lib params n c}"
  by (auto simp: reachable_from_def reachable_def)

text \<open>
  C28: The search always returns, and returns the largest round it can reach. A round is reachable when it
  and every round of the same participants with fewer channels fit the packet; no reachable round within the
  participant limit has more channels than the result, or as many channels and more participants. The result is
  itself reachable, unless it is the smallest round, which the search starts from without asking whether it fits.
\<close>

theorem largest_round_found:
  "\<exists>best. findLargestOverallRound lib params limit = Inr best
    \<and> (measureClearingRoundCapacity lib params 3 3 = Inr best \<or> (\<exists>n \<in> {3..default_to 32 limit}. \<exists>c.
        reachable lib params n c \<and> measureClearingRoundCapacity lib params n c = Inr best))
    \<and> (\<forall>n \<in> {3..default_to 32 limit}. \<forall>c m. reachable lib params n c \<and> measureClearingRoundCapacity lib params n c = Inr m \<longrightarrow>
        \<not> larger_round m best)"
proof -
  obtain start where start: "measureClearingRoundCapacity lib params 3 3 = Inr start"
    using measurement_returns [of 3 3] by force
  obtain best where best: "foldR (\<lambda>n. channel_loop (measureClearingRoundCapacity lib params n) (n * (n - 1)) n)
      [3..default_to 32 limit] start = Inr best"
    and improved: "improves lib params (\<Union>n \<in> {3..default_to 32 limit}. reachable_from lib params n n) start best"
    using rounds_improve [of "[3..default_to 32 limit]" lib params start] by auto
  have "findLargestOverallRound lib params limit = Inr best"
    using start best by (simp add: findLargestOverallRound_def)
  with start improved show ?thesis unfolding improves_def reachable_rounds by blast
qed

lemma plain_fits:
  "measureClearingRoundCapacity plain_sizing \<lparr>capacityProgramId = [], capacityMode = Bls, packetDataSize = None,
      aggregateBytes = None\<rparr> n c = Inr m \<Longrightarrow> fits m"
  by (auto simp: measureClearingRoundCapacity_def bindR_eq_Inr Let_def estimateLegacySignedTransactionSize_def size_or_max_def
      plain_sizing_def shortvecLength_def shortvec_loop.simps default_to_def LEGACY_PACKET_DATA_SIZE_def)

theorem largest_round_found_witness:
  "\<exists>best. findLargestOverallRound plain_sizing \<lparr>capacityProgramId = [], capacityMode = Bls, packetDataSize = None,
      aggregateBytes = None\<rparr> (Some 3) = Inr best \<and> measuredChannels best = 6"
proof -
  let ?params = "\<lparr>capacityProgramId = [], capacityMode = Bls, packetDataSize = None, aggregateBytes = None\<rparr>"
  obtain best where best: "findLargestOverallRound plain_sizing ?params (Some 3) = Inr best"
    "measureClearingRoundCapacity plain_sizing ?params 3 3 = Inr best \<or> (\<exists>n \<in> {3..default_to 32 (Some 3)}. \<exists>c.
        reachable plain_sizing ?params n c \<and> measureClearingRoundCapacity plain_sizing ?params n c = Inr best)"
    "\<forall>n \<in> {3..default_to 32 (Some 3)}. \<forall>c m. reachable plain_sizing ?params n c \<and>
        measureClearingRoundCapacity plain_sizing ?params n c = Inr m \<longrightarrow> \<not> larger_round m best"
    using largest_round_found [of plain_sizing ?params "Some 3"] by blast
  have fits: "fits m" if "c' \<in> {3..6}" "measureClearingRoundCapacity plain_sizing ?params 3 c' = Inr m" for c' m
    using that plain_fits by blast
  obtain m where m: "measureClearingRoundCapacity plain_sizing ?params 3 6 = Inr m" "measuredChannels m = 6"
    using measurement_returns [of 3 6 plain_sizing ?params] by auto
  have "reachable plain_sizing ?params 3 6" using fits by (auto simp: reachable_def)
  with best(3) m have "\<not> larger_round m best" by (auto simp: default_to_def)
  moreover have "measuredChannels best \<le> 6"
    using best(2) by (auto simp: default_to_def reachable_def dest!: measured_channels)
  ultimately show ?thesis using best(1) m(2) by (auto simp: larger_round_def)
qed

end
