(* ===== verification/Submit.thy ===== *)
theory Submit
  imports RoundPlan Benchmarks Json Capacity
begin

text \<open>
  Submitting a prepared round: \<open>submitMultilateralScenario\<close> with the log of the search, the check of the
  settled state against raw account bytes, and the benchmark it returns.

  What is not code of the repository is a field of \<open>bench\<close>: the cluster, the toolbox of \<open>RoundPlan\<close>, the
  file system and the clock of Node, and Anchor's event parser. Console output is left out, but not the
  computations in it that may throw.
\<close>

section \<open>The bench\<close>

record ('w, 'g, 'i, 't) bench =
  benchNet :: "('w, 'i, 't) cluster"
  benchBox :: "('g, 'i) toolbox"
  benchMkdir :: "string \<Rightarrow> ('w, unit) io"
  benchAppend :: "string \<Rightarrow> string \<Rightarrow> ('w, unit) io"
  benchDirname :: "string \<Rightarrow> string"
  benchIsoNow :: "('w, string) io"
  benchEndpoint :: string
  benchParseLogs :: "string list \<Rightarrow> (string \<times> string) list js"

abbreviation benchSha :: "('w, 'g, 'i, 't) bench \<Rightarrow> bytes \<Rightarrow> bytes" where
  "benchSha b \<equiv> boxSha256 (benchBox b)"

section \<open>The log of the search\<close>

record search_attempt =
  candidateParticipantCount :: int
  candidateChannelCount :: int
  txBytes :: int
  fitsPacket :: bool
  simulationPassed :: bool
  simulationError :: "string option"
  messageBytes :: int
  aggregateSignatureBytes :: int

definition appendBlsSearchResult :: "('w, 'g, 'i, 't) bench \<Rightarrow> string \<Rightarrow> json \<Rightarrow> ('w, unit) io" where
  "appendBlsSearchResult b outputPath content =
     bindIO (benchMkdir b (benchDirname b outputPath)) (\<lambda>_.
     benchAppend b outputPath (stringify content @ [CHR 0x0A]))"

text \<open>\<open>slice(-12)\<close>, of the logs where there are any.\<close>

definition last_logs :: "string list \<Rightarrow> json option" where
  "last_logs logs = (if length logs > 0
     then Some (JsonArray (map JsonText (js_subarray logs (-12) (int (length logs))))) else None)"

definition json_option :: "string option \<Rightarrow> json" where
  "json_option v = (case v of None \<Rightarrow> JsonNull | Some s \<Rightarrow> JsonText s)"

definition mode_text :: "scenario_mode \<Rightarrow> string" where
  "mode_text mode = (case mode of MaxParticipants \<Rightarrow> ''max-participants'' | MaxChannels \<Rightarrow> ''max-channels'')"

text \<open>The members both kinds of log lines begin with.\<close>

definition log_members ::
  "('w, 'g, 'i, 't) bench \<Rightarrow> 't search_context \<Rightarrow> scenario_definition \<Rightarrow> search_attempt \<Rightarrow> string \<Rightarrow>
    (string \<times> json option) list" where
  "log_members b context scenario attempt timestamp =
    [(''timestamp'', Some (JsonText timestamp)), (''runId'', Some (JsonText (runId context))),
     (''programId'', Some (JsonText (webKeyString (benchNet b) (boxProgramId (benchBox b))))),
     (''rpcEndpoint'', Some (JsonText (benchEndpoint b))),
     (''denseChannelCap'', Some (JsonNumber (denseChannelCap context))),
     (''computeUnitLimit'', Some (JsonNumber (computeUnitLimit context))),
     (''scenarioId'', Some (JsonText (scenarioId scenario))),
     (''scenarioTitle'', Some (JsonText (scenarioTitle scenario))),
     (''mode'', Some (JsonText (mode_text (scenarioMode scenario)))),
     (''participantCount'', Some (JsonNumber (candidateParticipantCount attempt))),
     (''channelCount'', Some (JsonNumber (candidateChannelCount attempt))),
     (''txBytes'', Some (JsonNumber (txBytes attempt))),
     (''packetLimit'', Some (JsonNumber LEGACY_PACKET_DATA_SIZE)),
     (''fitsPacket'', Some (JsonBool (fitsPacket attempt))),
     (''simulationPassed'', Some (JsonBool (simulationPassed attempt))),
     (''simulationError'', Some (json_option (simulationError attempt)))]"

record live_report =
  liveSuccess :: bool
  liveSignature :: "string option"
  liveError :: "js_exn option"
  liveLogs :: "string list option"
  finalSimulationPassed :: "bool option"
  finalSimulationError :: "string option option"
  finalSimulationLogs :: "string list option"

definition appendBlsLiveSubmitResult ::
  "('w, 'g, 'i, 't) bench \<Rightarrow> 't search_context \<Rightarrow> scenario_definition \<Rightarrow> search_attempt \<Rightarrow> live_report \<Rightarrow> ('w, unit) io" where
  "appendBlsLiveSubmitResult b context scenario attempt report =
     bindIO (benchIsoNow b) (\<lambda>timestamp.
     appendBlsSearchResult b (resultsLogPath context) (JsonObject
       (log_members b context scenario attempt timestamp @
        [(''submittedLive'', Some (JsonBool True)), (''liveSuccess'', Some (JsonBool (liveSuccess report))),
         (''signature'', map_option JsonText (liveSignature report)),
         (''liveError'', map_option (\<lambda>e. JsonText (errorMessage e)) (liveError report)),
         (''liveLogs'', Option.bind (liveLogs report) last_logs),
         (''finalSimulationPassed'', map_option JsonBool (finalSimulationPassed report)),
         (''finalSimulationError'', map_option json_option (finalSimulationError report)),
         (''finalSimulationLogs'', Option.bind (finalSimulationLogs report) last_logs)])))"

section \<open>Checking the settled state\<close>

record participant_check =
  checkName :: string
  checkParticipantPda :: pubkey
  checkBefore :: token_balance_view
  checkAfter :: token_balance_view
  checkRpc :: token_balance_view
  participantMatches :: bool

record channel_check =
  checkLabel :: string
  checkChannelPda :: pubkey
  beforeSettledCumulative :: int
  afterAnchorSettledCumulative :: int
  afterRpcSettledCumulative :: int
  channelMatches :: bool

record settlement_verification =
  participantChecks :: "participant_check list"
  channelChecks :: "channel_check list"

text \<open>A participant with its balance before and after; an edge with its channel after.\<close>

definition check_participant ::
  "('w, 'i, 't) cluster \<Rightarrow> int \<Rightarrow> (pubkey \<rightharpoonup> bytes) \<Rightarrow> demo_wallet \<times> token_balance_view \<times> token_balance_view \<Rightarrow> participant_check js" where
  "check_participant net token accounts checked = (case checked of (participant, before, balance) \<Rightarrow>
     case accounts (participantPda participant) of
       None \<Rightarrow> throwError (''Missing participant bucket '' @ webKeyString net (participantPda participant) @
         '' during RPC verification'')
     | Some data \<Rightarrow>
         bindR (readRawParticipantBucketTokenBalance data (walletParticipantId participant) token) (\<lambda>(available, withdrawing).
         Inr \<lparr>checkName = walletName participant, checkParticipantPda = participantPda participant,
              checkBefore = before, checkAfter = balance,
              checkRpc = \<lparr>viewAvailable = available, viewWithdrawing = withdrawing\<rparr>,
              participantMatches = (viewAvailable balance = available \<and> viewWithdrawing balance = withdrawing)\<rparr>))"

definition check_channel ::
  "('w, 'i, 't) cluster \<Rightarrow> (pubkey \<rightharpoonup> bytes) \<Rightarrow> channel_edge \<times> int \<Rightarrow> channel_check js" where
  "check_channel net accounts checked = (case checked of (edge, afterSettled) \<Rightarrow>
     case accounts (edgeChannelPda edge) of
       None \<Rightarrow> throwError (''Missing channel bucket '' @ webKeyString net (edgeChannelPda edge) @
         '' during RPC verification'')
     | Some data \<Rightarrow>
         bindR (readRawChannelBucketLaneState data (walletParticipantId (edgePayer edge))
           (walletParticipantId (edgePayee edge))) (\<lambda>(settled, _).
         bindR (bnToNumber net (edgeSettledCumulative edge)) (\<lambda>before.
         bindR (bnToNumber net afterSettled) (\<lambda>after.
         Inr \<lparr>checkLabel = walletName (edgePayer edge) @ ''->'' @ walletName (edgePayee edge),
              checkChannelPda = edgeChannelPda edge, beforeSettledCumulative = before,
              afterAnchorSettledCumulative = after, afterRpcSettledCumulative = settled,
              channelMatches = (after = settled)\<rparr>))))"

definition verifyMultilateralStateViaRpc ::
  "('w, 'i, 't) cluster \<Rightarrow> int \<Rightarrow> 'i prepared_round \<Rightarrow> (demo_wallet \<times> token_balance_view \<times> token_balance_view) list \<Rightarrow>
    (channel_edge \<times> int) list \<Rightarrow> ('w, settlement_verification) io" where
  "verifyMultilateralStateViaRpc net token preparedRound balances channelEdgesAfter =
     bindIO (fetchAccountInfosByKey net (map participantPda (roundParticipantsOf preparedRound))) (\<lambda>participantAccounts.
     bindIO (fetchAccountInfosByKey net (map edgeChannelPda (roundEdges preparedRound))) (\<lambda>channelAccounts.
     bindIO (liftIO (mapR (check_participant net token participantAccounts) balances)) (\<lambda>participants.
     bindIO (liftIO (mapR (check_channel net channelAccounts) channelEdgesAfter)) (\<lambda>channels.
     returnIO \<lparr>participantChecks = participants, channelChecks = channels\<rparr>))))"

text \<open>What \<open>logRpcSettlementVerification\<close> decides: any mismatch throws.\<close>

definition logRpcSettlementVerification :: "settlement_verification \<Rightarrow> unit js" where
  "logRpcSettlementVerification verification =
     (let participantMismatches = filter (\<lambda>check. \<not> participantMatches check) (participantChecks verification);
          channelMismatches = filter (\<lambda>check. \<not> channelMatches check) (channelChecks verification) in
      if length participantMismatches > 0 \<or> length channelMismatches > 0 then
        throwError (''RPC verification mismatch: '' @ show_int (int (length participantMismatches)) @
          '' participant mismatches, '' @ show_int (int (length channelMismatches)) @ '' channel mismatches'')
      else Inr ())"

section \<open>Submitting a round\<close>

definition liveSubmitError :: "search_attempt \<Rightarrow> js_exn \<Rightarrow> js_exn" where
  "liveSubmitError attempt originalError = LiveSubmitFailed
     (''Live BLS submission failed for '' @ show_int (candidateParticipantCount attempt) @ '' participants / '' @
      show_int (candidateChannelCount attempt) @ '' channels: '' @ errorMessage originalError) originalError"

text \<open>
  A wallet object is shared by every list it is in. The objects are told apart by their public keys:
  \<open>refreshed\<close> replaces a wallet by the object \<open>fetchInternalBalance\<close> has updated.
\<close>

definition refreshed :: "demo_wallet list \<Rightarrow> demo_wallet \<Rightarrow> demo_wallet" where
  "refreshed wallets w =
     (case find (\<lambda>v. publicKey (walletKeypair v) = publicKey (walletKeypair w)) wallets of None \<Rightarrow> w | Some v \<Rightarrow> v)"

definition refresh_edge :: "demo_wallet list \<Rightarrow> channel_edge \<Rightarrow> channel_edge" where
  "refresh_edge wallets edge =
     edge\<lparr>edgePayer := refreshed wallets (edgePayer edge), edgePayee := refreshed wallets (edgePayee edge)\<rparr>"

definition refresh_context :: "demo_wallet list \<Rightarrow> 't search_context \<Rightarrow> 't search_context" where
  "refresh_context wallets context =
     context\<lparr>fullParticipants := map (refreshed wallets) (fullParticipants context),
       completeGraphEdges := map (refresh_edge wallets) (completeGraphEdges context)\<rparr>"

definition fetch_balances ::
  "('w, 'g, 'i, 't) bench \<Rightarrow> int \<Rightarrow> demo_wallet list \<Rightarrow> ('w, (token_balance_view \<times> demo_wallet) list) io" where
  "fetch_balances b token wallets =
     mapIO (\<lambda>w. fetchInternalBalance (benchNet b) (boxBn (benchBox b)) (boxDerive (benchBox b)) (benchSha b)
       (boxProgramId (benchBox b)) w token) wallets"

definition edge_key :: "channel_edge \<Rightarrow> string" where
  "edge_key edge = multilateralEdgeKey (walletParticipantId (edgePayer edge)) (walletParticipantId (edgePayee edge))"

text \<open>\<open>cached.channel = updatedEdge.afterChannel\<close>, through the map from the keys to the cached edges.\<close>

definition cache_channel :: "(string \<rightharpoonup> nat) \<Rightarrow> channel_edge \<times> int \<Rightarrow> channel_edge list \<Rightarrow> channel_edge list" where
  "cache_channel edgeByKey updated edges = (case updated of (edge, settled) \<Rightarrow>
     case edgeByKey (edge_key edge) of None \<Rightarrow> edges
     | Some i \<Rightarrow> edges[i := (edges ! i)\<lparr>edgeSettledCumulative := settled\<rparr>])"

definition cache_channels :: "(channel_edge \<times> int) list \<Rightarrow> channel_edge list \<Rightarrow> channel_edge list" where
  "cache_channels updates edges =
     (let edgeByKey = js_map (zip (map edge_key edges) [0..<length edges]) in
      fold (cache_channel edgeByKey) updates edges)"

definition fetch_channel ::
  "('w, 'i, 't) cluster \<Rightarrow> channel_edge \<Rightarrow> ('w, channel_edge \<times> int) io" where
  "fetch_channel net edge =
     bindIO (fetchDirectionalChannelState net (edgeChannelPda edge) (walletParticipantId (edgePayer edge))
       (walletParticipantId (edgePayee edge))) (\<lambda>channel.
     returnIO (edge, settledCumulative (channelLane channel)))"

text \<open>The final simulation: an error or a failed simulation is logged and thrown as a live submit error.\<close>

definition final_simulation ::
  "('w, 'g, 'i, 't) bench \<Rightarrow> 't search_context \<Rightarrow> scenario_definition \<Rightarrow> search_attempt \<Rightarrow> 'i list \<Rightarrow>
    ('w, simulation_result) io" where
  "final_simulation b context scenario attempt instructions =
     (let net = benchNet b in
      bindIO (catchIO
        (simulateVersionedTransaction net (sponsor context) instructions (lookupTables context) (extraSigners context))
        (\<lambda>error.
           bindIO (getTransactionErrorLogs net error) (\<lambda>logs.
           bindIO (appendBlsLiveSubmitResult b context scenario attempt
             \<lparr>liveSuccess = False, liveSignature = None, liveError = Some error, liveLogs = Some logs,
              finalSimulationPassed = Some False, finalSimulationError = Some (Some (errorMessage error)),
              finalSimulationLogs = Some logs\<rparr>) (\<lambda>_.
           throwIO (liveSubmitError attempt error)))))
        (\<lambda>simulation.
           if \<not> simulationOk simulation then
             let error = LoggedError (''Final live simulation failed ('' @
                   (case simulationErrorText simulation of None \<Rightarrow> ''null'' | Some e \<Rightarrow> e) @ '')'')
                   (simulationLogLines simulation) in
             bindIO (appendBlsLiveSubmitResult b context scenario attempt
               \<lparr>liveSuccess = False, liveSignature = None, liveError = Some error,
                liveLogs = Some (simulationLogLines simulation), finalSimulationPassed = Some False,
                finalSimulationError = Some (simulationErrorText simulation),
                finalSimulationLogs = Some (simulationLogLines simulation)\<rparr>) (\<lambda>_.
             throwIO (liveSubmitError attempt error))
           else returnIO simulation))"

definition live_send ::
  "('w, 'g, 'i, 't) bench \<Rightarrow> 't search_context \<Rightarrow> scenario_definition \<Rightarrow> search_attempt \<Rightarrow> 'i list \<Rightarrow>
    simulation_result \<Rightarrow> ('w, string) io" where
  "live_send b context scenario attempt instructions simulation =
     (let net = benchNet b in
      catchIO (sendVersionedTransaction net (sponsor context) instructions (lookupTables context) (extraSigners context) True)
        (\<lambda>error.
           bindIO (getTransactionErrorLogs net error) (\<lambda>logs.
           bindIO (appendBlsLiveSubmitResult b context scenario attempt
             \<lparr>liveSuccess = False, liveSignature = None, liveError = Some error, liveLogs = Some logs,
              finalSimulationPassed = Some True, finalSimulationError = Some None,
              finalSimulationLogs = Some (simulationLogLines simulation)\<rparr>) (\<lambda>_.
           throwIO (liveSubmitError attempt error)))))"

definition parseProgramEvents ::
  "('w, 'g, 'i, 't) bench \<Rightarrow> string \<Rightarrow> ('w, (string \<times> string) list) io" where
  "parseProgramEvents b signature =
     bindIO (netTransactionLogs (benchNet b) signature) (\<lambda>logs.
     liftIO (benchParseLogs b (case logs of None \<Rightarrow> [] | Some l \<Rightarrow> l)))"

definition logScenarioEvents :: "('w, 'g, 'i, 't) bench \<Rightarrow> string \<Rightarrow> ('w, unit) io" where
  "logScenarioEvents b signature = bindIO (parseProgramEvents b signature) (\<lambda>_. returnIO ())"

text \<open>The printed sample of channels reads the amounts of the first four as numbers, which may throw.\<close>

definition channel_samples :: "('w, 'i, 't) cluster \<Rightarrow> (channel_edge \<times> int) list \<Rightarrow> unit js" where
  "channel_samples net channelEdgesAfter =
     bindR (mapR (\<lambda>(edge, after). bindR (bnToNumber net (edgeSettledCumulative edge)) (\<lambda>_. bnToNumber net after))
       (take 4 channelEdgesAfter)) (\<lambda>_. Inr ())"

record multilateral_result =
  primarySignature :: string
  resultBenchmark :: benchmark_scenario
  settledChannelCount :: int

definition submitted_params ::
  "'t search_context \<Rightarrow> scenario_definition \<Rightarrow> search_attempt \<Rightarrow> 'i prepared_round \<Rightarrow> string \<Rightarrow> int \<Rightarrow> scenario_params" where
  "submitted_params context scenario attempt preparedRound signature writes =
     \<lparr>paramId = scenarioId scenario, paramTitle = scenarioTitle scenario, paramSettlementMode = MultilateralClearing,
      paramParticipantCount = int (length (roundParticipantsOf preparedRound)),
      paramChannelCount = int (length (roundEdges preparedRound)),
      paramUnderlyingPaymentCount = totalUnderlyingCommitments preparedRound,
      paramGrossValueRaw = totalGrossRouted preparedRound, paramDecimals = int (contextDecimals context),
      paramTokenSymbol = contextTokenSymbol context, paramSignatures = [signature],
      paramSerializedTransactionBytes = [txBytes attempt],
      paramSignedMessageBytes = int (length (roundMessage preparedRound)), paramSignatureCount = 1,
      paramParticipantBalanceWrites = writes, paramChannelLaneWrites = int (length (roundEdges preparedRound)),
      paramNotes = Some
        [''BLS aggregated '' @ show_int (int (length (filter (\<lambda>block. length (roundEntries block) > 0) (roundBlocks preparedRound)))) @
           '' active participant cosignatures into one on-chain signature envelope.'',
         ''Dense-graph search results were appended to '' @ resultsLogPath context @ ''.''],
      paramRequestedShape = Some
        \<lparr>shapeParticipantCount = (if scenarioMode scenario = MaxParticipants then upperBound scenario
           else int (length (fullParticipantSet scenario))), shapeChannelCount = upperBound scenario\<rparr>,
      paramAchievedShape = Some \<lparr>shapeParticipantCount = candidateParticipantCount attempt,
        shapeChannelCount = candidateChannelCount attempt\<rparr>\<rparr>"

definition balance_writes :: "(token_balance_view \<times> demo_wallet) list \<Rightarrow> (token_balance_view \<times> demo_wallet) list \<Rightarrow> int" where
  "balance_writes before after =
     int (length (filter (\<lambda>(x, y). viewAvailable (fst x) \<noteq> viewAvailable (fst y)) (zip before after)))"

text \<open>
  The result, with the context whose wallets and cached channels have been updated. Where an error is
  thrown the updates of the wallets are lost, which nothing observes: they are fetched again first.
\<close>

definition submitMultilateralScenario ::
  "('w, 'g, 'i, 't) bench \<Rightarrow> 't search_context \<Rightarrow> scenario_definition \<Rightarrow> search_attempt \<Rightarrow> 'i prepared_round \<Rightarrow>
    ('w, multilateral_result \<times> 't search_context) io" where
  "submitMultilateralScenario b context scenario attempt preparedRound =
     (let net = benchNet b; token = contextTokenId context;
          liveInstructions = buildBlsExecutionInstructions (benchBox b) (computeUnitLimit context)
            (roundInstruction preparedRound) in
      bindIO (fetch_balances b token (roundParticipantsOf preparedRound)) (\<lambda>before.
      bindIO (final_simulation b context scenario attempt liveInstructions) (\<lambda>simulation.
      bindIO (live_send b context scenario attempt liveInstructions simulation) (\<lambda>signature.
      bindIO (fetch_balances b token (map snd before)) (\<lambda>after.
      let wallets = map snd after; updated = refresh_context wallets context in
      bindIO (mapIO (fetch_channel net) (map (refresh_edge wallets) (roundEdges preparedRound))) (\<lambda>channelEdgesAfter.
      let context' = updated\<lparr>completeGraphEdges := cache_channels channelEdgesAfter (completeGraphEdges updated)\<rparr> in
      bindIO (appendBlsLiveSubmitResult b context scenario attempt
        \<lparr>liveSuccess = True, liveSignature = Some signature, liveError = None, liveLogs = None,
         finalSimulationPassed = Some True, finalSimulationError = Some None, finalSimulationLogs = None\<rparr>) (\<lambda>_.
      bindIO (liftIO (channel_samples net channelEdgesAfter)) (\<lambda>_.
      bindIO (logScenarioEvents b signature) (\<lambda>_.
      returnIO (\<lparr>primarySignature = signature,
          resultBenchmark = createBenchmarkScenario
            (submitted_params context scenario attempt preparedRound signature (balance_writes before after)),
          settledChannelCount = int (length (roundEdges preparedRound))\<rparr>, context'))))))))))"

end
