(* ===== verification/Search.thy ===== *)
theory Search
  imports Submit
begin

text \<open>
  The search for the largest executable clearing round: the targets of the capacity analysis, the choice
  of the channels of a candidate, its evaluation, the binary search over candidates, and the scenarios
  that submit the best candidate and fall back to smaller ones.
\<close>

section \<open>Candidates\<close>

text \<open>The cycle and the overall fit of a capacity summary, and the targets derived from them.\<close>

definition clamped_shape :: "round_measurement \<Rightarrow> int \<Rightarrow> benchmark_shape" where
  "clamped_shape capacity availableParticipants =
     (let participants = max 3 (min (measuredParticipants capacity) availableParticipants) in
      \<lparr>shapeParticipantCount = participants,
       shapeChannelCount = min (measuredChannels capacity) (participants * (participants - 1))\<rparr>)"

definition determineMultilateralSearchTargets :: "capacity_summary \<Rightarrow> int \<Rightarrow> benchmark_shape \<times> benchmark_shape" where
  "determineMultilateralSearchTargets summary availableParticipants =
     (clamped_shape (blsV0AltCycle summary) availableParticipants,
      clamped_shape (blsV0AltOverall summary) availableParticipants)"

definition edgeByKeyOf :: "channel_edge list \<Rightarrow> string \<rightharpoonup> channel_edge" where
  "edgeByKeyOf edges = js_map (map (\<lambda>edge. (edge_key edge, edge)) edges)"

definition ring_payee :: "demo_wallet list \<Rightarrow> nat \<Rightarrow> demo_wallet" where
  "ring_payee participants index = participants ! ((index + 1) mod length participants)"

definition ring_key :: "demo_wallet list \<Rightarrow> nat \<Rightarrow> string" where
  "ring_key participants index =
     multilateralEdgeKey (walletParticipantId (participants ! index)) (walletParticipantId (ring_payee participants index))"

definition eligible_edges :: "demo_wallet list \<Rightarrow> channel_edge list \<Rightarrow> channel_edge list" where
  "eligible_edges participants edges =
     (let participantIds = set (map walletParticipantId participants) in
      filter (\<lambda>edge. walletParticipantId (edgePayer edge) \<in> participantIds \<and>
        walletParticipantId (edgePayee edge) \<in> participantIds) edges)"

definition selectMultilateralEdgesForCandidate ::
  "'t search_context \<Rightarrow> scenario_definition \<Rightarrow> int \<Rightarrow> edge_selection js" where
  "selectMultilateralEdgesForCandidate context scenario candidateValue =
     (case scenarioMode scenario of
        MaxParticipants \<Rightarrow>
          let participants = js_subarray (fullParticipantSet scenario) 0 candidateValue;
              edgeByKey = edgeByKeyOf (completeGraphEdges context) in
          bindR (mapR (\<lambda>index. case edgeByKey (ring_key participants index) of
              Some edge \<Rightarrow> Inr edge
            | None \<Rightarrow> throwError (''Missing dense-graph edge for '' @ walletName (participants ! index) @ '' -> '' @
                walletName (ring_payee participants index))) [0..<length participants]) (\<lambda>edges.
          Inr \<lparr>selectionEdges = edges, selectionParticipants = participants\<rparr>)
      | MaxChannels \<Rightarrow>
          Inr \<lparr>selectionEdges = js_subarray (eligible_edges (fullParticipantSet scenario) (completeGraphEdges context)) 0 candidateValue,
               selectionParticipants = fullParticipantSet scenario\<rparr>)"

definition ringSupported :: "string set \<Rightarrow> demo_wallet list \<Rightarrow> bool" where
  "ringSupported edgeKeys participants =
     list_all (\<lambda>index. ring_key participants index \<in> edgeKeys) [0..<length participants]"

function supported_loop :: "string set \<Rightarrow> demo_wallet list \<Rightarrow> int \<Rightarrow> int \<Rightarrow> int \<Rightarrow> int" where
  "supported_loop edgeKeys fullSet tried requestedUpperBound maxSupported =
     (if tried \<le> requestedUpperBound then
        if \<not> ringSupported edgeKeys (js_subarray fullSet 0 tried) then maxSupported
        else supported_loop edgeKeys fullSet (tried + 1) requestedUpperBound tried
      else maxSupported)"
  by pat_completeness auto
termination
  by (relation "measure (\<lambda>(_, _, tried, upper, _). nat (upper + 1 - tried))") auto

declare supported_loop.simps [simp del]

definition maxSupportedPrefixRingParticipantCount :: "'t search_context \<Rightarrow> scenario_definition \<Rightarrow> int" where
  "maxSupportedPrefixRingParticipantCount context scenario =
     supported_loop (set (map edge_key (completeGraphEdges context))) (fullParticipantSet scenario) (lowerBound scenario)
       (min (upperBound scenario) (int (length (fullParticipantSet scenario)))) 0"

section \<open>Evaluating a candidate\<close>

record 'i evaluated_candidate =
  evaluatedAttempt :: search_attempt
  evaluatedRound :: "'i prepared_round"

definition attempt_for :: "edge_selection \<Rightarrow> 'i prepared_round \<Rightarrow> int \<Rightarrow> simulation_result option \<Rightarrow> search_attempt" where
  "attempt_for selection preparedRound bytes simulation =
     \<lparr>candidateParticipantCount = int (length (selectionParticipants selection)),
      candidateChannelCount = int (length (selectionEdges selection)), txBytes = bytes,
      fitsPacket = (bytes \<le> LEGACY_PACKET_DATA_SIZE),
      simulationPassed = (case simulation of None \<Rightarrow> False | Some s \<Rightarrow> simulationOk s),
      simulationError = (case simulation of None \<Rightarrow> Some ''packet_limit_exceeded'' | Some s \<Rightarrow> simulationErrorText s),
      messageBytes = int (length (roundMessage preparedRound)),
      aggregateSignatureBytes = int (length (roundAggregate preparedRound))\<rparr>"

definition evaluateMultilateralCandidate ::
  "('w, 'g, 'i, 't) bench \<Rightarrow> 't search_context \<Rightarrow> scenario_definition \<Rightarrow> int \<Rightarrow> ('w, 'i evaluated_candidate) io" where
  "evaluateMultilateralCandidate b context scenario candidateValue =
     (let net = benchNet b in
      bindIO (liftIO (selectMultilateralEdgesForCandidate context scenario candidateValue)) (\<lambda>selection.
      bindIO (liftIO (prepareMultilateralRound (benchBox b) context scenario selection)) (\<lambda>preparedRound.
      let instructions = buildBlsExecutionInstructions (benchBox b) (computeUnitLimit context) (roundInstruction preparedRound) in
      bindIO (estimateVersionedTransactionBytes net (sponsor context) instructions (lookupTables context) (extraSigners context)) (\<lambda>bytes.
      bindIO (if bytes \<le> LEGACY_PACKET_DATA_SIZE
              then bindIO (simulateVersionedTransaction net (sponsor context) instructions (lookupTables context) (extraSigners context))
                (\<lambda>s. returnIO (Some s))
              else returnIO None) (\<lambda>simulation.
      let attempt = attempt_for selection preparedRound bytes simulation;
          simulationLogs = (case simulation of None \<Rightarrow> [] | Some s \<Rightarrow> simulationLogLines s) in
      bindIO (benchIsoNow b) (\<lambda>timestamp.
      bindIO (appendBlsSearchResult b (resultsLogPath context) (JsonObject
        (log_members b context scenario attempt timestamp @
         [(''simulationLogs'', last_logs simulationLogs), (''submittedLive'', Some (JsonBool False))]))) (\<lambda>_.
      returnIO \<lparr>evaluatedAttempt = attempt, evaluatedRound = preparedRound\<rparr>)))))))"

section \<open>The binary search\<close>

record 'i search_result =
  searchBest :: "'i evaluated_candidate"
  successfulCandidates :: "'i evaluated_candidate list"

definition passes :: "'i evaluated_candidate \<Rightarrow> bool" where
  "passes evaluated \<longleftrightarrow> fitsPacket (evaluatedAttempt evaluated) \<and> simulationPassed (evaluatedAttempt evaluated)"

text \<open>The loop, from the bounds, the best candidate so far and the successful ones, oldest first.\<close>

function search_loop ::
  "(int \<Rightarrow> ('w, 'i evaluated_candidate) io) \<Rightarrow> int \<Rightarrow> int \<Rightarrow> 'i evaluated_candidate list \<Rightarrow> ('w, 'i evaluated_candidate list) io" where
  "search_loop evaluate low high successful =
     (if low \<le> high then
        let candidateValue = (low + high) div 2 in
        bindIO (evaluate candidateValue) (\<lambda>evaluated.
          if passes evaluated then search_loop evaluate (candidateValue + 1) high (successful @ [evaluated])
          else search_loop evaluate low (candidateValue - 1) successful)
      else returnIO successful)"
  by pat_completeness auto
termination
  by (relation "measure (\<lambda>(_, low, high, _). nat (high + 1 - low))") auto

declare search_loop.simps [simp del]

text \<open>\<open>sort\<close> by falling channel count, then by falling participant count; it is stable.\<close>

definition by_size :: "'i evaluated_candidate \<Rightarrow> int \<times> int" where
  "by_size c = (- candidateChannelCount (evaluatedAttempt c), - candidateParticipantCount (evaluatedAttempt c))"

definition findLargestSimulatedCandidate ::
  "('w, 'g, 'i, 't) bench \<Rightarrow> 't search_context \<Rightarrow> scenario_definition \<Rightarrow> ('w, 'i search_result) io" where
  "findLargestSimulatedCandidate b context scenario =
     bindIO (search_loop (evaluateMultilateralCandidate b context scenario) (lowerBound scenario) (upperBound scenario) [])
       (\<lambda>successful.
     if successful = [] then
       throwIO (JsError ''Error'' (''No executable BLS candidate found for '' @ scenarioTitle scenario))
     else returnIO \<lparr>searchBest = last successful, successfulCandidates = sort_key by_size successful\<rparr>)"

section \<open>Submitting the best candidate\<close>

definition same_shape :: "search_attempt \<Rightarrow> search_attempt \<Rightarrow> bool" where
  "same_shape x y \<longleftrightarrow> candidateParticipantCount x = candidateParticipantCount y \<and>
     candidateChannelCount x = candidateChannelCount y"

definition submission_order :: "'i search_result \<Rightarrow> 'i evaluated_candidate list" where
  "submission_order r =
     (if list_ex (\<lambda>c. same_shape (evaluatedAttempt c) (evaluatedAttempt (searchBest r))) (successfulCandidates r)
      then successfulCandidates r else searchBest r # successfulCandidates r)"

fun submit_loop ::
  "('w, 'g, 'i, 't) bench \<Rightarrow> 't search_context \<Rightarrow> scenario_definition \<Rightarrow> 'i evaluated_candidate list \<Rightarrow> js_exn option \<Rightarrow>
    ('w, multilateral_result \<times> 't search_context) io" where
  "submit_loop b context scenario [] lastLiveSubmitError =
     (let unable = JsError ''Error'' (''Unable to submit any simulated BLS candidate for '' @ scenarioTitle scenario) in
      throwIO (case lastLiveSubmitError of None \<Rightarrow> unable | Some error \<Rightarrow> if is_Error error then error else unable))"
| "submit_loop b context scenario (candidate # candidates) lastLiveSubmitError =
     catchIO (submitMultilateralScenario b context scenario (evaluatedAttempt candidate) (evaluatedRound candidate))
       (\<lambda>error. case error of
          LiveSubmitFailed _ originalError \<Rightarrow> submit_loop b context scenario candidates (Some originalError)
        | _ \<Rightarrow> throwIO error)"

definition submitLargestLiveMultilateralScenario ::
  "('w, 'g, 'i, 't) bench \<Rightarrow> 't search_context \<Rightarrow> scenario_definition \<Rightarrow> 'i search_result \<Rightarrow>
    ('w, multilateral_result \<times> 't search_context) io" where
  "submitLargestLiveMultilateralScenario b context scenario r = submit_loop b context scenario (submission_order r) None"

section \<open>The scenarios\<close>

text \<open>The definition a binary search works on: the participants are cut to the rings the graph holds.\<close>

definition search_definition :: "'t search_context \<Rightarrow> scenario_definition \<Rightarrow> scenario_definition js" where
  "search_definition context scenario =
     (case scenarioMode scenario of
        MaxChannels \<Rightarrow> Inr scenario
      | MaxParticipants \<Rightarrow>
          let supportedUpperBound = maxSupportedPrefixRingParticipantCount context scenario in
          if supportedUpperBound < lowerBound scenario then
            throwError (''Dense graph cap '' @ show_int (denseChannelCap context) @
              '' did not prepare enough prefix-ring channels for '' @ scenarioTitle scenario @
              ''; increase RYVO_DEMO_BLS_MAX_DENSE_CHANNELS.'')
          else if supportedUpperBound < upperBound scenario then Inr (scenario\<lparr>upperBound := supportedUpperBound\<rparr>)
          else Inr scenario)"

text \<open>The printed remark on the fee sponsor reads the first wallet.\<close>

definition first_wallet :: "demo_wallet list \<Rightarrow> demo_wallet js" where
  "first_wallet wallets = (case wallets of [] \<Rightarrow> undefined_keypair | w # _ \<Rightarrow> Inr w)"

definition runBinarySearchMultilateralScenario ::
  "('w, 'g, 'i, 't) bench \<Rightarrow> 't search_context \<Rightarrow> scenario_definition \<Rightarrow> ('w, multilateral_result \<times> 't search_context) io" where
  "runBinarySearchMultilateralScenario b context scenario =
     bindIO (liftIO (search_definition context scenario)) (\<lambda>searchDefinition.
     bindIO (liftIO (first_wallet (fullParticipantSet searchDefinition))) (\<lambda>_.
     bindIO (findLargestSimulatedCandidate b context searchDefinition) (\<lambda>searchResult.
     submitLargestLiveMultilateralScenario b context searchDefinition searchResult)))"

record 'i candidate_evaluation =
  evaluationDefinition :: scenario_definition
  evaluationResult :: "'i search_result"

definition best_attempt :: "'i candidate_evaluation \<Rightarrow> search_attempt" where
  "best_attempt e = evaluatedAttempt (searchBest (evaluationResult e))"

definition isBetterMaxChannelsEvaluation :: "'i candidate_evaluation option \<Rightarrow> 'i candidate_evaluation \<Rightarrow> bool" where
  "isBetterMaxChannelsEvaluation currentBest candidate =
     (case currentBest of None \<Rightarrow> True
      | Some current \<Rightarrow>
          if candidateChannelCount (best_attempt candidate) \<noteq> candidateChannelCount (best_attempt current)
          then candidateChannelCount (best_attempt candidate) > candidateChannelCount (best_attempt current)
          else candidateParticipantCount (best_attempt candidate) > candidateParticipantCount (best_attempt current))"

text \<open>The range of channels searched for one participant count, where there is one.\<close>

definition adaptive_definition ::
  "'t search_context \<Rightarrow> string \<Rightarrow> string \<Rightarrow> 'i candidate_evaluation option \<Rightarrow> int \<Rightarrow> scenario_definition option" where
  "adaptive_definition context sid title best tried =
     (let participantSubset = js_subarray (fullParticipants context) 0 tried;
          upper = min (denseChannelCap context)
            (int (length (eligible_edges participantSubset (completeGraphEdges context))));
          found = map_option (\<lambda>e. candidateChannelCount (best_attempt e)) best;
          lower = max tried (case found of Some n \<Rightarrow> n + 1 | None \<Rightarrow> tried) in
      if upper < tried then None
      else if (case found of Some n \<Rightarrow> upper \<le> n | None \<Rightarrow> False) then None
      else if lower > upper then None
      else Some \<lparr>scenarioId = sid, scenarioTitle = title, scenarioMode = MaxChannels,
        fullParticipantSet = participantSubset, lowerBound = lower, upperBound = upper\<rparr>)"

type_synonym 'i adaptive_state = "'i candidate_evaluation option \<times> js_exn option"

definition adaptive_step ::
  "('w, 'g, 'i, 't) bench \<Rightarrow> 't search_context \<Rightarrow> string \<Rightarrow> string \<Rightarrow> int \<Rightarrow> 'i adaptive_state \<Rightarrow> ('w, 'i adaptive_state) io" where
  "adaptive_step b context sid title tried st = (case st of (best, lastError) \<Rightarrow>
     case adaptive_definition context sid title best tried of
       None \<Rightarrow> returnIO st
     | Some scenario \<Rightarrow>
         catchIO (bindIO (findLargestSimulatedCandidate b context scenario) (\<lambda>searchResult.
           let candidate = \<lparr>evaluationDefinition = scenario, evaluationResult = searchResult\<rparr> in
           returnIO (if isBetterMaxChannelsEvaluation best candidate then Some candidate else best, lastError)))
         (\<lambda>error. returnIO (best, Some error)))"

definition runAdaptiveMaxChannelsScenario ::
  "('w, 'g, 'i, 't) bench \<Rightarrow> 't search_context \<Rightarrow> string \<Rightarrow> string \<Rightarrow> ('w, multilateral_result \<times> 't search_context) io" where
  "runAdaptiveMaxChannelsScenario b context sid title =
     bindIO (liftIO (first_wallet (fullParticipants context))) (\<lambda>_.
     bindIO (foldIO (adaptive_step b context sid title) (rev [3..int (length (fullParticipants context))]) (None, None))
       (\<lambda>(best, lastError).
     case best of
       None \<Rightarrow> (let nothing = JsError ''Error'' (''No executable BLS candidate found for '' @ title) in
         throwIO (case lastError of None \<Rightarrow> nothing | Some error \<Rightarrow> if is_Error error then error else nothing))
     | Some evaluation \<Rightarrow>
         submitLargestLiveMultilateralScenario b context (evaluationDefinition evaluation) (evaluationResult evaluation)))"

section \<open>Rings the graph holds\<close>

lemma supported_loop_spec:
  "supported_loop keys fs c u m = r \<Longrightarrow> r = m \<or> (c \<le> r \<and> r \<le> u \<and> (\<forall>v. c \<le> v \<and> v \<le> r \<longrightarrow> ringSupported keys (js_subarray fs 0 v)))"
proof (induction keys fs c u m rule: supported_loop.induct)
  case (1 keys fs c u m)
  show ?case
  proof (cases "c \<le> u \<and> ringSupported keys (js_subarray fs 0 c)")
    case True
    then have "supported_loop keys fs (c + 1) u c = r" using "1.prems" by (subst (asm) supported_loop.simps) simp
    with "1.IH" True have step: "r = c \<or> (c + 1 \<le> r \<and> r \<le> u \<and>
        (\<forall>v. c + 1 \<le> v \<and> v \<le> r \<longrightarrow> ringSupported keys (js_subarray fs 0 v)))"
      by blast
    have "ringSupported keys (js_subarray fs 0 v)" if "c \<le> v" "v \<le> r" for v
    proof (cases "v = c")
      case False
      then show ?thesis using step that by auto
    qed (use True in simp)
    then show ?thesis using step True by auto
  next
    case False
    then show ?thesis using "1.prems" by (subst (asm) supported_loop.simps) (auto split: if_splits)
  qed
qed

lemma js_map_in: "js_map pairs k = Some v \<Longrightarrow> (k, v) \<in> set pairs"
  unfolding js_map_def by (drule map_of_SomeD) simp

lemma js_map_has: "k \<in> fst ` set pairs \<Longrightarrow> \<exists>v. js_map pairs k = Some v"
  unfolding js_map_def by (metis domD dom_map_of_conv_image_fst set_rev)

lemma edgeByKeyOf_hit:
  "k \<in> edge_key ` set edges \<Longrightarrow> \<exists>edge \<in> set edges. edgeByKeyOf edges k = Some edge \<and> edge_key edge = k"
  using js_map_has [of k "map (\<lambda>edge. (edge_key edge, edge)) edges"] js_map_in [of "map (\<lambda>edge. (edge_key edge, edge)) edges" k]
  by (fastforce simp: edgeByKeyOf_def image_image)

lemma mapR_choose:
  assumes "\<And>i. i \<in> set xs \<Longrightarrow> \<exists>y. f i = Inr y \<and> P i y"
  shows "\<exists>ys. mapR f xs = Inr ys \<and> length ys = length xs \<and> (\<forall>j < length xs. P (xs ! j) (ys ! j))"
  using assms
proof (induction xs)
  case (Cons x xs)
  obtain y where "f x = Inr y" "P x y" using Cons.prems by auto
  moreover obtain ys where "mapR f xs = Inr ys" "length ys = length xs" "\<forall>j < length xs. P (xs ! j) (ys ! j)"
    using Cons by auto
  ultimately show ?case by (auto simp: nth_Cons split: nat.splits)
qed simp

lemma ring_selection:
  assumes mode: "scenarioMode scenario = MaxParticipants"
    and ring: "ringSupported (set (map edge_key (completeGraphEdges context))) (js_subarray (fullParticipantSet scenario) 0 v)"
  defines "ps \<equiv> js_subarray (fullParticipantSet scenario) 0 v"
  shows "\<exists>selection. selectMultilateralEdgesForCandidate context scenario v = Inr selection \<and> selectionParticipants selection = ps
    \<and> length (selectionEdges selection) = length ps
    \<and> (\<forall>i < length ps. selectionEdges selection ! i \<in> set (completeGraphEdges context)
        \<and> edge_key (selectionEdges selection ! i) = ring_key ps i)"
proof -
  let ?f = "\<lambda>i. case edgeByKeyOf (completeGraphEdges context) (ring_key ps i) of Some edge \<Rightarrow> Inr edge
            | None \<Rightarrow> throwError (''Missing dense-graph edge for '' @ walletName (ps ! i) @ '' -> '' @ walletName (ring_payee ps i))"
  have "\<exists>edge. ?f i = Inr edge \<and> edge \<in> set (completeGraphEdges context) \<and> edge_key edge = ring_key ps i"
    if "i \<in> set [0..<length ps]" for i
  proof -
    have "ring_key ps i \<in> edge_key ` set (completeGraphEdges context)"
      using ring that by (auto simp: ringSupported_def list_all_iff ps_def)
    from edgeByKeyOf_hit [OF this] show ?thesis by auto
  qed
  from mapR_choose [where f = ?f and xs = "[0..<length ps]" and P = "\<lambda>i edge. edge \<in> set (completeGraphEdges context) \<and> edge_key edge = ring_key ps i", OF this]
  obtain edges where "mapR ?f [0..<length ps] = Inr edges" "length edges = length ps"
    "\<forall>i < length ps. edges ! i \<in> set (completeGraphEdges context) \<and> edge_key (edges ! i) = ring_key ps i"
    by auto
  then show ?thesis unfolding selectMultilateralEdgesForCandidate_def mode scenario_mode.case Let_def ps_def [symmetric]
    by (intro exI [of _ "\<lparr>selectionEdges = edges, selectionParticipants = ps\<rparr>"]) simp
qed

text \<open>Participant ids are unsigned.\<close>

definition unsigned_ids :: "'t search_context \<Rightarrow> scenario_definition \<Rightarrow> bool" where
  "unsigned_ids context scenario \<longleftrightarrow> (\<forall>w \<in> set (fullParticipantSet scenario). 0 \<le> walletParticipantId w) \<and>
     (\<forall>edge \<in> set (completeGraphEdges context). 0 \<le> walletParticipantId (edgePayer edge) \<and> 0 \<le> walletParticipantId (edgePayee edge))"

lemma search_definition_supported:
  assumes "search_definition context scenario = Inr definition1" "scenarioMode scenario = MaxParticipants"
    "0 < lowerBound scenario" "lowerBound definition1 \<le> v" "v \<le> upperBound definition1"
  shows "ringSupported (set (map edge_key (completeGraphEdges context))) (js_subarray (fullParticipantSet scenario) 0 v)
    \<and> v \<le> int (length (fullParticipantSet scenario))"
proof -
  let ?r = "maxSupportedPrefixRingParticipantCount context scenario"
  have r: "lowerBound scenario \<le> ?r" "v \<le> ?r" "lowerBound scenario \<le> v"
    using assms by (auto simp: search_definition_def Let_def split: if_splits)
  from supported_loop_spec [OF maxSupportedPrefixRingParticipantCount_def [symmetric], of "context" scenario] r assms(3)
  show ?thesis by auto
qed

text \<open>
  C25: the ring search never asks for a channel that is not there. Once the scenario has been cut to the
  graph, every participant count in its range selects the first so many participants and, for each of
  them, a prepared channel of the graph that it pays to the next one, the last to the first.
\<close>

theorem ring_candidates_exist:
  assumes "search_definition context scenario = Inr sd" "scenarioMode scenario = MaxParticipants"
    and "0 < lowerBound scenario" "lowerBound sd \<le> v" "v \<le> upperBound sd" "unsigned_ids context scenario"
  shows "\<exists>selection. selectMultilateralEdgesForCandidate context sd v = Inr selection
    \<and> selectionParticipants selection = take (nat v) (fullParticipantSet scenario)
    \<and> length (selectionParticipants selection) = nat v \<and> length (selectionEdges selection) = nat v
    \<and> (\<forall>i < nat v. selectionEdges selection ! i \<in> set (completeGraphEdges context)
        \<and> walletParticipantId (edgePayer (selectionEdges selection ! i)) = walletParticipantId (fullParticipantSet scenario ! i)
        \<and> walletParticipantId (edgePayee (selectionEdges selection ! i)) =
            walletParticipantId (fullParticipantSet scenario ! ((i + 1) mod nat v)))"
proof -
  let ?full = "fullParticipantSet scenario"
  have cutf: "fullParticipantSet sd = ?full" "scenarioMode sd = MaxParticipants" "lowerBound sd = lowerBound scenario"
    using assms(1,2) by (auto simp: search_definition_def Let_def split: if_splits)
  note supported = search_definition_supported [OF assms(1-5)]
  have v: "0 < v" "v \<le> int (length ?full)" using assms(3,4) cutf(3) supported by simp_all
  then have ps: "js_subarray ?full 0 v = take (nat v) ?full" "length (take (nat v) ?full) = nat v"
    by (simp_all add: js_subarray_def js_index_def)
  obtain selection where sel: "selectMultilateralEdgesForCandidate context sd v = Inr selection"
      "selectionParticipants selection = take (nat v) ?full" "length (selectionEdges selection) = nat v"
    and edges: "\<forall>i < nat v. selectionEdges selection ! i \<in> set (completeGraphEdges context)
        \<and> edge_key (selectionEdges selection ! i) = ring_key (take (nat v) ?full) i"
    using ring_selection [of sd "context" v] supported cutf ps by auto
  have "walletParticipantId (edgePayer edge) = walletParticipantId (?full ! i)
        \<and> walletParticipantId (edgePayee edge) = walletParticipantId (?full ! ((i + 1) mod nat v))"
    if i: "i < nat v" and edge: "edge = selectionEdges selection ! i" for i edge
  proof -
    have in_range: "(i + 1) mod nat v < nat v" using v by simp
    have members: "?full ! i \<in> set ?full" "?full ! ((i + 1) mod nat v) \<in> set ?full"
      by (rule nth_mem, use i in_range v(2) in linarith)+
    have key: "edge_key edge = ring_key (take (nat v) ?full) i" and edge: "edge \<in> set (completeGraphEdges context)"
      using edges i edge by simp_all
    have ids: "0 \<le> walletParticipantId (edgePayer edge)" "0 \<le> walletParticipantId (edgePayee edge)"
      "0 \<le> walletParticipantId (?full ! i)" "0 \<le> walletParticipantId (?full ! ((i + 1) mod nat v))"
      using assms(6) members edge unfolding unsigned_ids_def by blast+
    have "ring_payee (take (nat v) ?full) i = ?full ! ((i + 1) mod nat v)"
      unfolding ring_payee_def ps(2) by (rule nth_take) (rule in_range)
    with key i have "pair_key (walletParticipantId (edgePayer edge)) (walletParticipantId (edgePayee edge)) =
        pair_key (walletParticipantId (?full ! i)) (walletParticipantId (?full ! ((i + 1) mod nat v)))"
      by (simp only: edge_key_def ring_key_def multilateralEdgeKey_def nth_take)
    then show ?thesis unfolding pair_key_inject [OF ids] .
  qed
  with edges have "\<forall>i < nat v. selectionEdges selection ! i \<in> set (completeGraphEdges context)
        \<and> walletParticipantId (edgePayer (selectionEdges selection ! i)) = walletParticipantId (?full ! i)
        \<and> walletParticipantId (edgePayee (selectionEdges selection ! i)) = walletParticipantId (?full ! ((i + 1) mod nat v))"
    by blast
  then show ?thesis using sel ps(2) by (intro exI [of _ selection] conjI) simp_all
qed

lemma ring_candidates_exist_witness:
  "\<exists>selection. selectMultilateralEdgesForCandidate sample_context sample_scenario 3 = Inr selection
    \<and> selectionParticipants selection = take (nat 3) (fullParticipantSet sample_scenario)
    \<and> length (selectionParticipants selection) = nat 3 \<and> length (selectionEdges selection) = nat 3
    \<and> (\<forall>i < nat 3. selectionEdges selection ! i \<in> set (completeGraphEdges sample_context)
        \<and> walletParticipantId (edgePayer (selectionEdges selection ! i)) = walletParticipantId (fullParticipantSet sample_scenario ! i)
        \<and> walletParticipantId (edgePayee (selectionEdges selection ! i)) =
            walletParticipantId (fullParticipantSet sample_scenario ! ((i + 1) mod nat 3)))"
proof (rule ring_candidates_exist)
  have key: "multilateralEdgeKey 3 5 = ''3->5''" "multilateralEdgeKey 5 9 = ''5->9''" "multilateralEdgeKey 9 3 = ''9->3''"
    by code_simp+
  have "ringSupported (set (map edge_key (completeGraphEdges sample_context)))
      (js_subarray (fullParticipantSet sample_scenario) 0 3)"
    by (simp add: ringSupported_def sample_context_def sample_scenario_def sample_selection_def js_subarray_def js_index_def
        ring_key_def ring_payee_def edge_key_def sample_edge_def sample_wallet_def key upt_rec)
  then have "maxSupportedPrefixRingParticipantCount sample_context sample_scenario = 3"
    by (simp add: maxSupportedPrefixRingParticipantCount_def supported_loop.simps sample_scenario_def sample_selection_def)
  then show "search_definition sample_context sample_scenario = Inr sample_scenario"
    by (simp add: search_definition_def sample_scenario_def)
qed (simp_all add: sample_scenario_def unsigned_ids_def sample_context_def sample_selection_def sample_edge_def sample_wallet_def)

section \<open>What the binary search finds\<close>

text \<open>
  An evaluation that always returns, with an outcome that depends on the candidate only. The clock and
  the log it writes may change.
\<close>

definition stable_on :: "int set \<Rightarrow> (int \<Rightarrow> ('w, 'a) io) \<Rightarrow> (int \<Rightarrow> 'a) \<Rightarrow> bool" where
  "stable_on vals evaluate outcome \<longleftrightarrow> (\<forall>v \<in> vals. \<forall>w. \<exists>w'. evaluate v w = Some (Inr (outcome v), w'))"

text \<open>The candidates found, in the order of the search: rising, all passing, the last one at the edge.\<close>

definition found_in :: "(int \<Rightarrow> 'i evaluated_candidate) \<Rightarrow> int \<Rightarrow> int \<Rightarrow> int list \<Rightarrow> bool" where
  "found_in outcome low high vs \<longleftrightarrow> sorted_wrt (<) vs \<and> (\<forall>v \<in> set vs. low \<le> v \<and> v \<le> high \<and> passes (outcome v)) \<and>
     (if vs = [] then low \<le> high \<longrightarrow> \<not> passes (outcome low)
      else last vs = high \<or> \<not> passes (outcome (last vs + 1)))"

lemma midpoint: "low \<le> high \<Longrightarrow> low \<le> (low + high) div 2 \<and> (low + high) div 2 \<le> (high :: int)"
  by linarith

lemma found_pass:
  assumes "found_in outcome (m + 1) high vs" "low \<le> m" "m \<le> high" "passes (outcome m)"
  shows "found_in outcome low high (m # vs)"
  using assms by (auto simp: found_in_def split: if_splits)

lemma found_fail:
  assumes "found_in outcome low (m - 1) vs" "low \<le> m" "m \<le> high" "\<not> passes (outcome m)"
  shows "found_in outcome low high vs"
  using assms by (auto simp: found_in_def split: if_splits)

lemma search_loop_finds:
  assumes "stable_on {low..high} evaluate outcome"
  shows "\<exists>vs w'. search_loop evaluate low high successful w = Some (Inr (successful @ map outcome vs), w') \<and>
    found_in outcome low high vs"
  using assms
proof (induction "nat (high + 1 - low)" arbitrary: low high successful w rule: less_induct)
  case less
  show ?case
  proof (cases "low \<le> high")
    case False
    then show ?thesis by (subst search_loop.simps) (auto simp: found_in_def intro!: exI [of _ "[]"])
  next
    case True
    define m where "m = (low + high) div 2"
    have m: "low \<le> m" "m \<le> high" using midpoint [OF True] by (simp_all add: m_def)
    obtain w1 where w1: "evaluate m w = Some (Inr (outcome m), w1)"
      using less.prems m unfolding stable_on_def by (metis atLeastAtMost_iff)
    have step: "search_loop evaluate low high successful w =
        (if passes (outcome m) then search_loop evaluate (m + 1) high (successful @ [outcome m])
         else search_loop evaluate low (m - 1) successful) w1"
      using True w1 by (subst search_loop.simps) (simp add: Let_def m_def)
    show ?thesis
    proof (cases "passes (outcome m)")
      case True
      have "stable_on {m + 1..high} evaluate outcome" using less.prems m by (auto simp: stable_on_def)
      with less.hyps [of high "m + 1" "successful @ [outcome m]" w1] m obtain vs w' where
        "search_loop evaluate (m + 1) high (successful @ [outcome m]) w1 =
           Some (Inr ((successful @ [outcome m]) @ map outcome vs), w')" "found_in outcome (m + 1) high vs"
        by auto
      then show ?thesis using step True found_pass [where outcome = outcome and m = m, OF _ m True] by (intro exI [of _ "m # vs"] exI [of _ w']) simp
    next
      case False
      have "stable_on {low..m - 1} evaluate outcome" using less.prems m by (auto simp: stable_on_def)
      with less.hyps [of "m - 1" low successful w1] m obtain vs w' where
        "search_loop evaluate low (m - 1) successful w1 = Some (Inr (successful @ map outcome vs), w')"
        "found_in outcome low (m - 1) vs"
        by auto
      then show ?thesis using step False found_fail [where outcome = outcome and m = m, OF _ m False] by (intro exI [of _ vs] exI [of _ w']) simp
    qed
  qed
qed

lemma found_largest:
  assumes "found_in outcome low high vs" "vs \<noteq> []"
    "\<forall>u v. low \<le> u \<and> u \<le> v \<and> v \<le> high \<and> passes (outcome v) \<longrightarrow> passes (outcome u)"
    "low \<le> v" "v \<le> high" "passes (outcome v)"
  shows "v \<le> last vs"
proof (rule ccontr)
  assume "\<not> v \<le> last vs"
  then have above: "last vs + 1 \<le> v" by simp
  have "low \<le> last vs" using assms(1,2) unfolding found_in_def by (meson last_in_set)
  then have "low \<le> last vs + 1" by simp
  moreover have "last vs \<noteq> high" using assms(5) above by simp
  moreover have "last vs = high \<or> \<not> passes (outcome (last vs + 1))" using assms(1,2) by (simp add: found_in_def)
  ultimately show False using assms(3,5,6) above by blast
qed

lemma found_none:
  assumes "found_in outcome low high []"
    "\<forall>u v. low \<le> u \<and> u \<le> v \<and> v \<le> high \<and> passes (outcome v) \<longrightarrow> passes (outcome u)"
    "low \<le> v" "v \<le> high"
  shows "\<not> passes (outcome v)"
proof -
  have "\<not> passes (outcome low)" using assms(1,3,4) by (simp add: found_in_def)
  with assms(2-4) show ?thesis by blast
qed

text \<open>
  C12: where every candidate is evaluated with an outcome of its own, and a smaller one passes whenever a
  larger one does, the search ends and returns the largest candidate that passes: no candidate of the
  range above it does. It throws only when none passes. All candidates it hands on for submission pass,
  the best is one of them, and they come in the order of falling size.
\<close>

theorem largest_candidate:
  assumes stable: "stable_on {lowerBound scenario..upperBound scenario} (evaluateMultilateralCandidate b context scenario) outcome"
    and mono: "\<forall>u v. lowerBound scenario \<le> u \<and> u \<le> v \<and> v \<le> upperBound scenario \<and> passes (outcome v) \<longrightarrow> passes (outcome u)"
  shows "\<exists>r w'. findLargestSimulatedCandidate b context scenario w = Some (r, w') \<and>
    (case r of
       Inl e \<Rightarrow> e = JsError ''Error'' (''No executable BLS candidate found for '' @ scenarioTitle scenario) \<and>
         (\<forall>v. lowerBound scenario \<le> v \<and> v \<le> upperBound scenario \<longrightarrow> \<not> passes (outcome v))
     | Inr found \<Rightarrow> searchBest found \<in> set (successfulCandidates found) \<and>
         (\<forall>c \<in> set (successfulCandidates found). passes c) \<and> sorted (map by_size (successfulCandidates found)) \<and>
         (\<exists>best. lowerBound scenario \<le> best \<and> best \<le> upperBound scenario \<and> searchBest found = outcome best \<and>
            passes (outcome best) \<and>
            (\<forall>v. best < v \<and> v \<le> upperBound scenario \<longrightarrow> \<not> passes (outcome v))))"
proof -
  let ?low = "lowerBound scenario" and ?high = "upperBound scenario"
  obtain vs w' where
    run: "search_loop (evaluateMultilateralCandidate b context scenario) ?low ?high [] w = Some (Inr (map outcome vs), w')"
    and found: "found_in outcome ?low ?high vs"
    using search_loop_finds [OF stable, of "[]" w] by auto
  show ?thesis
  proof (cases "vs = []")
    case True
    then show ?thesis using run found_none [OF found [unfolded True] mono]
      by (intro exI [of _ "Inl (JsError ''Error'' (''No executable BLS candidate found for '' @ scenarioTitle scenario))"] exI [of _ w'])
        (simp add: findLargestSimulatedCandidate_def bindIO_def)
  next
    case False
    let ?found = "\<lparr>searchBest = last (map outcome vs), successfulCandidates = sort_key by_size (map outcome vs)\<rparr>"
    have all: "?low \<le> v" "v \<le> ?high" "passes (outcome v)" if "v \<in> set vs" for v
      using found that by (auto simp: found_in_def)
    have last: "last vs \<in> set vs" "last (map outcome vs) = outcome (last vs)" using False by (simp_all add: last_map)
    have top: "\<not> passes (outcome v)" if "last vs < v" "v \<le> ?high" for v
      using found_largest [OF found False mono, of v] all(1) [OF last(1)] that by auto
    have "findLargestSimulatedCandidate b context scenario w = Some (Inr ?found, w')"
      using run False by (simp add: findLargestSimulatedCandidate_def bindIO_def)
    moreover have "\<exists>best. ?low \<le> best \<and> best \<le> ?high \<and> searchBest ?found = outcome best \<and>
            passes (outcome best) \<and> (\<forall>v. best < v \<and> v \<le> ?high \<longrightarrow> \<not> passes (outcome v))"
      using all [OF last(1)] last(2) top by (intro exI [of _ "last vs"]) auto
    ultimately show ?thesis using all(3) last by (intro exI [of _ "Inr ?found"] exI [of _ w']) auto
  qed
qed

text \<open>A bench on which every call returns at once, and every simulation passes.\<close>

definition quiet_cluster :: "(int, nat, unit) cluster" where
  "quiet_cluster = \<lparr>netLatestBlockhash = returnIO (''hash'', 100), netAccountInfo = (\<lambda>_. returnIO None),
     netMultipleAccountsInfo = (\<lambda>keys. returnIO (map (\<lambda>_. None) keys)), netBalance = (\<lambda>_. returnIO 0),
     netSlot = (\<lambda>_. returnIO 7), netSignatureStatus = (\<lambda>_. returnIO None),
     netTransactionLogs = (\<lambda>_. returnIO None), netSendRaw = (\<lambda>_ _. returnIO ''sig''),
     netConfirm = (\<lambda>_ _ _. returnIO None), netSimulate = (\<lambda>_. returnIO (None, [])),
     netLookupTable = (\<lambda>_. returnIO None), netErrorLogs = (\<lambda>_. returnIO []),
     netOwnerIndex = (\<lambda>_. returnIO []), netSleep = (\<lambda>_. returnIO ()),
     netNow = returnIO 0, webV0 = (\<lambda>_ _ _ _ _. Inr [1]), webLegacy = (\<lambda>_ _ _ _. Inr [2]),
     webCreateLookupTable = (\<lambda>_ _ _. (0, [])), webExtendLookupTable = (\<lambda>_ _ _ _. 1),
     webPublicKey = Inr, webKeyString = (\<lambda>_. ''key''), bnToNumber = Inr\<rparr>"

definition sample_bench :: "(int, bool, nat, unit) bench" where
  "sample_bench = \<lparr>benchNet = quiet_cluster, benchBox = sample_box, benchMkdir = (\<lambda>_. returnIO ()),
     benchAppend = (\<lambda>_ _. returnIO ()), benchDirname = (\<lambda>_. ''logs''), benchIsoNow = returnIO ''2025'',
     benchEndpoint = ''http://localhost'', benchParseLogs = (\<lambda>_. Inr [])\<rparr>"

lemma retry_returnIO: "1 \<le> n \<Longrightarrow> withRpcRetry net label (returnIO x) n = returnIO x"
  unfolding withRpcRetry_def by (rule ext, subst retry_loop.simps) (simp add: catchIO_def)

lemma quiet_fields:
  "netLatestBlockhash quiet_cluster = returnIO (''hash'', 100)" "webV0 quiet_cluster k h is ts ss = Inr [1]"
  "netSimulate quiet_cluster tx = returnIO (None, [])" "netSendRaw quiet_cluster tx b = returnIO ''sig''"
  "netConfirm quiet_cluster sg h n = returnIO None" "netTransactionLogs quiet_cluster sg = returnIO None"
  by (simp_all add: quiet_cluster_def)

lemma quiet_estimate: "estimateVersionedTransactionBytes quiet_cluster payer is ts ss = returnIO 1"
  by (simp add: estimateVersionedTransactionBytes_def quiet_fields del: returnIO_apply)

lemma quiet_simulation:
  "simulateVersionedTransaction quiet_cluster payer is ts ss =
     returnIO \<lparr>simulationOk = True, simulationErrorText = None, simulationLogLines = []\<rparr>"
  by (simp add: simulateVersionedTransaction_def quiet_fields retry_returnIO del: returnIO_apply)

lemma quiet_log: "appendBlsSearchResult sample_bench path j = returnIO ()"
  by (simp add: appendBlsSearchResult_def sample_bench_def del: returnIO_apply)

lemma quiet_evaluation:
  assumes "selectMultilateralEdgesForCandidate context scenario v = Inr selection"
    "prepareMultilateralRound sample_box context scenario selection = Inr prep"
  shows "evaluateMultilateralCandidate sample_bench context scenario v = returnIO
    \<lparr>evaluatedAttempt = attempt_for selection prep 1
       (Some \<lparr>simulationOk = True, simulationErrorText = None, simulationLogLines = []\<rparr>), evaluatedRound = prep\<rparr>"
proof -
  have "benchBox sample_bench = sample_box" "benchNet sample_bench = quiet_cluster" "benchIsoNow sample_bench = returnIO ''2025''"
    by (simp_all add: sample_bench_def del: returnIO_apply)
  then show ?thesis
    unfolding evaluateMultilateralCandidate_def
    by (simp del: returnIO_apply add: assms quiet_estimate quiet_simulation quiet_log LEGACY_PACKET_DATA_SIZE_def Let_def)
qed

definition sample_ring :: edge_selection where
  "sample_ring = \<lparr>selectionEdges = [sample_edge 3 5, sample_edge 5 9, sample_edge 9 3],
     selectionParticipants = [sample_wallet 3, sample_wallet 5, sample_wallet 9]\<rparr>"

lemma sample_ring_selected: "selectMultilateralEdgesForCandidate sample_context sample_scenario 3 = Inr sample_ring"
proof -
  have key: "multilateralEdgeKey 3 5 = ''3->5''" "multilateralEdgeKey 5 9 = ''5->9''" "multilateralEdgeKey 9 3 = ''9->3''"
    by code_simp+
  have "edgeByKeyOf (completeGraphEdges sample_context) =
      [''5->9'' \<mapsto> sample_edge 5 9, ''3->5'' \<mapsto> sample_edge 3 5, ''9->3'' \<mapsto> sample_edge 9 3]"
    by (simp add: edgeByKeyOf_def js_map_def sample_context_def sample_selection_def edge_key_def sample_edge_def sample_wallet_def key)
  then show ?thesis
    by (simp add: selectMultilateralEdgesForCandidate_def sample_scenario_def sample_selection_def sample_ring_def js_subarray_def
        js_index_def ring_key_def ring_payee_def sample_wallet_def key upt_rec)
qed

lemma sample_ring_prepared: "\<exists>prep. prepareMultilateralRound sample_box sample_context sample_scenario sample_ring = Inr prep"
proof -
  have "fitting_round sample_box sample_context sample_ring 50 200"
    by (simp add: fitting_round_def closed_selection_def payer_of_def toRawAmount_def sample_box_def sample_context_def
        sample_ring_def sample_edge_def sample_wallet_def)
  moreover have "working_box sample_box sample_ring"
    by (simp add: working_box_def sample_box_def parity_curve_def sample_ring_def sample_wallet_def BLS_SCALAR_MODULUS_def)
  ultimately show ?thesis
    using prepared [of sample_box sample_context sample_ring 50 200 1 sample_scenario]
    by (auto simp: sample_context_def sample_ring_def sample_edge_def)
qed

lemma largest_candidate_witness:
  "\<exists>found w'. findLargestSimulatedCandidate sample_bench sample_context sample_scenario 0 = Some (Inr found, w')
    \<and> passes (searchBest found) \<and> searchBest found \<in> set (successfulCandidates found)"
proof -
  obtain prep where prep: "prepareMultilateralRound sample_box sample_context sample_scenario sample_ring = Inr prep"
    using sample_ring_prepared by blast
  define outcome where "outcome = (\<lambda>_ :: int. \<lparr>evaluatedAttempt = attempt_for sample_ring prep 1
       (Some \<lparr>simulationOk = True, simulationErrorText = None, simulationLogLines = []\<rparr>), evaluatedRound = prep\<rparr>)"
  have pass: "passes (outcome v)" for v
    by (simp add: outcome_def passes_def attempt_for_def LEGACY_PACKET_DATA_SIZE_def)
  have "stable_on {lowerBound sample_scenario..upperBound sample_scenario}
      (evaluateMultilateralCandidate sample_bench sample_context sample_scenario) outcome"
    using quiet_evaluation [OF sample_ring_selected prep] by (simp add: stable_on_def sample_scenario_def outcome_def)
  from largest_candidate [OF this, of 0] pass obtain r w' where
    "findLargestSimulatedCandidate sample_bench sample_context sample_scenario 0 = Some (r, w')"
    "case r of Inl e \<Rightarrow> \<forall>v. 3 \<le> v \<and> v \<le> 3 \<longrightarrow> \<not> passes (outcome v)
     | Inr found \<Rightarrow> searchBest found \<in> set (successfulCandidates found) \<and> (\<forall>c \<in> set (successfulCandidates found). passes c)"
    by (fastforce simp: sample_scenario_def split: sum.splits)
  then show ?thesis using pass by (cases r) auto
qed

end
