(* ===== verification/Live.thy ===== *)
theory Live
  imports Search
begin

text \<open>
  What the live part of the search guarantees: a round is sent only after the final simulation of the
  same instructions has passed, the cached channels then hold the amounts read back from the chain, and
  a smaller candidate is submitted only after every larger one has failed.
\<close>

section \<open>The cached channels\<close>

text \<open>
  The map goes from a key to the last edge with that key, and updates of one key overwrite each other. So an
  edge that is the last of its key takes the amount of the last update for the key, and no other edge changes.
\<close>

definition updated_channel :: "(channel_edge \<times> int) list \<Rightarrow> channel_edge list \<Rightarrow> nat \<Rightarrow> channel_edge" where
  "updated_channel updates edges i =
     (case map_of (rev (map (\<lambda>(u, settled). (edge_key u, settled)) updates)) (edge_key (edges ! i)) of
        Some settled \<Rightarrow> if edge_key (edges ! i) \<in> edge_key ` set (drop (Suc i) edges) then edges ! i
          else (edges ! i)\<lparr>edgeSettledCumulative := settled\<rparr>
      | None \<Rightarrow> edges ! i)"

lemma key_index:
  "js_map (zip (map f xs) [0..<length xs]) k = Some i \<longleftrightarrow> i < length xs \<and> f (xs ! i) = k \<and> k \<notin> f ` set (drop (Suc i) xs)"
proof (induction xs rule: rev_induct)
  case (snoc x xs)
  show ?case
  proof (cases "f x = k")
    case True
    then have "js_map (zip (map f (xs @ [x])) [0..<length (xs @ [x])]) k = Some (length xs)" by (simp add: js_map_def)
    moreover have "x \<in> set (drop (Suc i) (xs @ [x]))" if "i < length xs" using that by (simp add: Suc_leI)
    ultimately show ?thesis using True by (auto simp: less_Suc_eq)
  next
    case False
    then have "js_map (zip (map f (xs @ [x])) [0..<length (xs @ [x])]) k = js_map (zip (map f xs) [0..<length xs]) k"
      by (simp add: js_map_def)
    then show ?thesis using snoc.IH False by (auto simp: nth_append less_Suc_eq Suc_leI)
  qed
qed (simp add: js_map_def)

lemma cache_channels_fold:
  assumes index: "\<And>k j. idx k = Some j \<Longrightarrow> j < length edges \<and> edge_key (edges ! j) = k"
  shows "length (fold (cache_channel idx) updates edges) = length edges
    \<and> (\<forall>i < length edges. fold (cache_channel idx) updates edges ! i =
        (if idx (edge_key (edges ! i)) \<noteq> Some i then edges ! i else
         case map_of (rev (map (\<lambda>(u, settled). (edge_key u, settled)) updates)) (edge_key (edges ! i)) of
           Some settled \<Rightarrow> (edges ! i)\<lparr>edgeSettledCumulative := settled\<rparr> | None \<Rightarrow> edges ! i))"
proof (induction updates rule: rev_induct)
  case (snoc p updates)
  obtain u s where p: "p = (u, s)" by (cases p)
  let ?before = "fold (cache_channel idx) updates edges"
  show ?case
  proof (cases "idx (edge_key u)")
    case None
    then show ?thesis using snoc by (auto simp: p cache_channel_def)
  next
    case (Some j)
    then have j: "j < length edges" "edge_key (edges ! j) = edge_key u" using index by auto
    then show ?thesis using snoc Some by (auto simp: p cache_channel_def nth_list_update split: option.splits)
  qed
qed simp

lemma cache_channels_updated:
  "cache_channels updates edges = map (updated_channel updates edges) [0..<length edges]"
proof -
  let ?idx = "js_map (zip (map edge_key edges) [0..<length edges])"
  have fold: "length (fold (cache_channel ?idx) updates edges) = length edges"
    "\<And>i. i < length edges \<Longrightarrow> fold (cache_channel ?idx) updates edges ! i =
        (if ?idx (edge_key (edges ! i)) \<noteq> Some i then edges ! i else
         case map_of (rev (map (\<lambda>(u, settled). (edge_key u, settled)) updates)) (edge_key (edges ! i)) of
           Some settled \<Rightarrow> (edges ! i)\<lparr>edgeSettledCumulative := settled\<rparr> | None \<Rightarrow> edges ! i)"
    using cache_channels_fold [of ?idx edges updates] by (simp_all add: key_index)
  show ?thesis
    unfolding cache_channels_def Let_def
    by (rule nth_equalityI) (auto simp: fold key_index updated_channel_def split: option.splits)
qed

lemma channels_fetched:
  "mapIO (fetch_channel net) edges w = Some (Inr updates, w') \<Longrightarrow> map fst updates = edges"
  by (induction edges arbitrary: w updates) (auto simp: fetch_channel_def elim!: bindIO_InrE)

section \<open>A submission that succeeds\<close>

definition live_instructions :: "('w, 'g, 'i, 't) bench \<Rightarrow> 't search_context \<Rightarrow> 'i prepared_round \<Rightarrow> 'i list" where
  "live_instructions b context prep =
     buildBlsExecutionInstructions (benchBox b) (computeUnitLimit context) (roundInstruction prep)"

lemma final_simulation_ok:
  assumes "final_simulation b context scenario attempt is w = Some (Inr simulation, w')"
  shows "simulateVersionedTransaction (benchNet b) (sponsor context) is (lookupTables context) (extraSigners context) w =
      Some (Inr simulation, w') \<and> simulationOk simulation"
  using assms by (auto simp: final_simulation_def Let_def io_iffs split: if_splits)

lemma live_send_ok:
  assumes "live_send b context scenario attempt is simulation w = Some (Inr signature, w')"
  shows "sendVersionedTransaction (benchNet b) (sponsor context) is (lookupTables context) (extraSigners context) True w =
      Some (Inr signature, w')"
  using assms by (auto simp: live_send_def Let_def io_iffs)

lemma submission_steps:
  assumes "submitMultilateralScenario b context scenario attempt prep w = Some (Inr (result, context'), w')"
  obtains before after simulation updates w1 w2 w3 w4 w5 where
    "fetch_balances b (contextTokenId context) (roundParticipantsOf prep) w = Some (Inr before, w1)"
    "final_simulation b context scenario attempt (live_instructions b context prep) w1 = Some (Inr simulation, w2)"
    "live_send b context scenario attempt (live_instructions b context prep) simulation w2 = Some (Inr (primarySignature result), w3)"
    "fetch_balances b (contextTokenId context) (map snd before) w3 = Some (Inr after, w4)"
    "mapIO (fetch_channel (benchNet b)) (map (refresh_edge (map snd after)) (roundEdges prep)) w4 = Some (Inr updates, w5)"
    "context' = refresh_context (map snd after) context\<lparr>completeGraphEdges :=
       cache_channels updates (completeGraphEdges (refresh_context (map snd after) context))\<rparr>"
    "result = \<lparr>primarySignature = primarySignature result, resultBenchmark = createBenchmarkScenario
        (submitted_params context scenario attempt prep (primarySignature result) (balance_writes before after)),
       settledChannelCount = int (length (roundEdges prep))\<rparr>"
  using assms unfolding submitMultilateralScenario_def Let_def live_instructions_def [symmetric]
  by (auto simp: bindIO_eq_Inr)

text \<open>
  C13: a round that is reported as settled was sent right after a final simulation of exactly its
  instructions had passed, in a transaction confirmed under the reported signature; the benchmark names that
  signature and the number of channels of the round. Only after that the wallets are refreshed and every
  channel of the round is fetched again. A cached channel (the last one, where several have the same key)
  then holds the amount fetched last for its key, and every other one its old amount, so that the next round
  builds on the settled state.
\<close>

theorem live_submission:
  assumes "submitMultilateralScenario b context scenario attempt prep w = Some (Inr (result, context'), w')"
  shows "\<exists>before simulation after updates w1 w2 w3 w4 w5.
    fetch_balances b (contextTokenId context) (roundParticipantsOf prep) w = Some (Inr before, w1) \<and>
    simulateVersionedTransaction (benchNet b) (sponsor context) (live_instructions b context prep) (lookupTables context)
      (extraSigners context) w1 = Some (Inr simulation, w2) \<and> simulationOk simulation \<and>
    sendVersionedTransaction (benchNet b) (sponsor context) (live_instructions b context prep) (lookupTables context)
      (extraSigners context) True w2 = Some (Inr (primarySignature result), w3) \<and>
    fetch_balances b (contextTokenId context) (map snd before) w3 = Some (Inr after, w4) \<and>
    mapIO (fetch_channel (benchNet b)) (map (refresh_edge (map snd after)) (roundEdges prep)) w4 = Some (Inr updates, w5) \<and>
    map fst updates = map (refresh_edge (map snd after)) (roundEdges prep) \<and>
    signatures (resultBenchmark result) = [primarySignature result] \<and>
    channelCount (resultBenchmark result) = int (length (roundEdges prep)) \<and>
    settledChannelCount result = int (length (roundEdges prep)) \<and>
    (let cached = map (refresh_edge (map snd after)) (completeGraphEdges context) in
     completeGraphEdges context' = map (updated_channel updates cached) [0..<length cached])"
proof -
  obtain before after simulation updates w1 w2 w3 w4 w5 where
    before: "fetch_balances b (contextTokenId context) (roundParticipantsOf prep) w = Some (Inr before, w1)"
    and sim: "final_simulation b context scenario attempt (live_instructions b context prep) w1 = Some (Inr simulation, w2)"
    and send: "live_send b context scenario attempt (live_instructions b context prep) simulation w2 = Some (Inr (primarySignature result), w3)"
    and after: "fetch_balances b (contextTokenId context) (map snd before) w3 = Some (Inr after, w4)"
    and channels: "mapIO (fetch_channel (benchNet b)) (map (refresh_edge (map snd after)) (roundEdges prep)) w4 = Some (Inr updates, w5)"
    and cached: "context' = refresh_context (map snd after) context\<lparr>completeGraphEdges :=
       cache_channels updates (completeGraphEdges (refresh_context (map snd after) context))\<rparr>"
    and res: "result = \<lparr>primarySignature = primarySignature result, resultBenchmark = createBenchmarkScenario
        (submitted_params context scenario attempt prep (primarySignature result) (balance_writes before after)),
       settledChannelCount = int (length (roundEdges prep))\<rparr>"
    using assms by (rule submission_steps)
  have update: "let cached = map (refresh_edge (map snd after)) (completeGraphEdges context) in
      completeGraphEdges context' = map (updated_channel updates cached) [0..<length cached]"
    using cached by (simp add: cache_channels_updated refresh_context_def Let_def)
  have params: "signatures (resultBenchmark result) = [primarySignature result]"
    "channelCount (resultBenchmark result) = int (length (roundEdges prep))"
    "settledChannelCount result = int (length (roundEdges prep))"
    by (subst res, simp add: createBenchmarkScenario_def submitted_params_def Let_def)+
  note sent = final_simulation_ok [OF sim] live_send_ok [OF send]
  show ?thesis
    by (rule exI [of _ before], rule exI [of _ simulation], rule exI [of _ after], rule exI [of _ updates],
        rule exI [of _ w1], rule exI [of _ w2], rule exI [of _ w3], rule exI [of _ w4], rule exI [of _ w5])
      (intro conjI before sent(1) [THEN conjunct1] sent(1) [THEN conjunct2] sent(2) after channels channels_fetched [OF channels] params update)
qed

section \<open>Falling back\<close>

fun all_failed ::
  "('w, 'g, 'i, 't) bench \<Rightarrow> 't search_context \<Rightarrow> scenario_definition \<Rightarrow> 'i evaluated_candidate list \<Rightarrow> 'w \<Rightarrow> 'w \<Rightarrow> bool" where
  "all_failed b context scenario [] w w' \<longleftrightarrow> w = w'"
| "all_failed b context scenario (c # cs) w w' \<longleftrightarrow> (\<exists>msg original w1.
     submitMultilateralScenario b context scenario (evaluatedAttempt c) (evaluatedRound c) w =
       Some (Inl (LiveSubmitFailed msg original), w1) \<and> all_failed b context scenario cs w1 w')"

lemma submit_loop_first:
  "submit_loop b context scenario cs lastError w = Some (Inr result, w') \<Longrightarrow>
   \<exists>earlier c later w1. cs = earlier @ c # later \<and> all_failed b context scenario earlier w w1 \<and>
     submitMultilateralScenario b context scenario (evaluatedAttempt c) (evaluatedRound c) w1 = Some (Inr result, w')"
proof (induction cs arbitrary: lastError w)
  case (Cons c cs)
  show ?case
  proof (cases "submitMultilateralScenario b context scenario (evaluatedAttempt c) (evaluatedRound c) w = Some (Inr result, w')")
    case True
    then show ?thesis by (intro exI [of _ "[]"] exI [of _ c] exI [of _ cs] exI [of _ w]) simp
  next
    case False
    then obtain e w1 where e: "submitMultilateralScenario b context scenario (evaluatedAttempt c) (evaluatedRound c) w = Some (Inl e, w1)"
      "(case e of LiveSubmitFailed _ original \<Rightarrow> submit_loop b context scenario cs (Some original) | _ \<Rightarrow> throwIO e) w1 = Some (Inr result, w')"
      using Cons.prems by (auto simp: catchIO_eq_Inr)
    then obtain msg original where live: "e = LiveSubmitFailed msg original"
      "submit_loop b context scenario cs (Some original) w1 = Some (Inr result, w')"
      by (auto split: js_exn.splits)
    from Cons.IH [OF live(2)] obtain earlier c' later w2 where rest: "cs = earlier @ c' # later"
      "all_failed b context scenario earlier w1 w2"
      "submitMultilateralScenario b context scenario (evaluatedAttempt c') (evaluatedRound c') w2 = Some (Inr result, w')"
      by blast
    then show ?thesis using e(1) live(1)
      by (intro exI [of _ "c # earlier"] exI [of _ c'] exI [of _ later] exI [of _ w2]) auto
  qed
qed (simp add: Let_def)

lemma submission_order_found:
  assumes "searchBest found \<in> set (successfulCandidates found)"
  shows "submission_order found = successfulCandidates found"
  using assms by (auto simp: submission_order_def list_ex_iff same_shape_def)

text \<open>What a search hands on: candidates that pass, the larger before the smaller.\<close>

definition larger :: "'i evaluated_candidate \<Rightarrow> 'i evaluated_candidate \<Rightarrow> bool" where
  "larger c d \<longleftrightarrow>
     (let channels = (\<lambda>x. candidateChannelCount (evaluatedAttempt x)); participants = (\<lambda>x. candidateParticipantCount (evaluatedAttempt x)) in
      channels d < channels c \<or> channels d = channels c \<and> participants d < participants c)"

lemma by_size_order: "by_size c \<le> by_size d \<longleftrightarrow> \<not> larger d c"
  by (auto simp: by_size_def larger_def Let_def less_eq_prod_def)

lemma search_loop_passes:
  "search_loop evaluate low high successful w = Some (Inr out, w') \<Longrightarrow> \<forall>c \<in> set successful. passes c \<Longrightarrow> \<forall>c \<in> set out. passes c"
proof (induction evaluate low high successful arbitrary: w rule: search_loop.induct)
  case (1 evaluate low high successful)
  show ?case
  proof (cases "low \<le> high")
    case True
    then obtain c w1 where c: "evaluate ((low + high) div 2) w = Some (Inr c, w1)"
      and rest: "(if passes c then search_loop evaluate ((low + high) div 2 + 1) high (successful @ [c])
          else search_loop evaluate low ((low + high) div 2 - 1) successful) w1 = Some (Inr out, w')"
      using "1.prems"(1) by (subst (asm) search_loop.simps) (auto simp: Let_def elim: bindIO_InrE)
    show ?thesis
    proof (cases "passes c")
      case True
      show ?thesis by (rule "1.IH"(1) [OF \<open>low \<le> high\<close> refl True]) (use rest True "1.prems"(2) in auto)
    next
      case False
      show ?thesis by (rule "1.IH"(2) [OF \<open>low \<le> high\<close> refl False]) (use rest False "1.prems"(2) in auto)
    qed
  next
    case False
    then show ?thesis using "1.prems" by (subst (asm) search_loop.simps) simp
  qed
qed

lemma search_hands_on:
  assumes "findLargestSimulatedCandidate b context scenario w = Some (Inr found, w')"
  shows "searchBest found \<in> set (successfulCandidates found)" "\<forall>c \<in> set (successfulCandidates found). passes c"
    and "sorted_wrt (\<lambda>c d. \<not> larger d c) (successfulCandidates found)"
proof -
  obtain successful w1 where loop: "search_loop (evaluateMultilateralCandidate b context scenario) (lowerBound scenario) (upperBound scenario) [] w = Some (Inr successful, w1)"
    and returned: "(if successful = [] then throwIO (JsError ''Error'' (''No executable BLS candidate found for '' @ scenarioTitle scenario))
      else returnIO \<lparr>searchBest = last successful, successfulCandidates = sort_key by_size successful\<rparr>) w1 = Some (Inr found, w')"
    using assms unfolding findLargestSimulatedCandidate_def by (rule bindIO_InrE)
  have nonempty: "successful \<noteq> []" using returned by auto
  have "found = \<lparr>searchBest = last successful, successfulCandidates = sort_key by_size successful\<rparr>"
    using returned unfolding if_not_P [OF nonempty] by simp
  then have found: "searchBest found = last successful" "successfulCandidates found = sort_key by_size successful" "successful \<noteq> []"
    using nonempty by simp_all
  show "searchBest found \<in> set (successfulCandidates found)" by (simp add: found)
  show "\<forall>c \<in> set (successfulCandidates found). passes c" using search_loop_passes [OF loop] by (simp add: found)
  have "sorted_wrt (\<lambda>c d. by_size c \<le> by_size d) (sort_key by_size successful)"
    using sorted_sort_key [of by_size successful] by (simp add: sorted_map)
  then show "sorted_wrt (\<lambda>c d. \<not> larger d c) (successfulCandidates found)" by (simp only: found by_size_order)
qed

text \<open>
  C24: what is submitted after a search is the first candidate, in the order of falling size, whose live
  submission goes through. The search hands on only candidates that fit and passed their simulation; those
  submitted before have all failed with a live submission error, none of them is smaller than the submitted
  one (by channels, then by participants), and none of those left is larger.
\<close>

theorem live_fallback:
  assumes "findLargestSimulatedCandidate b context scenario w0 = Some (Inr found, w0')"
    and "submitLargestLiveMultilateralScenario b context scenario found w = Some (Inr result, w')"
  shows "\<exists>earlier c later w1. successfulCandidates found = earlier @ c # later \<and>
    all_failed b context scenario earlier w w1 \<and>
    submitMultilateralScenario b context scenario (evaluatedAttempt c) (evaluatedRound c) w1 = Some (Inr result, w') \<and>
    passes c \<and> (\<forall>d \<in> set earlier. passes d \<and> \<not> larger c d) \<and> (\<forall>d \<in> set later. \<not> larger d c)"
proof -
  note handed = search_hands_on [OF assms(1)]
  have "submit_loop b context scenario (successfulCandidates found) None w = Some (Inr result, w')"
    using assms(2) unfolding submitLargestLiveMultilateralScenario_def submission_order_found [OF handed(1)] .
  from submit_loop_first [OF this] obtain earlier c later w1 where first:
    "successfulCandidates found = earlier @ c # later" "all_failed b context scenario earlier w w1"
    "submitMultilateralScenario b context scenario (evaluatedAttempt c) (evaluatedRound c) w1 = Some (Inr result, w')"
    by blast
  then show ?thesis using handed(2, 3)
    by (intro exI [of _ earlier] exI [of _ c] exI [of _ later] exI [of _ w1]) (auto simp: sorted_wrt_append)
qed

end
