(* ===== verification/Ed25519.thy ===== *)
theory Ed25519
  imports Messages
begin

text \<open>
  Instructions of the Ed25519 precompile: the three builders of the client
  (\<open>createBatchEd25519Instruction\<close>, \<open>createMultiSigEd25519Instruction\<close> and
  \<open>createMultiMessageEd25519Instruction\<close> in \<open>scripts/ryvo-protocol-demo.ts\<close>) and the readers of the
  program (\<open>programs/ryvo-protocol/src/ed25519.rs\<close>).

  An instruction is two bytes, 14 bytes of offsets per signature, and a body the offsets point
  into. \<open>writeUInt16LE\<close> throws on an offset beyond 65535, so an instruction that is too large is
  refused and never built with wrapped offsets.
\<close>

section \<open>The client\<close>

definition js_writeUInt16LE :: "int \<Rightarrow> int \<Rightarrow> bytes \<Rightarrow> bytes js" where
  "js_writeUInt16LE v off data =
     (if \<not> (0 \<le> v \<and> v \<le> 65535) then
        rangeError (''The value of \"value\" is out of range. It must be >= 0 and <= 65535. Received '' @ show_int v)
      else if \<not> (0 \<le> off \<and> off + 2 \<le> int (length data)) then
        rangeError ''The value of \"offset\" is out of range.''
      else Inr (splice (nat off) (le_bytes 2 (nat v)) data))"

text \<open>\<open>source.copy(target, start)\<close>: what does not fit is cut off.\<close>

definition js_copy :: "bytes \<Rightarrow> nat \<Rightarrow> bytes \<Rightarrow> bytes" where
  "js_copy source start target = splice start (take (length target - start) source) target"

record signature_row =
  signatureOffset :: int
  publicKeyOffset :: int
  messageOffset :: int
  messageLength :: int

text \<open>The seven writes of an offset row, the same in the three builders.\<close>

definition writeRow :: "int \<Rightarrow> signature_row \<Rightarrow> bytes \<Rightarrow> bytes js" where
  "writeRow off row data =
     bindR (js_writeUInt16LE (signatureOffset row) off data) (\<lambda>d1.
     bindR (js_writeUInt16LE 0xffff (off + 2) d1) (\<lambda>d2.
     bindR (js_writeUInt16LE (publicKeyOffset row) (off + 4) d2) (\<lambda>d3.
     bindR (js_writeUInt16LE 0xffff (off + 6) d3) (\<lambda>d4.
     bindR (js_writeUInt16LE (messageOffset row) (off + 8) d4) (\<lambda>d5.
     bindR (js_writeUInt16LE (messageLength row) (off + 10) d5) (\<lambda>d6.
     js_writeUInt16LE 0xffff (off + 12) d6))))))"

definition createBatchEd25519Instruction :: "ed25519_sign \<Rightarrow> keypair \<Rightarrow> bytes list \<Rightarrow> bytes js" where
  "createBatchEd25519Instruction cryptoSign signer messages =
     (let n = length messages; blockStart = 2 + 14 * n; messageStart = blockStart + n * 96;
          data0 = splice 0 [word_of_nat n, 0] (replicate (messageStart + sum_list (map length messages)) 0) in
      bindR (foldR (\<lambda>i (data, running).
          let message = messages ! i; publicKeyOffset = blockStart + i * 96;
              signatureOffset = publicKeyOffset + 32;
              signature = signEd25519Message cryptoSign message signer in
          bindR (writeRow (int (2 + i * 14))
            \<lparr>signatureOffset = int signatureOffset, publicKeyOffset = int publicKeyOffset,
             messageOffset = int running, messageLength = int (length message)\<rparr> data) (\<lambda>data.
          Inr (js_copy message running (js_copy signature signatureOffset
            (js_copy (publicKey signer) publicKeyOffset data)), running + length message)))
        [0..<n] (data0, messageStart)) (\<lambda>(data, _). Inr data))"

definition createMultiSigEd25519Instruction :: "ed25519_sign \<Rightarrow> keypair list \<Rightarrow> bytes \<Rightarrow> bytes js" where
  "createMultiSigEd25519Instruction cryptoSign signers message =
     (let n = length signers; headerSize = 2 + 14 * n; messageOffset = headerSize + n * 96;
          data0 = splice 0 [word_of_nat n, 0] (replicate (messageOffset + length message) 0) in
      bindR (foldR (\<lambda>i data.
          let publicKeyOffset = headerSize + i * 96; signatureOffset = publicKeyOffset + 32;
              signature = signEd25519Message cryptoSign message (signers ! i) in
          bindR (writeRow (int (2 + i * 14))
            \<lparr>signatureOffset = int signatureOffset, publicKeyOffset = int publicKeyOffset,
             messageOffset = int messageOffset, messageLength = int (length message)\<rparr> data) (\<lambda>data.
          Inr (js_copy signature signatureOffset (js_copy (publicKey (signers ! i)) publicKeyOffset data))))
        [0..<n] data0) (\<lambda>data. Inr (js_copy message messageOffset data)))"

text \<open>The first loop of the third builder: the buffers to copy, the rows, and the cursor.\<close>

fun collectEntries :: "ed25519_sign \<Rightarrow> (keypair \<times> bytes) list \<Rightarrow> nat \<Rightarrow> bytes list \<times> signature_row list \<times> nat" where
  "collectEntries cryptoSign [] cursor = ([], [], cursor)"
| "collectEntries cryptoSign ((signer, message) # entries) cursor =
     (let publicKeyOffset = cursor; signatureOffset = publicKeyOffset + 32;
          messageOffset = signatureOffset + 64;
          signature = signEd25519Message cryptoSign message signer;
          (buffers, rows, end) = collectEntries cryptoSign entries (messageOffset + length message) in
      ([publicKey signer, signature, message] @ buffers,
       \<lparr>signatureOffset = int signatureOffset, publicKeyOffset = int publicKeyOffset,
        messageOffset = int messageOffset, messageLength = int (length message)\<rparr> # rows, end))"

fun copyBuffers :: "bytes list \<Rightarrow> nat \<Rightarrow> bytes \<Rightarrow> bytes" where
  "copyBuffers [] writeOffset data = data"
| "copyBuffers (buffer # buffers) writeOffset data =
     copyBuffers buffers (writeOffset + length buffer) (js_copy buffer writeOffset data)"

definition createMultiMessageEd25519Instruction :: "ed25519_sign \<Rightarrow> (keypair \<times> bytes) list \<Rightarrow> bytes js" where
  "createMultiMessageEd25519Instruction cryptoSign entries =
     (let n = length entries; headerSize = 2 + 14 * n;
          (buffers, rows, cursor) = collectEntries cryptoSign entries headerSize;
          data0 = splice 0 [word_of_nat n, 0] (replicate cursor 0) in
      bindR (foldR (\<lambda>i data. writeRow (int (2 + i * 14)) (rows ! i) data) [0..<n] data0) (\<lambda>data.
      Inr (copyBuffers buffers headerSize data)))"

section \<open>The program\<close>

record signature_offsets =
  signature_offset :: u16
  public_key_offset :: u16
  message_data_offset :: u16
  message_data_size :: u16

text \<open>The offsets of one signature; the three instruction indexes must say \<open>u16::MAX\<close>.\<close>

definition parse_ed25519_offsets :: "bytes \<Rightarrow> nat \<Rightarrow> signature_offsets vres" where
  "parse_ed25519_offsets ix_data sig_index =
     requireR (length ix_data \<ge> 2) InvalidEd25519Data (
     let num_sigs = unat (ix_data ! 0) in
     requireR (num_sigs > 0 \<and> sig_index < num_sigs) InvalidEd25519Data (
     let header_start = 2 + sig_index * 14 in
     requireR (length ix_data \<ge> header_start + 14) InvalidEd25519Data (
     let field = (\<lambda>k. word_of_nat (le_nat (subarray (header_start + k) 2 ix_data)) :: u16) in
     requireR (field 2 = 0xffff \<and> field 6 = 0xffff \<and> field 12 = 0xffff) InvalidEd25519Data
       (Inr \<lparr>signature_offset = field 0, public_key_offset = field 4, message_data_offset = field 8,
             message_data_size = field 10\<rparr>))))"

definition extract_pubkey :: "bytes \<Rightarrow> signature_offsets \<Rightarrow> pubkey vres" where
  "extract_pubkey ix_data offsets =
     (let start = unat (public_key_offset offsets) in
      requireR (length ix_data \<ge> start + 32) InvalidEd25519Data (Inr (subarray start 32 ix_data)))"

definition extract_message :: "bytes \<Rightarrow> signature_offsets \<Rightarrow> bytes vres" where
  "extract_message ix_data offsets =
     (let start = unat (message_data_offset offsets); size = unat (message_data_size offsets) in
      requireR (length ix_data \<ge> start + size) InvalidEd25519Data (Inr (subarray start size ix_data)))"

text \<open>
  \<open>verify_and_extract_all_signatures\<close> after the instruction data has been loaded: the signers and
  the message all of them signed.
\<close>

definition verify_and_extract_all_signatures :: "bytes \<Rightarrow> (pubkey list \<times> bytes) vres" where
  "verify_and_extract_all_signatures ix_data =
     requireR (length ix_data \<ge> 2) InvalidEd25519Data (
     let num_sigs = unat (ix_data ! 0) in
     requireR (num_sigs > 0) InvalidEd25519Data (
     bindR (parse_ed25519_offsets ix_data 0) (\<lambda>first.
     bindR (extract_message ix_data first) (\<lambda>shared.
     bindR (extract_pubkey ix_data first) (\<lambda>signer.
     bindR (mapR (\<lambda>i.
         bindR (parse_ed25519_offsets ix_data i) (\<lambda>offsets.
         bindR (extract_message ix_data offsets) (\<lambda>candidate.
         requireR (candidate = shared) InvalidEd25519Data (extract_pubkey ix_data offsets))))
       [1..<num_sigs]) (\<lambda>signers.
     Inr (signer # signers, shared)))))))"

section \<open>What the builders write\<close>

definition row_ok :: "signature_row \<Rightarrow> bool" where
  "row_ok row \<longleftrightarrow> (\<forall>v \<in> {signatureOffset row, publicKeyOffset row, messageOffset row, messageLength row}.
     0 \<le> v \<and> v \<le> 65535)"

definition row_bytes :: "signature_row \<Rightarrow> bytes" where
  "row_bytes row = le_bytes 2 (nat (signatureOffset row)) @ le_bytes 2 0xffff @
     le_bytes 2 (nat (publicKeyOffset row)) @ le_bytes 2 0xffff @ le_bytes 2 (nat (messageOffset row)) @
     le_bytes 2 (nat (messageLength row)) @ le_bytes 2 0xffff"

lemma length_row_bytes [simp]: "length (row_bytes row) = 14"
  by (simp add: row_bytes_def)

lemma write_u16_nat:
  "0 \<le> v \<Longrightarrow> v \<le> 65535 \<Longrightarrow> off + 2 \<le> length data \<Longrightarrow>
    js_writeUInt16LE v (int off) data = Inr (splice off (le_bytes 2 (nat v)) data)"
  by (simp add: js_writeUInt16LE_def)

lemma splice_next:
  "off' = off + length a \<Longrightarrow> off' + length b \<le> length d \<Longrightarrow> splice off' b (splice off a d) = splice off (a @ b) d"
  using splice_adjacent [of off a b d] by simp

lemma write_u16_plus:
  "0 \<le> v \<Longrightarrow> v \<le> 65535 \<Longrightarrow> off + numeral k + 2 \<le> length data \<Longrightarrow>
    js_writeUInt16LE v (int off + numeral k) data = Inr (splice (off + numeral k) (le_bytes 2 (nat v)) data)"
  using write_u16_nat [of v "off + numeral k" data] by simp

lemma writeRow_ok:
  assumes "row_ok row" "off + 14 \<le> length data"
  shows "writeRow (int off) row data = Inr (splice off (row_bytes row) data)"
  unfolding writeRow_def row_bytes_def using assms
  by (simp add: row_ok_def write_u16_nat write_u16_plus splice_next del: le_bytes.simps)

text \<open>The loop over the rows fills the offsets area.\<close>

lemma rows_written:
  assumes "\<forall>row \<in> set rows. row_ok row" "2 + 14 * length rows \<le> length data"
  shows "foldR (\<lambda>i data. writeRow (int (2 + i * 14)) (rows ! i) data) [0..<length rows] data =
    Inr (splice 2 (concat (map row_bytes rows)) data)"
  using assms
proof (induction rows rule: rev_induct)
  case (snoc row rows)
  have len: "length (concat (map row_bytes rows)) = 14 * length rows"
    by (simp add: length_concat comp_def sum_list_triv)
  let ?F = "\<lambda>i data. writeRow (int (2 + i * 14)) ((rows @ [row]) ! i) data"
  have same: "foldR ?F [0..<length rows] data = foldR (\<lambda>i data. writeRow (int (2 + i * 14)) (rows ! i) data) [0..<length rows] data"
    by (rule foldR_cong) (simp_all add: nth_append)
  have step: "splice (2 + length rows * 14) (row_bytes row) (splice 2 (concat (map row_bytes rows)) data) =
      splice 2 (concat (map row_bytes (rows @ [row]))) data"
    using snoc.prems(2) len splice_adjacent [of 2 "concat (map row_bytes rows)" "row_bytes row" data]
    by (simp add: mult.commute)
  have "foldR ?F [0..<length (rows @ [row])] data = bindR (foldR ?F [0..<length rows] data) (foldR ?F [length rows])"
    by (simp add: foldR_append)
  also have "\<dots> = foldR ?F [length rows] (splice 2 (concat (map row_bytes rows)) data)"
    unfolding same using snoc by simp
  also have "\<dots> = bindR (writeRow (int (2 + length rows * 14)) row (splice 2 (concat (map row_bytes rows)) data)) Inr"
    by simp
  also have "writeRow (int (2 + length rows * 14)) row (splice 2 (concat (map row_bytes rows)) data) =
      Inr (splice (2 + length rows * 14) (row_bytes row) (splice 2 (concat (map row_bytes rows)) data))"
    using snoc.prems len by (intro writeRow_ok) simp_all
  also have "bindR \<dots> Inr = Inr (splice 2 (concat (map row_bytes (rows @ [row]))) data)"
    by (simp only: step bindR_Inr)
  finally show ?case .
qed simp

lemma copyBuffers_splice:
  "off + length (concat buffers) \<le> length data \<Longrightarrow> copyBuffers buffers off data = splice off (concat buffers) data"
proof (induction buffers arbitrary: off data)
  case (Cons b buffers)
  then have "copyBuffers (b # buffers) off data =
      splice (off + length b) (concat buffers) (splice off b data)"
    by (simp add: js_copy_def)
  with Cons.prems show ?case by (simp add: splice_adjacent)
qed simp

section \<open>What the program reads\<close>

text \<open>An instruction: the count, a padding byte, the rows and the body.\<close>

definition instruction_bytes :: "signature_row list \<Rightarrow> bytes \<Rightarrow> bytes" where
  "instruction_bytes rows body = [word_of_nat (length rows), 0] @ concat (map row_bytes rows) @ body"

lemma concat_row_split:
  "i < length rows \<Longrightarrow> concat (map row_bytes rows) =
    concat (map row_bytes (take i rows)) @ row_bytes (rows ! i) @ concat (map row_bytes (drop (Suc i) rows))"
  by (subst id_take_nth_drop [of i rows]) auto

lemma length_rows: "length (concat (map row_bytes rows)) = 14 * length rows"
  by (simp add: length_concat comp_def sum_list_triv)

lemma row_fields:
  assumes "row_ok row" "data = pre @ row_bytes row @ post" "length pre = off"
  shows "subarray off 2 data = le_bytes 2 (nat (signatureOffset row))"
    "subarray (off + 2) 2 data = le_bytes 2 0xffff" "subarray (off + 4) 2 data = le_bytes 2 (nat (publicKeyOffset row))"
    "subarray (off + 6) 2 data = le_bytes 2 0xffff" "subarray (off + 8) 2 data = le_bytes 2 (nat (messageOffset row))"
    "subarray (off + 10) 2 data = le_bytes 2 (nat (messageLength row))" "subarray (off + 12) 2 data = le_bytes 2 0xffff"
  using assms(2,3) by (auto simp: subarray_def row_bytes_def)

definition offsets_of :: "signature_row \<Rightarrow> signature_offsets" where
  "offsets_of row =
     \<lparr>signature_offset = word_of_int (signatureOffset row), public_key_offset = word_of_int (publicKeyOffset row),
      message_data_offset = word_of_int (messageOffset row), message_data_size = word_of_int (messageLength row)\<rparr>"

lemma u16_of_bytes:
  "0 \<le> v \<Longrightarrow> v \<le> 65535 \<Longrightarrow> (word_of_nat (le_nat (le_bytes 2 (nat v))) :: u16) = word_of_int v"
proof -
  assume v: "0 \<le> v" "v \<le> 65535"
  then have "nat v < 256 ^ 2" by simp
  then have "le_nat (le_bytes 2 (nat v)) = nat v" by (simp add: le_nat_le_bytes)
  with v show ?thesis by (simp add: of_nat_nat)
qed

lemma offsets_parsed:
  assumes "\<forall>row \<in> set rows. row_ok row" "i < length rows" "length rows < 256"
  shows "parse_ed25519_offsets (instruction_bytes rows body) i = Inr (offsets_of (rows ! i))"
proof -
  let ?data = "instruction_bytes rows body"
  let ?pre = "[word_of_nat (length rows), 0] @ concat (map row_bytes (take i rows))"
  have split: "?data = ?pre @ row_bytes (rows ! i) @ (concat (map row_bytes (drop (Suc i) rows)) @ body)"
    using concat_row_split [OF assms(2)] by (simp add: instruction_bytes_def)
  have pre: "length ?pre = 2 + i * 14"
    using assms(2) length_rows [of "take i rows"] by simp
  have row: "row_ok (rows ! i)" using assms by simp
  note fields = row_fields [OF row split pre]
  have "?data ! 0 = word_of_nat (length rows)" by (simp add: instruction_bytes_def)
  moreover have "length ?data = 2 + 14 * length rows + length body"
    using length_rows [of rows] by (simp add: instruction_bytes_def)
  moreover have "(word_of_nat (le_nat (le_bytes 2 0xffff)) :: u16) = 0xffff"
    by (simp add: le_nat_le_bytes)
  moreover have "2 + i * 14 + 14 \<le> 2 + 14 * length rows" using assms(2) by simp
  moreover have "rows \<noteq> []" using assms(2) by auto
  moreover define d where "d = ?data"
  ultimately show ?thesis
    using assms(2,3) fields row unfolding d_def [symmetric]
    by (simp add: parse_ed25519_offsets_def Let_def unat_count u16_of_bytes row_ok_def offsets_of_def)
qed

text \<open>The third builder: where the entries end up.\<close>

lemma collected:
  assumes "collectEntries cryptoSign entries cursor = (buffers, rows, stop)"
    and "\<forall>(signer, message) \<in> set entries. length (publicKey signer) = 32
      \<and> length (signEd25519Message cryptoSign message signer) = 64"
  shows "length rows = length entries \<and> stop = cursor + length (concat buffers)
    \<and> (stop \<le> 65535 \<longrightarrow> (\<forall>row \<in> set rows. row_ok row))
    \<and> (\<forall>i < length entries. 0 \<le> publicKeyOffset (rows ! i) \<and> 0 \<le> messageOffset (rows ! i)
        \<and> nat (publicKeyOffset (rows ! i)) + 32 \<le> stop
        \<and> nat (messageOffset (rows ! i)) + length (snd (entries ! i)) \<le> stop
        \<and> messageLength (rows ! i) = int (length (snd (entries ! i)))
        \<and> (\<forall>pre. length pre = cursor \<longrightarrow>
            subarray (nat (publicKeyOffset (rows ! i))) 32 (pre @ concat buffers) = publicKey (fst (entries ! i))
          \<and> subarray (nat (messageOffset (rows ! i))) (length (snd (entries ! i))) (pre @ concat buffers) = snd (entries ! i)))"
  using assms
proof (induction entries arbitrary: cursor buffers rows stop)
  case (Cons entry entries)
  obtain signer message where entry: "entry = (signer, message)" by force
  let ?sig = "signEd25519Message cryptoSign message signer"
  have lens: "length (publicKey signer) = 32" "length ?sig = 64" using Cons.prems(2) entry by auto
  obtain buffers' rows' where rest: "collectEntries cryptoSign entries (cursor + 96 + length message) = (buffers', rows', stop)"
    and buffers: "buffers = [publicKey signer, ?sig, message] @ buffers'"
    and rows: "rows = \<lparr>signatureOffset = int (cursor + 32), publicKeyOffset = int cursor,
        messageOffset = int (cursor + 96), messageLength = int (length message)\<rparr> # rows'"
    using Cons.prems(1) by (auto simp: entry Let_def add.assoc split: prod.splits)
  have "\<forall>(signer, message) \<in> set entries. length (publicKey signer) = 32
      \<and> length (signEd25519Message cryptoSign message signer) = 64"
    using Cons.prems(2) by auto
  note IH = Cons.IH [OF rest this]
  have stop: "stop = cursor + 96 + length message + length (concat buffers')" using IH by blast
  have head: "subarray cursor 32 (pre @ concat buffers) = publicKey signer
      \<and> subarray (cursor + 96) (length message) (pre @ concat buffers) = message" if "length pre = cursor" for pre
    using that lens subarray_middle [of pre "publicKey signer" "?sig @ message @ concat buffers'"]
      subarray_middle [of "pre @ publicKey signer @ ?sig" message "concat buffers'"]
    by (simp add: buffers)
  have tail: "pre @ concat buffers = (pre @ publicKey signer @ ?sig @ message) @ concat buffers'" for pre
    by (simp add: buffers)
  show ?case
  proof (intro conjI allI impI)
    show "length rows = length (entry # entries)" using IH rows by simp
    show "stop = cursor + length (concat buffers)" using stop lens by (simp add: buffers)
    show "\<forall>row \<in> set rows. row_ok row" if "stop \<le> 65535"
      using IH that stop by (auto simp: rows row_ok_def)
    fix i
    assume i: "i < length (entry # entries)"
    show "0 \<le> publicKeyOffset (rows ! i)" "0 \<le> messageOffset (rows ! i)"
      "nat (publicKeyOffset (rows ! i)) + 32 \<le> stop"
      "nat (messageOffset (rows ! i)) + length (snd ((entry # entries) ! i)) \<le> stop"
      "messageLength (rows ! i) = int (length (snd ((entry # entries) ! i)))"
      using i IH stop by (cases i; simp add: rows entry nat_add_distrib)+
    fix pre :: bytes
    assume pre: "length pre = cursor"
    have "length (pre @ publicKey signer @ ?sig @ message) = cursor + 96 + length message"
      using pre lens by simp
    with i IH head [OF pre]
    show "subarray (nat (publicKeyOffset (rows ! i))) 32 (pre @ concat buffers) = publicKey (fst ((entry # entries) ! i))"
      "subarray (nat (messageOffset (rows ! i))) (length (snd ((entry # entries) ! i))) (pre @ concat buffers) = snd ((entry # entries) ! i)"
      by (cases i; simp add: rows entry tail nat_add_distrib del: append_assoc concat.simps)+
  qed
qed simp

lemma collected_size:
  assumes "collectEntries cryptoSign entries cursor = (buffers, rows, stop)"
    and "\<forall>(signer, message) \<in> set entries. length (publicKey signer) = 32
      \<and> length (signEd25519Message cryptoSign message signer) = 64"
  shows "stop = cursor + 96 * length entries + sum_list (map (\<lambda>e. length (snd e)) entries)"
  using assms
proof (induction entries arbitrary: cursor buffers rows stop)
  case (Cons entry entries)
  obtain signer message where entry: "entry = (signer, message)" by force
  obtain b r where "collectEntries cryptoSign entries (cursor + 96 + length message) = (b, r, stop)"
    using Cons.prems(1) by (auto simp: entry Let_def add.assoc split: prod.splits)
  from Cons.IH [OF this] Cons.prems(2) show ?case by (auto simp: entry)
qed simp

lemma instruction_by_splices:
  assumes "length z = 2 + 14 * length rows + length body"
  shows "splice (2 + 14 * length rows) body (splice 2 (concat (map row_bytes rows))
      (splice 0 [word_of_nat (length rows), 0] z)) = instruction_bytes rows body"
proof -
  let ?h = "[word_of_nat (length rows), 0] :: bytes" and ?r = "concat (map row_bytes rows)"
  have "splice 2 ?r (splice 0 ?h z) = splice 0 (?h @ ?r) z"
    using assms by (intro splice_next) (simp_all add: length_rows)
  moreover have "splice (2 + 14 * length rows) body (splice 0 (?h @ ?r) z) = splice 0 ((?h @ ?r) @ body) z"
    using assms by (intro splice_next) (simp_all add: length_rows)
  moreover have "splice 0 ((?h @ ?r) @ body) z = (?h @ ?r) @ body"
    using assms by (intro splice_all) (simp add: length_rows)
  ultimately show ?thesis by (simp add: instruction_bytes_def)
qed

lemma unat_u16: "0 \<le> v \<Longrightarrow> v \<le> 65535 \<Longrightarrow> unat (word_of_int v :: u16) = nat v"
  by (simp add: unat_eq_nat_uint uint_word_of_int)

text \<open>Reading a signer and its message through the offsets of a row.\<close>

lemma extract_row:
  assumes "row_ok row" "nat (publicKeyOffset row) + 32 \<le> length data"
    and "nat (messageOffset row) + nat (messageLength row) \<le> length data"
  shows "extract_pubkey data (offsets_of row) = Inr (subarray (nat (publicKeyOffset row)) 32 data)"
    and "extract_message data (offsets_of row) =
      Inr (subarray (nat (messageOffset row)) (nat (messageLength row)) data)"
  using assms
  by (simp_all add: extract_pubkey_def extract_message_def offsets_of_def row_ok_def unat_u16 Let_def)

lemma extract_row_nat:
  assumes "row = \<lparr>signatureOffset = s, publicKeyOffset = int p, messageOffset = int q, messageLength = int l\<rparr>"
    and "row_ok row" "p + 32 \<le> length data" "q + l \<le> length data"
  shows "extract_pubkey data (offsets_of row) = Inr (subarray p 32 data)"
    and "extract_message data (offsets_of row) = Inr (subarray q l data)"
  using extract_row [OF assms(2), of data] assms by simp_all

text \<open>The second builder: the loop writes the rows and, next to each other, the keys and signatures.\<close>

definition shared_rows :: "nat \<Rightarrow> nat \<Rightarrow> nat \<Rightarrow> signature_row list" where
  "shared_rows h n len = map (\<lambda>i.
     \<lparr>signatureOffset = int (h + i * 96 + 32), publicKeyOffset = int (h + i * 96),
      messageOffset = int (h + n * 96), messageLength = int len\<rparr>) [0..<n]"

lemma length_key_blocks:
  "\<forall>k \<in> set ks. length (f k) = 96 \<Longrightarrow> length (concat (map f ks)) = length ks * 96"
  by (induction ks) auto

lemma shared_loop:
  assumes "\<forall>k \<in> set signers. length (publicKey k) = 32 \<and> length (signEd25519Message cryptoSign message k) = 64"
    and "n = length signers" "h = 2 + 14 * n" "h + n * 96 + length message \<le> 65535"
    and "length z = h + n * 96 + length message" "k \<le> n"
  shows "foldR (\<lambda>i data.
          let publicKeyOffset = h + i * 96; signatureOffset = publicKeyOffset + 32;
              signature = signEd25519Message cryptoSign message (signers ! i) in
          bindR (writeRow (int (2 + i * 14))
            \<lparr>signatureOffset = int signatureOffset, publicKeyOffset = int publicKeyOffset,
             messageOffset = int (h + n * 96), messageLength = int (length message)\<rparr> data) (\<lambda>data.
          Inr (js_copy signature signatureOffset (js_copy (publicKey (signers ! i)) publicKeyOffset data))))
        [0..<k] z =
    Inr (splice h (concat (map (\<lambda>s. publicKey s @ signEd25519Message cryptoSign message s) (take k signers)))
      (splice 2 (concat (map row_bytes (take k (shared_rows h n (length message))))) z))"
  (is "foldR ?F [0..<k] z = Inr (splice h (?B k) (splice 2 (?R k) z))")
  using assms(6)
proof (induction k)
  case (Suc k)
  let ?row = "\<lparr>signatureOffset = int (h + k * 96 + 32), publicKeyOffset = int (h + k * 96),
             messageOffset = int (h + n * 96), messageLength = int (length message)\<rparr>"
  let ?key = "publicKey (signers ! k)" and ?sig = "signEd25519Message cryptoSign message (signers ! k)"
  have k: "k < n" using Suc.prems by simp
  then have "signers ! k \<in> set signers" using assms(2) by simp
  then have lens: "length ?key = 32" "length ?sig = 64" using assms(1) by auto
  have kn: "k * 96 + 96 \<le> n * 96" using k by simp
  have "\<forall>s \<in> set (take k signers). length (publicKey s @ signEd25519Message cryptoSign message s) = 96"
    using assms(1) by (auto dest: in_set_takeD)
  then have B: "length (?B k) = k * 96"
    using length_key_blocks [of "take k signers" "\<lambda>s. publicKey s @ signEd25519Message cryptoSign message s"] assms(2) k
    by simp
  have BS: "?B (Suc k) = ?B k @ ?key @ ?sig"
    using k assms(2) by (simp add: take_Suc_conv_app_nth)
  have R: "length (?R k) = k * 14"
    using length_rows [of "take k (shared_rows h n (length message))"] k by (simp add: shared_rows_def)
  have RS: "?R (Suc k) = ?R k @ row_bytes ?row"
    using k by (simp add: take_Suc_conv_app_nth shared_rows_def)
  have size: "2 + k * 14 + 14 \<le> h" "h + k * 96 + 96 \<le> length z" "h \<le> length z"
    using k kn assms(3,5) by simp_all
  have row: "row_ok ?row" using assms(4) kn by (simp add: row_ok_def)
  let ?D = "splice h (?B k) (splice 2 (?R k) z)"
  have D: "length ?D = length z" using size R B by simp
  have "writeRow (int (2 + k * 14)) ?row ?D = Inr (splice (2 + k * 14) (row_bytes ?row) ?D)"
    using row D size by (intro writeRow_ok) simp_all
  moreover have "splice (2 + k * 14) (row_bytes ?row) ?D =
      splice h (?B k) (splice (2 + k * 14) (row_bytes ?row) (splice 2 (?R k) z))"
    using size R B by (intro splice_commute) simp_all
  moreover have "splice (2 + k * 14) (row_bytes ?row) (splice 2 (?R k) z) = splice 2 (?R (Suc k)) z"
    unfolding RS using size R by (intro splice_next) simp_all
  moreover have "js_copy ?sig (h + k * 96 + 32) (js_copy ?key (h + k * 96) (splice h (?B k) (splice 2 (?R (Suc k)) z))) =
      splice h (?B (Suc k)) (splice 2 (?R (Suc k)) z)"
  proof -
    have len: "length (splice 2 (?R (Suc k)) z) = length z"
      unfolding RS using size R by simp
    have "splice (h + k * 96) ?key (splice h (?B k) (splice 2 (?R (Suc k)) z)) =
        splice h (?B k @ ?key) (splice 2 (?R (Suc k)) z)"
      using B lens size len by (intro splice_next) simp_all
    moreover have "splice (h + k * 96 + 32) ?sig (splice h (?B k @ ?key) (splice 2 (?R (Suc k)) z)) =
        splice h ((?B k @ ?key) @ ?sig) (splice 2 (?R (Suc k)) z)"
      using B lens size len by (intro splice_next) simp_all
    ultimately show ?thesis using B lens size len by (simp add: js_copy_def BS)
  qed
  ultimately have step: "?F k ?D = Inr (splice h (?B (Suc k)) (splice 2 (?R (Suc k)) z))"
    by (simp only: Let_def bindR_Inr)
  have "foldR ?F [0..<Suc k] z = bindR (foldR ?F [0..<k] z) (foldR ?F [k])"
    by (simp only: upt_Suc zero_le if_True foldR_append)
  also have "\<dots> = foldR ?F [k] ?D" using Suc.IH k by (simp only: less_imp_le bindR_Inr)
  also have "\<dots> = bindR (?F k ?D) Inr" by (simp only: foldR.simps foldR_Nil_fun)
  finally show ?case by (simp only: step bindR_Inr)
qed simp

lemma multisig_bytes:
  assumes "\<forall>k \<in> set signers. length (publicKey k) = 32 \<and> length (signEd25519Message cryptoSign message k) = 64"
    and "n = length signers" "2 + 14 * n + n * 96 + length message \<le> 65535"
  shows "createMultiSigEd25519Instruction cryptoSign signers message =
    Inr (instruction_bytes (shared_rows (2 + 14 * n) n (length message))
      (concat (map (\<lambda>s. publicKey s @ signEd25519Message cryptoSign message s) signers) @ message))"
proof -
  let ?h = "2 + 14 * n" and ?rows = "shared_rows (2 + 14 * n) n (length message)"
  let ?B = "concat (map (\<lambda>s. publicKey s @ signEd25519Message cryptoSign message s) signers)"
  let ?z = "splice 0 [word_of_nat n, 0] (replicate (?h + n * 96 + length message) 0) :: bytes"
  have z: "length ?z = ?h + n * 96 + length message" by simp
  have rows: "length ?rows = n" by (simp add: shared_rows_def)
  have B: "length ?B = n * 96"
    using length_key_blocks [of signers "\<lambda>s. publicKey s @ signEd25519Message cryptoSign message s"] assms(1,2)
    by simp
  note loop = shared_loop [OF assms(1,2) refl assms(3) z le_refl]
  have all: "take n signers = signers" "take n ?rows = ?rows" using assms(2) rows by simp_all
  have R: "length (concat (map row_bytes ?rows)) = 14 * n" using length_rows [of ?rows] rows by simp
  have "splice (?h + n * 96) message (splice ?h ?B (splice 2 (concat (map row_bytes ?rows)) ?z)) =
      splice ?h (?B @ message) (splice 2 (concat (map row_bytes ?rows)) ?z)"
    using B R by (intro splice_next) simp_all
  also have "\<dots> = instruction_bytes ?rows (?B @ message)"
    using instruction_by_splices [of "replicate (?h + n * 96 + length message) 0" ?rows "?B @ message"] rows B
    by simp
  finally have final: "js_copy message (?h + n * 96) (splice ?h ?B (splice 2 (concat (map row_bytes ?rows)) ?z)) =
      instruction_bytes ?rows (?B @ message)"
    using B R by (simp add: js_copy_def)
  show ?thesis
    unfolding createMultiSigEd25519Instruction_def Let_def assms(2) [symmetric] loop [unfolded Let_def all] bindR_Inr
    by (simp only: final)
qed

section \<open>Properties\<close>

text \<open>
  C17: From the instruction the client builds for several signers of one message, the program extracts
  exactly these signers, in order, and the message (as long as the instruction stays below 64 KiB).
\<close>

theorem multisig_extracted:
  assumes "signers \<noteq> []" "length signers < 256"
    and "\<forall>k \<in> set signers. length (publicKey k) = 32 \<and> length (signEd25519Message cryptoSign message k) = 64"
    and "2 + 110 * length signers + length message \<le> 65535"
  shows "\<exists>data. createMultiSigEd25519Instruction cryptoSign signers message = Inr data
    \<and> verify_and_extract_all_signatures data = Inr (map publicKey signers, message)"
proof -
  let ?n = "length signers"
  let ?rows = "shared_rows (2 + 14 * ?n) ?n (length message)"
  let ?f = "\<lambda>s. publicKey s @ signEd25519Message cryptoSign message s"
  let ?data = "instruction_bytes ?rows (concat (map ?f signers) @ message)"
  have rows: "length ?rows = ?n" by (simp add: shared_rows_def)
  have B: "length (concat (map ?f signers)) = ?n * 96"
    using length_key_blocks [of signers ?f] assms(3) by simp
  have ok: "\<forall>row \<in> set ?rows. row_ok row"
    using assms(4) by (auto simp: shared_rows_def row_ok_def)
  have len: "length ?data = 2 + 110 * ?n + length message"
    using length_rows [of ?rows] rows B by (simp add: instruction_bytes_def)
  have count: "unat (?data ! 0) = ?n"
    using assms(2) rows by (simp add: instruction_bytes_def unat_count)
  have parsed: "parse_ed25519_offsets ?data i = Inr (offsets_of (?rows ! i))" if "i < ?n" for i
    using offsets_parsed [OF ok, of i "concat (map ?f signers) @ message"] that rows assms(2) by simp
  have message: "extract_message ?data (offsets_of (?rows ! i)) = Inr message"
    and signer: "extract_pubkey ?data (offsets_of (?rows ! i)) = Inr (publicKey (signers ! i))" if i: "i < ?n" for i
  proof -
    have row: "?rows ! i = \<lparr>signatureOffset = int (2 + 14 * ?n + i * 96 + 32), publicKeyOffset = int (2 + 14 * ?n + i * 96),
      messageOffset = int (2 + 14 * ?n + ?n * 96), messageLength = int (length message)\<rparr>"
      using i by (simp add: shared_rows_def)
    have row_i: "row_ok (?rows ! i)" using ok i rows by simp
    have i96: "i * 96 + 96 \<le> ?n * 96" using i by simp
    let ?head = "[word_of_nat ?n, 0] @ concat (map row_bytes ?rows) :: bytes"
    have head: "length ?head = 2 + 14 * ?n" using length_rows [of ?rows] rows by simp
    have data: "?data = ?head @ concat (map ?f signers) @ message" using rows by (simp add: instruction_bytes_def)
    have "subarray (2 + 14 * ?n + ?n * 96) (length message) ?data = message"
      using subarray_middle [of "?head @ concat (map ?f signers)" message "[]"] head B data by simp
    moreover have "2 + 14 * ?n + i * 96 + 32 \<le> length ?data" "2 + 14 * ?n + ?n * 96 + length message \<le> length ?data"
      using len i96 by simp_all
    note extracted = extract_row_nat [OF row row_i this]
    ultimately show "extract_message ?data (offsets_of (?rows ! i)) = Inr message"
      by (simp only: extracted)
    have split: "concat (map ?f signers) = concat (map ?f (take i signers)) @ publicKey (signers ! i) @
        (signEd25519Message cryptoSign message (signers ! i) @ concat (map ?f (drop (Suc i) signers)))"
      using i by (subst id_take_nth_drop [of i signers]) simp_all
    have "\<forall>s \<in> set (take i signers). length (?f s) = 96" using assms(3) by (auto dest: in_set_takeD)
    then have "length (concat (map ?f (take i signers))) = i * 96"
      using length_key_blocks [of "take i signers" ?f] i by simp
    moreover have "length (publicKey (signers ! i)) = 32" using assms(3) i by simp
    ultimately have place: "length (?head @ concat (map ?f (take i signers))) = 2 + 14 * ?n + i * 96"
      "length (publicKey (signers ! i)) = 32" using head by simp_all
    have data_i: "?data = (?head @ concat (map ?f (take i signers))) @ publicKey (signers ! i) @
        (signEd25519Message cryptoSign message (signers ! i) @ concat (map ?f (drop (Suc i) signers)) @ message)"
      unfolding data by (subst split) (simp only: append_assoc)
    have "subarray (2 + 14 * ?n + i * 96) 32 ?data = publicKey (signers ! i)"
      unfolding data_i using subarray_middle [of "?head @ concat (map ?f (take i signers))" "publicKey (signers ! i)"] place
      by (simp only:)
    then show "extract_pubkey ?data (offsets_of (?rows ! i)) = Inr (publicKey (signers ! i))"
      by (simp only: extracted)
  qed
  have first: "0 < ?n" using assms(1) by simp
  define d where "d = ?data"
  define rs where "rs = ?rows"
  note at = parsed [folded d_def, folded rs_def] message [folded d_def, folded rs_def]
    signer [folded d_def, folded rs_def]
  have others: "mapR (\<lambda>i. bindR (parse_ed25519_offsets d i) (\<lambda>offsets.
         bindR (extract_message d offsets) (\<lambda>candidate.
         requireR (candidate = message) InvalidEd25519Data (extract_pubkey d offsets)))) [1..<?n] =
      Inr (map (\<lambda>i. publicKey (signers ! i)) [1..<?n])"
    by (rule mapR_Inr) (simp add: at)
  have "publicKey (signers ! 0) # map (\<lambda>i. publicKey (signers ! i)) [1..<?n] = map publicKey signers"
    using first by (intro nth_equalityI) (auto simp: nth_Cons' nth_append)
  then have "verify_and_extract_all_signatures d = Inr (map publicKey signers, message)"
    using len [folded d_def] count [folded d_def] first others at [OF first]
    by (simp add: verify_and_extract_all_signatures_def Let_def)
  then show ?thesis
    using multisig_bytes [OF assms(3) refl] assms(4) by (simp add: d_def)
qed

definition sample_key :: "byte \<Rightarrow> keypair" where
  "sample_key n = \<lparr>publicKey = replicate 32 n, secretKey = replicate 64 n\<rparr>"

theorem multisig_extracted_witness:
  "\<exists>data. createMultiSigEd25519Instruction (\<lambda>key m. replicate 64 1) [sample_key 3, sample_key 5] [10, 20, 30] = Inr data
    \<and> verify_and_extract_all_signatures data = Inr (map publicKey [sample_key 3, sample_key 5], [10, 20, 30])"
  by (rule multisig_extracted) (simp_all add: sample_key_def signEd25519Message_def)

lemma multi_message_bytes:
  assumes c: "collectEntries cryptoSign entries (2 + 14 * length entries) = (buffers, rows, stop)"
    and lens: "\<forall>(signer, message) \<in> set entries. length (publicKey signer) = 32
      \<and> length (signEd25519Message cryptoSign message signer) = 64"
    and "2 + 110 * length entries + sum_list (map (\<lambda>e. length (snd e)) entries) \<le> 65535"
  shows "createMultiMessageEd25519Instruction cryptoSign entries = Inr (instruction_bytes rows (concat buffers))"
    and "\<forall>row \<in> set rows. row_ok row" "length rows = length entries"
    and "stop = 2 + 110 * length entries + sum_list (map (\<lambda>e. length (snd e)) entries)"
    and "length (instruction_bytes rows (concat buffers)) = stop"
proof -
  let ?n = "length entries" and ?h = "2 + 14 * length entries"
  note facts = collected [OF c lens]
  show rows: "length rows = ?n" using facts by blast
  have stop: "stop = ?h + length (concat buffers)" using facts by blast
  show size: "stop = 2 + 110 * ?n + sum_list (map (\<lambda>e. length (snd e)) entries)"
    using collected_size [OF c lens] by simp
  then show ok: "\<forall>row \<in> set rows. row_ok row" using facts assms(3) by auto
  let ?z = "replicate stop 0 :: bytes"
  have R: "length (concat (map row_bytes rows)) = 14 * ?n" using length_rows [of rows] rows by simp
  have loop: "foldR (\<lambda>i data. writeRow (int (2 + i * 14)) (rows ! i) data) [0..<?n] (splice 0 [word_of_nat ?n, 0] ?z) =
      Inr (splice 2 (concat (map row_bytes rows)) (splice 0 [word_of_nat ?n, 0] ?z))"
    using rows_written [OF ok, of "splice 0 [word_of_nat ?n, 0] ?z"] rows stop by simp
  have "copyBuffers buffers ?h (splice 2 (concat (map row_bytes rows)) (splice 0 [word_of_nat ?n, 0] ?z)) =
      splice ?h (concat buffers) (splice 2 (concat (map row_bytes rows)) (splice 0 [word_of_nat ?n, 0] ?z))"
    using stop R by (intro copyBuffers_splice) simp
  also have "\<dots> = instruction_bytes rows (concat buffers)"
    using instruction_by_splices [of ?z rows "concat buffers"] rows stop by simp
  finally have copied: "copyBuffers buffers ?h (splice 2 (concat (map row_bytes rows)) (splice 0 [word_of_nat ?n, 0] ?z)) =
      instruction_bytes rows (concat buffers)" .
  show "createMultiMessageEd25519Instruction cryptoSign entries = Inr (instruction_bytes rows (concat buffers))"
    unfolding createMultiMessageEd25519Instruction_def Let_def c prod.case loop bindR_Inr copied by (rule refl)
  show "length (instruction_bytes rows (concat buffers)) = stop" using R stop by (simp add: instruction_bytes_def)
qed

lemma multi_message_read:
  assumes "length entries < 256" "i < length entries"
    and "\<forall>(signer, message) \<in> set entries. length (publicKey signer) = 32
      \<and> length (signEd25519Message cryptoSign message signer) = 64"
    and "2 + 110 * length entries + sum_list (map (\<lambda>e. length (snd e)) entries) \<le> 65535"
  shows "\<exists>data offsets. createMultiMessageEd25519Instruction cryptoSign entries = Inr data
    \<and> parse_ed25519_offsets data i = Inr offsets
    \<and> extract_pubkey data offsets = Inr (publicKey (fst (entries ! i)))
    \<and> extract_message data offsets = Inr (snd (entries ! i))"
proof -
  let ?n = "length entries" and ?h = "2 + 14 * length entries"
  obtain buffers rows stop where c: "collectEntries cryptoSign entries ?h = (buffers, rows, stop)"
    by (metis prod_cases3)
  note facts = collected [OF c assms(3)]
  note built = multi_message_bytes [OF c assms(3,4)]
  let ?data = "instruction_bytes rows (concat buffers)"
  have parsed: "parse_ed25519_offsets ?data i = Inr (offsets_of (rows ! i))"
    using offsets_parsed [OF built(2), of i "concat buffers"] assms(1,2) built(3) by simp
  let ?head = "[word_of_nat (length rows), 0] @ concat (map row_bytes rows) :: bytes"
  have data: "?data = ?head @ concat buffers" by (simp add: instruction_bytes_def)
  have head: "length ?head = ?h" using built(3) length_rows [of rows] by simp
  have row: "row_ok (rows ! i)" using built(2,3) assms(2) by simp
  from facts assms(2) head have at: "nat (publicKeyOffset (rows ! i)) + 32 \<le> stop"
    "nat (messageOffset (rows ! i)) + length (snd (entries ! i)) \<le> stop"
    "messageLength (rows ! i) = int (length (snd (entries ! i)))"
    "subarray (nat (publicKeyOffset (rows ! i))) 32 ?data = publicKey (fst (entries ! i))"
    "subarray (nat (messageOffset (rows ! i))) (length (snd (entries ! i))) ?data = snd (entries ! i)"
    unfolding data by blast+
  show ?thesis
    using built(1,5) parsed extract_row [OF row, of ?data] at by auto
qed

text \<open>
  C18: From the instruction the client builds for several signed messages, the program extracts for
  every index the signer and the message of that entry (below 64 KiB).
\<close>

theorem multi_message_extracted:
  assumes "length entries < 256" "i < length entries"
    and "\<forall>(signer, message) \<in> set entries. length (publicKey signer) = 32
      \<and> length (signEd25519Message cryptoSign message signer) = 64"
    and "2 + 110 * length entries + sum_list (map (\<lambda>e. length (snd e)) entries) \<le> 65535"
  shows "\<exists>data offsets. createMultiMessageEd25519Instruction cryptoSign entries = Inr data
    \<and> parse_ed25519_offsets data i = Inr offsets
    \<and> extract_pubkey data offsets = Inr (publicKey (fst (entries ! i)))
    \<and> extract_message data offsets = Inr (snd (entries ! i))"
  by (rule multi_message_read [OF assms])

theorem multi_message_extracted_witness:
  "\<exists>data offsets. createMultiMessageEd25519Instruction (\<lambda>key m. replicate 64 1) [(sample_key 3, [7, 8]), (sample_key 5, [9])] = Inr data
    \<and> parse_ed25519_offsets data 1 = Inr offsets
    \<and> extract_pubkey data offsets = Inr (publicKey (fst ([(sample_key 3, [7, 8 :: byte]), (sample_key 5, [9])] ! 1)))
    \<and> extract_message data offsets = Inr (snd ([(sample_key 3, [7, 8]), (sample_key 5, [9])] ! 1))"
  by (rule multi_message_extracted) (simp_all add: sample_key_def signEd25519Message_def)

end
