(* ===== verification/JsonText.thy ===== *)
theory JsonText
  imports Json Double
begin

text \<open>
  Reading text: \<open>String.prototype.trim\<close>, \<open>Number.parseInt\<close>, \<open>Number.parseFloat\<close> and \<open>JSON.parse\<close>, and the
  indented form of \<open>JSON.stringify\<close>. What is printed is read back. Strings are ASCII; the text of a
  \<open>SyntaxError\<close> is the engine's and is not modelled.
\<close>

section \<open>Numbers from text\<close>

text \<open>A double of the language: finite (the rational it denotes), infinite (negative or not) or \<open>NaN\<close>.\<close>

datatype js_double = Fin rat | Infin bool | NotANumber

text \<open>Rounding with the exponent range of IEEE 754: no unit below \<open>2 ^ -1074\<close>, no number from \<open>2 ^ 1024\<close>.\<close>

definition round_f64 :: "rat \<Rightarrow> rat" where
  "round_f64 x = (if x = 0 then 0 else
     let unit = 2 powi (max (exponent_of \<bar>x\<bar> - 52) (- 1074)) in of_int (half_even (x / unit)) * unit)"

definition to_number :: "rat \<Rightarrow> js_double" where
  "to_number q = (let r = round_f64 q in if \<bar>r\<bar> < 2 ^ 1024 then Fin r else Infin (r < 0))"

definition js_space :: "char \<Rightarrow> bool" where
  "js_space c \<longleftrightarrow> (let n = of_char c :: nat in n = 32 \<or> (9 \<le> n \<and> n \<le> 13))"

definition js_trim :: "string \<Rightarrow> string" where
  "js_trim s = rev (dropWhile js_space (rev (dropWhile js_space s)))"

definition scan_sign :: "string \<Rightarrow> bool \<times> string" where
  "scan_sign s = (case s of c # t \<Rightarrow> if c = CHR ''-'' then (True, t) else if c = CHR ''+'' then (False, t) else (False, s)
     | [] \<Rightarrow> (False, s))"

text \<open>An exponent part, taken only when a digit follows.\<close>

definition scan_exponent :: "string \<Rightarrow> int \<times> string" where
  "scan_exponent s = (case s of [] \<Rightarrow> (0, s) | c # t \<Rightarrow>
     if c = CHR ''e'' \<or> c = CHR ''E'' then
       case scan_sign t of (negative, u) \<Rightarrow>
         let ds = takeWhile is_digit u in
         if ds = [] then (0, s)
         else (if negative then - int (read_digits ds) else int (read_digits ds), dropWhile is_digit u)
     else (0, s))"

definition scan_fraction :: "string \<Rightarrow> string \<times> string" where
  "scan_fraction s = (case s of c # t \<Rightarrow> if c = CHR ''.'' then (takeWhile is_digit t, dropWhile is_digit t) else ([], s)
     | [] \<Rightarrow> ([], s))"

definition decimal_value :: "bool \<Rightarrow> string \<Rightarrow> string \<Rightarrow> int \<Rightarrow> rat" where
  "decimal_value negative whole fraction e =
     (if negative then -1 else 1) * of_nat (read_digits (whole @ fraction)) * 10 powi (e - int (length fraction))"

definition parseInt :: "string \<Rightarrow> js_double" where
  "parseInt raw = (case scan_sign (dropWhile js_space raw) of (negative, s) \<Rightarrow>
     let ds = takeWhile is_digit s in
     if ds = [] then NotANumber else to_number (decimal_value negative ds [] 0))"

definition parseFloat :: "string \<Rightarrow> js_double" where
  "parseFloat raw = (case scan_sign (dropWhile js_space raw) of (negative, s) \<Rightarrow>
     if prefix ''Infinity'' s then Infin negative else
     let whole = takeWhile is_digit s in
     case scan_fraction (dropWhile is_digit s) of (fraction, t) \<Rightarrow>
     if whole = [] \<and> fraction = [] then NotANumber
     else to_number (decimal_value negative whole fraction (fst (scan_exponent t))))"

definition isInteger :: "js_double \<Rightarrow> bool" where
  "isInteger d = (case d of Fin q \<Rightarrow> of_int (floor q) = q | _ \<Rightarrow> False)"

definition isFinite :: "js_double \<Rightarrow> bool" where
  "isFinite d = (case d of Fin _ \<Rightarrow> True | _ \<Rightarrow> False)"

text \<open>\<open>d < m\<close>; false for \<open>NaN\<close>.\<close>

definition js_less :: "js_double \<Rightarrow> rat \<Rightarrow> bool" where
  "js_less d m = (case d of Fin q \<Rightarrow> q < m | Infin negative \<Rightarrow> negative | NotANumber \<Rightarrow> False)"

section \<open>\<open>JSON.parse\<close>\<close>

datatype jsv = VNull | VBool bool | VNumber js_double | VText string | VArray "jsv list" | VObject "(string \<times> jsv) list"

text \<open>Later members of an object replace earlier ones of the same name, in their place.\<close>

definition set_member :: "string \<Rightarrow> jsv \<Rightarrow> (string \<times> jsv) list \<Rightarrow> (string \<times> jsv) list" where
  "set_member name v members =
     (if name \<in> set (map fst members) then map (\<lambda>m. if fst m = name then (name, v) else m) members
      else members @ [(name, v)])"

definition json_space :: "char \<Rightarrow> bool" where
  "json_space c \<longleftrightarrow> c \<in> {CHR '' '', CHR 0x09, CHR 0x0A, CHR 0x0D}"

abbreviation skip :: "string \<Rightarrow> string" where
  "skip \<equiv> dropWhile json_space"

definition hex_value :: "char \<Rightarrow> nat option" where
  "hex_value c = (let n = of_char c :: nat in
     if 48 \<le> n \<and> n \<le> 57 then Some (n - 48) else if 97 \<le> n \<and> n \<le> 102 then Some (n - 87)
     else if 65 \<le> n \<and> n \<le> 70 then Some (n - 55) else None)"

definition unescape :: "char \<Rightarrow> char option" where
  "unescape c = (if c \<in> {CHR 0x22, CHR 0x5C, CHR ''/''} then Some c
     else if c = CHR ''b'' then Some (CHR 0x08) else if c = CHR ''f'' then Some (CHR 0x0C)
     else if c = CHR ''n'' then Some (CHR 0x0A) else if c = CHR ''r'' then Some (CHR 0x0D)
     else if c = CHR ''t'' then Some (CHR 0x09) else None)"

text \<open>The rest of a string literal. An escaped code unit above 255 is outside the strings of the model.\<close>

fun parse_chars :: "string \<Rightarrow> (string \<times> string) option" where
  "parse_chars [] = None"
| "parse_chars (c # s) =
     (if c = CHR 0x22 then Some ([], s)
      else if c = CHR 0x5C then
        (case s of
          [] \<Rightarrow> None
        | e # s' \<Rightarrow>
            if e = CHR ''u'' then
              (case s' of
                a # b # x # y # s'' \<Rightarrow>
                  (case (hex_value a, hex_value b, hex_value x, hex_value y) of
                    (Some p, Some q, Some m, Some n) \<Rightarrow>
                      map_option (\<lambda>(t, rest). (char_of (4096 * p + 256 * q + 16 * m + n) # t, rest)) (parse_chars s'')
                  | _ \<Rightarrow> None)
              | _ \<Rightarrow> None)
            else (case unescape e of None \<Rightarrow> None
              | Some d \<Rightarrow> map_option (\<lambda>(t, rest). (d # t, rest)) (parse_chars s')))
      else if of_char c < (32 :: nat) then None
      else map_option (\<lambda>(t, rest). (c # t, rest)) (parse_chars s))"

text \<open>A number literal: no leading zeros, digits on both sides of the point.\<close>

definition parse_number :: "string \<Rightarrow> (jsv \<times> string) option" where
  "parse_number s =
     (let negative = (case s of c # _ \<Rightarrow> c = CHR ''-'' | [] \<Rightarrow> False); t = (if negative then tl s else s);
          ds = takeWhile is_digit t; whole = (if take 1 ds = ''0'' then ''0'' else ds); u = drop (length whole) t in
      if whole = [] then None else
      case scan_fraction u of (fraction, v) \<Rightarrow>
      if v \<noteq> u \<and> fraction = [] then None else
      case scan_exponent v of (e, rest) \<Rightarrow>
      if rest = v \<and> (case v of c # _ \<Rightarrow> c = CHR ''e'' \<or> c = CHR ''E'' | [] \<Rightarrow> False) then None
      else Some (VNumber (to_number (decimal_value negative whole fraction e)), rest))"

fun literal :: "(string \<times> jsv) list \<Rightarrow> string \<Rightarrow> (jsv \<times> string) option" where
  "literal [] s = None"
| "literal ((name, v) # names) s = (if prefix name s then Some (v, drop (length name) s) else literal names s)"

text \<open>The fuel bounds the depth of the calls; \<open>parse_json\<close> gives more than any text can use.\<close>

fun parse_value :: "nat \<Rightarrow> string \<Rightarrow> (jsv \<times> string) option"
  and parse_items :: "nat \<Rightarrow> string \<Rightarrow> (jsv list \<times> string) option"
  and parse_members :: "nat \<Rightarrow> (string \<times> jsv) list \<Rightarrow> string \<Rightarrow> (jsv \<times> string) option" where
  "parse_value 0 s = None"
| "parse_value (Suc k) s =
     (case skip s of
       [] \<Rightarrow> None
     | c # t \<Rightarrow>
         if c = CHR ''{'' then
           (case skip t of [] \<Rightarrow> None
            | d # u \<Rightarrow> if d = CHR ''}'' then Some (VObject [], u) else parse_members k [] (d # u))
         else if c = CHR ''['' then
           (case skip t of [] \<Rightarrow> None
            | d # u \<Rightarrow> if d = CHR '']'' then Some (VArray [], u)
                else map_option (\<lambda>(vs, rest). (VArray vs, rest)) (parse_items k (d # u)))
         else if c = CHR 0x22 then map_option (\<lambda>(text, rest). (VText text, rest)) (parse_chars t)
         else if is_digit c \<or> c = CHR ''-'' then parse_number (c # t)
         else literal [(''true'', VBool True), (''false'', VBool False), (''null'', VNull)] (c # t))"
| "parse_items 0 s = None"
| "parse_items (Suc k) s =
     (case parse_value k s of None \<Rightarrow> None
      | Some (v, r) \<Rightarrow>
         (case skip r of [] \<Rightarrow> None
          | c # t \<Rightarrow> if c = CHR '','' then map_option (\<lambda>(vs, rest). (v # vs, rest)) (parse_items k t)
              else if c = CHR '']'' then Some ([v], t) else None))"
| "parse_members 0 members s = None"
| "parse_members (Suc k) members s =
     (case skip s of [] \<Rightarrow> None
      | c # t \<Rightarrow> if c \<noteq> CHR 0x22 then None else
         (case parse_chars t of None \<Rightarrow> None
          | Some (name, r) \<Rightarrow>
             (case skip r of [] \<Rightarrow> None
              | d # u \<Rightarrow> if d \<noteq> CHR '':'' then None else
                 (case parse_value k u of None \<Rightarrow> None
                  | Some (v, r') \<Rightarrow>
                     let members' = set_member name v members in
                     (case skip r' of [] \<Rightarrow> None
                      | e # w \<Rightarrow> if e = CHR '','' then parse_members k members' w
                          else if e = CHR ''}'' then Some (VObject members', w) else None)))))"

declare parse_value.simps [simp del] parse_items.simps [simp del] parse_members.simps [simp del]

definition parse_json :: "string \<Rightarrow> jsv option" where
  "parse_json s = (case parse_value (2 * length s + 2) s of
     Some (v, rest) \<Rightarrow> if skip rest = [] then Some v else None | None \<Rightarrow> None)"

definition syntaxError :: "'a js" where
  "syntaxError = Inl (JsError ''SyntaxError'' ''invalid JSON'')"

definition JSON_parse :: "string \<Rightarrow> jsv js" where
  "JSON_parse s = (case parse_json s of None \<Rightarrow> syntaxError | Some v \<Rightarrow> Inr v)"

text \<open>\<open>value.name\<close>, of a value that need not be an object; reading a property of \<open>null\<close> throws.\<close>

definition member_of :: "jsv \<Rightarrow> string \<Rightarrow> jsv option" where
  "member_of v name = (case v of VObject members \<Rightarrow> map_of members name | _ \<Rightarrow> None)"

section \<open>The indented form\<close>

definition indent :: "nat \<Rightarrow> string" where
  "indent n = CHR 0x0A # replicate n (CHR '' '')"

text \<open>Members that are not \<open>undefined\<close>, the form of a value with its layout, and \<open>JSON.stringify(value, null, 2)\<close>.\<close>

fun render :: "(nat \<Rightarrow> string) \<Rightarrow> string \<Rightarrow> nat \<Rightarrow> json \<Rightarrow> string" where
  "render gap colon n JsonNull = ''null''"
| "render gap colon n (JsonBool b) = (if b then ''true'' else ''false'')"
| "render gap colon n (JsonNumber m) = show_int m"
| "render gap colon n (JsonText s) = json_string s"
| "render gap colon n (JsonArray items) =
     (if items = [] then ''[]''
      else ''['' @ joined (CHR '','') (map (\<lambda>j. gap (n + 2) @ render gap colon (n + 2) j) items) @ gap n @ '']'')"
| "render gap colon n (JsonObject members) =
     (let parts = concat (map (\<lambda>(name, v). case v of None \<Rightarrow> []
        | Some j \<Rightarrow> [gap (n + 2) @ json_string name @ colon @ render gap colon (n + 2) j]) members) in
      if parts = [] then ''{}'' else ''{'' @ joined (CHR '','') parts @ gap n @ ''}'')"

definition pretty :: "json \<Rightarrow> string" where
  "pretty = render indent '': '' 0"

section \<open>What is printed is read back\<close>

lemma joined_simps [simp]:
  "joined c [] = []" "joined c [x] = x" "joined c (x # y # xs) = x @ c # joined c (y # xs)"
  by (simp_all add: joined_def)

lemma stringify_render: "stringify j = render (\<lambda>_. []) '':'' n j"
proof (induction j arbitrary: n rule: stringify.induct)
  case (5 items)
  have "map stringify items = map (render (\<lambda>_. []) '':'' (n + 2)) items"
    by (rule map_cong [OF refl]) (use 5 in simp)
  then have "map stringify items = map (\<lambda>j. [] @ render (\<lambda>_. []) '':'' (n + 2) j) items" by simp
  then show ?case by (simp only: stringify.simps render.simps) simp
next
  case (6 members)
  define P where "P = concat (map (\<lambda>(name, v). case v of None \<Rightarrow> []
    | Some j \<Rightarrow> [[] @ json_string name @ '':'' @ render (\<lambda>_. []) '':'' (n + 2) j]) members)"
  have same: "map (\<lambda>(name, v). case v of None \<Rightarrow> [] | Some j \<Rightarrow> [json_string name @ '':'' @ stringify j]) members =
    map (\<lambda>(name, v). case v of None \<Rightarrow> [] | Some j \<Rightarrow> [json_string name @ '':'' @ render (\<lambda>_. []) '':'' (n + 2) j]) members"
    by (rule map_cong [OF refl]) (use 6 in \<open>auto split: option.splits\<close>)
  have "stringify (JsonObject members) = ''{'' @ joined (CHR '','') P @ ''}''"
    unfolding P_def append_Nil same [symmetric] by simp
  moreover have "render (\<lambda>_. []) '':'' n (JsonObject members) =
      (if P = [] then ''{}'' else ''{'' @ joined (CHR '','') P @ [] @ ''}'')"
    by (simp only: render.simps Let_def P_def)
  ultimately show ?case by simp
qed simp_all

lemma hex_value_digit: "d < 16 \<Longrightarrow> hex_value (hex_digit d) = Some d"
  by (simp add: hex_value_def hex_digit_def Let_def)

lemma hex_value_zero: "hex_value (CHR ''0'') = Some 0"
  by (simp add: hex_value_def)

lemma escaped_codes:
  "char_of (34 :: nat) = CHR 0x22" "char_of (92 :: nat) = CHR 0x5C" "char_of (8 :: nat) = CHR 0x08"
  "char_of (9 :: nat) = CHR 0x09" "char_of (10 :: nat) = CHR 0x0A" "char_of (12 :: nat) = CHR 0x0C"
  "char_of (13 :: nat) = CHR 0x0D"
  by (simp_all add: char_of_def bit_0)

lemma parse_escaped: "of_char c < (32 :: nat) \<Longrightarrow>
    parse_chars (CHR 0x5C # ''u00'' @ hex_string [word_of_nat (of_char c)] @ t) =
    map_option (\<lambda>(u, rest). (c # u, rest)) (parse_chars t)"
  by (simp add: hex_string_def unat_of_nat hex_value_digit hex_value_zero)

lemma parse_char: "parse_chars (json_char c @ t) = map_option (\<lambda>(u, rest). (c # u, rest)) (parse_chars t)"
proof -
  define n where "n = (of_char c :: nat)"
  have c: "c = char_of n" by (simp add: n_def)
  consider "n = 34" | "n = 92" | "n = 8" | "n = 9" | "n = 10" | "n = 12" | "n = 13"
    | "n < 32" "n \<notin> {8, 9, 10, 12, 13}" | "32 \<le> n" "n \<noteq> 34" "n \<noteq> 92" by force
  then show ?thesis
  proof cases
    case 8
    then show ?thesis using parse_escaped [of c t] by (simp add: json_char_def Let_def n_def)
  next
    case 9
    then have "c \<noteq> CHR 0x22" "c \<noteq> CHR 0x5C" by (auto simp: n_def)
    with 9 show ?thesis by (simp add: json_char_def Let_def n_def)
  qed (simp_all add: c escaped_codes json_char_def unescape_def)
qed

lemma parse_string: "parse_chars (concat (map json_char s) @ CHR 0x22 # rest) = Some (s, rest)"
  by (induction s) (simp_all add: parse_char)

lemma round_f64_of_int: "\<bar>n\<bar> < 2 ^ 53 \<Longrightarrow> round_f64 (of_int n) = of_int n"
proof (cases "n = 0")
  case False
  assume n: "\<bar>n\<bar> < 2 ^ 53"
  have "1 \<le> \<bar>of_int n :: rat\<bar>" using False by (simp add: of_int_abs [symmetric] del: of_int_abs)
  then have "(2 :: rat) powi 0 < 2 powi (exponent_of \<bar>of_int n\<bar> + 1)"
    using exponent_of_bounds(2) [of "\<bar>of_int n :: rat\<bar>"] unfolding power_int_0_right by linarith
  then have "0 \<le> exponent_of \<bar>of_int n\<bar>"
    using power_int_increasing [of "exponent_of \<bar>of_int n\<bar> + 1" 0 "2 :: rat"] by force
  then have "round_f64 (of_int n) = round_dbl (of_int n)" by (simp add: round_f64_def round_dbl_def max_def)
  then show ?thesis using round_dbl_of_int [OF n] by simp
qed (simp add: round_f64_def)

lemma to_number_of_int: "\<bar>n\<bar> < 2 ^ 53 \<Longrightarrow> to_number (of_int n) = Fin (of_int n)"
proof -
  assume n: "\<bar>n\<bar> < 2 ^ 53"
  have "\<bar>n\<bar> < 2 ^ 1024" using n power_increasing [of 53 1024 "2 :: int"] by linarith
  then have "\<bar>of_int n :: rat\<bar> < of_int (2 ^ 1024)" by (simp only: of_int_abs [symmetric] of_int_less_iff)
  then have "\<bar>of_int n :: rat\<bar> < 2 ^ 1024" by (simp only: of_int_power of_int_numeral)
  then show ?thesis using round_f64_of_int [OF n] by (simp add: to_number_def Let_def del: of_int_abs)
qed


text \<open>What may follow a number: nothing that would continue it.\<close>

definition number_ends :: "string \<Rightarrow> bool" where
  "number_ends s \<longleftrightarrow> (case s of [] \<Rightarrow> True | c # _ \<Rightarrow> \<not> is_digit c \<and> c \<noteq> CHR ''.'' \<and> c \<noteq> CHR ''e'' \<and> c \<noteq> CHR ''E'')"

lemma takeWhile_number:
  assumes "\<And>c. c \<in> set ds \<Longrightarrow> is_digit c" "number_ends rest"
  shows "takeWhile is_digit (ds @ rest) = ds" "dropWhile is_digit (ds @ rest) = rest"
  using assms by (cases rest; auto simp: number_ends_def takeWhile_append2 dropWhile_append2)+

lemma digit_char_zero: "digit_char 0 = CHR ''0''"
  by (simp add: digit_char_def char_of_def bit_0)

lemma no_leading_zero: "take 1 (show_nat n) = ''0'' \<longleftrightarrow> n = 0"
proof (induction n rule: show_nat.induct)
  case (1 n)
  show ?case
  proof (cases "n < 10")
    case True
    then have "digit_char n = CHR ''0'' \<longleftrightarrow> n = 0"
      using digit_char_digit [of n] digit_char_zero by (auto simp: digit_value_def)
    with True show ?thesis by (subst show_nat.simps) simp
  next
    case False
    then have "take 1 (show_nat (n div 10)) = ''0'' \<longleftrightarrow> n div 10 = 0" using 1 by blast
    moreover have "take 1 (show_nat n) = take 1 (show_nat (n div 10))"
      using False by (subst show_nat.simps) (simp add: Suc_le_eq)
    ultimately show ?thesis using False by simp
  qed
qed

lemma show_nat_zero: "show_nat 0 = ''0''"
  by (simp add: show_nat.simps digit_char_zero)

lemma show_int_abs: "show_int m = (if m < 0 then CHR ''-'' # show_nat (nat \<bar>m\<bar>) else show_nat (nat \<bar>m\<bar>))"
  by (simp add: show_int_def)

lemma parse_number_int:
  assumes "\<bar>m\<bar> < 2 ^ 53" "number_ends rest"
  shows "parse_number (show_int m @ rest) = Some (VNumber (Fin (of_int m)), rest)"
proof -
  define ds where "ds = show_nat (nat \<bar>m\<bar>)"
  have digits: "\<forall>c \<in> set ds. is_digit c" and nonempty: "ds \<noteq> []" using show_nat_digits by (auto simp: ds_def)
  have printed: "show_int m = (if m < 0 then CHR ''-'' # ds else ds)" by (simp add: show_int_abs ds_def)
  have ends: "scan_fraction rest = ([], rest)" "scan_exponent rest = (0, rest)"
    using assms(2) by (auto simp: scan_fraction_def scan_exponent_def number_ends_def split: list.splits)
  have scanned: "takeWhile is_digit (ds @ rest) = ds" using digits assms(2) by (intro takeWhile_number) auto
  have whole: "(if take 1 ds = ''0'' then ''0'' else ds) = ds"
    using no_leading_zero [of "nat \<bar>m\<bar>"] show_nat_zero unfolding ds_def by metis
  obtain c cs where c: "ds = c # cs" using nonempty list.exhaust by blast
  then have "c \<noteq> CHR ''-''" using digits by (auto simp: is_digit_def)
  with c have first: "(case ds @ rest of c # _ \<Rightarrow> c = CHR ''-'' | [] \<Rightarrow> False) = False" by simp
  have stop: "(case rest of c # _ \<Rightarrow> c = CHR ''e'' \<or> c = CHR ''E'' | [] \<Rightarrow> False) = False"
    using assms(2) by (auto simp: number_ends_def split: list.splits)
  have "decimal_value (m < 0) ds [] 0 = of_int m" by (simp add: decimal_value_def ds_def)
  then have v: "to_number (decimal_value (m < 0) ds [] 0) = Fin (of_int m)" using to_number_of_int [OF assms(1)] by simp
  have negative: "(case show_int m @ rest of c # _ \<Rightarrow> c = CHR ''-'' | [] \<Rightarrow> False) = (m < 0)"
    using first by (simp add: printed)
  have body: "(if m < 0 then tl (show_int m @ rest) else show_int m @ rest) = ds @ rest" by (simp add: printed)
  show ?thesis
    unfolding parse_number_def Let_def negative body scanned whole
    using nonempty by (simp add: ends stop v)
qed

text \<open>The value a printed object stands for, and the objects that can be read back.\<close>

fun value_of :: "json \<Rightarrow> jsv" where
  "value_of JsonNull = VNull"
| "value_of (JsonBool b) = VBool b"
| "value_of (JsonNumber m) = VNumber (Fin (of_int m))"
| "value_of (JsonText s) = VText s"
| "value_of (JsonArray items) = VArray (map value_of items)"
| "value_of (JsonObject members) =
     VObject (concat (map (\<lambda>(name, v). case v of None \<Rightarrow> [] | Some j \<Rightarrow> [(name, value_of j)]) members))"

definition present :: "(string \<times> json option) list \<Rightarrow> (string \<times> json) list" where
  "present members = concat (map (\<lambda>(name, v). case v of None \<Rightarrow> [] | Some j \<Rightarrow> [(name, j)]) members)"

fun readable :: "json \<Rightarrow> bool" where
  "readable (JsonNumber m) = (\<bar>m\<bar> < 2 ^ 53)"
| "readable (JsonArray items) = (\<forall>j \<in> set items. readable j)"
| "readable (JsonObject members) =
     (distinct (map fst (present members)) \<and> (\<forall>(name, v) \<in> set members. \<forall>j. v = Some j \<longrightarrow> readable j))"
| "readable _ = True"

lemma present_simps [simp]:
  "present [] = []" "present ((name, None) # members) = present members"
  "present ((name, Some j) # members) = (name, j) # present members"
  by (simp_all add: present_def)

lemma value_of_object: "value_of (JsonObject members) = VObject (map (\<lambda>(name, j). (name, value_of j)) (present members))"
  by (induction members) (auto split: option.splits)

lemma render_object: "render gap colon n (JsonObject members) =
    (let parts = map (\<lambda>(name, j). gap (n + 2) @ json_string name @ colon @ render gap colon (n + 2) j) (present members) in
     if parts = [] then ''{}'' else ''{'' @ joined (CHR '','') parts @ gap n @ ''}'')"
proof -
  have "concat (map (\<lambda>(name, v). case v of None \<Rightarrow> []
        | Some j \<Rightarrow> [gap (n + 2) @ json_string name @ colon @ render gap colon (n + 2) j]) members) =
    map (\<lambda>(name, j). gap (n + 2) @ json_string name @ colon @ render gap colon (n + 2) j) (present members)"
    by (induction members) (auto split: option.splits)
  then show ?thesis by (simp only: render.simps)
qed

lemma set_present: "set (present members) = {(name, j). (name, Some j) \<in> set members}"
  by (force simp: present_def split: option.splits)

lemma readable_object: "readable (JsonObject members) \<longleftrightarrow>
    distinct (map fst (present members)) \<and> (\<forall>m \<in> set (present members). readable (snd m))"
  by (auto simp: set_present)


lemma punctuation [simp]:
  "\<not> json_space (CHR '','')" "\<not> json_space (CHR '']'')" "\<not> json_space (CHR ''}'')" "\<not> json_space (CHR 0x22)"
  "\<not> json_space (CHR '':'')" "\<not> json_space (CHR ''{'')" "\<not> json_space (CHR ''['')" "\<not> json_space (CHR ''-'')"
  by (simp_all add: json_space_def)

lemma skip_spaces: "\<forall>c \<in> set g. json_space c \<Longrightarrow> skip (g @ s) = skip s"
  by (induction g) simp_all

lemma parse_value_skip: "skip s = skip t \<Longrightarrow> parse_value k s = parse_value k t"
  by (cases k) (simp_all add: parse_value.simps)

lemma parse_items_skip: "skip s = skip t \<Longrightarrow> parse_items k s = parse_items k t"
proof (cases k)
  case (Suc k')
  assume "skip s = skip t"
  from parse_value_skip [OF this, of k'] show ?thesis by (simp add: Suc parse_items.simps)
qed (simp add: parse_items.simps)

lemma parse_members_skip: "skip s = skip t \<Longrightarrow> parse_members k ms s = parse_members k ms t"
  by (cases k) (simp_all add: parse_members.simps)

lemma skip_idem [simp]: "skip (skip s) = skip s"
  by (induction s) simp_all

lemma number_ends_gap:
  "\<forall>c \<in> set g. json_space c \<Longrightarrow> c \<in> {CHR '','', CHR '']'', CHR ''}''} \<Longrightarrow> number_ends (g @ c # s)"
proof (cases g)
  case (Cons d g')
  assume "\<forall>c \<in> set g. json_space c"
  then have "d \<in> {CHR '' '', CHR 0x09, CHR 0x0A, CHR 0x0D}" using Cons by (simp add: json_space_def)
  then show ?thesis by (elim insertE emptyE) (simp_all add: Cons number_ends_def is_digit_def)
next
  case Nil
  assume "c \<in> {CHR '','', CHR '']'', CHR ''}''}"
  then show ?thesis by (elim insertE emptyE) (simp_all add: Nil number_ends_def is_digit_def)
qed

text \<open>\<open>t\<close> is read as \<open>v\<close> wherever it stands, given fuel for its length.\<close>

definition reads_as :: "string \<Rightarrow> jsv \<Rightarrow> bool" where
  "reads_as t v \<longleftrightarrow> (\<forall>k rest. length t \<le> k \<longrightarrow> number_ends rest \<longrightarrow> parse_value k (t @ rest) = Some (v, rest))"

lemma items_parsed:
  assumes g: "\<forall>c \<in> set g. json_space c" "\<forall>c \<in> set g'. json_space c"
  shows "ps \<noteq> [] \<Longrightarrow> \<forall>(t, v) \<in> set ps. reads_as t v \<Longrightarrow> length (joined (CHR '','') (map (\<lambda>p. g' @ fst p) ps)) < k \<Longrightarrow>
    parse_items k (joined (CHR '','') (map (\<lambda>p. g' @ fst p) ps) @ g @ CHR '']'' # rest) = Some (map snd ps, rest)"
proof (induction ps arbitrary: k rule: list_nonempty_induct)
  case (single p)
  then obtain k' where k: "k = Suc k'" "length (fst p) \<le> k'" by (cases k) auto
  have "parse_value k' (g' @ fst p @ g @ CHR '']'' # rest) = parse_value k' (fst p @ g @ CHR '']'' # rest)"
    by (rule parse_value_skip) (rule skip_spaces [OF g(2)])
  also have "\<dots> = Some (snd p, g @ CHR '']'' # rest)"
    using single(1) k(2) number_ends_gap [OF g(1), of "CHR '']''" rest] by (simp add: reads_as_def case_prod_beta)
  finally show ?case using k(1) by (simp add: parse_items.simps skip_spaces [OF g(1)])
next
  case (cons p ps)
  let ?rest = "joined (CHR '','') (map (\<lambda>p. g' @ fst p) ps)"
  have shape: "joined (CHR '','') (map (\<lambda>p. g' @ fst p) (p # ps)) = g' @ fst p @ CHR '','' # ?rest"
    using cons.hyps by (cases ps) simp_all
  then obtain k' where k: "k = Suc k'" "length (fst p) \<le> k'" "length ?rest < k'"
    using cons.prems(2) by (cases k) auto
  have "parse_value k' (g' @ fst p @ CHR '','' # ?rest @ g @ CHR '']'' # rest) =
      parse_value k' (fst p @ CHR '','' # ?rest @ g @ CHR '']'' # rest)"
    by (rule parse_value_skip) (rule skip_spaces [OF g(2)])
  also have "\<dots> = Some (snd p, CHR '','' # ?rest @ g @ CHR '']'' # rest)"
    using cons.prems(1) k(2) number_ends_gap [of "[]" "CHR '',''"] by (simp add: reads_as_def case_prod_beta)
  finally have "parse_value k' (g' @ fst p @ CHR '','' # ?rest @ g @ CHR '']'' # rest) =
      Some (snd p, CHR '','' # ?rest @ g @ CHR '']'' # rest)" .
  moreover have "parse_items k' (?rest @ g @ CHR '']'' # rest) = Some (map snd ps, rest)"
    using cons.IH cons.prems(1) k(3) by simp
  ultimately show ?case unfolding shape k(1) by (simp add: parse_items.simps)
qed

lemma set_member_new: "name \<notin> set (map fst ms) \<Longrightarrow> set_member name v ms = ms @ [(name, v)]"
  by (simp add: set_member_def)

text \<open>The members of an object: the name, the text of the value, and the value.\<close>

definition member_text :: "string \<Rightarrow> string \<Rightarrow> string \<times> string \<times> jsv \<Rightarrow> string" where
  "member_text g' colon m = g' @ json_string (fst m) @ colon @ fst (snd m)"

lemma member_text_length: "length (fst (snd m)) < length (member_text g' colon m)"
  by (simp add: member_text_def json_string_def)

lemma member_parsed:
  assumes g: "\<forall>c \<in> set g'. json_space c" "colon = CHR '':'' # ws" "\<forall>c \<in> set ws. json_space c"
    and m: "reads_as (fst (snd m)) (snd (snd m))" "length (fst (snd m)) \<le> k" "number_ends s"
    and c: "skip s = d # u" "d \<in> {CHR '','', CHR ''}''}"
  shows "parse_members (Suc k) ms (member_text g' colon m @ s) =
    (let ms' = set_member (fst m) (snd (snd m)) ms in
     if d = CHR '','' then parse_members k ms' u else Some (VObject ms', u))"
proof -
  let ?v = "snd (snd m)" and ?t = "fst (snd m)"
  have "parse_value k (ws @ ?t @ s) = parse_value k (?t @ s)" by (rule parse_value_skip) (rule skip_spaces [OF g(3)])
  then have v: "parse_value k (ws @ ?t @ s) = Some (?v, s)" using m by (simp add: reads_as_def)
  have "skip (member_text g' colon m @ s) = CHR 0x22 # concat (map json_char (fst m)) @ CHR 0x22 # colon @ ?t @ s"
    using skip_spaces [OF g(1)] by (simp add: member_text_def json_string_def)
  then show ?thesis
    using c v by (auto simp: parse_members.simps parse_string g(2) Let_def)
qed

lemma members_parsed:
  assumes g: "\<forall>c \<in> set g. json_space c" "\<forall>c \<in> set g'. json_space c" "colon = CHR '':'' # ws" "\<forall>c \<in> set ws. json_space c"
  shows "ps \<noteq> [] \<Longrightarrow> \<forall>m \<in> set ps. reads_as (fst (snd m)) (snd (snd m)) \<Longrightarrow>
    length (joined (CHR '','') (map (member_text g' colon) ps)) < k \<Longrightarrow> distinct (map fst ms @ map fst ps) \<Longrightarrow>
    parse_members k ms (joined (CHR '','') (map (member_text g' colon) ps) @ g @ CHR ''}'' # rest) =
      Some (VObject (ms @ map (\<lambda>m. (fst m, snd (snd m))) ps), rest)"
proof (induction ps arbitrary: k ms rule: list_nonempty_induct)
  case (single p)
  then obtain k' where k: "k = Suc k'" "length (fst (snd p)) \<le> k'" by (cases k) (auto simp: member_text_def)
  have c: "skip (g @ CHR ''}'' # rest) = CHR ''}'' # rest" by (simp add: skip_spaces [OF g(1)])
  show ?case
    using member_parsed [OF g(2-4) _ k(2) number_ends_gap [OF g(1)] c] single.prems k(1)
    by (auto simp: set_member_new)
next
  case (cons p ps)
  let ?rest = "joined (CHR '','') (map (member_text g' colon) ps)"
  have shape: "joined (CHR '','') (map (member_text g' colon) (p # ps)) = member_text g' colon p @ CHR '','' # ?rest"
    using cons.hyps by (cases ps) simp_all
  then obtain k' where k: "k = Suc k'" "length (fst (snd p)) \<le> k'" "length ?rest < k'"
    using cons.prems(2) member_text_length [of p g' colon] unfolding shape by (cases k) auto
  have c: "skip (CHR '','' # ?rest @ g @ CHR ''}'' # rest) = CHR '','' # ?rest @ g @ CHR ''}'' # rest"
    by simp
  have "parse_members (Suc k') ms (member_text g' colon p @ CHR '','' # ?rest @ g @ CHR ''}'' # rest) =
      parse_members k' (set_member (fst p) (snd (snd p)) ms) (?rest @ g @ CHR ''}'' # rest)"
    using member_parsed [OF g(2-4) _ k(2) _ c, of ms] cons.prems(1) number_ends_gap [of "[]"] by simp
  also have "\<dots> = Some (VObject (set_member (fst p) (snd (snd p)) ms @ map (\<lambda>m. (fst m, snd (snd m))) ps), rest)"
    using cons.prems k(3) by (intro cons.IH) (auto simp: set_member_new)
  finally show ?case using cons.prems(3) unfolding shape k(1) by (simp add: set_member_new)
qed

lemma render_start: "\<exists>c t. render gap colon n j = c # t \<and> \<not> json_space c \<and> c \<noteq> CHR '']'' \<and> c \<noteq> CHR ''}''"
proof (cases j)
  case (JsonNumber m)
  obtain c cs where c: "show_nat (nat \<bar>m\<bar>) = c # cs" using show_nat_nonempty list.exhaust by blast
  then have "is_digit c" using show_nat_digits [of c "nat \<bar>m\<bar>"] by simp
  then have "\<not> json_space c \<and> c \<noteq> CHR '']'' \<and> c \<noteq> CHR ''}''" by (auto simp: is_digit_def json_space_def)
  then show ?thesis using c JsonNumber by (cases "m < 0") (auto simp: show_int_abs json_space_def)
qed (auto simp: json_string_def json_space_def render_object Let_def simp del: render.simps(6))

lemma reads_number: "\<bar>m\<bar> < 2 ^ 53 \<Longrightarrow> reads_as (show_int m) (VNumber (Fin (of_int m)))"
proof -
  assume m: "\<bar>m\<bar> < 2 ^ 53"
  obtain d ds where d: "show_nat (nat \<bar>m\<bar>) = d # ds" using show_nat_nonempty list.exhaust by blast
  then have digit: "is_digit d" using show_nat_digits [of d "nat \<bar>m\<bar>"] by simp
  then obtain c cs where c: "show_int m = c # cs" "is_digit c \<or> c = CHR ''-''"
    using d by (cases "m < 0") (auto simp: show_int_abs)
  then have other: "\<not> json_space c" "c \<noteq> CHR ''{''" "c \<noteq> CHR ''[''" "c \<noteq> CHR 0x22"
    by (auto simp: is_digit_def json_space_def)
  show ?thesis unfolding reads_as_def
  proof (intro allI impI)
    fix k rest assume k: "length (show_int m) \<le> k" and rest: "number_ends rest"
    obtain k' where "k = Suc k'" using k c(1) by (cases k) auto
    then show "parse_value k (show_int m @ rest) = Some (VNumber (Fin (of_int m)), rest)"
      using parse_number_int [OF m rest] c other by (auto simp: parse_value.simps)
  qed
qed

lemma reads_constant:
  "reads_as ''null'' VNull" "reads_as ''true'' (VBool True)" "reads_as ''false'' (VBool False)"
  "reads_as ''[]'' (VArray [])" "reads_as ''{}'' (VObject [])" "reads_as (json_string s) (VText s)"
proof -
  show "reads_as ''null'' VNull" "reads_as ''true'' (VBool True)" "reads_as ''false'' (VBool False)"
    "reads_as ''[]'' (VArray [])" "reads_as ''{}'' (VObject [])"
    unfolding reads_as_def by (auto dest!: Suc_le_D simp: parse_value.simps json_space_def is_digit_def)
  have "parse_value k (json_string s @ rest) = Some (VText s, rest)" if "length (json_string s) \<le> k" for k rest
    using that parse_string by (cases k) (simp_all add: parse_value.simps json_string_def)
  then show "reads_as (json_string s) (VText s)" by (simp add: reads_as_def)
qed

lemma render_read:
  assumes gap: "\<And>n. \<forall>c \<in> set (gap n). json_space c" and colon: "colon = CHR '':'' # ws" "\<forall>c \<in> set ws. json_space c"
  shows "readable j \<Longrightarrow> reads_as (render gap colon n j) (value_of j)"
proof (induction j arbitrary: n rule: value_of.induct)
  case (5 items)
  show ?case
  proof (cases "items = []")
    case False
    let ?ps = "map (\<lambda>j. (render gap colon (n + 2) j, value_of j)) items"
    let ?body = "joined (CHR '','') (map (\<lambda>p. gap (n + 2) @ fst p) ?ps)"
    have ps: "?ps \<noteq> []" "\<forall>(t, v) \<in> set ?ps. reads_as t v" using 5 False by auto
    have shape: "render gap colon n (JsonArray items) = CHR ''['' # ?body @ gap n @ [CHR '']'']"
      using False by (simp add: comp_def)
    obtain c t where start: "skip (?body @ gap n @ CHR '']'' # r) = c # t r" "c \<noteq> CHR '']''" for r
    proof -
      obtain j js where items: "items = j # js" using False by (cases items) auto
      obtain c t where c: "render gap colon (n + 2) j = c # t" "\<not> json_space c" "c \<noteq> CHR '']''"
        using render_start by blast
      have "\<exists>u. \<forall>r. skip (?body @ gap n @ CHR '']'' # r) = c # u r"
        using c by (cases js) (auto simp: items skip_spaces [OF gap])
      then show thesis using that c(3) by blast
    qed
    show ?thesis unfolding reads_as_def
    proof (intro allI impI)
      fix k rest assume "length (render gap colon n (JsonArray items)) \<le> k"
      then obtain k' where k: "k = Suc k'" "length ?body < k'" unfolding shape by (cases k) auto
      have "parse_items k' (c # t rest) = parse_items k' (?body @ gap n @ CHR '']'' # rest)"
        using start(1) [of rest, symmetric] by (intro parse_items_skip) simp
      also have "\<dots> = Some (map snd ?ps, rest)" by (rule items_parsed [OF gap gap ps k(2)])
      finally show "parse_value k (render gap colon n (JsonArray items) @ rest) = Some (value_of (JsonArray items), rest)"
        using start unfolding shape k(1) by (simp add: parse_value.simps comp_def)
    qed
  qed (simp add: reads_constant)
next
  case (6 members)
  show ?case
  proof (cases "present members = []")
    case False
    let ?ps = "map (\<lambda>(name, j). (name, render gap colon (n + 2) j, value_of j)) (present members)"
    let ?body = "joined (CHR '','') (map (member_text (gap (n + 2)) colon) ?ps)"
    have ps: "?ps \<noteq> []" "distinct (map fst ([] :: (string \<times> jsv) list) @ map fst ?ps)"
      using 6(2) False unfolding readable_object by (simp_all add: comp_def case_prod_beta)
    have "reads_as (render gap colon (n + 2) j) (value_of j)" if "(name, j) \<in> set (present members)" for name j
      using 6(1) [of "(name, Some j)" name "Some j" j "n + 2"] 6(2) that unfolding readable_object
      by (auto simp: set_present)
    then have good: "\<forall>m \<in> set ?ps. reads_as (fst (snd m)) (snd (snd m))" by auto
    have shape: "render gap colon n (JsonObject members) = CHR ''{'' # ?body @ gap n @ [CHR ''}'']"
      using False unfolding render_object by (simp add: comp_def case_prod_unfold member_text_def Let_def)
    obtain t where start: "skip (?body @ gap n @ CHR ''}'' # r) = CHR 0x22 # t r" for r
    proof -
      obtain m ms where items: "present members = m # ms" using False by (cases "present members") auto
      have "\<exists>u. \<forall>r. skip (?body @ gap n @ CHR ''}'' # r) = CHR 0x22 # u r"
        by (cases ms) (auto simp: items member_text_def json_string_def skip_spaces [OF gap])
      then show thesis using that by blast
    qed
    have result: "value_of (JsonObject members) = VObject (map (\<lambda>m. (fst m, snd (snd m))) ?ps)"
      unfolding value_of_object by (simp add: comp_def case_prod_beta)
    show ?thesis unfolding reads_as_def
    proof (intro allI impI)
      fix k rest assume "length (render gap colon n (JsonObject members)) \<le> k"
      then obtain k' where k: "k = Suc k'" "length ?body < k'" unfolding shape by (cases k) auto
      have "parse_members k' [] (CHR 0x22 # t rest) = parse_members k' [] (?body @ gap n @ CHR ''}'' # rest)"
        using start [of rest, symmetric] by (intro parse_members_skip) simp
      also have "\<dots> = Some (VObject (map (\<lambda>m. (fst m, snd (snd m))) ?ps), rest)"
        using members_parsed [OF gap gap colon ps(1) good k(2) ps(2), of n rest] by simp
      finally show "parse_value k (render gap colon n (JsonObject members) @ rest) = Some (value_of (JsonObject members), rest)"
        using start unfolding shape k(1) result by (simp add: parse_value.simps)
    qed
  qed (simp add: render_object value_of_object reads_constant del: render.simps(6) value_of.simps(6))
qed (simp_all add: reads_constant reads_number)

text \<open>
  A file holds the indented form with a line break at its end, or the plain form; both are read back.
\<close>

lemma parse_read:
  assumes "reads_as t v" "\<forall>c \<in> set ws. json_space c"
  shows "JSON_parse (t @ ws) = Inr v"
proof -
  have "number_ends ws"
    using assms(2) number_ends_gap [of ws "CHR '',''" "[]"] by (cases ws) (auto simp: number_ends_def)
  then have "parse_value (2 * length (t @ ws) + 2) (t @ ws) = Some (v, ws)"
    using assms(1) by (simp add: reads_as_def)
  moreover have "skip ws = []" using assms(2) by simp
  ultimately show ?thesis by (simp add: JSON_parse_def parse_json_def)
qed

lemma indent_spaces: "\<forall>c \<in> set (indent n). json_space c"
  by (simp add: indent_def json_space_def)

lemma pretty_read:
  assumes "readable j"
  shows "JSON_parse (pretty j @ [CHR 0x0A]) = Inr (value_of j)"
proof -
  have "\<forall>c \<in> set '' ''. json_space c" "\<forall>c \<in> set [CHR 0x0A]. json_space c" by (simp_all add: json_space_def)
  then show ?thesis
    using parse_read [OF render_read [where gap = indent and colon = "'': ''" and ws = "'' ''" and n = 0, OF indent_spaces]] assms by (simp add: pretty_def)
qed

lemma stringify_read:
  assumes "readable j"
  shows "JSON_parse (stringify j) = Inr (value_of j)"
  using parse_read [of "stringify j" "value_of j" "[]"] render_read [where gap = "\<lambda>_. []" and colon = "'':''" and ws = "[]" and n = 0] assms
  by (simp add: stringify_render [of j 0])

end
