(* ===== verification/Files.thy ===== *)
theory Files
  imports JsonText "HOL-Library.AList"
begin

text \<open>
  Node's \<open>path\<close> and \<open>fs\<close> on a POSIX system, as far as the client uses them, and how it resolves the paths
  it is given. A disk has a working directory, directories and files, each under its absolute normalized
  path; there are no links and no permissions.
\<close>

section \<open>Paths\<close>

fun split_on :: "char \<Rightarrow> string \<Rightarrow> string list" where
  "split_on d [] = [[]]"
| "split_on d (c # s) = (if c = d then [] # split_on d s
     else (case split_on d s of [] \<Rightarrow> [[c]] | w # ws \<Rightarrow> (c # w) # ws))"

definition isAbsolute :: "string \<Rightarrow> bool" where
  "isAbsolute p = prefix ''/'' p"

text \<open>The segments of a path; \<open>..\<close> removes the one before it.\<close>

definition add_segment :: "bool \<Rightarrow> string list \<Rightarrow> string \<Rightarrow> string list" where
  "add_segment absolute kept segment =
     (if segment = '''' \<or> segment = ''.'' then kept
      else if segment = ''..'' then
        (if kept \<noteq> [] \<and> last kept \<noteq> ''..'' then butlast kept else if absolute then kept else kept @ [segment])
      else kept @ [segment])"

definition segments :: "string \<Rightarrow> string list" where
  "segments p = foldl (add_segment (isAbsolute p)) [] (split_on (CHR ''/'') p)"

definition path_text :: "bool \<Rightarrow> string list \<Rightarrow> string" where
  "path_text absolute segs = (if absolute then ''/'' else '''') @ joined (CHR ''/'') segs"

definition path_normalize :: "string \<Rightarrow> string" where
  "path_normalize p =
     (let body = path_text (isAbsolute p) (segments p); shown = (if body = '''' then ''.'' else body) in
      if p = '''' then ''.''
      else if suffix ''/'' p \<and> shown \<noteq> ''/'' then shown @ ''/'' else shown)"

definition path_join :: "string list \<Rightarrow> string" where
  "path_join parts = path_normalize (joined (CHR ''/'') (filter (\<lambda>p. p \<noteq> '''') parts))"

definition drop_slashes :: "string \<Rightarrow> string" where
  "drop_slashes s = rev (dropWhile ((=) (CHR ''/'')) (rev s))"

definition path_dirname :: "string \<Rightarrow> string" where
  "path_dirname p = (case p of [] \<Rightarrow> ''.'' | c # t \<Rightarrow>
     let before = dropWhile ((\<noteq>) (CHR ''/'')) (rev (drop_slashes t)); root = (c = CHR ''/'') in
     if before = [] then (if root then ''/'' else ''.'')
     else let dir = c # rev (tl before) in if root \<and> dir = ''/'' then ''//'' else dir)"

definition path_basename :: "string \<Rightarrow> string" where
  "path_basename p = rev (takeWhile ((\<noteq>) (CHR ''/'')) (rev (drop_slashes p)))"

definition path_basename_ext :: "string \<Rightarrow> string \<Rightarrow> string" where
  "path_basename_ext p ext =
     (let base = path_basename p in
      if p = ext then '''' else if suffix ext base \<and> base \<noteq> ext then take (length base - length ext) base else base)"

section \<open>The disk\<close>

record disk =
  diskCwd :: string
  diskDirs :: "string list"
  diskFiles :: "(string \<times> string) list"

definition fs_key :: "disk \<Rightarrow> string \<Rightarrow> string" where
  "fs_key d p = path_text True (segments (if isAbsolute p then p else diskCwd d @ ''/'' @ p))"

definition isFile :: "disk \<Rightarrow> string \<Rightarrow> bool" where
  "isFile d p \<longleftrightarrow> map_of (diskFiles d) (fs_key d p) \<noteq> None"

definition isDir :: "disk \<Rightarrow> string \<Rightarrow> bool" where
  "isDir d p \<longleftrightarrow> fs_key d p \<in> set (diskDirs d)"

definition existsSync :: "disk \<Rightarrow> string \<Rightarrow> bool" where
  "existsSync d p \<longleftrightarrow> isFile d p \<or> isDir d p"

definition readFileSync :: "string \<Rightarrow> (disk, string) io" where
  "readFileSync p d = liftIO (case map_of (diskFiles d) (fs_key d p) of
       Some content \<Rightarrow> Inr content
     | None \<Rightarrow> if isDir d p then throwError ''EISDIR: illegal operation on a directory, read''
         else throwError (''ENOENT: no such file or directory, open '' @ p)) d"

text \<open>The directories above a path, the path included.\<close>

definition ancestors :: "string \<Rightarrow> string list" where
  "ancestors key = map (\<lambda>n. path_text True (take n (segments key))) [0..<length (segments key) + 1]"

text \<open>\<open>mkdirSync(p, { recursive: true })\<close>.\<close>

definition mkdirSync :: "string \<Rightarrow> (disk, unit) io" where
  "mkdirSync p d =
     (let up = ancestors (fs_key d p) in
      if \<exists>k \<in> set up. map_of (diskFiles d) k \<noteq> None then throwIO (JsError ''Error'' (''EEXIST: file already exists, mkdir '' @ p)) d
      else returnIO () (d\<lparr>diskDirs := diskDirs d @ filter (\<lambda>k. k \<notin> set (diskDirs d)) up\<rparr>))"

definition writeFileSync :: "string \<Rightarrow> string \<Rightarrow> (disk, unit) io" where
  "writeFileSync p content d =
     (if isDir d p then throwIO (JsError ''Error'' (''EISDIR: illegal operation on a directory, open '' @ p)) d
      else if \<not> isDir d (path_dirname (fs_key d p)) then
        throwIO (JsError ''Error'' (''ENOENT: no such file or directory, open '' @ p)) d
      else returnIO () (d\<lparr>diskFiles := AList.update (fs_key d p) content (diskFiles d)\<rparr>))"

text \<open>The names in a directory, in the order of the disk.\<close>

definition readdirSync :: "disk \<Rightarrow> string \<Rightarrow> string list" where
  "readdirSync d p = map path_basename (filter (\<lambda>k. path_dirname k = fs_key d p \<and> k \<noteq> ''/'')
     (map fst (diskFiles d) @ diskDirs d))"

section \<open>The paths the client is given\<close>

definition js_replaceAll :: "char \<Rightarrow> char \<Rightarrow> string \<Rightarrow> string" where
  "js_replaceAll a b s = map (\<lambda>c. if c = a then b else c) s"

definition maybeTranslateWslPath :: "string \<Rightarrow> string" where
  "maybeTranslateWslPath rawPath =
     (let normalized = js_replaceAll (CHR 0x5C) (CHR ''/'') rawPath in
      if prefix ''//wsl.localhost/Ubuntu/'' normalized then
        ''/'' @ drop (length ''//wsl.localhost/Ubuntu/'') normalized
      else if prefix ''//wsl$/Ubuntu/'' normalized then ''/'' @ drop (length ''//wsl$/Ubuntu/'') normalized
      else normalized)"

definition resolveInputPath :: "disk \<Rightarrow> string \<Rightarrow> string \<Rightarrow> string" where
  "resolveInputPath d repoRoot rawPath =
     (let translated = maybeTranslateWslPath rawPath in
      if existsSync d translated then translated
      else if isAbsolute translated then translated else path_join [repoRoot, translated])"

section \<open>Lemmas\<close>

lemma written_read:
  "writeFileSync p content d = Some (Inr u, d') \<Longrightarrow> readFileSync p d' = Some (Inr content, d')"
  by (auto simp: writeFileSync_def readFileSync_def fs_key_def isDir_def update_conv' split: if_splits)

lemma written_elsewhere:
  assumes "writeFileSync p content d = Some (Inr u, d')" "fs_key d q \<noteq> fs_key d p"
  shows "readFileSync q d' = (case readFileSync q d of Some (r, _) \<Rightarrow> Some (r, d') | None \<Rightarrow> None)"
  using assms by (auto simp: writeFileSync_def readFileSync_def fs_key_def isDir_def update_conv' split: if_splits option.splits)

lemma written_exists: "writeFileSync p content d = Some (Inr u, d') \<Longrightarrow> existsSync d' p"
  by (auto simp: writeFileSync_def existsSync_def isFile_def fs_key_def update_conv' split: if_splits)

lemma no_slash_split: "CHR ''/'' \<notin> set s \<Longrightarrow> split_on (CHR ''/'') s = [s]"
  by (induction s) auto

end
