(* ===== verification/Options.thy ===== *)
theory Options
  imports Files
begin

text \<open>
  The options of the demo: the configuration file, the option parsers and \<open>parseArgs\<close>. The environment, the
  disk, and the \<open>PublicKey\<close> constructor of \<open>@solana/web3.js\<close> are arguments, and so is the text of a
  fractional number, which only error messages show. \<open>process.exit\<close> is the result \<open>None\<close>.
\<close>

section \<open>The configuration file\<close>

text \<open>\<open>content.split(/\r?\n/)\<close>.\<close>

definition split_lines :: "string \<Rightarrow> string list" where
  "split_lines content =
     (let ls = split_on (CHR 0x0A) content in
      map (\<lambda>l. if suffix [CHR 0x0D] l then butlast l else l) (butlast ls) @ [last ls])"

definition quoted :: "char \<Rightarrow> string \<Rightarrow> bool" where
  "quoted q s \<longleftrightarrow> prefix [q] s \<and> suffix [q] s"

definition config_line :: "string \<Rightarrow> (string \<times> string) option" where
  "config_line line =
     (let trimmed = js_trim line; separatorIndex = length (takeWhile ((\<noteq>) (CHR ''='')) trimmed) in
      if trimmed = '''' \<or> prefix ''#'' trimmed then None
      else if CHR ''='' \<notin> set trimmed \<or> separatorIndex < 1 then None
      else let key = js_trim (take separatorIndex trimmed); v = js_trim (drop (separatorIndex + 1) trimmed) in
        Some (key, if quoted (CHR 0x22) v \<or> quoted (CHR 0x27) v then butlast (tl v) else v))"

definition config_values :: "string \<Rightarrow> string \<rightharpoonup> string" where
  "config_values content = foldl (\<lambda>values line. case config_line line of
       None \<Rightarrow> values | Some (key, v) \<Rightarrow> values(key \<mapsto> v)) Map.empty (split_lines content)"

definition loadConfigFile :: "string \<Rightarrow> string option \<Rightarrow> (disk, string \<rightharpoonup> string) io" where
  "loadConfigFile repoRoot rawPath d =
     (let configPath = resolveInputPath d repoRoot
        (case rawPath of Some p \<Rightarrow> p | None \<Rightarrow> path_join [''config'', ''ryvo-protocol-demo.env'']) in
      if \<not> existsSync d configPath then returnIO Map.empty d
      else bindIO (readFileSync configPath) (\<lambda>content. returnIO (config_values content)) d)"

section \<open>The option parsers\<close>

definition parseBooleanOption :: "string option \<Rightarrow> bool \<Rightarrow> bool js" where
  "parseBooleanOption rawValue fallback =
     (case rawValue of None \<Rightarrow> Inr fallback | Some raw \<Rightarrow>
        if raw = '''' then Inr fallback else
        let normalized = toLowerCase (js_trim raw) in
        if normalized \<in> {''1'', ''true'', ''yes'', ''y'', ''on''} then Inr True
        else if normalized \<in> {''0'', ''false'', ''no'', ''n'', ''off''} then Inr False
        else throwError (''Invalid boolean value: '' @ raw))"

text \<open>The integer of a double that is one.\<close>

definition integer_of :: "js_double \<Rightarrow> int" where
  "integer_of d = (case d of Fin q \<Rightarrow> floor q | _ \<Rightarrow> 0)"

definition rational_of :: "js_double \<Rightarrow> rat" where
  "rational_of d = (case d of Fin q \<Rightarrow> q | _ \<Rightarrow> 0)"

definition parseIntegerOption :: "string option \<Rightarrow> int \<Rightarrow> string \<Rightarrow> int \<Rightarrow> int js" where
  "parseIntegerOption rawValue fallback label minimum =
     (case rawValue of None \<Rightarrow> Inr fallback | Some raw \<Rightarrow>
        if raw = '''' then Inr fallback else
        let parsed = parseInt raw in
        if \<not> isInteger parsed \<or> js_less parsed (of_int minimum) then
          throwError (label @ '' must be an integer >= '' @ show_int minimum)
        else Inr (integer_of parsed))"

definition parseNameListOption :: "string option \<Rightarrow> string list option" where
  "parseNameListOption rawValue =
     (case rawValue of None \<Rightarrow> None | Some raw \<Rightarrow>
        if js_trim raw = '''' then None else
        let names = filter (\<lambda>entry. entry \<noteq> '''') (map js_trim (split_on (CHR '','') raw)) in
        if names \<noteq> [] then Some names else None)"

definition parseFloatOption :: "(rat \<Rightarrow> string) \<Rightarrow> string option \<Rightarrow> rat \<Rightarrow> string \<Rightarrow> rat \<Rightarrow> rat js" where
  "parseFloatOption showNumber rawValue fallback label minimum =
     (case rawValue of None \<Rightarrow> Inr fallback | Some raw \<Rightarrow>
        if raw = '''' then Inr fallback else
        let parsed = parseFloat raw in
        if \<not> isFinite parsed \<or> js_less parsed minimum then
          throwError (label @ '' must be a number >= '' @ showNumber minimum)
        else Inr (rational_of parsed))"

definition DEFAULT_DEPOSIT_PLAN :: "(string \<times> rat) list" where
  "DEFAULT_DEPOSIT_PLAN = [(''Alice'', 350), (''Bob'', 120), (''Carol'', 120), (''Dave'', 80), (''Erin'', 80), (''Frank'', 80)]"

text \<open>\<open>Object.entries\<close>: names that are array indices come first, by number.\<close>

definition array_index :: "string \<Rightarrow> bool" where
  "array_index name \<longleftrightarrow> name = show_nat (read_digits name) \<and> read_digits name < 2 ^ 32 - 1"

definition entries_of :: "(string \<times> jsv) list \<Rightarrow> (string \<times> jsv) list" where
  "entries_of members = sort_key (\<lambda>m. read_digits (fst m)) (filter (\<lambda>m. array_index (fst m)) members) @
     filter (\<lambda>m. \<not> array_index (fst m)) members"

definition deposit_entry :: "string \<times> jsv \<Rightarrow> (string \<times> rat) js" where
  "deposit_entry m = (case m of (name, v) \<Rightarrow>
     let bad = throwError (''Deposit amount for '' @ name @ '' must be a number >= 0'') in
     (case v of VNumber n \<Rightarrow> if \<not> isFinite n \<or> js_less n 0 then bad else Inr (name, rational_of n) | _ \<Rightarrow> bad))"

text \<open>Assigning a number to the key \<open>__proto__\<close> of an object has no effect.\<close>

definition parseDepositPlan :: "string option \<Rightarrow> (string \<times> rat) list js" where
  "parseDepositPlan rawValue =
     (case rawValue of None \<Rightarrow> Inr DEFAULT_DEPOSIT_PLAN | Some raw \<Rightarrow>
        if js_trim raw = '''' then Inr DEFAULT_DEPOSIT_PLAN else
        bindR (JSON_parse raw) (\<lambda>parsed.
        case parsed of VObject members \<Rightarrow>
            bindR (mapR deposit_entry (entries_of members)) (\<lambda>plan. Inr (filter (\<lambda>(name, _). name \<noteq> ''__proto__'') plan))
        | _ \<Rightarrow> throwError ''RYVO_DEMO_DEPOSIT_PLAN_JSON must be a JSON object''))"

section \<open>The command line\<close>

text \<open>\<open>--name=value\<close>, \<open>--name value\<close> and \<open>--name\<close>; anything else is passed over.\<close>

function scan_args :: "string list \<Rightarrow> (string \<rightharpoonup> string) \<Rightarrow> (string \<rightharpoonup> string)" where
  "scan_args [] args = args"
| "scan_args (value # rest) args =
     (if \<not> prefix ''--'' value then scan_args rest args else
      let trimmed = drop 2 value in
      if CHR ''='' \<in> set trimmed then
        scan_args rest (args(takeWhile ((\<noteq>) (CHR ''='')) trimmed \<mapsto> tl (dropWhile ((\<noteq>) (CHR ''='')) trimmed)))
      else case rest of
        [] \<Rightarrow> args(trimmed \<mapsto> ''true'')
      | next # rest' \<Rightarrow>
          if next \<noteq> '''' \<and> \<not> prefix ''--'' next then scan_args rest' (args(trimmed \<mapsto> next))
          else scan_args rest (args(trimmed \<mapsto> ''true'')))"
  by pat_completeness auto
termination by (relation "measure (\<lambda>(rest, _). length rest)") auto

definition MIN_WALLET_COUNT :: int where "MIN_WALLET_COUNT = 6"
definition DEFAULT_WALLET_COUNT :: int where "DEFAULT_WALLET_COUNT = 32"
definition MAX_WALLET_COUNT :: int where "MAX_WALLET_COUNT = 32"
definition DEFAULT_SOL_PER_WALLET :: rat where "DEFAULT_SOL_PER_WALLET = round_f64 (1 / 10)"
definition DEFAULT_USDC_PER_WALLET :: rat where "DEFAULT_USDC_PER_WALLET = 1000"
definition DEFAULT_BLS_INTERNAL_BALANCE_TARGET :: rat where "DEFAULT_BLS_INTERNAL_BALANCE_TARGET = 100"
definition DEFAULT_BLS_RANDOM_MIN_AMOUNT :: rat where "DEFAULT_BLS_RANDOM_MIN_AMOUNT = 1 / 2"
definition DEFAULT_BLS_RANDOM_MAX_AMOUNT :: rat where "DEFAULT_BLS_RANDOM_MAX_AMOUNT = 2"
definition DEFAULT_BLS_RANDOM_SEED :: string where "DEFAULT_BLS_RANDOM_SEED = ''ryvo-bls-search-v1''"
definition DEFAULT_BLS_MAX_DENSE_CHANNELS :: int where "DEFAULT_BLS_MAX_DENSE_CHANNELS = 150"
definition DEFAULT_BLS_COMPUTE_UNIT_LIMIT :: int where "DEFAULT_BLS_COMPUTE_UNIT_LIMIT = 1400000"
definition DEFAULT_USDC_MINT :: string where "DEFAULT_USDC_MINT = ''4zMMC9srt5Ri5X14GAgXhaHii3GnPAEERYPJgZJDncDU''"
definition DEFAULT_TOKEN_ID :: int where "DEFAULT_TOKEN_ID = 1"
definition DEFAULT_TOKEN_SYMBOL :: string where "DEFAULT_TOKEN_SYMBOL = ''USDC''"
definition DEFAULT_WALLET_MANIFEST_PATH :: string where
  "DEFAULT_WALLET_MANIFEST_PATH = path_join [''config'', ''ryvo-protocol-demo-wallets.json'']"
definition DEFAULT_BLS_SEARCH_RESULTS_LOG_PATH :: string where
  "DEFAULT_BLS_SEARCH_RESULTS_LOG_PATH = path_join [''logs'', ''bls-search-results.jsonl'']"
definition DEFAULT_SINGLE_COMMITMENT_COUNT :: int where "DEFAULT_SINGLE_COMMITMENT_COUNT = 1"
definition DEFAULT_SINGLE_COMMITMENT_AMOUNT :: rat where "DEFAULT_SINGLE_COMMITMENT_AMOUNT = 25"
definition DEFAULT_SINGLE_COMMITMENT_LOG_EVERY :: int where "DEFAULT_SINGLE_COMMITMENT_LOG_EVERY = 1"
definition DEFAULT_BATCH_COMMITMENT_BATCH_COUNT :: int where "DEFAULT_BATCH_COMMITMENT_BATCH_COUNT = 1"
definition DEFAULT_BATCH_COMMITMENT_BATCH_SIZE :: int where "DEFAULT_BATCH_COMMITMENT_BATCH_SIZE = 5"
definition DEFAULT_BATCH_COMMITMENT_AMOUNT :: rat where "DEFAULT_BATCH_COMMITMENT_AMOUNT = 5"
definition DEFAULT_BATCH_COMMITMENT_LOG_EVERY :: int where "DEFAULT_BATCH_COMMITMENT_LOG_EVERY = 1"
definition DEFAULT_UNILATERAL_PAYEE_A_COMMITMENT_COUNT :: int where "DEFAULT_UNILATERAL_PAYEE_A_COMMITMENT_COUNT = 400"
definition DEFAULT_UNILATERAL_PAYEE_B_COMMITMENT_COUNT :: int where "DEFAULT_UNILATERAL_PAYEE_B_COMMITMENT_COUNT = 300"
definition DEFAULT_UNILATERAL_AMOUNT_PER_COMMITMENT :: rat where "DEFAULT_UNILATERAL_AMOUNT_PER_COMMITMENT = round_f64 (1 / 10)"
definition DEFAULT_UNILATERAL_LOCK_AMOUNT :: rat where "DEFAULT_UNILATERAL_LOCK_AMOUNT = 10"
definition DEFAULT_BILATERAL_FORWARD_COMMITMENT_COUNT :: int where "DEFAULT_BILATERAL_FORWARD_COMMITMENT_COUNT = 350"
definition DEFAULT_BILATERAL_REVERSE_COMMITMENT_COUNT :: int where "DEFAULT_BILATERAL_REVERSE_COMMITMENT_COUNT = 200"
definition DEFAULT_BILATERAL_AMOUNT_PER_COMMITMENT :: rat where "DEFAULT_BILATERAL_AMOUNT_PER_COMMITMENT = round_f64 (1 / 10)"
definition DEFAULT_MULTILATERAL_EDGE_COMMITMENT_COUNT :: int where "DEFAULT_MULTILATERAL_EDGE_COMMITMENT_COUNT = 220"
definition DEFAULT_MULTILATERAL_AMOUNT_PER_COMMITMENT :: rat where "DEFAULT_MULTILATERAL_AMOUNT_PER_COMMITMENT = round_f64 (1 / 10)"

record cli_settings =
  optConfigFilePath :: string
  optWalletCount :: int
  optActiveWalletNames :: "string list option"
  optTokenId :: js_double
  optTokenMint :: pubkey
  optTokenSymbol :: string
  optSolPerWallet :: rat
  optTokensPerWallet :: rat
  optWalletManifestPath :: string
  optBlsSearchResultsLogPath :: string
  optBlsInternalBalanceTarget :: rat
  optBlsRandomSeed :: string
  optBlsRandomMinAmount :: rat
  optBlsRandomMaxAmount :: rat
  optBlsMaxDenseChannels :: int
  optBlsComputeUnitLimit :: int
  optReuseManifestPath :: "string option"
  optSkipFunding :: bool
  optSkipParticipantInit :: bool
  optSkipDeposits :: bool
  optSkipMaxChannels :: bool

record scenario_options =
  optSingleCommitmentCount :: int
  optSingleCommitmentAmount :: rat
  optSingleCommitmentLogEvery :: int
  optBatchCommitmentBatchCount :: int
  optBatchCommitmentBatchSize :: int
  optBatchCommitmentAmount :: rat
  optBatchCommitmentLogEvery :: int
  optUnilateralPayeeACommitmentCount :: int
  optUnilateralPayeeBCommitmentCount :: int
  optUnilateralAmountPerCommitment :: rat
  optUnilateralLockAmount :: rat
  optBilateralForwardCommitmentCount :: int
  optBilateralReverseCommitmentCount :: int
  optBilateralAmountPerCommitment :: rat
  optMultilateralEdgeCommitmentCount :: int
  optMultilateralAmountPerCommitment :: rat

record cli_options =
  cliSettings :: cli_settings
  cliDepositPlan :: "(string \<times> rat) list"
  cliScenarios :: scenario_options

text \<open>\<open>getValue\<close>: the command line, then the environment, then the configuration file.\<close>

type_synonym value_source = "string \<Rightarrow> string \<Rightarrow> string option"

definition getValue :: "(string \<rightharpoonup> string) \<Rightarrow> (string \<rightharpoonup> string) \<Rightarrow> (string \<rightharpoonup> string) \<Rightarrow> value_source" where
  "getValue args env configValues cliName envName =
     (case args cliName of Some v \<Rightarrow> Some v | None \<Rightarrow>
       (case env envName of Some v \<Rightarrow> Some v | None \<Rightarrow> configValues envName))"

definition or_else :: "'a option \<Rightarrow> 'a \<Rightarrow> 'a" where
  "or_else v d = (case v of Some x \<Rightarrow> x | None \<Rightarrow> d)"

abbreviation integerOption :: "value_source \<Rightarrow> string \<Rightarrow> string \<Rightarrow> int \<Rightarrow> string \<Rightarrow> int \<Rightarrow> int js" where
  "integerOption get cliName envName \<equiv> parseIntegerOption (get cliName envName)"

abbreviation floatOption ::
  "(rat \<Rightarrow> string) \<Rightarrow> value_source \<Rightarrow> string \<Rightarrow> string \<Rightarrow> rat \<Rightarrow> string \<Rightarrow> rat \<Rightarrow> rat js" where
  "floatOption showNumber get cliName envName \<equiv> parseFloatOption showNumber (get cliName envName)"

definition parse_settings ::
  "(rat \<Rightarrow> string) \<Rightarrow> (string \<Rightarrow> pubkey js) \<Rightarrow> value_source \<Rightarrow> string \<Rightarrow> cli_settings js" where
  "parse_settings showNumber newPublicKey get configFilePath =
     bindR (integerOption get ''wallet-count'' ''RYVO_DEMO_WALLET_COUNT'' DEFAULT_WALLET_COUNT ''wallet-count'' MIN_WALLET_COUNT) (\<lambda>walletCount.
     if walletCount < MIN_WALLET_COUNT then
       throwError (''wallet-count must be an integer >= '' @ show_int MIN_WALLET_COUNT) else
     if walletCount > MAX_WALLET_COUNT then throwError (''wallet-count must be <= '' @ show_int MAX_WALLET_COUNT) else
     let tokenId = parseInt (or_else (get ''token-id'' ''RYVO_DEMO_TOKEN_ID'') (show_int DEFAULT_TOKEN_ID)) in
     bindR (newPublicKey (or_else (get ''mint'' ''RYVO_DEMO_MINT'') DEFAULT_USDC_MINT)) (\<lambda>tokenMint.
     let tokenSymbol = or_else (get ''symbol'' ''RYVO_DEMO_SYMBOL'') DEFAULT_TOKEN_SYMBOL in
     bindR (floatOption showNumber get ''sol-per-wallet'' ''RYVO_DEMO_SOL_PER_WALLET'' DEFAULT_SOL_PER_WALLET ''sol-per-wallet'' 0) (\<lambda>solPerWallet.
     bindR (floatOption showNumber get ''tokens-per-wallet'' ''RYVO_DEMO_TOKENS_PER_WALLET'' DEFAULT_USDC_PER_WALLET ''tokens-per-wallet'' 0) (\<lambda>tokensPerWallet.
     bindR (floatOption showNumber get ''bls-internal-balance-target'' ''RYVO_DEMO_BLS_INTERNAL_BALANCE_TARGET''
       DEFAULT_BLS_INTERNAL_BALANCE_TARGET ''RYVO_DEMO_BLS_INTERNAL_BALANCE_TARGET'' 0) (\<lambda>balanceTarget.
     bindR (floatOption showNumber get ''bls-random-min-amount'' ''RYVO_DEMO_BLS_RANDOM_MIN_AMOUNT''
       DEFAULT_BLS_RANDOM_MIN_AMOUNT ''RYVO_DEMO_BLS_RANDOM_MIN_AMOUNT'' 0) (\<lambda>randomMin.
     bindR (floatOption showNumber get ''bls-random-max-amount'' ''RYVO_DEMO_BLS_RANDOM_MAX_AMOUNT''
       DEFAULT_BLS_RANDOM_MAX_AMOUNT ''RYVO_DEMO_BLS_RANDOM_MAX_AMOUNT'' randomMin) (\<lambda>randomMax.
     bindR (integerOption get ''bls-max-dense-channels'' ''RYVO_DEMO_BLS_MAX_DENSE_CHANNELS''
       DEFAULT_BLS_MAX_DENSE_CHANNELS ''RYVO_DEMO_BLS_MAX_DENSE_CHANNELS'' 1) (\<lambda>maxDense.
     bindR (integerOption get ''bls-compute-unit-limit'' ''RYVO_DEMO_BLS_COMPUTE_UNIT_LIMIT''
       DEFAULT_BLS_COMPUTE_UNIT_LIMIT ''RYVO_DEMO_BLS_COMPUTE_UNIT_LIMIT'' 200000) (\<lambda>computeLimit.
     bindR (parseBooleanOption (get ''skip-funding'' ''RYVO_DEMO_SKIP_FUNDING'') False) (\<lambda>skipFunding.
     bindR (parseBooleanOption (get ''skip-participant-init'' ''RYVO_DEMO_SKIP_PARTICIPANT_INIT'') False) (\<lambda>skipInit.
     bindR (parseBooleanOption (get ''skip-deposits'' ''RYVO_DEMO_SKIP_DEPOSITS'') False) (\<lambda>skipDeposits.
     bindR (parseBooleanOption (get ''skip-max-channels'' ''RYVO_DEMO_SKIP_MAX_CHANNELS'') False) (\<lambda>skipMax.
     Inr \<lparr>optConfigFilePath = configFilePath, optWalletCount = walletCount,
          optActiveWalletNames = parseNameListOption (get ''active-wallets'' ''RYVO_DEMO_ACTIVE_WALLETS''),
          optTokenId = tokenId, optTokenMint = tokenMint, optTokenSymbol = tokenSymbol,
          optSolPerWallet = solPerWallet, optTokensPerWallet = tokensPerWallet,
          optWalletManifestPath = or_else (get ''wallet-manifest'' ''RYVO_DEMO_WALLET_MANIFEST'') DEFAULT_WALLET_MANIFEST_PATH,
          optBlsSearchResultsLogPath = or_else (get ''bls-search-log'' ''RYVO_DEMO_BLS_SEARCH_LOG'') DEFAULT_BLS_SEARCH_RESULTS_LOG_PATH,
          optBlsInternalBalanceTarget = balanceTarget,
          optBlsRandomSeed = or_else (get ''bls-random-seed'' ''RYVO_DEMO_BLS_RANDOM_SEED'') DEFAULT_BLS_RANDOM_SEED,
          optBlsRandomMinAmount = randomMin, optBlsRandomMaxAmount = randomMax, optBlsMaxDenseChannels = maxDense,
          optBlsComputeUnitLimit = computeLimit, optReuseManifestPath = get ''reuse-manifest'' ''RYVO_DEMO_REUSE_MANIFEST'',
          optSkipFunding = skipFunding, optSkipParticipantInit = skipInit, optSkipDeposits = skipDeposits,
          optSkipMaxChannels = skipMax\<rparr>)))))))))))))"

definition parse_scenarios :: "(rat \<Rightarrow> string) \<Rightarrow> value_source \<Rightarrow> scenario_options js" where
  "parse_scenarios showNumber get =
     bindR (integerOption get ''single-commitment-count'' ''RYVO_DEMO_SINGLE_COMMITMENT_COUNT'' DEFAULT_SINGLE_COMMITMENT_COUNT ''RYVO_DEMO_SINGLE_COMMITMENT_COUNT'' 1) (\<lambda>singleCommitmentCount.
     bindR (floatOption showNumber get ''single-commitment-amount'' ''RYVO_DEMO_SINGLE_COMMITMENT_AMOUNT'' DEFAULT_SINGLE_COMMITMENT_AMOUNT ''RYVO_DEMO_SINGLE_COMMITMENT_AMOUNT'' 0) (\<lambda>singleCommitmentAmount.
     bindR (integerOption get ''single-commitment-log-every'' ''RYVO_DEMO_SINGLE_COMMITMENT_LOG_EVERY'' DEFAULT_SINGLE_COMMITMENT_LOG_EVERY ''RYVO_DEMO_SINGLE_COMMITMENT_LOG_EVERY'' 1) (\<lambda>singleCommitmentLogEvery.
     bindR (integerOption get ''batch-commitment-batch-count'' ''RYVO_DEMO_BATCH_COMMITMENT_BATCH_COUNT'' DEFAULT_BATCH_COMMITMENT_BATCH_COUNT ''RYVO_DEMO_BATCH_COMMITMENT_BATCH_COUNT'' 1) (\<lambda>batchCommitmentBatchCount.
     bindR (integerOption get ''batch-commitment-batch-size'' ''RYVO_DEMO_BATCH_COMMITMENT_BATCH_SIZE'' DEFAULT_BATCH_COMMITMENT_BATCH_SIZE ''RYVO_DEMO_BATCH_COMMITMENT_BATCH_SIZE'' 1) (\<lambda>batchCommitmentBatchSize.
     bindR (floatOption showNumber get ''batch-commitment-amount'' ''RYVO_DEMO_BATCH_COMMITMENT_AMOUNT'' DEFAULT_BATCH_COMMITMENT_AMOUNT ''RYVO_DEMO_BATCH_COMMITMENT_AMOUNT'' 0) (\<lambda>batchCommitmentAmount.
     bindR (integerOption get ''batch-commitment-log-every'' ''RYVO_DEMO_BATCH_COMMITMENT_LOG_EVERY'' DEFAULT_BATCH_COMMITMENT_LOG_EVERY ''RYVO_DEMO_BATCH_COMMITMENT_LOG_EVERY'' 1) (\<lambda>batchCommitmentLogEvery.
     bindR (integerOption get ''unilateral-payee-a-commitments'' ''RYVO_DEMO_UNILATERAL_PAYEE_A_COMMITMENTS'' DEFAULT_UNILATERAL_PAYEE_A_COMMITMENT_COUNT ''RYVO_DEMO_UNILATERAL_PAYEE_A_COMMITMENTS'' 1) (\<lambda>unilateralPayeeACommitmentCount.
     bindR (integerOption get ''unilateral-payee-b-commitments'' ''RYVO_DEMO_UNILATERAL_PAYEE_B_COMMITMENTS'' DEFAULT_UNILATERAL_PAYEE_B_COMMITMENT_COUNT ''RYVO_DEMO_UNILATERAL_PAYEE_B_COMMITMENTS'' 1) (\<lambda>unilateralPayeeBCommitmentCount.
     bindR (floatOption showNumber get ''unilateral-amount'' ''RYVO_DEMO_UNILATERAL_AMOUNT'' DEFAULT_UNILATERAL_AMOUNT_PER_COMMITMENT ''RYVO_DEMO_UNILATERAL_AMOUNT'' 0) (\<lambda>unilateralAmountPerCommitment.
     bindR (floatOption showNumber get ''unilateral-lock-amount'' ''RYVO_DEMO_UNILATERAL_LOCK_AMOUNT'' DEFAULT_UNILATERAL_LOCK_AMOUNT ''RYVO_DEMO_UNILATERAL_LOCK_AMOUNT'' 0) (\<lambda>unilateralLockAmount.
     bindR (integerOption get ''bilateral-forward-commitments'' ''RYVO_DEMO_BILATERAL_FORWARD_COMMITMENTS'' DEFAULT_BILATERAL_FORWARD_COMMITMENT_COUNT ''RYVO_DEMO_BILATERAL_FORWARD_COMMITMENTS'' 1) (\<lambda>bilateralForwardCommitmentCount.
     bindR (integerOption get ''bilateral-reverse-commitments'' ''RYVO_DEMO_BILATERAL_REVERSE_COMMITMENTS'' DEFAULT_BILATERAL_REVERSE_COMMITMENT_COUNT ''RYVO_DEMO_BILATERAL_REVERSE_COMMITMENTS'' 1) (\<lambda>bilateralReverseCommitmentCount.
     bindR (floatOption showNumber get ''bilateral-amount'' ''RYVO_DEMO_BILATERAL_AMOUNT'' DEFAULT_BILATERAL_AMOUNT_PER_COMMITMENT ''RYVO_DEMO_BILATERAL_AMOUNT'' 0) (\<lambda>bilateralAmountPerCommitment.
     bindR (integerOption get ''multilateral-edge-commitments'' ''RYVO_DEMO_MULTILATERAL_EDGE_COMMITMENTS'' DEFAULT_MULTILATERAL_EDGE_COMMITMENT_COUNT ''RYVO_DEMO_MULTILATERAL_EDGE_COMMITMENTS'' 1) (\<lambda>multilateralEdgeCommitmentCount.
     bindR (floatOption showNumber get ''multilateral-amount'' ''RYVO_DEMO_MULTILATERAL_AMOUNT'' DEFAULT_MULTILATERAL_AMOUNT_PER_COMMITMENT ''RYVO_DEMO_MULTILATERAL_AMOUNT'' 0) (\<lambda>multilateralAmountPerCommitment.
     Inr \<lparr>optSingleCommitmentCount = singleCommitmentCount, optSingleCommitmentAmount = singleCommitmentAmount,
         optSingleCommitmentLogEvery = singleCommitmentLogEvery, optBatchCommitmentBatchCount = batchCommitmentBatchCount,
         optBatchCommitmentBatchSize = batchCommitmentBatchSize, optBatchCommitmentAmount = batchCommitmentAmount,
         optBatchCommitmentLogEvery = batchCommitmentLogEvery, optUnilateralPayeeACommitmentCount = unilateralPayeeACommitmentCount,
         optUnilateralPayeeBCommitmentCount = unilateralPayeeBCommitmentCount, optUnilateralAmountPerCommitment = unilateralAmountPerCommitment,
         optUnilateralLockAmount = unilateralLockAmount, optBilateralForwardCommitmentCount = bilateralForwardCommitmentCount,
         optBilateralReverseCommitmentCount = bilateralReverseCommitmentCount, optBilateralAmountPerCommitment = bilateralAmountPerCommitment,
         optMultilateralEdgeCommitmentCount = multilateralEdgeCommitmentCount, optMultilateralAmountPerCommitment = multilateralAmountPerCommitment\<rparr>))))))))))))))))"

definition parseArgs ::
  "(rat \<Rightarrow> string) \<Rightarrow> (string \<Rightarrow> pubkey js) \<Rightarrow> (string \<rightharpoonup> string) \<Rightarrow> string list \<Rightarrow> (disk, cli_options option) io" where
  "parseArgs showNumber newPublicKey env argv d =
     (let args = scan_args argv Map.empty; repoRoot = diskCwd d in
      if args ''help'' \<noteq> None then returnIO None d else
      let configFilePath = or_else (args ''config-file'')
            (or_else (env ''RYVO_DEMO_CONFIG_FILE'') (path_join [''config'', ''ryvo-protocol-demo.env''])) in
      bindIO (loadConfigFile repoRoot (Some configFilePath)) (\<lambda>configValues.
      let get = getValue args env configValues in
      bindIO (liftIO (parse_settings showNumber newPublicKey get configFilePath)) (\<lambda>settings.
      bindIO (liftIO (parseDepositPlan (get ''deposit-plan-json'' ''RYVO_DEMO_DEPOSIT_PLAN_JSON''))) (\<lambda>plan.
      bindIO (liftIO (parse_scenarios showNumber get)) (\<lambda>scenarios.
      returnIO (Some \<lparr>cliSettings = settings, cliDepositPlan = plan, cliScenarios = scenarios\<rparr>))))) d)"

section \<open>Well-formed options\<close>

lemma integer_option_range:
  "parseIntegerOption rawValue fallback label minimum = Inr n \<Longrightarrow> n = fallback \<or> minimum \<le> n"
  by (auto simp: parseIntegerOption_def isInteger_def js_less_def integer_of_def Let_def le_floor_iff
      split: option.splits if_splits js_double.splits)

lemma float_option_range:
  "parseFloatOption showNumber rawValue fallback label minimum = Inr x \<Longrightarrow> x = fallback \<or> minimum \<le> x"
  by (auto simp: parseFloatOption_def isFinite_def js_less_def rational_of_def Let_def
      split: option.splits if_splits js_double.splits)

lemma deposit_entry_nonneg: "deposit_entry m = Inr (name, x) \<Longrightarrow> name = fst m \<and> 0 \<le> x"
  by (auto simp: deposit_entry_def isFinite_def js_less_def rational_of_def Let_def
      split: prod.splits jsv.splits if_splits js_double.splits)

lemma mapR_results: "mapR f xs = Inr ys \<Longrightarrow> y \<in> set ys \<Longrightarrow> \<exists>x \<in> set xs. f x = Inr y"
  by (induction xs arbitrary: ys) (auto simp: bindR_eq_Inr)

lemma deposit_plan_nonneg:
  assumes "parseDepositPlan rawValue = Inr plan"
  shows "\<forall>(name, x) \<in> set plan. 0 \<le> x"
proof (cases "rawValue = None \<or> js_trim (the rawValue) = ''''")
  case True
  then have "plan = DEFAULT_DEPOSIT_PLAN" using assms by (cases rawValue) (auto simp: parseDepositPlan_def)
  then show ?thesis by (simp add: DEFAULT_DEPOSIT_PLAN_def)
next
  case False
  then obtain raw where "rawValue = Some raw" "js_trim raw \<noteq> ''''" by auto
  with assms obtain parsed where "(case parsed of VObject members \<Rightarrow>
        bindR (mapR deposit_entry (entries_of members)) (\<lambda>plan. Inr (filter (\<lambda>(name, _). name \<noteq> ''__proto__'') plan))
      | _ \<Rightarrow> throwError ''RYVO_DEMO_DEPOSIT_PLAN_JSON must be a JSON object'') = Inr plan"
    by (auto simp: parseDepositPlan_def bindR_eq_Inr)
  then obtain members entries where "mapR deposit_entry (entries_of members) = Inr entries" "set plan \<subseteq> set entries"
    by (cases parsed) (auto simp: bindR_eq_Inr)
  then show ?thesis by (auto dest!: mapR_results deposit_entry_nonneg)
qed

lemma name_list_entries: "parseNameListOption rawValue = Some names \<Longrightarrow> names \<noteq> [] \<and> '''' \<notin> set names"
  by (auto simp: parseNameListOption_def Let_def split: option.splits if_splits)

definition well_formed_settings :: "cli_settings \<Rightarrow> bool" where
  "well_formed_settings s \<longleftrightarrow>
     6 \<le> optWalletCount s \<and> optWalletCount s \<le> 32
     \<and> (\<forall>names. optActiveWalletNames s = Some names \<longrightarrow> names \<noteq> [] \<and> '''' \<notin> set names)
     \<and> 0 \<le> optSolPerWallet s \<and> 0 \<le> optTokensPerWallet s \<and> 0 \<le> optBlsInternalBalanceTarget s
     \<and> 0 \<le> optBlsRandomMinAmount s
     \<and> (optBlsRandomMinAmount s \<le> optBlsRandomMaxAmount s \<or> optBlsRandomMaxAmount s = DEFAULT_BLS_RANDOM_MAX_AMOUNT)
     \<and> 1 \<le> optBlsMaxDenseChannels s \<and> 200000 \<le> optBlsComputeUnitLimit s"

definition well_formed_scenarios :: "scenario_options \<Rightarrow> bool" where
  "well_formed_scenarios s \<longleftrightarrow>
     (\<forall>n \<in> {optSingleCommitmentCount s, optSingleCommitmentLogEvery s, optBatchCommitmentBatchCount s,
       optBatchCommitmentBatchSize s, optBatchCommitmentLogEvery s, optUnilateralPayeeACommitmentCount s,
       optUnilateralPayeeBCommitmentCount s, optBilateralForwardCommitmentCount s, optBilateralReverseCommitmentCount s,
       optMultilateralEdgeCommitmentCount s}. 1 \<le> n)
     \<and> (\<forall>x \<in> {optSingleCommitmentAmount s, optBatchCommitmentAmount s, optUnilateralAmountPerCommitment s,
       optUnilateralLockAmount s, optBilateralAmountPerCommitment s, optMultilateralAmountPerCommitment s}. 0 \<le> x)"

lemma round_f64_tenth: "0 \<le> round_f64 (1 / 10)"
  by (simp add: round_f64_def half_even_def Let_def zero_le_mult_iff)

lemmas default_options = MIN_WALLET_COUNT_def MAX_WALLET_COUNT_def DEFAULT_WALLET_COUNT_def DEFAULT_SOL_PER_WALLET_def
  DEFAULT_USDC_PER_WALLET_def DEFAULT_BLS_INTERNAL_BALANCE_TARGET_def DEFAULT_BLS_RANDOM_MIN_AMOUNT_def
  DEFAULT_BLS_MAX_DENSE_CHANNELS_def DEFAULT_BLS_COMPUTE_UNIT_LIMIT_def
  DEFAULT_SINGLE_COMMITMENT_COUNT_def DEFAULT_SINGLE_COMMITMENT_AMOUNT_def DEFAULT_SINGLE_COMMITMENT_LOG_EVERY_def
  DEFAULT_BATCH_COMMITMENT_BATCH_COUNT_def DEFAULT_BATCH_COMMITMENT_BATCH_SIZE_def DEFAULT_BATCH_COMMITMENT_AMOUNT_def
  DEFAULT_BATCH_COMMITMENT_LOG_EVERY_def DEFAULT_UNILATERAL_PAYEE_A_COMMITMENT_COUNT_def
  DEFAULT_UNILATERAL_PAYEE_B_COMMITMENT_COUNT_def DEFAULT_UNILATERAL_AMOUNT_PER_COMMITMENT_def
  DEFAULT_UNILATERAL_LOCK_AMOUNT_def DEFAULT_BILATERAL_FORWARD_COMMITMENT_COUNT_def
  DEFAULT_BILATERAL_REVERSE_COMMITMENT_COUNT_def DEFAULT_BILATERAL_AMOUNT_PER_COMMITMENT_def
  DEFAULT_MULTILATERAL_EDGE_COMMITMENT_COUNT_def DEFAULT_MULTILATERAL_AMOUNT_PER_COMMITMENT_def round_f64_tenth

text \<open>What a computation may return: a proof goes through it step by step.\<close>

definition returns :: "('a \<Rightarrow> bool) \<Rightarrow> 'a js \<Rightarrow> bool" where
  "returns P m \<longleftrightarrow> (\<forall>x. m = Inr x \<longrightarrow> P x)"

lemma returns_bind: "returns Q m \<Longrightarrow> (\<And>x. Q x \<Longrightarrow> returns P (f x)) \<Longrightarrow> returns P (bindR m f)"
  by (auto simp: returns_def bindR_eq_Inr)

lemma returns_integer: "minimum \<le> fallback \<Longrightarrow> returns ((\<le>) minimum) (parseIntegerOption raw fallback label minimum)"
  by (auto simp: returns_def dest: integer_option_range)

lemma returns_float: "minimum \<le> fallback \<Longrightarrow> returns ((\<le>) minimum) (parseFloatOption showNumber raw fallback label minimum)"
  by (auto simp: returns_def dest: float_option_range)

lemma returns_float_or:
  "returns (\<lambda>x. minimum \<le> x \<or> x = fallback) (parseFloatOption showNumber raw fallback label minimum)"
  by (auto simp: returns_def dest: float_option_range)

lemma returns_if: "(c \<Longrightarrow> returns P m) \<Longrightarrow> (\<not> c \<Longrightarrow> returns P m') \<Longrightarrow> returns P (if c then m else m')"
  by simp

lemma returns_any: "returns (\<lambda>_. True) m"
  by (simp add: returns_def)

lemma returns_throw: "returns P (throwError e)"
  by (simp add: returns_def)

lemma returns_Inr: "P x \<Longrightarrow> returns P (Inr x)"
  by (simp add: returns_def)

lemma settings_well_formed: "returns well_formed_settings (parse_settings showNumber newPublicKey get path)"
  unfolding parse_settings_def Let_def
  by (rule returns_bind, rule returns_integer, simp add: default_options,
      rule returns_if, rule returns_throw, rule returns_if, rule returns_throw,
      rule returns_bind, rule returns_any,
      rule returns_bind, rule returns_float, simp add: default_options,
      rule returns_bind, rule returns_float, simp add: default_options,
      rule returns_bind, rule returns_float, simp add: default_options,
      rule returns_bind, rule returns_float, simp add: default_options,
      rule returns_bind, rule returns_float_or,
      (rule returns_bind, rule returns_integer, simp add: default_options)+,
      (rule returns_bind, rule returns_any)+, rule returns_Inr)
    (auto simp: well_formed_settings_def default_options dest: name_list_entries)

lemma scenarios_well_formed: "returns well_formed_scenarios (parse_scenarios showNumber get)"
  unfolding parse_scenarios_def
  by ((rule returns_bind, rule returns_integer returns_float, simp add: default_options)+)
    (rule returns_Inr, simp add: well_formed_scenarios_def)

section \<open>Properties\<close>

lemma bind_lift: "bindIO (liftIO m) f w = Some (Inr y, w') \<longleftrightarrow> (\<exists>x. m = Inr x \<and> f x w = Some (Inr y, w'))"
  by (auto simp: bindIO_eq_Inr liftIO_def)

lemma config_leaves_disk: "loadConfigFile repoRoot rawPath d = Some (r, d') \<Longrightarrow> d' = d"
  by (auto simp: loadConfigFile_def readFileSync_def bindIO_def Let_def split: if_splits option.splits sum.splits)

text \<open>
  C30: Whatever the command line, the environment and the configuration file hold, the options that \<open>parseArgs\<close>
  returns are well formed: 6 to 32 wallets, names that are not empty, amounts that are not negative, counts of at
  least one, and amounts of the deposit plan that are not negative. The upper random amount is at least the
  lower one, unless it is the default, which is not compared with it. Parsing leaves the disk as it was.
\<close>

theorem options_well_formed:
  assumes "parseArgs showNumber newPublicKey env argv d = Some (Inr (Some options), d')"
  shows "well_formed_settings (cliSettings options) \<and> well_formed_scenarios (cliScenarios options)
    \<and> (\<forall>(name, x) \<in> set (cliDepositPlan options). 0 \<le> x) \<and> d' = d"
proof -
  let ?args = "scan_args argv Map.empty"
  have "?args ''help'' = None" using assms by (rule contrapos_pp) (simp add: parseArgs_def)
  then obtain get path where
    "bindIO (liftIO (parse_settings showNumber newPublicKey get path)) (\<lambda>settings.
      bindIO (liftIO (parseDepositPlan (get ''deposit-plan-json'' ''RYVO_DEMO_DEPOSIT_PLAN_JSON''))) (\<lambda>plan.
      bindIO (liftIO (parse_scenarios showNumber get)) (\<lambda>scenarios.
      returnIO (Some \<lparr>cliSettings = settings, cliDepositPlan = plan, cliScenarios = scenarios\<rparr>)))) d =
      Some (Inr (Some options), d')"
    using assms unfolding parseArgs_def Let_def
    by (simp only: simp_thms if_False) (subst (asm) bindIO_eq_Inr, auto dest!: config_leaves_disk)
  then have parts: "parse_settings showNumber newPublicKey get path = Inr (cliSettings options)
    \<and> parseDepositPlan (get ''deposit-plan-json'' ''RYVO_DEMO_DEPOSIT_PLAN_JSON'') = Inr (cliDepositPlan options)
    \<and> parse_scenarios showNumber get = Inr (cliScenarios options) \<and> d' = d"
    unfolding bind_lift returnIO_apply by (elim exE conjE) (simp only: option.inject prod.inject sum.inject, elim conjE, hypsubst, simp)
  have "well_formed_settings (cliSettings options)" "well_formed_scenarios (cliScenarios options)"
    using settings_well_formed scenarios_well_formed parts unfolding returns_def by blast+
  moreover have "\<forall>(name, x) \<in> set (cliDepositPlan options). 0 \<le> x" using parts deposit_plan_nonneg by blast
  ultimately show ?thesis using parts by blast
qed

lemma option_absent:
  "parseIntegerOption None fallback label minimum = Inr fallback"
  "parseFloatOption showNumber None fallback' label minimum' = Inr fallback'"
  "parseBooleanOption None flag = Inr flag" "parseNameListOption None = None" "parseDepositPlan None = Inr DEFAULT_DEPOSIT_PLAN"
  by (simp_all add: parseIntegerOption_def parseFloatOption_def parseBooleanOption_def parseNameListOption_def parseDepositPlan_def)

text \<open>A number is read up to the first character that is no digit.\<close>

lemma parseInt_show:
  assumes "\<bar>n\<bar> < 2 ^ 53" "\<forall>c \<in> set ws. js_space c" "junk = [] \<or> \<not> is_digit (hd junk)"
  shows "parseInt (ws @ show_int n @ junk) = Fin (of_int n)"
proof -
  define ds where "ds = show_nat (nat \<bar>n\<bar>)"
  have digits: "\<forall>c \<in> set ds. is_digit c" and nonempty: "ds \<noteq> []" using show_nat_digits by (auto simp: ds_def)
  have printed: "show_int n = (if n < 0 then CHR ''-'' # ds else ds)" unfolding ds_def by (rule show_int_abs)
  obtain c cs where c: "ds = c # cs" using nonempty list.exhaust by blast
  then have d: "is_digit c" using digits by simp
  have start: "\<not> js_space c" "\<not> js_space (CHR ''-'')" "c \<noteq> CHR ''-''" "c \<noteq> CHR ''+''"
    using d by (auto simp: is_digit_def js_space_def)
  have "dropWhile js_space (ws @ show_int n @ junk) = show_int n @ junk"
    using assms(2) start by (simp add: printed c)
  moreover have "scan_sign (show_int n @ junk) = (n < 0, ds @ junk)"
    using start by (simp add: scan_sign_def printed c)
  moreover have "takeWhile is_digit (ds @ junk) = ds"
    using digits assms(3) by (cases junk) (simp_all add: takeWhile_append2)
  moreover have "decimal_value (n < 0) ds [] 0 = of_int n" by (simp add: decimal_value_def ds_def)
  ultimately show ?thesis using nonempty to_number_of_int [OF assms(1)] by (simp add: parseInt_def)
qed

lemma show_int_nonempty: "show_int n \<noteq> []"
  using show_nat_digits by (simp add: show_int_abs)

text \<open>
  An integer option is the number its text begins with, accepted when it is not below the minimum and
  rejected otherwise. Blanks before it and anything after it are ignored: \<open>12abc\<close> is accepted as 12, although
  the error message asks for an integer.
\<close>

theorem integer_option_reads:
  assumes "\<bar>n\<bar> < 2 ^ 53" "\<forall>c \<in> set ws. js_space c" "junk = [] \<or> \<not> is_digit (hd junk)"
  shows "parseIntegerOption (Some (ws @ show_int n @ junk)) fallback label minimum =
    (if n < minimum then throwError (label @ '' must be an integer >= '' @ show_int minimum) else Inr n)"
proof -
  obtain ch rest' where nonempty: "ws @ show_int n @ junk = ch # rest'"
    by (cases "ws @ show_int n @ junk") (use show_int_nonempty [of n] in auto)
  have parsed: "parseInt (ch # rest') = Fin (of_int n)" using parseInt_show [OF assms] by (simp only: nonempty)
  show ?thesis unfolding nonempty
    by (simp add: parseIntegerOption_def parsed isInteger_def js_less_def integer_of_def)
qed

lemma show_int_digit: "0 \<le> n \<Longrightarrow> n < 10 \<Longrightarrow> show_int n = [char_of (48 + nat n)]"
  by (simp add: show_int_def show_nat.simps digit_char_def)

theorem integer_option_reads_witness:
  "parseIntegerOption (Some (''  '' @ show_int 12 @ ''abc'')) 32 ''wallet-count'' 6 = Inr 12"
  using integer_option_reads [of 12 "''  ''" "''abc''" 32 "''wallet-count''" 6]
  by (simp add: js_space_def is_digit_def)

theorem options_well_formed_witness:
  "\<exists>options. parseArgs (\<lambda>_. '''') (\<lambda>_. Inr (replicate 32 7)) Map.empty [''--wallet-count='' @ show_int 8, ''--skip-funding'']
      \<lparr>diskCwd = ''/repo'', diskDirs = [], diskFiles = []\<rparr> = Some (Inr (Some options), \<lparr>diskCwd = ''/repo'', diskDirs = [], diskFiles = []\<rparr>)
    \<and> well_formed_settings (cliSettings options) \<and> optWalletCount (cliSettings options) = 8 \<and> optSkipFunding (cliSettings options)"
proof -
  let ?d = "\<lparr>diskCwd = ''/repo'', diskDirs = [], diskFiles = []\<rparr>"
  let ?argv = "[''--wallet-count='' @ show_int 8, ''--skip-funding'']"
  have args: "scan_args ?argv Map.empty = [''wallet-count'' \<mapsto> show_int 8, ''skip-funding'' \<mapsto> ''true'']"
    by simp
  have count: "parseIntegerOption (Some (show_int 8)) fallback label 6 = Inr 8" for fallback label
    using integer_option_reads [of 8 "[]" "[]" fallback label 6] by simp
  have "\<exists>options. parseArgs (\<lambda>_. '''') (\<lambda>_. Inr (replicate 32 7)) Map.empty ?argv ?d = Some (Inr (Some options), ?d)
    \<and> optWalletCount (cliSettings options) = 8 \<and> optSkipFunding (cliSettings options)"
    unfolding parseArgs_def args
    by (simp add: loadConfigFile_def existsSync_def isFile_def isDir_def Let_def getValue_def parse_settings_def parse_scenarios_def count
        default_options option_absent parseBooleanOption_def or_else_def toLowerCase_def lower_char_def js_trim_def js_space_def)
  with options_well_formed show ?thesis by blast
qed

end
