(* ===== verification/Scenarios.thy ===== *)
theory Scenarios
  imports Setup Live Ed25519 Options
begin

text \<open>
  The first three scenarios of the demo: the settlement of one latest commitment, of bundles of
  commitments, and of a payment routed through a middleman in one clearing round.

  What a scenario uses is a \<open>stage\<close>: the session of \<open>Setup\<close>, the bench of \<open>Submit\<close> (its toolbox, and the
  parser of events), and \<open>rpc()\<close> of the three settling methods. Console output is left out, but not
  the conversions in it that may throw. The wallets that \<open>fetchInternalBalance\<close> updates are returned.
\<close>

section \<open>Settling calls\<close>

datatype settle_method = SettleIndividual | SettleCommitmentBundle int | SettleClearingRound bytes bytes

datatype pre_instruction = VerifyEd25519 bytes | RequestHeapFrame int | SetComputeUnitLimit int

record settle_call =
  settleMethod :: settle_method
  settleAccounts :: "(string \<times> pubkey) list"
  settleRemaining :: "account_meta list"
  settlePre :: "pre_instruction list"
  settleSigners :: "keypair list"

text \<open>
  \<open>stageVerify\<close> is \<open>Ed25519Program.createInstructionWithPrivateKey\<close> of a secret key and a message,
  \<open>stageRawTransaction\<close> the decoded bytes of the answer to \<open>getTransaction\<close> where it has them, 
  \<open>stageNoEvents\<close> the reading of events for the signature \<open>undefined\<close>, and \<open>stageProviderPayer\<close> the
  keypair of the provider's wallet.
\<close>

record ('w, 'g, 'i, 't) stage =
  stageSession :: "('w, 'i, 't, 'g) session"
  stageBench :: "('w, 'g, 'i, 't) bench"
  stageVerify :: "bytes \<Rightarrow> bytes \<Rightarrow> bytes js"
  stageSettle :: "settle_call \<Rightarrow> ('w, string) io"
  stageRawTransaction :: "string \<Rightarrow> ('w, bytes option) io"
  stageNoEvents :: "('w, unit) io"
  stageProviderPayer :: "keypair option"

abbreviation stage_net :: "('w, 'g, 'i, 't) stage \<Rightarrow> ('w, 'i, 't) cluster" where
  "stage_net st \<equiv> sesNet (stageSession st)"

abbreviation stage_box :: "('w, 'g, 'i, 't) stage \<Rightarrow> ('g, 'i) toolbox" where
  "stage_box st \<equiv> benchBox (stageBench st)"

definition fetchSerializedTransactionBytes :: "('w, 'g, 'i, 't) stage \<Rightarrow> string \<Rightarrow> ('w, int) io" where
  "fetchSerializedTransactionBytes st signature =
     bindIO (stageRawTransaction st signature) (\<lambda>encoded. case encoded of
       None \<Rightarrow> throwErrorIO (''Unable to fetch raw transaction bytes for '' @ signature)
     | Some transaction \<Rightarrow> returnIO (int (length transaction)))"

definition settle_accounts :: "('w, 'g, 'i, 't) stage \<Rightarrow> demo_wallet \<Rightarrow> (string \<times> pubkey) list" where
  "settle_accounts st submitter =
     [(''tokenRegistry'', registry_pda (stageSession st)), (''globalConfig'', config_pda (stageSession st)),
      (''submitter'', wallet_key submitter), (''instructionsSysvar'', boxSysvar (stage_box st))]"

definition fetch_lane ::
  "('w, 'g, 'i, 't) stage \<Rightarrow> pubkey \<Rightarrow> demo_wallet \<Rightarrow> demo_wallet \<Rightarrow> ('w, raw_lane directional_channel) io" where
  "fetch_lane st channelPda payer payee =
     fetchDirectionalChannelState (stage_net st) channelPda (walletParticipantId payer) (walletParticipantId payee)"

definition settled_number :: "('w, 'g, 'i, 't) stage \<Rightarrow> raw_lane directional_channel \<Rightarrow> int js" where
  "settled_number st channel = bnToNumber (stage_net st) (settledCumulative (channelLane channel))"

definition locked_number :: "('w, 'g, 'i, 't) stage \<Rightarrow> raw_lane directional_channel \<Rightarrow> int js" where
  "locked_number st channel = bnToNumber (stage_net st) (lockedBalance (channelLane channel))"

record scenario_result =
  scenarioSignature :: "string option"
  scenarioBenchmark :: benchmark_scenario

section \<open>One latest commitment\<close>

definition single_call ::
  "('w, 'g, 'i, 't) stage \<Rightarrow> bytes \<Rightarrow> int \<Rightarrow> demo_wallet \<Rightarrow> demo_wallet \<Rightarrow> pubkey \<Rightarrow> raw_lane directional_channel \<Rightarrow> int \<Rightarrow>
    (bytes \<times> settle_call) js" where
  "single_call st messageDomain token payer payee channelPda channel amount =
     bindR (createCommitmentMessage (boxBn (stage_box st)) (payerId channel) (payeeId channel) (Some amount) None token messageDomain) (\<lambda>message.
     bindR (stageVerify st (secretKey (walletKeypair payer)) message) (\<lambda>verification.
     Inr (message,
       \<lparr>settleMethod = SettleIndividual, settleAccounts = settle_accounts st payee,
        settleRemaining = uniqueWritableMetasForPubkeys [participantPda payer, participantPda payee] @
          [\<lparr>meta_pubkey = channelPda, meta_isSigner = False, meta_isWritable = True\<rparr>],
        settlePre = [VerifyEd25519 verification], settleSigners = [walletKeypair payee]\<rparr>)))"

definition single_params :: "string \<Rightarrow> nat \<Rightarrow> int \<Rightarrow> int \<Rightarrow> string \<Rightarrow> int \<Rightarrow> bytes \<Rightarrow> scenario_params" where
  "single_params tokenSymbol decimals payments gross signature transactionBytes message =
     \<lparr>paramId = ''singleCommitment'', paramTitle = ''Scenario 1/5 - Latest Commitment Settlement'',
      paramSettlementMode = LatestCommitment, paramParticipantCount = 2, paramChannelCount = 1,
      paramUnderlyingPaymentCount = payments, paramGrossValueRaw = gross, paramDecimals = int decimals,
      paramTokenSymbol = tokenSymbol, paramSignatures = [signature], paramSerializedTransactionBytes = [transactionBytes],
      paramSignedMessageBytes = int (length message), paramSignatureCount = 1, paramParticipantBalanceWrites = 2,
      paramChannelLaneWrites = 1,
      paramNotes = Some [''One latest cumulative commitment replaces exact-payment settlement on the hot path.''],
      paramRequestedShape = None, paramAchievedShape = None\<rparr>"

definition runSingleCommitmentScenario ::
  "('w, 'g, 'i, 't) stage \<Rightarrow> bytes \<Rightarrow> int \<Rightarrow> string \<Rightarrow> nat \<Rightarrow> demo_wallet \<Rightarrow> demo_wallet \<Rightarrow> int \<Rightarrow> js_num \<Rightarrow>
    ('w, scenario_result \<times> demo_wallet \<times> demo_wallet) io" where
  "runSingleCommitmentScenario st messageDomain token tokenSymbol decimals payer payee commitmentCount amountPerCommitment =
     bindIO (ensureChannel (stageSession st) payer payee token) (\<lambda>channelPda.
     bindIO (fetch_lane st channelPda payer payee) (\<lambda>channelBefore.
     bindIO (internal_balance (stageSession st) payer token) (\<lambda>(_, payer).
     bindIO (internal_balance (stageSession st) payee token) (\<lambda>(_, payee).
     bindIO (liftIO (toRawAmount (sesShowNumber (stageSession st)) amountPerCommitment decimals)) (\<lambda>rawAmount.
     bindIO (liftIO (settled_number st channelBefore)) (\<lambda>priorSettledAmount.
     let grossAmount = js_round (rawAmount * commitmentCount);
         finalCommittedAmount = js_plus priorSettledAmount grossAmount in
     bindIO (liftIO (buildSignedCommitmentPreview (boxBn (stage_box st)) (boxSign (stage_box st)) messageDomain (int decimals) tokenSymbol
       [\<lparr>inputPayer = payer, inputPayee = payee, inputCommittedAmount = finalCommittedAmount, inputTokenId = token\<rparr>])) (\<lambda>_.
     bindIO (liftIO (single_call st messageDomain token payer payee channelPda channelBefore finalCommittedAmount)) (\<lambda>(message, call).
     bindIO (stageSettle st call) (\<lambda>latestSignature.
     bindIO (fetchSerializedTransactionBytes st latestSignature) (\<lambda>serializedTxBytes.
     bindIO (fetch_lane st channelPda payer payee) (\<lambda>channelAfter.
     bindIO (internal_balance (stageSession st) payer token) (\<lambda>(_, payer).
     bindIO (internal_balance (stageSession st) payee token) (\<lambda>(_, payee).
     bindIO (liftIO (settled_number st channelAfter)) (\<lambda>_.
     bindIO (logScenarioEvents (stageBench st) latestSignature) (\<lambda>_.
     returnIO
       (\<lparr>scenarioSignature = Some latestSignature, scenarioBenchmark = createBenchmarkScenario
           (single_params tokenSymbol decimals commitmentCount grossAmount latestSignature serializedTxBytes message)\<rparr>,
        payer, payee))))))))))))))))"

section \<open>Bundles of commitments\<close>

definition MAX_BUNDLE_CHANNELS_PER_TX :: nat where "MAX_BUNDLE_CHANNELS_PER_TX = 2"

record batch_channel =
  batchPayer :: demo_wallet
  batchPda :: pubkey
  batchLane :: "raw_lane directional_channel"
  batchAmount :: int

definition batch_channel_of ::
  "('w, 'g, 'i, 't) stage \<Rightarrow> int \<Rightarrow> demo_wallet \<Rightarrow> int \<Rightarrow> demo_wallet \<Rightarrow> ('w, batch_channel) io" where
  "batch_channel_of st token payee gross payer =
     bindIO (ensureChannel (stageSession st) payer payee token) (\<lambda>channelPda.
     bindIO (fetch_lane st channelPda payer payee) (\<lambda>channel.
     bindIO (liftIO (settled_number st channel)) (\<lambda>settled.
     returnIO \<lparr>batchPayer = payer, batchPda = channelPda, batchLane = channel, batchAmount = js_plus settled gross\<rparr>)))"

definition batch_message :: "('w, 'g, 'i, 't) stage \<Rightarrow> bytes \<Rightarrow> int \<Rightarrow> batch_channel \<Rightarrow> bytes js" where
  "batch_message st messageDomain token c =
     createCommitmentMessage (boxBn (stage_box st)) (payerId (batchLane c)) (payeeId (batchLane c)) (Some (batchAmount c)) None
       token messageDomain"

definition bundle_call ::
  "('w, 'g, 'i, 't) stage \<Rightarrow> bytes \<Rightarrow> int \<Rightarrow> demo_wallet \<Rightarrow> batch_channel list \<Rightarrow> settle_call js" where
  "bundle_call st messageDomain token payee chunk =
     bindR (mapR (\<lambda>c. bindR (batch_message st messageDomain token c) (\<lambda>message.
       Inr (walletKeypair (batchPayer c), message))) chunk) (\<lambda>bundleEntries.
     bindR (createMultiMessageEd25519Instruction (boxSign (stage_box st)) bundleEntries) (\<lambda>verification.
     Inr \<lparr>settleMethod = SettleCommitmentBundle (int (length bundleEntries)), settleAccounts = settle_accounts st payee,
       settleRemaining = uniqueWritableMetasForPubkeys (participantPda payee # map (\<lambda>c. participantPda (batchPayer c)) chunk) @
         uniqueWritableMetasForPubkeys (map batchPda chunk),
       settlePre = [VerifyEd25519 verification], settleSigners = [walletKeypair payee]\<rparr>))"

definition settle_chunk ::
  "('w, 'g, 'i, 't) stage \<Rightarrow> bytes \<Rightarrow> int \<Rightarrow> demo_wallet \<Rightarrow> batch_channel list \<Rightarrow> string list \<Rightarrow> ('w, string list) io" where
  "settle_chunk st messageDomain token payee chunk sent =
     bindIO (liftIO (bundle_call st messageDomain token payee chunk)) (\<lambda>call.
     bindIO (stageSettle st call) (\<lambda>chunkSignature. returnIO (sent @ [chunkSignature])))"

definition batch_params ::
  "string \<Rightarrow> nat \<Rightarrow> int \<Rightarrow> int \<Rightarrow> int \<Rightarrow> string list \<Rightarrow> int list \<Rightarrow> bytes list \<Rightarrow> scenario_params" where
  "batch_params tokenSymbol decimals payerCount payments gross sent transactionBytes messages =
     \<lparr>paramId = ''batchCommitment'', paramTitle = ''Scenario 2/5 - Commitment Bundle Settlement'',
      paramSettlementMode = Bundle, paramParticipantCount = payerCount + 1, paramChannelCount = payerCount,
      paramUnderlyingPaymentCount = payments, paramGrossValueRaw = gross, paramDecimals = int decimals,
      paramTokenSymbol = tokenSymbol, paramSignatures = sent, paramSerializedTransactionBytes = transactionBytes,
      paramSignedMessageBytes = foldl (\<lambda>sum message. sum + int (length message)) 0 messages,
      paramSignatureCount = int (length messages), paramParticipantBalanceWrites = payerCount + 1,
      paramChannelLaneWrites = int (length messages),
      paramNotes = Some [''Many unilateral latest commitments settle in payee-side bundle transactions.''],
      paramRequestedShape = None, paramAchievedShape = None\<rparr>"

definition log_latest :: "('w, 'g, 'i, 't) stage \<Rightarrow> string option \<Rightarrow> ('w, unit) io" where
  "log_latest st latest = (case latest of
     Some signature \<Rightarrow> logScenarioEvents (stageBench st) signature | None \<Rightarrow> stageNoEvents st)"

definition runBatchCommitmentScenario ::
  "('w, 'g, 'i, 't) stage \<Rightarrow> bytes \<Rightarrow> int \<Rightarrow> string \<Rightarrow> nat \<Rightarrow> demo_wallet list \<Rightarrow> demo_wallet \<Rightarrow> int \<Rightarrow> int \<Rightarrow> js_num \<Rightarrow>
    ('w, scenario_result \<times> demo_wallet list \<times> demo_wallet) io" where
  "runBatchCommitmentScenario st messageDomain token tokenSymbol decimals payers payee batchCount batchSize amountPerCommitment =
     (let selectedPayers = js_subarray payers 0 batchCount in
      bindIO (liftIO (toRawAmount (sesShowNumber (stageSession st)) amountPerCommitment decimals)) (\<lambda>rawAmount.
      let totalUnderlyingPayments = js_round (int (length selectedPayers) * batchSize) in
      bindIO (internal_balance (stageSession st) payee token) (\<lambda>(_, payee).
      bindIO (mapIO (\<lambda>payer. internal_balance (stageSession st) payer token) selectedPayers) (\<lambda>payerBalancesBefore.
      bindIO (mapIO (batch_channel_of st token payee (js_round (rawAmount * batchSize))) (map snd payerBalancesBefore)) (\<lambda>channelsBefore.
      bindIO (liftIO (buildCommitmentBundlePayloadPreview (boxBn (stage_box st)) (boxSign (stage_box st)) messageDomain (int decimals)
        token tokenSymbol payee (map (\<lambda>c. \<lparr>inputPayer = batchPayer c, inputPayee = payee, inputCommittedAmount = batchAmount c,
          inputTokenId = token\<rparr>) channelsBefore))) (\<lambda>_.
      bindIO (foldIO (settle_chunk st messageDomain token payee) (chunks MAX_BUNDLE_CHANNELS_PER_TX channelsBefore) []) (\<lambda>sent.
      bindIO (mapIO (\<lambda>c. fetch_lane st (batchPda c) (batchPayer c) payee) channelsBefore) (\<lambda>channelsAfter.
      bindIO (mapIO (\<lambda>c. internal_balance (stageSession st) (batchPayer c) token) channelsBefore) (\<lambda>payerBalancesAfter.
      bindIO (internal_balance (stageSession st) payee token) (\<lambda>(_, payee).
      bindIO (liftIO (mapR (settled_number st) channelsAfter)) (\<lambda>_.
      bindIO (mapIO (fetchSerializedTransactionBytes st) sent) (\<lambda>transactionBytes.
      let latestSignature = (if sent = [] then None else Some (last sent)) in
      bindIO (log_latest st latestSignature) (\<lambda>_.
      bindIO (liftIO (mapR (batch_message st messageDomain token) channelsBefore)) (\<lambda>messages.
      returnIO
        (\<lparr>scenarioSignature = latestSignature, scenarioBenchmark = createBenchmarkScenario
            (batch_params tokenSymbol decimals (int (length selectedPayers)) totalUnderlyingPayments
              (js_round (rawAmount * totalUnderlyingPayments)) sent transactionBytes messages)\<rparr>,
         map snd payerBalancesAfter, payee)))))))))))))))"

section \<open>A payment routed through a middleman\<close>

definition routed_blocks :: "demo_wallet \<Rightarrow> demo_wallet \<Rightarrow> demo_wallet \<Rightarrow> int \<Rightarrow> int \<Rightarrow> round_preview_block list" where
  "routed_blocks payer middleman recipient firstTarget secondTarget =
     [\<lparr>roundParticipant = payer,
       roundEntries = [\<lparr>roundPayeeRef = 1, roundPayee = middleman, roundTargetCumulative = firstTarget\<rparr>]\<rparr>,
      \<lparr>roundParticipant = middleman,
       roundEntries = [\<lparr>roundPayeeRef = 2, roundPayee = recipient, roundTargetCumulative = secondTarget\<rparr>]\<rparr>,
      \<lparr>roundParticipant = recipient, roundEntries = []\<rparr>]"

definition routed_call ::
  "('w, 'g, 'i, 't) stage \<Rightarrow> bytes \<Rightarrow> int \<Rightarrow> demo_wallet \<Rightarrow> demo_wallet \<Rightarrow> demo_wallet \<Rightarrow> pubkey list \<Rightarrow>
    round_preview_block list \<Rightarrow> (bytes \<times> bytes \<times> settle_call) js" where
  "routed_call st messageDomain token payer middleman recipient channels blocks =
     bindR (createClearingRoundMessage (boxBn (stage_box st)) token messageDomain (map round_block_spec blocks)
       (Some BLS_CLEARING_ROUND_MESSAGE_VERSION)) (\<lambda>message.
     bindR (mapR (\<lambda>wallet. signWalletBlsMessage (stage_box st) wallet message) [payer, middleman]) (\<lambda>parts.
     bindR (aggregateBlsSignatures (boxCurve (stage_box st)) parts) (\<lambda>aggregate.
     Inr (message, aggregate,
       \<lparr>settleMethod = SettleClearingRound message aggregate, settleAccounts = settle_accounts st middleman,
        settleRemaining = uniqueWritableMetasForPubkeys [participantPda payer, participantPda middleman, participantPda recipient] @
          uniqueWritableMetasForPubkeys channels,
        settlePre = [RequestHeapFrame (256 * 1024), SetComputeUnitLimit DEFAULT_BLS_COMPUTE_UNIT_LIMIT],
        settleSigners = [walletKeypair middleman]\<rparr>))))"

definition routed_params :: "string \<Rightarrow> nat \<Rightarrow> int \<Rightarrow> string \<Rightarrow> int \<Rightarrow> bytes \<Rightarrow> scenario_params" where
  "routed_params tokenSymbol decimals gross signature transactionBytes message =
     \<lparr>paramId = ''atomicRoutedClearing'', paramTitle = ''Scenario 3/6 - Atomic Routed BLS Clearing'',
      paramSettlementMode = AtomicRoutedClearing, paramParticipantCount = 3, paramChannelCount = 2,
      paramUnderlyingPaymentCount = 2, paramGrossValueRaw = gross, paramDecimals = int decimals,
      paramTokenSymbol = tokenSymbol, paramSignatures = [signature], paramSerializedTransactionBytes = [transactionBytes],
      paramSignedMessageBytes = int (length message), paramSignatureCount = 1, paramParticipantBalanceWrites = 1,
      paramChannelLaneWrites = 2,
      paramNotes = Some
        [''Only the buyer and middleman sign because they have outgoing channel entries; the final recipient is passive.'',
         ''The middleman channel to the final recipient advances without pre-locked collateral because the incoming leg covers the outgoing leg in the same atomic round.''],
      paramRequestedShape = None, paramAchievedShape = None\<rparr>"

text \<open>The two checks after the settlement.\<close>

definition check_routed :: "int \<Rightarrow> token_balance_view list \<Rightarrow> token_balance_view list \<Rightarrow> unit js" where
  "check_routed routeRaw before after =
     (if viewAvailable (after ! 1) \<noteq> viewAvailable (before ! 1) then
        throwError ''Atomic routed clearing invariant failed: middleman internal balance changed''
      else if js_round (viewAvailable (after ! 2) - viewAvailable (before ! 2)) \<noteq> routeRaw then
        throwError ''Atomic routed clearing invariant failed: recipient did not receive the routed amount''
      else Inr ())"

text \<open>The amounts of a channel that are printed, in the order they are read as numbers.\<close>

definition routed_numbers ::
  "('w, 'g, 'i, 't) stage \<Rightarrow> raw_lane directional_channel \<Rightarrow> raw_lane directional_channel \<Rightarrow> int js list" where
  "routed_numbers st before after =
     [settled_number st before, settled_number st after, locked_number st before, locked_number st after]"

definition three_balances ::
  "('w, 'g, 'i, 't) stage \<Rightarrow> int \<Rightarrow> demo_wallet \<Rightarrow> demo_wallet \<Rightarrow> demo_wallet \<Rightarrow>
    ('w, token_balance_view list \<times> demo_wallet \<times> demo_wallet \<times> demo_wallet) io" where
  "three_balances st token payer middleman recipient =
     bindIO (internal_balance (stageSession st) payer token) (\<lambda>(first, payer).
     bindIO (internal_balance (stageSession st) middleman token) (\<lambda>(second, middleman).
     bindIO (internal_balance (stageSession st) recipient token) (\<lambda>(third, recipient).
     returnIO ([first, second, third], payer, middleman, recipient))))"

definition runAtomicRoutedClearingScenario ::
  "('w, 'g, 'i, 't) stage \<Rightarrow> bytes \<Rightarrow> int \<Rightarrow> string \<Rightarrow> nat \<Rightarrow> demo_wallet \<Rightarrow> demo_wallet \<Rightarrow> demo_wallet \<Rightarrow> js_num \<Rightarrow> pubkey \<Rightarrow>
    ('w, scenario_result \<times> demo_wallet \<times> demo_wallet \<times> demo_wallet) io" where
  "runAtomicRoutedClearingScenario st messageDomain token tokenSymbol decimals payer middleman recipient routeAmount vault =
     (let s = stageSession st in
      bindIO (liftIO (toRawAmount (sesShowNumber s) routeAmount decimals)) (\<lambda>routeRaw.
      bindIO (ensureMinimumInternalBalances s [payer] token vault [walletParticipantId payer \<mapsto> routeRaw]) (\<lambda>funded.
      let payer = hd funded in
      bindIO (ensureChannel s payer middleman token) (\<lambda>payerToMiddlePda.
      bindIO (ensureLockedChannelFunds s payer middleman token payerToMiddlePda routeRaw) (\<lambda>_.
      bindIO (ensureChannel s middleman recipient token) (\<lambda>middleToRecipientPda.
      bindIO (fetch_lane st payerToMiddlePda payer middleman) (\<lambda>payerToMiddleBefore.
      bindIO (fetch_lane st middleToRecipientPda middleman recipient) (\<lambda>middleToRecipientBefore.
      bindIO (three_balances st token payer middleman recipient) (\<lambda>(balancesBefore, payer, middleman, recipient).
      bindIO (liftIO (settled_number st payerToMiddleBefore)) (\<lambda>firstSettled.
      bindIO (liftIO (settled_number st middleToRecipientBefore)) (\<lambda>secondSettled.
      let blocks = routed_blocks payer middleman recipient (js_plus firstSettled routeRaw) (js_plus secondSettled routeRaw) in
      bindIO (liftIO (routed_call st messageDomain token payer middleman recipient [payerToMiddlePda, middleToRecipientPda] blocks))
        (\<lambda>(message, aggregate, call).
      bindIO (liftIO (buildClearingRoundPayloadPreview (boxBn (stage_box st)) (boxSign (stage_box st)) messageDomain token tokenSymbol
        (int decimals) blocks (Some BLS_CLEARING_ROUND_MESSAGE_VERSION) (Some aggregate))) (\<lambda>_.
      bindIO (stageSettle st call) (\<lambda>signature.
      bindIO (fetchSerializedTransactionBytes st signature) (\<lambda>serializedTxBytes.
      bindIO (three_balances st token payer middleman recipient) (\<lambda>(balancesAfter, payer, middleman, recipient).
      bindIO (fetch_lane st payerToMiddlePda payer middleman) (\<lambda>payerToMiddleAfter.
      bindIO (fetch_lane st middleToRecipientPda middleman recipient) (\<lambda>middleToRecipientAfter.
      bindIO (liftIO (check_routed routeRaw balancesBefore balancesAfter)) (\<lambda>_.
      bindIO (liftIO (mapR (\<lambda>f. f) (routed_numbers st payerToMiddleBefore payerToMiddleAfter @
        routed_numbers st middleToRecipientBefore middleToRecipientAfter))) (\<lambda>_.
      bindIO (logScenarioEvents (stageBench st) signature) (\<lambda>_.
      returnIO
        (\<lparr>scenarioSignature = Some signature, scenarioBenchmark = createBenchmarkScenario
            (routed_params tokenSymbol decimals (js_round (routeRaw * 2)) signature serializedTxBytes message)\<rparr>,
         payer, middleman, recipient))))))))))))))))))))))"

section \<open>Rounded sums\<close>

lemma bit_length_power: "0 < n \<Longrightarrow> 2 ^ (bit_length n - 1) \<le> n"
proof (induction n rule: bit_length.induct)
  case (1 n)
  show ?case
  proof (cases "n = 1")
    case False
    then have "0 < n div 2" using 1(2) by linarith
    then have "2 ^ (bit_length (n div 2) - 1) \<le> n div 2" "0 < bit_length (n div 2)"
      using 1 by (simp, subst bit_length.simps, simp)
    moreover obtain m where "bit_length (n div 2) = Suc m" using calculation(2) by (auto dest: gr0_implies_Suc)
    ultimately have "2 ^ (bit_length n - 1) \<le> 2 * (n div 2)" using 1(2) by (subst bit_length.simps) simp
    then show ?thesis by linarith
  qed (simp add: bit_length.simps)
qed

lemma js_Number_bounds:
  assumes "0 \<le> n"
  shows "0 \<le> js_Number n" "js_Number n \<le> 2 * n"
proof -
  define e where "e = bit_length n - 53"
  have e: "2 ^ e \<le> n" if "2 ^ 53 \<le> n"
  proof -
    have "(2 :: int) ^ e \<le> 2 ^ (bit_length n - 1)" by (rule power_increasing) (simp_all add: e_def)
    also have "\<dots> \<le> n" using that by (intro bit_length_power) simp
    finally show ?thesis .
  qed
  have "n div 2 ^ e * 2 ^ e \<le> n" by (simp add: minus_mod_eq_div_mult [symmetric])
  then show "js_Number n \<le> 2 * n" using assms e
    by (cases "n < 2 ^ 53") (auto simp: js_Number_def Let_def distrib_right simp flip: e_def)
  show "0 \<le> js_Number n" using assms by (auto simp: js_Number_def Let_def pos_imp_zdiv_nonneg_iff)
qed

lemma js_plus_small:
  assumes "0 \<le> a" "0 \<le> b" "a < 2 ^ 53" "b < 2 ^ 53"
  shows "0 \<le> js_plus a b" "js_plus a b < 2 ^ 64"
  using assms js_Number_bounds [of "a + b"] by (auto simp: js_plus_def js_round_def)

section \<open>What the steps return\<close>

lemma bindIO_pairE:
  assumes "bindIO m (\<lambda>(a, b). f a b) w = Some (Inr y, w'')"
  obtains a b w' where "m w = Some (Inr (a, b), w')" "f a b w' = Some (Inr y, w'')"
  using assms by (elim bindIO_InrE) (auto split: prod.splits)

lemma bindIO_tripleE:
  assumes "bindIO m (\<lambda>(a, b, c). f a b c) w = Some (Inr y, w'')"
  obtains a b c w' where "m w = Some (Inr (a, b, c), w')" "f a b c w' = Some (Inr y, w'')"
  using assms by (elim bindIO_InrE) (auto split: prod.splits)

lemma bindIO_quadE:
  assumes "bindIO m (\<lambda>(a, b, c, d). f a b c d) w = Some (Inr y, w'')"
  obtains a b c d w' where "m w = Some (Inr (a, b, c, d), w')" "f a b c d w' = Some (Inr y, w'')"
  using assms by (elim bindIO_InrE) (auto split: prod.splits)

lemmas io_success = bindIO_quadE bindIO_tripleE bindIO_pairE bindIO_InrE

lemma balance_wallet:
  assumes "internal_balance s wallet token w = Some (Inr (view, wallet'), w')"
  shows "wallet' = wallet\<lparr>participantPda := participantPda wallet', walletParticipantId := walletParticipantId wallet'\<rparr>"
  using assms unfolding internal_balance_def fetchInternalBalance_def
  by (elim bindIO_InrE) (auto elim!: bindIO_InrE split: prod.splits if_splits)

lemma fetched_ids:
  assumes "fetch_lane st channelPda payer payee w = Some (Inr channel, w')"
  shows "payerId channel = walletParticipantId payer" "payeeId channel = walletParticipantId payee"
  using assms unfolding fetch_lane_def fetchDirectionalChannelState_def
  by (elim bindIO_InrE; auto simp: liftIO_def normalizeDirectionalChannelState_def bindR_eq_Inr)+

lemma readUIntLE_less:
  assumes "js_readUIntLE k data off = Inr n"
  shows "0 \<le> n \<and> n < 256 ^ k"
proof -
  have n: "n = int (le_nat (subarray (nat off) k data))" and "0 \<le> off" "off + int k \<le> int (length data)"
    using assms by (auto simp: js_readUIntLE_def out_of_bounds_def split: if_splits)
  then have "le_nat (subarray (nat off) k data) < 256 ^ k" by (intro le_nat_subarray_bound) linarith
  then have "int (le_nat (subarray (nat off) k data)) < int (256 ^ k)" by (simp only: of_nat_less_iff)
  then show ?thesis by (simp add: n)
qed

lemma fetched_amounts:
  assumes "fetch_lane st channelPda payer payee w = Some (Inr channel, w')"
  shows "0 \<le> settledCumulative (channelLane channel)" "0 \<le> lockedBalance (channelLane channel)"
proof -
  obtain data pair where pair: "readRawChannelBucketState (webPublicKey (stage_net st)) data (walletParticipantId payer) (walletParticipantId payee) = Inr pair"
    and lane: "getDirectionalLaneState pair (walletParticipantId payer) (walletParticipantId payee) = Inr (channelLane channel)"
    using assms unfolding fetch_lane_def fetchDirectionalChannelState_def fetchRawChannelBucketState_def
    by (elim bindIO_InrE) (auto simp: normalizeDirectionalChannelState_def bindR_eq_Inr)
  have "0 \<le> settledCumulative l \<and> 0 \<le> lockedBalance l" if "readRawDirectionalLaneState key bytes off = Inr l" for key bytes off l
    using that by (auto simp: readRawDirectionalLaneState_def readRawU64Bn_def Let_def bindR_eq_Inr dest!: readUIntLE_less split: if_splits)
  then show "0 \<le> settledCumulative (channelLane channel)" "0 \<le> lockedBalance (channelLane channel)"
    using pair lane by (auto simp: readRawChannelBucketState_def Let_def bindR_eq_Inr getDirectionalLaneState_def split: if_splits)
qed

lemma ensured_channel:
  assumes "ensureChannel s payer payee token w = Some (Inr channelPda, w')"
  shows "session_channel s payer payee token = Inr channelPda"
  using assms unfolding ensureChannel_def
  by (elim bindIO_InrE) (auto simp: liftIO_def elim!: bindIO_InrE split: if_splits)

lemma benchmark_simps:
  "settlementTransactionCount (createBenchmarkScenario p) = int (length (paramSignatures p))"
  "underlyingPaymentCount (createBenchmarkScenario p) = paramUnderlyingPaymentCount p"
  "grossValueRaw (createBenchmarkScenario p) = show_int (paramGrossValueRaw p)"
  "channelCount (createBenchmarkScenario p) = paramChannelCount p"
  "participantCount (createBenchmarkScenario p) = paramParticipantCount p"
  "signatures (createBenchmarkScenario p) = paramSignatures p"
  by (simp_all add: createBenchmarkScenario_def Let_def)

section \<open>The commitment that is settled\<close>

lemma single_call_reads:
  assumes call: "single_call st messageDomain (uint (token :: u16)) payer payee channelPda channel amount = Inr (message, call)"
    and bn: "\<And>n k. 0 \<le> n \<Longrightarrow> n < 256 ^ k \<Longrightarrow> boxBn (stage_box st) n k = Inr (le_bytes k (nat n))"
    and channel: "payerId channel = uint (p :: u32)" "payeeId channel = uint (q :: u32)" and domain: "length messageDomain = 16"
  shows "0 \<le> amount \<Longrightarrow> amount < 2 ^ 64 \<Longrightarrow> parse_commitment_message message messageDomain =
      Inr \<lparr>payer_id = p, payee_id = q, commitment_token_id = token, committed_amount = word_of_int amount, authorized_settler = None\<rparr>"
    and "\<exists>verification. stageVerify st (secretKey (walletKeypair payer)) message = Inr verification
      \<and> settleMethod call = SettleIndividual \<and> settlePre call = [VerifyEd25519 verification]
      \<and> settleSigners call = [walletKeypair payee]"
proof -
  show "\<exists>verification. stageVerify st (secretKey (walletKeypair payer)) message = Inr verification
      \<and> settleMethod call = SettleIndividual \<and> settlePre call = [VerifyEd25519 verification]
      \<and> settleSigners call = [walletKeypair payee]"
    using call by (auto simp: single_call_def bindR_eq_Inr)
  assume amount: "0 \<le> amount" "amount < 2 ^ 64"
  have "createCommitmentMessage (boxBn (stage_box st)) (uint p) (uint q) (Some amount) None (uint token) messageDomain = Inr message"
    using call by (auto simp: single_call_def bindR_eq_Inr channel)
  moreover have "uint p < 2 ^ 32" "uint q < 2 ^ 32" using uint_lt2p [of p] uint_lt2p [of q] by simp_all
  ultimately show "parse_commitment_message message messageDomain =
      Inr \<lparr>payer_id = p, payee_id = q, commitment_token_id = token, committed_amount = word_of_int amount, authorized_settler = None\<rparr>"
    using commitment_read [of "boxBn (stage_box st)" messageDomain messageDomain "uint p" "uint q" amount None token, OF bn domain domain]
      amount by auto
qed

text \<open>
  C10: When the first scenario returns, whatever the cluster answered, one transaction settled all \<open>n\<close> payments: its
  Ed25519 instruction is for a message signed with the payer's key, from which the program reads the two
  participants, the token and the amount settled before plus \<open>n\<close> times the raw amount (the sum of two doubles
  below \<open>2 ^ 53\<close>).
\<close>

theorem single_commitment_settled:
  assumes run: "runSingleCommitmentScenario st messageDomain (uint (token :: u16)) symbol decimals payer payee n amount w =
      Some (Inr (result, payer', payee'), w')"
    and bn: "\<And>n k. 0 \<le> n \<Longrightarrow> n < 256 ^ k \<Longrightarrow> boxBn (stage_box st) n k = Inr (le_bytes k (nat n))"
    and number: "\<And>n m. bnToNumber (stage_net st) n = Inr m \<Longrightarrow> m = n \<and> n < 2 ^ 53"
    and ids: "walletParticipantId payer = uint (p :: u32)" "walletParticipantId payee = uint (q :: u32)"
    and raw: "toRawAmount (sesShowNumber (stageSession st)) amount decimals = Inr raw" "0 \<le> raw * n" "raw * n < 2 ^ 53" "length messageDomain = 16"
  shows "\<exists>channelPda channel message verification call signature w1 w2 w3 w4.
    session_channel (stageSession st) payer payee (uint token) = Inr channelPda
    \<and> fetch_lane st channelPda payer payee w1 = Some (Inr channel, w2)
    \<and> parse_commitment_message message messageDomain = Inr \<lparr>payer_id = p, payee_id = q, commitment_token_id = token,
        committed_amount = word_of_int (js_plus (settledCumulative (channelLane channel)) (raw * n)), authorized_settler = None\<rparr>
    \<and> stageVerify st (secretKey (walletKeypair payer)) message = Inr verification
    \<and> settleMethod call = SettleIndividual \<and> settlePre call = [VerifyEd25519 verification]
    \<and> settleSigners call = [walletKeypair payee]
    \<and> stageSettle st call w3 = Some (Inr signature, w4) \<and> scenarioSignature result = Some signature
    \<and> settlementTransactionCount (scenarioBenchmark result) = 1 \<and> underlyingPaymentCount (scenarioBenchmark result) = n"
proof -
  obtain channelPda w1 channel w2 payer1 w3 v1 payee1 w4 v2 settled message call w5 signature w6
    where pda: "session_channel (stageSession st) payer payee (uint token) = Inr channelPda"
      and lane: "fetch_lane st channelPda payer payee w1 = Some (Inr channel, w2)"
      and wallets: "internal_balance (stageSession st) payer (uint token) w2 = Some (Inr (v1, payer1), w3)"
        "internal_balance (stageSession st) payee (uint token) w3 = Some (Inr (v2, payee1), w4)"
      and settled: "settled_number st channel = Inr settled"
      and call: "single_call st messageDomain (uint token) payer1 payee1 channelPda channel (js_plus settled (js_round (raw * n))) =
        Inr (message, call)"
      and sent: "stageSettle st call w5 = Some (Inr signature, w6)" and result: "scenarioSignature result = Some signature"
        "settlementTransactionCount (scenarioBenchmark result) = 1" "underlyingPaymentCount (scenarioBenchmark result) = n"
    using run [unfolded runSingleCommitmentScenario_def raw(1) liftIO_Inr bindIO_returnIO Let_def]
    by (elim io_success) (auto simp: liftIO_def benchmark_simps single_params_def dest: ensured_channel)
  have ids': "payerId channel = uint p" "payeeId channel = uint q" using fetched_ids [OF lane] ids by simp_all
  have keys: "walletKeypair payer1 = walletKeypair payer" "walletKeypair payee1 = walletKeypair payee"
    using balance_wallet [OF wallets(1)] balance_wallet [OF wallets(2)] by (metis demo_wallet.select_convs(2) demo_wallet.surjective demo_wallet.update_convs)+
  have settled': "settled = settledCumulative (channelLane channel)" "0 \<le> settled" "settled < 2 ^ 53"
    using number settled fetched_amounts [OF lane] by (auto simp: settled_number_def)
  note reads = single_call_reads [OF call bn ids' raw(4), unfolded keys]
  have "parse_commitment_message message messageDomain = Inr \<lparr>payer_id = p, payee_id = q, commitment_token_id = token,
      committed_amount = word_of_int (js_plus settled (raw * n)), authorized_settler = None\<rparr>"
    using reads(1) js_plus_small [OF settled'(2) raw(2) settled'(3) raw(3)] raw(2,3) by simp
  then show ?thesis using pda lane reads(2) sent result settled'(1) by blast
qed

end
