(* ===== verification/Flagship.thy ===== *)
theory Flagship
  imports Scenarios Files
begin

text \<open>
  The multilateral scenario that settles a graph of channels in one clearing round
  (\<open>runMultilateralClearingScenario\<close>, which gives up one channel after the other until a round is
  executed), the search over smaller shapes around it (\<open>runLargestExecutableMultilateralScenario\<close>),
  and the preparation of the search over dense graphs (\<open>prepareMultilateralSearchContext\<close>).

  A wallet object is shared by the participants, the pairs, the edges and the blocks. As in \<open>Submit\<close>, an
  updated wallet replaces the others of its key with \<open>refreshed\<close>.
\<close>

section \<open>The edges and blocks of a candidate\<close>

record graph_edge =
  graphPayer :: demo_wallet
  graphPayee :: demo_wallet
  graphPda :: pubkey
  graphLane :: "raw_lane directional_channel"

definition candidate_edge ::
  "('w, 'g, 'i, 't) stage \<Rightarrow> int \<Rightarrow> demo_wallet \<times> demo_wallet \<Rightarrow> ('w, graph_edge) io" where
  "candidate_edge st token pair = (case pair of (payer, payee) \<Rightarrow>
     bindIO (ensureChannel (stageSession st) payer payee token) (\<lambda>channelPda.
     bindIO (fetch_lane st channelPda payer payee) (\<lambda>channel.
     returnIO \<lparr>graphPayer = payer, graphPayee = payee, graphPda = channelPda, graphLane = channel\<rparr>)))"

definition same_participant :: "demo_wallet \<Rightarrow> demo_wallet \<Rightarrow> bool" where
  "same_participant a b \<longleftrightarrow> walletParticipantId a = walletParticipantId b"

text \<open>\<open>findIndex\<close> is -1 where there is none.\<close>

definition payee_index :: "demo_wallet list \<Rightarrow> demo_wallet \<Rightarrow> int" where
  "payee_index participants payee =
     (let before = takeWhile (\<lambda>candidate. \<not> same_participant candidate payee) participants in
      if length before < length participants then int (length before) else -1)"

definition candidate_payment ::
  "('w, 'g, 'i, 't) stage \<Rightarrow> demo_wallet list \<Rightarrow> int \<Rightarrow> graph_edge \<Rightarrow> round_preview_entry js" where
  "candidate_payment st participants grossAmount edge =
     bindR (settled_number st (graphLane edge)) (\<lambda>settled.
     Inr \<lparr>roundPayeeRef = payee_index participants (graphPayee edge), roundPayee = graphPayee edge,
          roundTargetCumulative = js_plus settled grossAmount\<rparr>)"

definition candidate_block ::
  "('w, 'g, 'i, 't) stage \<Rightarrow> demo_wallet list \<Rightarrow> int \<Rightarrow> graph_edge list \<Rightarrow> demo_wallet \<Rightarrow> round_preview_block js" where
  "candidate_block st participants grossAmount edges participant =
     bindR (mapR (candidate_payment st participants grossAmount) (filter (\<lambda>edge. same_participant (graphPayer edge) participant) edges))
       (\<lambda>entries. Inr \<lparr>roundParticipant = participant, roundEntries = entries\<rparr>)"

text \<open>The edge of an entry: \<open>participants[entry.payeeRef]?.participantId\<close> is undefined out of range.\<close>

definition entry_edge ::
  "demo_wallet list \<Rightarrow> graph_edge list \<Rightarrow> demo_wallet \<Rightarrow> round_preview_entry \<Rightarrow> graph_edge option" where
  "entry_edge participants edges participant entry =
     find (\<lambda>edge. same_participant (graphPayer edge) participant \<and> 0 \<le> roundPayeeRef entry
       \<and> roundPayeeRef entry < int (length participants)
       \<and> same_participant (graphPayee edge) (participants ! nat (roundPayeeRef entry))) edges"

definition add_uncovered ::
  "('w, 'g, 'i, 't) stage \<Rightarrow> demo_wallet list \<Rightarrow> graph_edge list \<Rightarrow> demo_wallet \<Rightarrow> round_preview_entry \<Rightarrow> int \<Rightarrow> int js" where
  "add_uncovered st participants edges participant entry acc =
     (case entry_edge participants edges participant entry of
        None \<Rightarrow> throwError ''Unable to resolve clearing-round liquidity target''
      | Some edge \<Rightarrow>
          bindR (settled_number st (graphLane edge)) (\<lambda>settled.
          bindR (locked_number st (graphLane edge)) (\<lambda>locked.
          let delta = js_round (roundTargetCumulative entry - settled) in
          Inr (js_plus acc (js_round (delta - min locked delta))))))"

definition required_raw ::
  "('w, 'g, 'i, 't) stage \<Rightarrow> demo_wallet list \<Rightarrow> graph_edge list \<Rightarrow> round_preview_block \<Rightarrow> (int \<times> int) js" where
  "required_raw st participants edges block =
     bindR (foldR (add_uncovered st participants edges (roundParticipant block)) (roundEntries block) 0) (\<lambda>required.
     Inr (walletParticipantId (roundParticipant block), required))"

definition entry_account ::
  "demo_wallet list \<Rightarrow> graph_edge list \<Rightarrow> demo_wallet \<Rightarrow> round_preview_entry \<Rightarrow> pubkey js" where
  "entry_account participants edges participant entry =
     (case entry_edge participants edges participant entry of
        None \<Rightarrow> throwError ''Unable to resolve clearing-round channel account''
      | Some edge \<Rightarrow> Inr (graphPda edge))"

definition refresh_pair :: "demo_wallet list \<Rightarrow> demo_wallet \<times> demo_wallet \<Rightarrow> demo_wallet \<times> demo_wallet" where
  "refresh_pair wallets pair = (refreshed wallets (fst pair), refreshed wallets (snd pair))"

definition refresh_graph_edge :: "demo_wallet list \<Rightarrow> graph_edge \<Rightarrow> graph_edge" where
  "refresh_graph_edge wallets edge =
     edge\<lparr>graphPayer := refreshed wallets (graphPayer edge), graphPayee := refreshed wallets (graphPayee edge)\<rparr>"

definition refresh_block :: "demo_wallet list \<Rightarrow> round_preview_block \<Rightarrow> round_preview_block" where
  "refresh_block wallets block = \<lparr>roundParticipant = refreshed wallets (roundParticipant block),
     roundEntries = map (\<lambda>entry. entry\<lparr>roundPayee := refreshed wallets (roundPayee entry)\<rparr>) (roundEntries block)\<rparr>"

section \<open>One attempt\<close>

text \<open>What does not change from one candidate to the next.\<close>

record round_setup =
  setupDomain :: bytes
  setupToken :: int
  setupSymbol :: string
  setupDecimals :: nat
  setupGross :: int
  setupSponsor :: keypair
  setupSubmitter :: demo_wallet
  setupExtraSigners :: "keypair list"

record executed_round =
  executedEdges :: "graph_edge list"
  executedBlocks :: "round_preview_block list"
  executedMessage :: bytes
  executedTxBytes :: int
  executedSignature :: string

text \<open>From the blocks of the candidate to the instruction that settles it.\<close>

definition candidate_round ::
  "('w, 'g, 'i, 't) stage \<Rightarrow> round_setup \<Rightarrow> demo_wallet list \<Rightarrow> graph_edge list \<Rightarrow> round_preview_block list \<Rightarrow>
    (bytes \<times> bytes \<times> 'i) js" where
  "candidate_round st setup participants edges blocks =
     bindR (createClearingRoundMessage (boxBn (stage_box st)) (setupToken setup) (setupDomain setup) (map round_block_spec blocks)
       (Some BLS_CLEARING_ROUND_MESSAGE_VERSION)) (\<lambda>message.
     bindR (mapR (\<lambda>participant. signWalletBlsMessage (stage_box st) participant message)
       (map roundParticipant (filter (\<lambda>block. 0 < length (roundEntries block)) blocks))) (\<lambda>parts.
     bindR (aggregateBlsSignatures (boxCurve (stage_box st)) parts) (\<lambda>aggregate.
     bindR (mapR (\<lambda>block. mapR (entry_account participants edges (roundParticipant block)) (roundEntries block)) blocks) (\<lambda>accounts.
     bindR (boxSettleInstruction (stage_box st) message aggregate
       [registry_pda (stageSession st), config_pda (stageSession st), wallet_key (setupSubmitter setup), boxSysvar (stage_box st)]
       (uniqueWritableMetasForPubkeys (map participantPda participants) @ uniqueWritableMetasForPubkeys (concat accounts))) (\<lambda>instruction.
     Inr (message, aggregate, instruction))))))"

definition execute_round ::
  "('w, 'g, 'i, 't) stage \<Rightarrow> round_setup \<Rightarrow> graph_edge list \<Rightarrow> round_preview_block list \<Rightarrow> bytes \<Rightarrow> bytes \<Rightarrow> 'i \<Rightarrow> 't \<Rightarrow>
    ('w, executed_round) io" where
  "execute_round st setup edges blocks message aggregate instruction lookupTable =
     bindIO (estimateVersionedTransactionBytes (stage_net st) (setupSponsor setup) [instruction] [lookupTable] (setupExtraSigners setup))
       (\<lambda>candidateTxBytes.
     bindIO (sendVersionedTransaction (stage_net st) (setupSponsor setup) [instruction] [lookupTable] (setupExtraSigners setup) False)
       (\<lambda>candidateSignature.
     bindIO (liftIO (buildClearingRoundPayloadPreview (boxBn (stage_box st)) (boxSign (stage_box st)) (setupDomain setup) (setupToken setup)
       (setupSymbol setup) (int (setupDecimals setup)) blocks (Some BLS_CLEARING_ROUND_MESSAGE_VERSION) (Some aggregate))) (\<lambda>_.
     returnIO \<lparr>executedEdges = edges, executedBlocks = blocks, executedMessage = message,
       executedTxBytes = candidateTxBytes, executedSignature = candidateSignature\<rparr>)))"

text \<open>
  The body of the loop. Only the estimate, the submission and the preview are in the \<open>try\<close> block; where
  they fail the error is kept, unless the candidate is the smallest one.
\<close>

definition attempt_candidate ::
  "('w, 'g, 'i, 't) stage \<Rightarrow> round_setup \<Rightarrow> (demo_wallet \<times> demo_wallet) list \<Rightarrow> demo_wallet list \<Rightarrow> int \<Rightarrow>
    ('w, (js_exn + executed_round) \<times> demo_wallet list) io" where
  "attempt_candidate st setup orderedPairs participants channelNumber =
     bindIO (mapIO (candidate_edge st (setupToken setup)) (js_subarray (map (refresh_pair participants) orderedPairs) 0 channelNumber))
       (\<lambda>edges.
     bindIO (liftIO (mapR (candidate_block st participants (setupGross setup) edges) participants)) (\<lambda>blocks.
     bindIO (liftIO (mapR (required_raw st participants edges) blocks)) (\<lambda>minimumRaw.
     bindIO (liftIO (findVaultTokenAccountPda (sesBn (stageSession st)) (sesDerive (stageSession st)) (sesProgramId (stageSession st))
       (setupToken setup))) (\<lambda>vault.
     bindIO (ensureMinimumInternalBalances (stageSession st) participants (setupToken setup) vault (js_map minimumRaw)) (\<lambda>participants.
     let edges = map (refresh_graph_edge participants) edges; blocks = map (refresh_block participants) blocks in
     bindIO (liftIO (candidate_round st setup participants edges blocks)) (\<lambda>(message, aggregate, instruction).
     bindIO (createLookupTableForAddresses (stage_net st) (walletKeypair (setupSubmitter setup)) (setupSponsor setup)
       ([registry_pda (stageSession st), config_pda (stageSession st), boxSysvar (stage_box st)] @
        uniquePubkeys (map participantPda participants @ map graphPda edges))) (\<lambda>lookupTable.
     catchIO
       (bindIO (execute_round st setup edges blocks message aggregate instruction lookupTable) (\<lambda>executed.
        returnIO (Inr executed, participants)))
       (\<lambda>error. if channelNumber = int (length participants) then throwIO error
          else returnIO (Inl error, participants)))))))))"

definition round_failure :: "string \<Rightarrow> js_exn option \<Rightarrow> js_exn" where
  "round_failure message lastError =
     (case lastError of Some error \<Rightarrow> if is_Error error then error else JsError ''Error'' message | None \<Rightarrow> JsError ''Error'' message)"

fun attempt_loop ::
  "('w, 'g, 'i, 't) stage \<Rightarrow> round_setup \<Rightarrow> (demo_wallet \<times> demo_wallet) list \<Rightarrow> demo_wallet list \<Rightarrow> int list \<Rightarrow> js_exn option \<Rightarrow>
    ('w, executed_round \<times> demo_wallet list) io" where
  "attempt_loop st setup orderedPairs participants [] lastError =
     throwIO (round_failure ''Unable to settle any multilateral clearing round shape'' lastError)"
| "attempt_loop st setup orderedPairs participants (candidate # candidates) lastError =
     bindIO (attempt_candidate st setup orderedPairs participants candidate) (\<lambda>(outcome, participants).
     case outcome of
       Inl error \<Rightarrow> attempt_loop st setup orderedPairs participants candidates (Some error)
     | Inr executed \<Rightarrow>
         if executedSignature executed = '''' then
           throwIO (round_failure ''Unable to settle any multilateral clearing round shape'' lastError)
         else returnIO (executed, participants))"

section \<open>The multilateral scenario\<close>

definition executed_params ::
  "string \<Rightarrow> string \<Rightarrow> round_setup \<Rightarrow> nat \<Rightarrow> int \<Rightarrow> int \<Rightarrow> executed_round \<Rightarrow> int \<Rightarrow> scenario_params" where
  "executed_params sid title setup participantNumber channelCountRequested edgeCommitments executed writes =
     (let edges = int (length (executedEdges executed)) in
      \<lparr>paramId = sid, paramTitle = title, paramSettlementMode = MultilateralClearing,
       paramParticipantCount = int participantNumber, paramChannelCount = edges,
       paramUnderlyingPaymentCount = js_round (edgeCommitments * edges),
       paramGrossValueRaw = js_round (setupGross setup * edges), paramDecimals = int (setupDecimals setup),
       paramTokenSymbol = setupSymbol setup, paramSignatures = [executedSignature executed],
       paramSerializedTransactionBytes = [executedTxBytes executed],
       paramSignedMessageBytes = int (length (executedMessage executed)), paramSignatureCount = 1,
       paramParticipantBalanceWrites = writes, paramChannelLaneWrites = edges,
       paramNotes = Some
         [''BLS aggregated '' @ show_int (int (length (filter (\<lambda>block. 0 < length (roundEntries block)) (executedBlocks executed)))) @
            '' active participant cosignatures into one on-chain signature envelope.'',
          ''Channel-state writes still scale with included channels, so BLS mostly expands the byte budget rather than removing per-channel work.''],
       paramRequestedShape = Some \<lparr>shapeParticipantCount = int participantNumber, shapeChannelCount = channelCountRequested\<rparr>,
       paramAchievedShape = Some \<lparr>shapeParticipantCount = int participantNumber, shapeChannelCount = edges\<rparr>\<rparr>)"

definition candidate_counts :: "int \<Rightarrow> int \<Rightarrow> int list" where
  "candidate_counts channelNumber participantNumber = rev [participantNumber..channelNumber]"

definition multilateral_inputs :: "demo_wallet list \<Rightarrow> int \<Rightarrow> (demo_wallet \<times> demo_wallet) list js" where
  "multilateral_inputs participants channelNumber =
     (if length participants < 3 then throwError ''Multilateral clearing requires at least 3 participants''
      else if channelNumber < int (length participants) then
        throwError ''Multilateral clearing scenario requires at least one directed channel per participant''
      else let orderedPairs = buildOrderedParticipantPairs participants in
        if int (length orderedPairs) < channelNumber then
          throwError (''Requested '' @ show_int channelNumber @ '' directed channels but only '' @
            show_int (int (length orderedPairs)) @ '' unique participant pairs exist'')
        else Inr orderedPairs)"

definition stage_balances ::
  "('w, 'g, 'i, 't) stage \<Rightarrow> int \<Rightarrow> demo_wallet list \<Rightarrow> ('w, (token_balance_view \<times> demo_wallet) list) io" where
  "stage_balances st token participants = mapIO (\<lambda>p. internal_balance (stageSession st) p token) participants"

definition preview_commitment ::
  "('w, 'g, 'i, 't) stage \<Rightarrow> round_setup \<Rightarrow> int \<Rightarrow> graph_edge \<Rightarrow> commitment_preview_input js" where
  "preview_commitment st setup rawAmount edge =
     bindR (settled_number st (graphLane edge)) (\<lambda>settled.
     Inr \<lparr>inputPayer = graphPayer edge, inputPayee = graphPayee edge, inputCommittedAmount = js_plus settled rawAmount,
          inputTokenId = setupToken setup\<rparr>)"

definition runMultilateralClearingScenario ::
  "('w, 'g, 'i, 't) stage \<Rightarrow> bytes \<Rightarrow> int \<Rightarrow> string \<Rightarrow> nat \<Rightarrow> demo_wallet list \<Rightarrow> int \<Rightarrow> int \<Rightarrow> js_num \<Rightarrow> string \<Rightarrow> string \<Rightarrow>
    ('w, multilateral_result \<times> demo_wallet list) io" where
  "runMultilateralClearingScenario st messageDomain token tokenSymbol decimals participants channelNumber edgeCommitments amount sid title =
     bindIO (liftIO (multilateral_inputs participants channelNumber)) (\<lambda>orderedPairs.
     bindIO (stage_balances st token participants) (\<lambda>before.
     let participants = map snd before in
     bindIO (liftIO (toRawAmount (sesShowNumber (stageSession st)) amount decimals)) (\<lambda>rawAmount.
     let submitter = hd participants in
     bindIO (selectFeeSponsor (stage_net st) ((case stageProviderPayer st of None \<Rightarrow> [] | Some payer \<Rightarrow> [payer]) @
       map walletKeypair participants)) (\<lambda>feeSponsor.
     let setup = \<lparr>setupDomain = messageDomain, setupToken = token, setupSymbol = tokenSymbol, setupDecimals = decimals,
           setupGross = js_round (rawAmount * edgeCommitments), setupSponsor = feeSponsor, setupSubmitter = submitter,
           setupExtraSigners = (if publicKey feeSponsor = wallet_key submitter then [] else [walletKeypair submitter])\<rparr> in
     bindIO (attempt_loop st setup orderedPairs participants (candidate_counts channelNumber (int (length participants))) None)
       (\<lambda>(executed, participants).
     bindIO (liftIO (mapR (preview_commitment st setup rawAmount) (take SIGNED_COMMITMENT_PREVIEW_COUNT (executedEdges executed)))) (\<lambda>inputs.
     bindIO (liftIO (buildSignedCommitmentPreview (boxBn (stage_box st)) (boxSign (stage_box st)) messageDomain (int decimals) tokenSymbol
       inputs)) (\<lambda>_.
     bindIO (stage_balances st token participants) (\<lambda>after.
     bindIO (mapIO (\<lambda>edge. fetch_lane st (graphPda edge) (graphPayer edge) (graphPayee edge))
       (map (refresh_graph_edge (map snd after)) (executedEdges executed))) (\<lambda>lanesAfter.
     bindIO (liftIO (mapR (settled_number st) (take 4 lanesAfter))) (\<lambda>_.
     bindIO (logScenarioEvents (stageBench st) (executedSignature executed)) (\<lambda>_.
     returnIO
       (\<lparr>primarySignature = executedSignature executed,
         resultBenchmark = createBenchmarkScenario (executed_params sid title setup (length participants) channelNumber edgeCommitments
           executed (balance_writes before after)),
         settledChannelCount = int (length (executedEdges executed))\<rparr>, map snd after))))))))))))"

section \<open>The largest executable shape\<close>

text \<open>\<open>pushCandidate\<close>, and the three places it is called from.\<close>

definition push_candidate :: "nat \<Rightarrow> benchmark_shape \<Rightarrow> benchmark_shape list \<Rightarrow> benchmark_shape list" where
  "push_candidate available shape shapes =
     (if shapeParticipantCount shape < 3 \<or> int available < shapeParticipantCount shape
        \<or> shapeChannelCount shape < shapeParticipantCount shape then shapes
      else if \<not> (\<exists>candidate \<in> set shapes. shapeParticipantCount candidate = shapeParticipantCount shape
        \<and> shapeChannelCount candidate = shapeChannelCount shape) then shapes @ [shape] else shapes)"

definition capped_target :: "nat \<Rightarrow> benchmark_shape \<Rightarrow> benchmark_shape" where
  "capped_target available target =
     (let n = min (shapeParticipantCount target) (int available) in
      \<lparr>shapeParticipantCount = n, shapeChannelCount = min (shapeChannelCount target) (n * (n - 1))\<rparr>)"

definition candidate_shapes :: "nat \<Rightarrow> benchmark_shape \<Rightarrow> benchmark_shape list" where
  "candidate_shapes available target =
     (let capped = capped_target available target;
          n = shapeParticipantCount capped; c = shapeChannelCount capped;
          fewerChannels = map (\<lambda>channels. \<lparr>shapeParticipantCount = n, shapeChannelCount = channels\<rparr>) (rev [n..c - 1]);
          fewerParticipants = map (\<lambda>k. \<lparr>shapeParticipantCount = k, shapeChannelCount = min c (k * (k - 1))\<rparr>) (rev [3..n - 1]) in
      fold (push_candidate available) (capped # fewerChannels @ fewerParticipants) [])"

fun shapes_loop ::
  "(benchmark_shape \<Rightarrow> ('w, 'a) io) \<Rightarrow> benchmark_shape list \<Rightarrow> js_exn option \<Rightarrow> ('w, 'a) io" where
  "shapes_loop run [] lastError =
     throwIO (round_failure ''Unable to find an executable multilateral clearing shape'' lastError)"
| "shapes_loop run (shape # shapes) lastError = catchIO (run shape) (\<lambda>error. shapes_loop run shapes (Some error))"

definition runLargestExecutableMultilateralScenario ::
  "('w, 'g, 'i, 't) stage \<Rightarrow> bytes \<Rightarrow> int \<Rightarrow> string \<Rightarrow> nat \<Rightarrow> demo_wallet list \<Rightarrow> benchmark_shape \<Rightarrow> int \<Rightarrow> js_num \<Rightarrow> string \<Rightarrow> string \<Rightarrow>
    ('w, multilateral_result \<times> demo_wallet list) io" where
  "runLargestExecutableMultilateralScenario st messageDomain token tokenSymbol decimals participants target edgeCommitments amount sid title =
     (if length participants < 3 then throwErrorIO ''At least three funded participants are required'' else
      bindIO (shapes_loop (\<lambda>shape. runMultilateralClearingScenario st messageDomain token tokenSymbol decimals
          (js_subarray participants 0 (shapeParticipantCount shape)) (shapeChannelCount shape) edgeCommitments amount sid title)
        (candidate_shapes (length participants) target) None) (\<lambda>(result, updated).
      returnIO (result, map (refreshed updated) participants)))"

section \<open>Preparing the search\<close>

text \<open>The options hold doubles as rationals, whose denominators are powers of two; \<open>js_num\<close> has the exponent.\<close>

fun binary_log :: "nat \<Rightarrow> nat" where
  "binary_log n = (if n \<le> 1 then 0 else Suc (binary_log (n div 2)))"

definition num_of_double :: "rat \<Rightarrow> js_num" where
  "num_of_double x = Float (fst (quotient_of x)) (binary_log (nat (snd (quotient_of x))))"

definition prepareMultilateralSearchContext ::
  "('w, 'g, 'i, 't) stage \<Rightarrow> bytes \<Rightarrow> int \<Rightarrow> string \<Rightarrow> nat \<Rightarrow> demo_wallet list \<Rightarrow> pubkey \<Rightarrow> disk \<Rightarrow> string \<Rightarrow>
    cli_options \<Rightarrow> string \<Rightarrow> ('w, 't search_context) io" where
  "prepareMultilateralSearchContext st messageDomain token tokenSymbol decimals wallets vault d repoRoot options run =
     (let settings = cliSettings options; s = stageSession st in
      bindIO (ensureTargetInternalBalances s wallets token decimals vault (num_of_double (optBlsInternalBalanceTarget settings))) (\<lambda>wallets.
      bindIO (ensureDenseGraphChannels s wallets token (optBlsMaxDenseChannels settings)) (\<lambda>completeGraphEdges.
      bindIO (selectFeeSponsor (stage_net st) ((case stageProviderPayer st of None \<Rightarrow> [] | Some payer \<Rightarrow> [payer]) @
        map walletKeypair wallets)) (\<lambda>feeSponsor.
      bindIO (liftIO (case wallets of [] \<Rightarrow> undefined_keypair | submitter # _ \<Rightarrow> Inr submitter)) (\<lambda>submitter.
      bindIO (createLookupTablesForAddresses (stage_net st) (walletKeypair submitter) feeSponsor
        ([registry_pda s, config_pda s, boxSysvar (stage_box st)] @ map participantPda wallets @
         map edgeChannelPda completeGraphEdges)) (\<lambda>tables.
      returnIO \<lparr>fullParticipants = wallets, completeGraphEdges = completeGraphEdges, lookupTables = tables, sponsor = feeSponsor,
        extraSigners = (if publicKey feeSponsor = wallet_key submitter then [] else [walletKeypair submitter]),
        contextDecimals = decimals, contextTokenId = token, contextTokenSymbol = tokenSymbol, contextMessageDomain = messageDomain,
        edgeCommitmentCount = optMultilateralEdgeCommitmentCount (cliScenarios options),
        resultsLogPath = resolveInputPath d repoRoot (optBlsSearchResultsLogPath settings), runId = run,
        scenarioSeed = optBlsRandomSeed settings, randomMinAmount = num_of_double (optBlsRandomMinAmount settings),
        randomMaxAmount = num_of_double (optBlsRandomMaxAmount settings), denseChannelCap = optBlsMaxDenseChannels settings,
        computeUnitLimit = optBlsComputeUnitLimit settings\<rparr>))))))"

section \<open>The shapes that are tried\<close>

lemma push_all:
  assumes "\<forall>s \<in> set shapes. 3 \<le> shapeParticipantCount s \<and> shapeParticipantCount s \<le> int available
      \<and> shapeParticipantCount s \<le> shapeChannelCount s" "distinct (pushed @ shapes)"
  shows "fold (push_candidate available) shapes pushed = pushed @ shapes"
  using assms
proof (induction shapes arbitrary: pushed)
  case (Cons s shapes)
  have "s \<notin> set pushed" using Cons.prems(2) by auto
  then have "\<not> (\<exists>candidate \<in> set pushed. shapeParticipantCount candidate = shapeParticipantCount s \<and> shapeChannelCount candidate = shapeChannelCount s)"
    by (metis benchmark_shape.equality old.unit.exhaust)
  then have "push_candidate available s pushed = pushed @ [s]" using Cons.prems(1) by (simp add: push_candidate_def)
  then show ?case using Cons.IH [of "pushed @ [s]"] Cons.prems by simp
qed simp

lemma rev_upto_Cons: "n \<le> (c :: int) \<Longrightarrow> rev [n..c] = c # rev [n..c - 1]"
  using upto_rec2 [of n c] by simp

text \<open>
  Where the target has at least three participants and as many channels as participants, the shapes are the capped
  number of participants with one channel less each time, then fewer participants with as many channels as they have.
\<close>

definition shape_of :: "int \<Rightarrow> int \<Rightarrow> benchmark_shape" where
  "shape_of n c = \<lparr>shapeParticipantCount = n, shapeChannelCount = c\<rparr>"

lemma candidate_shapes_list:
  assumes "3 \<le> shapeParticipantCount target" "shapeParticipantCount target \<le> shapeChannelCount target" "3 \<le> available"
    and n: "n = min (shapeParticipantCount target) (int available)" and c: "c = min (shapeChannelCount target) (n * (n - 1))"
  shows "candidate_shapes available target =
      map (shape_of n) (rev [n..c]) @ map (\<lambda>k. shape_of k (min c (k * (k - 1)))) (rev [3..n - 1])"
    and "3 \<le> n" "n \<le> c"
proof -
  have square: "k \<le> k * (k - 1)" if "3 \<le> k" for k :: int
    using that mult_left_mono [of 1 "k - 1" k] by simp
  show n3: "3 \<le> n" using assms(1,3) n by simp
  then show nc: "n \<le> c" using assms(2) n c square [of n] by simp
  have tail: "map (\<lambda>channels. \<lparr>shapeParticipantCount = n, shapeChannelCount = channels\<rparr>) (rev [n..c - 1]) = map (shape_of n) (rev [n..c - 1])"
    "map (\<lambda>k. \<lparr>shapeParticipantCount = k, shapeChannelCount = min c (k * (k - 1))\<rparr>) (rev [3..n - 1]) =
      map (\<lambda>k. shape_of k (min c (k * (k - 1)))) (rev [3..n - 1])"
    by (simp_all add: shape_of_def)
  have capped: "capped_target available target = shape_of n c" by (simp add: capped_target_def shape_of_def n c Let_def)
  have sel: "shapeParticipantCount (shape_of n c) = n" "shapeChannelCount (shape_of n c) = c" by (simp_all add: shape_of_def)
  let ?all = "map (shape_of n) (rev [n..c]) @ map (\<lambda>k. shape_of k (min c (k * (k - 1)))) (rev [3..n - 1])"
  have all: "shape_of n c # map (shape_of n) (rev [n..c - 1]) @ map (\<lambda>k. shape_of k (min c (k * (k - 1)))) (rev [3..n - 1]) = ?all"
    using rev_upto_Cons [OF nc] by simp
  have "distinct ?all" by (auto simp: distinct_map inj_on_def shape_of_def)
  moreover have "\<forall>s \<in> set ?all. 3 \<le> shapeParticipantCount s \<and> shapeParticipantCount s \<le> int available
      \<and> shapeParticipantCount s \<le> shapeChannelCount s"
    using n3 nc n square by (auto simp: shape_of_def)
  ultimately have "fold (push_candidate available) ?all [] = ?all" using push_all [of ?all available "[]"] by simp
  then show "candidate_shapes available target = ?all"
    unfolding candidate_shapes_def Let_def capped sel tail all .
qed

lemma shapes_loop_first:
  assumes "shapes_loop run shapes lastError w = Some (Inr r, w')"
  shows "\<exists>tried shape others w1. shapes = tried @ shape # others \<and> run shape w1 = Some (Inr r, w')
    \<and> (\<forall>s \<in> set tried. \<exists>u e u'. run s u = Some (Inl e, u'))"
  using assms
proof (induction shapes arbitrary: lastError w)
  case (Cons shape shapes)
  show ?case
  proof (cases "\<exists>e w1. run shape w = Some (Inl e, w1)")
    case True
    then obtain e w1 where e: "run shape w = Some (Inl e, w1)" by blast
    then have "shapes_loop run shapes (Some e) w1 = Some (Inr r, w')" using Cons.prems by simp
    from Cons.IH [OF this] obtain tried s others w2 where "shapes = tried @ s # others" "run s w2 = Some (Inr r, w')"
      "\<forall>s \<in> set tried. \<exists>u e u'. run s u = Some (Inl e, u')" by blast
    with e show ?thesis by (intro exI [of _ "shape # tried"] exI [of _ s] exI [of _ others] exI [of _ w2]) auto
  next
    case False
    then have "run shape w = Some (Inr r, w')" using Cons.prems by (auto simp: catchIO_eq_Inr)
    then show ?thesis by (intro exI [of _ "[]"] exI [of _ shape] exI [of _ shapes] exI [of _ w]) simp
  qed
qed simp

lemma attempt_length:
  assumes "attempt_candidate st setup pairs participants k w = Some (Inr (outcome, wallets), w')"
  shows "length wallets = length participants"
  using assms unfolding attempt_candidate_def Let_def
  by (elim io_success) (auto simp: catchIO_eq_Inr ensureMinimumInternalBalances_def dest!: mapIO_length elim!: bindIO_InrE split: if_splits)

lemma attempt_loop_first:
  assumes "attempt_loop st setup pairs participants candidates lastError w = Some (Inr (executed, participants'), w')"
  shows "\<exists>tried k others wallets w1. candidates = tried @ k # others \<and> length wallets = length participants
    \<and> attempt_candidate st setup pairs wallets k w1 = Some (Inr (Inr executed, participants'), w') \<and> executedSignature executed \<noteq> ''''"
  using assms
proof (induction candidates arbitrary: participants lastError w)
  case (Cons k candidates)
  obtain outcome wallets w1 where one: "attempt_candidate st setup pairs participants k w = Some (Inr (outcome, wallets), w1)"
    and others: "(case outcome of Inl error \<Rightarrow> attempt_loop st setup pairs wallets candidates (Some error)
      | Inr executed \<Rightarrow> if executedSignature executed = '''' then
            throwIO (round_failure ''Unable to settle any multilateral clearing round shape'' lastError)
          else returnIO (executed, wallets)) w1 = Some (Inr (executed, participants'), w')"
    using Cons.prems unfolding attempt_loop.simps by (elim bindIO_pairE)
  show ?case
  proof (cases outcome)
    case (Inl e)
    have "length wallets = length participants" using one by (rule attempt_length)
    moreover obtain tried j rest ws w2 where "candidates = tried @ j # rest" "length ws = length wallets"
      "attempt_candidate st setup pairs ws j w2 = Some (Inr (Inr executed, participants'), w')" "executedSignature executed \<noteq> ''''"
      using Cons.IH [OF others [unfolded Inl sum.case]] by blast
    ultimately show ?thesis by (intro exI [of _ "k # tried"] exI [of _ j] exI [of _ rest] exI [of _ ws] exI [of _ w2]) simp
  next
    case (Inr settled)
    then show ?thesis using one others by (intro exI [of _ "[]"] exI [of _ k] exI [of _ candidates] exI [of _ participants] exI [of _ w])
        (auto split: if_splits)
  qed
qed simp

lemma subarray_length: "0 \<le> k \<Longrightarrow> k \<le> int (length xs) \<Longrightarrow> length (js_subarray xs 0 k) = nat k"
  by (simp add: js_subarray_def js_index_def nat_le_iff)

lemma attempt_sends:
  assumes "attempt_candidate st setup pairs participants k w = Some (Inr (Inr executed, wallets), w')" "0 \<le> k" "k \<le> int (length pairs)"
  shows "length (executedEdges executed) = nat k"
    "\<exists>instruction table w1 w2. sendVersionedTransaction (stage_net st) (setupSponsor setup) [instruction] [table] (setupExtraSigners setup) False w1 =
      Some (Inr (executedSignature executed), w2)"
proof -
  obtain edges w0 w1 edges' blocks message aggregate instruction table w2 w3
    where edges: "mapIO (candidate_edge st (setupToken setup)) (js_subarray (map (refresh_pair participants) pairs) 0 k) w0 = Some (Inr edges, w1)"
      and n: "edges' = map (refresh_graph_edge wallets) edges"
      and run: "execute_round st setup edges' blocks message aggregate instruction table w2 = Some (Inr executed, w3)"
    using assms(1) unfolding attempt_candidate_def Let_def
    by (elim io_success) (auto simp: catchIO_eq_Inr elim!: bindIO_InrE split: if_splits)
  have "length edges = nat k" using mapIO_length [OF edges] assms(2,3) by (simp add: subarray_length)
  then show "length (executedEdges executed) = nat k"
    "\<exists>instruction table w1 w2. sendVersionedTransaction (stage_net st) (setupSponsor setup) [instruction] [table] (setupExtraSigners setup) False w1 =
      Some (Inr (executedSignature executed), w2)"
    using run n unfolding execute_round_def by (auto elim!: bindIO_InrE; blast)+
qed

lemma multilateral_sends:
  assumes "runMultilateralClearingScenario st messageDomain token symbol decimals participants channelNumber commitments amount sid title w =
      Some (Inr (result, wallets), w')"
  shows "\<exists>k. int (length participants) \<le> k \<and> k \<le> channelNumber \<and> settledChannelCount result = k
    \<and> requestedShape (resultBenchmark result) = Some (shape_of (int (length participants)) channelNumber)
    \<and> achievedShape (resultBenchmark result) = Some (shape_of (int (length participants)) k)
    \<and> signatures (resultBenchmark result) = [primarySignature result]
    \<and> (\<exists>feeSponsor instruction table signers w1 w2.
        sendVersionedTransaction (stage_net st) feeSponsor [instruction] [table] signers False w1 = Some (Inr (primarySignature result), w2))"
proof -
  obtain pairs before w0 w1 plan executed wallets1 w2 w3 writes
    where pairs: "multilateral_inputs participants channelNumber = Inr pairs"
      and before: "stage_balances st token participants w0 = Some (Inr before, w1)"
      and loop: "attempt_loop st plan pairs (map snd before) (candidate_counts channelNumber (int (length (map snd before)))) None w2 =
        Some (Inr (executed, wallets1), w3)"
      and result: "result = \<lparr>primarySignature = executedSignature executed, resultBenchmark = createBenchmarkScenario
          (executed_params sid title plan (length wallets1) channelNumber commitments executed writes),
        settledChannelCount = int (length (executedEdges executed))\<rparr>"
    using assms unfolding runMultilateralClearingScenario_def Let_def
    by (elim io_success) (auto simp only: liftIO_apply returnIO_apply option.inject prod.inject sum.inject)
  have n: "length before = length participants" using before by (auto simp: stage_balances_def dest: mapIO_length)
  have few: "channelNumber \<le> int (length pairs)" using pairs by (auto simp: multilateral_inputs_def throwError_def Let_def split: if_splits)
  obtain tried k others parts v where candidates: "candidate_counts channelNumber (int (length participants)) = tried @ k # others"
    and attempt: "attempt_candidate st plan pairs parts k v = Some (Inr (Inr executed, wallets1), w3)" and parts: "length parts = length participants"
    using attempt_loop_first [OF loop] by (auto simp: n)
  have n: "length wallets1 = length participants" using attempt_length [OF attempt] parts by simp
  have "k \<in> set (candidate_counts channelNumber (int (length participants)))" by (simp add: candidates)
  then have k: "int (length participants) \<le> k" "k \<le> channelNumber" by (simp_all add: candidate_counts_def)
  have edges: "length (executedEdges executed) = nat k" by (rule attempt_sends(1) [OF attempt]) (use k few in auto)
  obtain instruction table u1 u2 where "sendVersionedTransaction (stage_net st) (setupSponsor plan) [instruction] [table]
      (setupExtraSigners plan) False u1 = Some (Inr (executedSignature executed), u2)"
    using attempt_sends(2) [OF attempt] k few by auto
  then show ?thesis using k edges
    by (auto simp: result n benchmark_simps executed_params_def shape_of_def createBenchmarkScenario_def Let_def; blast)
qed

text \<open>
  When \<open>runLargestExecutableMultilateralScenario\<close> returns, for a target of at least three participants and at least as
  many channels, it has tried the shapes in this order: all channels and then one less each time, down to one per
  participant, then one participant less each time with all the channels that many have. All shapes before the one
  that it reports have failed; within it, it settled a number of channels between the number of participants and
  that of the shape, in a transaction that was sent and confirmed under the signature it reports.
\<close>

lemma largest_executable_shape:
  assumes run: "runLargestExecutableMultilateralScenario st messageDomain token symbol decimals participants target commitments amount sid title w =
      Some (Inr (result, wallets), w')"
    and target: "3 \<le> shapeParticipantCount target" "shapeParticipantCount target \<le> shapeChannelCount target"
    and n: "n = min (shapeParticipantCount target) (int (length participants))" and c: "c = min (shapeChannelCount target) (n * (n - 1))"
  shows "\<exists>tried m b others k.
    map (shape_of n) (rev [n..c]) @ map (\<lambda>k. shape_of k (min c (k * (k - 1)))) (rev [3..n - 1]) = tried @ shape_of m b # others
    \<and> (\<forall>s \<in> set tried. \<exists>u e u'. runMultilateralClearingScenario st messageDomain token symbol decimals
        (js_subarray participants 0 (shapeParticipantCount s)) (shapeChannelCount s) commitments amount sid title u = Some (Inl e, u'))
    \<and> m \<le> k \<and> k \<le> b \<and> settledChannelCount result = k
    \<and> requestedShape (resultBenchmark result) = Some (shape_of m b) \<and> achievedShape (resultBenchmark result) = Some (shape_of m k)
    \<and> (\<exists>feeSponsor instruction table signers w1 w2.
        sendVersionedTransaction (stage_net st) feeSponsor [instruction] [table] signers False w1 = Some (Inr (primarySignature result), w2))"
proof -
  have three: "3 \<le> length participants" using run by (auto simp: runLargestExecutableMultilateralScenario_def throwErrorIO_def split: if_splits)
  note list = candidate_shapes_list [OF target three n c]
  let ?run = "\<lambda>shape. runMultilateralClearingScenario st messageDomain token symbol decimals
    (js_subarray participants 0 (shapeParticipantCount shape)) (shapeChannelCount shape) commitments amount sid title"
  let ?shapes = "map (shape_of n) (rev [n..c]) @ map (\<lambda>k. shape_of k (min c (k * (k - 1)))) (rev [3..n - 1])"
  obtain updated w1 where "shapes_loop ?run ?shapes None w = Some (Inr (result, updated), w1)"
    using run three unfolding runLargestExecutableMultilateralScenario_def list(1)
    by (auto elim!: bindIO_pairE simp only: returnIO_apply option.inject prod.inject sum.inject split: if_splits)
  from shapes_loop_first [OF this] obtain tried shape others u where order: "?shapes = tried @ shape # others"
    and ran: "?run shape u = Some (Inr (result, updated), w1)"
    and failed: "\<forall>s \<in> set tried. \<exists>u e u'. ?run s u = Some (Inl e, u')" by blast
  obtain m b where shape: "shape = shape_of m b" by (metis benchmark_shape.surjective old.unit.exhaust shape_of_def)
  have "shape \<in> set ?shapes" by (simp only: order) simp
  then have "0 \<le> m" "m \<le> int (length participants)" using list(2) n by (auto simp: shape shape_of_def)
  then have "int (length (js_subarray participants 0 m)) = m" by (simp add: subarray_length)
  then show ?thesis using multilateral_sends [OF ran] order failed shape by (auto simp: shape_of_def)
qed

end
