(* ===== verification/Settled.thy ===== *)
theory Settled
  imports Scenarios
begin

text \<open>
  What the scenarios settle, whatever the cluster answers: which calls are sent and what the program
  reads from them, and what a run that returns says about the balances.
\<close>

section \<open>Bundles of commitments\<close>

lemma chunks_nth:
  "0 < n \<Longrightarrow> k < length xs \<Longrightarrow> k div n < length (chunks n xs) \<and> k mod n < length (chunks n xs ! (k div n))
    \<and> chunks n xs ! (k div n) ! (k mod n) = xs ! k"
proof (induction n xs arbitrary: k rule: chunks.induct)
  case (1 n xs)
  have unfold: "chunks n xs = take n xs # chunks n (drop n xs)" using 1(2,3) by (subst chunks.simps) auto
  show ?case
  proof (cases "k < n")
    case True
    then show ?thesis using 1(3) by (simp add: unfold)
  next
    case False
    then have "k div n = Suc ((k - n) div n)" "k mod n = (k - n) mod n" using 1(2) by (simp_all add: le_div_geq le_mod_geq)
    moreover have "(k - n) div n < length (chunks n (drop n xs)) \<and> (k - n) mod n < length (chunks n (drop n xs) ! ((k - n) div n))
        \<and> chunks n (drop n xs) ! ((k - n) div n) ! ((k - n) mod n) = drop n xs ! (k - n)"
      using 1 False by (intro 1(1)) auto
    ultimately show ?thesis using False 1(3) by (simp add: unfold)
  qed
qed

lemma chunks_length: "0 < n \<Longrightarrow> length (chunks n xs) = (length xs + (n - 1)) div n"
proof (induction n xs rule: chunks.induct)
  case (1 n xs)
  show ?case
  proof (cases "xs = []")
    case False
    then have "length (chunks n xs) = Suc ((length xs - n + (n - 1)) div n)" using 1 by (subst chunks.simps) simp
    also have "\<dots> = (length xs + (n - 1)) div n"
    proof (cases "n \<le> length xs")
      case False
      moreover obtain m where m: "length xs = Suc m" using \<open>xs \<noteq> []\<close> by (cases xs) auto
      ultimately have "length xs + (n - 1) = n + m" "m < n" by simp_all
      then show ?thesis using False 1(2) m by simp
    qed (use 1(2) in \<open>simp add: le_div_geq\<close>)
    finally show ?thesis .
  qed (use 1 in \<open>simp add: chunks.simps\<close>)
qed

lemma mapR_pointwise: "mapR f xs = Inr ys \<Longrightarrow> list_all2 (\<lambda>x y. f x = Inr y) xs ys"
  by (induction xs arbitrary: ys) (auto simp: bindR_eq_Inr)

lemma commitment_length:
  assumes "createCommitmentMessage bn payer payee (Some amount) None token domain = Inr message" "length domain = 16"
    and "payer < 2 ^ 32" "payee < 2 ^ 32" "amount < 2 ^ 64" "\<And>bytes. bn token 2 = Inr bytes \<Longrightarrow> length bytes = 2"
  shows "length message \<le> 41"
proof -
  have "length (compact_loop payer) \<le> 5" "length (compact_loop payee) \<le> 5" "length (compact_loop amount) \<le> 10"
    using assms(3-5) by (auto intro!: length_compact_loop)
  then show ?thesis using assms(1,2,6) by (auto simp: createCommitmentMessage_def bindR_eq_Inr encodeCompactU64_def split: if_splits)
qed

text \<open>What the program reads from the call of one bundle.\<close>

definition commits :: "settle_call \<Rightarrow> nat \<Rightarrow> bytes \<Rightarrow> pubkey \<Rightarrow> parsed_commitment \<Rightarrow> bool" where
  "commits call i domain key commitment \<longleftrightarrow>
     (\<exists>verification offsets message. settlePre call = [VerifyEd25519 verification]
       \<and> parse_ed25519_offsets verification i = Inr offsets \<and> extract_pubkey verification offsets = Inr key
       \<and> extract_message verification offsets = Inr message \<and> parse_commitment_message message domain = Inr commitment)"

definition can_sign :: "('w, 'g, 'i, 't) stage \<Rightarrow> demo_wallet \<Rightarrow> bool" where
  "can_sign st wallet \<longleftrightarrow> length (wallet_key wallet) = 32
     \<and> (\<forall>message. length (signEd25519Message (boxSign (stage_box st)) message (walletKeypair wallet)) = 64)"

definition batch_commitment :: "u16 \<Rightarrow> batch_channel \<Rightarrow> parsed_commitment" where
  "batch_commitment token c =
     \<lparr>payer_id = word_of_int (payerId (batchLane c)), payee_id = word_of_int (payeeId (batchLane c)), commitment_token_id = token,
      committed_amount = word_of_int (batchAmount c), authorized_settler = None\<rparr>"

definition batch_fits :: "batch_channel \<Rightarrow> bool" where
  "batch_fits c \<longleftrightarrow> 0 \<le> payerId (batchLane c) \<and> payerId (batchLane c) < 2 ^ 32 \<and> 0 \<le> payeeId (batchLane c)
     \<and> payeeId (batchLane c) < 2 ^ 32 \<and> 0 \<le> batchAmount c \<and> batchAmount c < 2 ^ 64"

lemma batch_message_reads:
  assumes "batch_message st domain (uint (token :: u16)) c = Inr message" "length domain = 16" "batch_fits c"
    and bn: "\<And>n k. 0 \<le> n \<Longrightarrow> n < 256 ^ k \<Longrightarrow> boxBn (stage_box st) n k = Inr (le_bytes k (nat n))"
  shows "parse_commitment_message message domain = Inr (batch_commitment token c)" "length message \<le> 41"
proof -
  have "0 \<le> uint token" "uint token < 256 ^ 2" using uint_lt2p [of token] by simp_all
  then have "boxBn (stage_box st) (uint token) 2 = Inr (le_bytes 2 (nat (uint token)))" by (rule bn)
  then show "length message \<le> 41"
    using assms(1-3) by (intro commitment_length) (auto simp: batch_message_def batch_fits_def)
  show "parse_commitment_message message domain = Inr (batch_commitment token c)"
    using assms(1,3) commitment_read [of "boxBn (stage_box st)" domain domain "payerId (batchLane c)" "payeeId (batchLane c)"
        "batchAmount c" None token, OF bn assms(2,2)]
    by (auto simp: batch_message_def batch_fits_def batch_commitment_def)
qed

lemma bundle_reads:
  assumes call: "bundle_call st domain (uint (token :: u16)) payee chunk = Inr call" and domain: "length domain = 16"
    and fits: "\<forall>c \<in> set chunk. batch_fits c \<and> can_sign st (batchPayer c)" and small: "length chunk \<le> 2" "i < length chunk"
    and bn: "\<And>n k. 0 \<le> n \<Longrightarrow> n < 256 ^ k \<Longrightarrow> boxBn (stage_box st) n k = Inr (le_bytes k (nat n))"
  shows "commits call i domain (wallet_key (batchPayer (chunk ! i))) (batch_commitment token (chunk ! i))"
proof -
  let ?entry = "\<lambda>c. bindR (batch_message st domain (uint token) c) (\<lambda>message. Inr (walletKeypair (batchPayer c), message))"
  obtain entries verification where entries: "mapR ?entry chunk = Inr entries"
    and made: "createMultiMessageEd25519Instruction (boxSign (stage_box st)) entries = Inr verification"
    and pre: "settlePre call = [VerifyEd25519 verification]"
    using call by (auto simp: bundle_call_def bindR_eq_Inr)
  have all: "list_all2 (\<lambda>c e. ?entry c = Inr e) chunk entries" using entries by (rule mapR_pointwise)
  then have len: "length entries = length chunk" by (simp add: list_all2_lengthD)
  have one: "publicKey (fst (entries ! k)) = wallet_key (batchPayer (chunk ! k)) \<and> fst (entries ! k) = walletKeypair (batchPayer (chunk ! k))
      \<and> batch_message st domain (uint token) (chunk ! k) = Inr (snd (entries ! k))" if "k < length chunk" for k
    using list_all2_nthD [OF all that] by (cases "entries ! k") (auto simp: bindR_eq_Inr)
  have signers: "\<forall>(signer, message) \<in> set entries. length (publicKey signer) = 32
      \<and> length (signEd25519Message (boxSign (stage_box st)) message signer) = 64"
    using one fits by (auto simp: in_set_conv_nth len can_sign_def split: prod.splits) (metis fst_conv nth_mem)+
  have short: "length (snd (entries ! k)) \<le> 41" if "k < length chunk" for k
    using one [OF that] fits that by (intro batch_message_reads(2) [OF _ domain _ bn]) auto
  have "sum_list (map (\<lambda>e. length (snd e)) entries) \<le> sum_list (map (\<lambda>e. 41) entries)"
    by (rule sum_list_mono) (use short in \<open>force simp: in_set_conv_nth len\<close>)
  then have "2 + 110 * length entries + sum_list (map (\<lambda>e. length (snd e)) entries) \<le> 65535"
    using small(1) by (simp add: len sum_list_triv)
  then obtain offsets where "parse_ed25519_offsets verification i = Inr offsets"
    "extract_pubkey verification offsets = Inr (publicKey (fst (entries ! i)))"
    "extract_message verification offsets = Inr (snd (entries ! i))"
    using multi_message_read [OF _ _ signers, of i] small by (auto simp: len made)
  moreover have "parse_commitment_message (snd (entries ! i)) domain = Inr (batch_commitment token (chunk ! i))"
    using one [OF small(2)] fits small(2) by (intro batch_message_reads(1) [OF _ domain _ bn]) auto
  ultimately show ?thesis using pre one [OF small(2)] by (auto simp: commits_def)
qed

text \<open>The calls of the chunks, in their order, and the signatures they return.\<close>

lemma chunks_settled:
  assumes "foldIO (settle_chunk st domain token payee) parts sent w = Some (Inr sent', w')"
  shows "\<exists>calls signatures. sent' = sent @ signatures \<and> list_all2 (\<lambda>chunk call. bundle_call st domain token payee chunk = Inr call) parts calls
    \<and> list_all2 (\<lambda>call signature. \<exists>w w'. stageSettle st call w = Some (Inr signature, w')) calls signatures"
  using assms
proof (induction parts arbitrary: sent w)
  case (Cons chunk parts)
  obtain call w1 signature w2 where one: "bundle_call st domain token payee chunk = Inr call"
      "stageSettle st call w1 = Some (Inr signature, w2)"
    and others: "foldIO (settle_chunk st domain token payee) parts (sent @ [signature]) w2 = Some (Inr sent', w')"
    using Cons.prems unfolding foldIO.simps settle_chunk_def
    by (elim bindIO_InrE) (auto simp only: liftIO_apply returnIO_apply option.inject prod.inject sum.inject)
  obtain calls signatures where "sent' = (sent @ [signature]) @ signatures"
    "list_all2 (\<lambda>chunk call. bundle_call st domain token payee chunk = Inr call) parts calls"
    "list_all2 (\<lambda>call signature. \<exists>w w'. stageSettle st call w = Some (Inr signature, w')) calls signatures"
    using Cons.IH [OF others] by blast
  then show ?case using one by (intro exI [of _ "call # calls"] exI [of _ "signature # signatures"]) auto
qed simp

lemma chunks_nth_length: "0 < n \<Longrightarrow> j < length (chunks n xs) \<Longrightarrow> length (chunks n xs ! j) = min n (length xs - n * j)"
proof (induction n xs arbitrary: j rule: chunks.induct)
  case (1 n xs)
  then have "xs \<noteq> []" by (auto simp: chunks.simps)
  then have unfold: "chunks n xs = take n xs # chunks n (drop n xs)" using 1(2) by (subst chunks.simps) auto
  show ?case
  proof (cases j)
    case (Suc i)
    then have "length (chunks n (drop n xs) ! i) = min n (length (drop n xs) - n * i)"
      using 1 \<open>xs \<noteq> []\<close> by (intro 1(1)) (auto simp: unfold)
    then show ?thesis by (simp add: unfold Suc)
  qed (simp add: unfold min.commute)
qed

lemma bundle_method:
  "bundle_call st domain token payee chunk = Inr call \<Longrightarrow> settleMethod call = SettleCommitmentBundle (int (length chunk))"
  by (auto simp: bundle_call_def bindR_eq_Inr dest!: mapR_pointwise list_all2_lengthD)

lemma balance_id:
  assumes "internal_balance s wallet token w = Some (Inr (view, wallet'), w')"
  shows "0 \<le> walletParticipantId wallet'" "walletParticipantId wallet' < 2 ^ 32" "walletKeypair wallet' = walletKeypair wallet"
    "walletName wallet' = walletName wallet"
proof -
  obtain participant pda w1 where read: "by_owner s (wallet_key wallet) w = Some (Inr (participant, pda), w1)"
    and wallet': "wallet' = wallet\<lparr>participantPda := pda, walletParticipantId := normalizedParticipantId participant\<rparr>"
    using assms unfolding internal_balance_def fetchInternalBalance_def by_owner_def
    by (elim bindIO_InrE) (auto elim!: bindIO_InrE split: prod.splits if_splits)
  obtain i w2 where found: "by_id s i w2 = Some (Inr (participant, pda), w1)"
    using read unfolding by_owner_def fetchParticipantByOwner_def by_id_def
    by (elim bindIO_InrE) (auto split: option.splits)
  then obtain data slot where slot: "readRawParticipantBucketSlot (webPublicKey (sesNet s)) data i = Inr slot"
    unfolding by_id_def fetchParticipantById_def
    by (elim bindIO_InrE) (auto simp only: liftIO_apply returnIO_apply option.inject prod.inject sum.inject)
  have "i < 2 ^ 32"
    using slot by (auto simp: readRawParticipantBucketSlot_def Let_def bindR_eq_Inr dest!: readUIntLE_less split: if_splits)
  then show "0 \<le> walletParticipantId wallet'" "walletParticipantId wallet' < 2 ^ 32" "walletKeypair wallet' = walletKeypair wallet"
    "walletName wallet' = walletName wallet"
    using by_id_ok [OF found] by (simp_all add: wallet')
qed

lemma batch_channel_ok:
  assumes run: "batch_channel_of st token payee gross payer w = Some (Inr c, w')"
    and number: "\<And>n m. bnToNumber (stage_net st) n = Inr m \<Longrightarrow> m = n \<and> n < 2 ^ 53" and gross: "0 \<le> gross" "gross < 2 ^ 53"
    and ids: "0 \<le> walletParticipantId payer" "walletParticipantId payer < 2 ^ 32" "0 \<le> walletParticipantId payee" "walletParticipantId payee < 2 ^ 32"
  shows "batchPayer c = payer" "batch_fits c" "\<exists>w1 w2. fetch_lane st (batchPda c) payer payee w1 = Some (Inr (batchLane c), w2)"
    "batchAmount c = js_plus (settledCumulative (channelLane (batchLane c))) gross"
proof -
  obtain w1 w2 settled where lane: "fetch_lane st (batchPda c) payer payee w1 = Some (Inr (batchLane c), w2)"
    and settled: "settled_number st (batchLane c) = Inr settled" and c: "batchPayer c = payer" "batchAmount c = js_plus settled gross"
    using run unfolding batch_channel_of_def
    by (elim bindIO_InrE) (auto simp only: liftIO_apply returnIO_apply option.inject prod.inject sum.inject batch_channel.simps)
  have "settled = settledCumulative (channelLane (batchLane c))" "0 \<le> settled" "settled < 2 ^ 53"
    using number settled fetched_amounts [OF lane] by (auto simp: settled_number_def)
  then show "batchPayer c = payer" "batch_fits c" "\<exists>w1 w2. fetch_lane st (batchPda c) payer payee w1 = Some (Inr (batchLane c), w2)"
    "batchAmount c = js_plus (settledCumulative (channelLane (batchLane c))) gross"
    using c lane js_plus_small [of settled gross] gross fetched_ids [OF lane] ids by (auto simp: batch_fits_def)
qed

text \<open>
  C4: When the second scenario returns, whatever the cluster answered, it has sent one bundle for every two of the
  selected payers, in their order: the \<open>k\<close>-th payer's commitment is entry \<open>k mod 2\<close> of the Ed25519 instruction of
  bundle \<open>k div 2\<close>, where the program finds the payer's key, and a message from which it reads the two
  participants, the token and the amount settled before plus the payer's payments. A bundle announces as many
  commitments as it has, and the signatures that are reported are those of the bundles.
\<close>

theorem batch_commitments_settled:
  assumes run: "runBatchCommitmentScenario st messageDomain (uint (token :: u16)) symbol decimals payers payee batchCount batchSize amount w =
      Some (Inr (result, payers', payee'), w')"
    and bn: "\<And>n k. 0 \<le> n \<Longrightarrow> n < 256 ^ k \<Longrightarrow> boxBn (stage_box st) n k = Inr (le_bytes k (nat n))"
    and number: "\<And>n m. bnToNumber (stage_net st) n = Inr m \<Longrightarrow> m = n \<and> n < 2 ^ 53"
    and raw: "toRawAmount (sesShowNumber (stageSession st)) amount decimals = Inr raw" "0 \<le> raw * batchSize" "raw * batchSize < 2 ^ 53"
    and signers: "length messageDomain = 16" "\<forall>wallet \<in> set payers. can_sign st wallet"
  shows "\<exists>cs calls payee1. map (\<lambda>c. walletKeypair (batchPayer c)) cs = map walletKeypair (js_subarray payers 0 batchCount)
    \<and> (\<forall>c \<in> set cs. (\<exists>w1 w2. fetch_lane st (batchPda c) (batchPayer c) payee1 w1 = Some (Inr (batchLane c), w2))
        \<and> batchAmount c = js_plus (settledCumulative (channelLane (batchLane c))) (raw * batchSize))
    \<and> length calls = (length cs + 1) div 2
    \<and> list_all2 (\<lambda>call signature. \<exists>w1 w2. stageSettle st call w1 = Some (Inr signature, w2)) calls (signatures (scenarioBenchmark result))
    \<and> (\<forall>j < length calls. settleMethod (calls ! j) = SettleCommitmentBundle (int (min 2 (length cs - 2 * j))))
    \<and> (\<forall>k < length cs. commits (calls ! (k div 2)) (k mod 2) messageDomain (wallet_key (batchPayer (cs ! k))) (batch_commitment token (cs ! k)))"
proof -
  let ?selected = "js_subarray payers 0 batchCount" and ?gross = "raw * batchSize"
  obtain w0 payee1 view w1 before w2 cs w3 sent w4
    where payee1: "internal_balance (stageSession st) payee (uint token) w0 = Some (Inr (view, payee1), w1)"
      and before: "mapIO (\<lambda>payer. internal_balance (stageSession st) payer (uint token)) ?selected w1 = Some (Inr before, w2)"
      and cs: "mapIO (batch_channel_of st (uint token) payee1 (js_round ?gross)) (map snd before) w2 = Some (Inr cs, w3)"
      and sent: "foldIO (settle_chunk st messageDomain (uint token) payee1) (chunks MAX_BUNDLE_CHANNELS_PER_TX cs) [] w3 = Some (Inr sent, w4)"
      and result: "signatures (scenarioBenchmark result) = sent"
    using run [unfolded runBatchCommitmentScenario_def raw(1) liftIO_Inr bindIO_returnIO Let_def]
    by (elim io_success) (auto simp: liftIO_def benchmark_simps batch_params_def)
  note id = balance_id [OF payee1]
  have wallets: "list_all2 (\<lambda>payer (_, payer'). walletKeypair payer' = walletKeypair payer \<and> 0 \<le> walletParticipantId payer'
      \<and> walletParticipantId payer' < 2 ^ 32) ?selected before"
    using before by (rule mapIO_all2 [rotated]) (auto dest: balance_id)
  have gross: "js_round ?gross = ?gross" using raw(2,3) by simp
  have "list_all2 (\<lambda>payer c. batchPayer c = payer \<and> batch_fits c
      \<and> (\<exists>w1 w2. fetch_lane st (batchPda c) payer payee1 w1 = Some (Inr (batchLane c), w2))
      \<and> batchAmount c = js_plus (settledCumulative (channelLane (batchLane c))) ?gross) (map snd before) cs"
    using cs unfolding gross
  proof (rule mapIO_all2 [rotated])
    fix payer c u u' assume payer: "payer \<in> set (map snd before)"
      and c: "batch_channel_of st (uint token) payee1 ?gross payer u = Some (Inr c, u')"
    have ids: "0 \<le> walletParticipantId payer" "walletParticipantId payer < 2 ^ 32"
      using payer wallets by (force simp: in_set_conv_nth list_all2_conv_all_nth split_beta)+
    show "batchPayer c = payer \<and> batch_fits c \<and> (\<exists>w1 w2. fetch_lane st (batchPda c) payer payee1 w1 = Some (Inr (batchLane c), w2))
      \<and> batchAmount c = js_plus (settledCumulative (channelLane (batchLane c))) ?gross"
      using batch_channel_ok [OF c number raw(2,3) ids id(1,2)] by blast
  qed
  then have channels: "length cs = length before" "\<And>k. k < length cs \<Longrightarrow> batchPayer (cs ! k) = snd (before ! k) \<and> batch_fits (cs ! k)
      \<and> (\<exists>w1 w2. fetch_lane st (batchPda (cs ! k)) (batchPayer (cs ! k)) payee1 w1 = Some (Inr (batchLane (cs ! k)), w2))
      \<and> batchAmount (cs ! k) = js_plus (settledCumulative (channelLane (batchLane (cs ! k)))) ?gross"
    by (auto simp: list_all2_conv_all_nth)
  have len: "length before = length ?selected" using wallets by (simp add: list_all2_lengthD)
  have keys: "walletKeypair (batchPayer (cs ! k)) = walletKeypair (?selected ! k)" if "k < length cs" for k
    using list_all2_nthD2 [OF wallets, of k] channels(2) [OF that] that by (auto simp: channels(1) split_beta)
  have signing: "can_sign st (batchPayer (cs ! k))" if "k < length cs" for k
  proof -
    have "?selected ! k \<in> set payers" using that channels(1) len by (metis in_set_dropD in_set_takeD js_subarray_def nth_mem)
    then show ?thesis using signers(2) keys [OF that] by (simp add: can_sign_def)
  qed
  obtain calls where calls: "list_all2 (\<lambda>chunk call. bundle_call st messageDomain (uint token) payee1 chunk = Inr call) (chunks 2 cs) calls"
    "list_all2 (\<lambda>call signature. \<exists>w w'. stageSettle st call w = Some (Inr signature, w')) calls sent"
    using chunks_settled [OF sent] by (auto simp: MAX_BUNDLE_CHANNELS_PER_TX_def)
  have n: "length calls = (length cs + 1) div 2" using list_all2_lengthD [OF calls(1)] by (simp add: chunks_length)
  have methods: "settleMethod (calls ! j) = SettleCommitmentBundle (int (min 2 (length cs - 2 * j)))" if "j < length calls" for j
    using bundle_method [OF list_all2_nthD2 [OF calls(1) that]] chunks_nth_length [of 2 j cs] that list_all2_lengthD [OF calls(1)]
    by simp
  have all: "\<forall>c \<in> set cs. batch_fits c \<and> can_sign st (batchPayer c)"
    using channels(2) signing by (metis in_set_conv_nth)
  have reads: "commits (calls ! (k div 2)) (k mod 2) messageDomain (wallet_key (batchPayer (cs ! k))) (batch_commitment token (cs ! k))"
    if "k < length cs" for k
  proof -
    note at = chunks_nth [of 2, OF _ that, simplified]
    let ?chunk = "chunks 2 cs ! (k div 2)"
    have chunk: "?chunk \<in> set (chunks 2 cs)" using at by simp
    have "set ?chunk \<subseteq> set (concat (chunks 2 cs))" using chunk by auto
    then have "\<forall>c \<in> set ?chunk. batch_fits c \<and> can_sign st (batchPayer c)"
      using all by (auto simp: chunks_concat)
    moreover have "bundle_call st messageDomain (uint token) payee1 ?chunk = Inr (calls ! (k div 2))"
      using list_all2_nthD [OF calls(1)] at by simp
    ultimately show ?thesis
      using bundle_reads [OF _ signers(1) _ _ _ bn, of token payee1 ?chunk "calls ! (k div 2)" "k mod 2"] chunks_size [OF chunk] at by simp
  qed
  have "map (\<lambda>c. walletKeypair (batchPayer c)) cs = map walletKeypair ?selected"
    using keys channels(1) len by (auto intro!: nth_equalityI)
  moreover have "\<forall>c \<in> set cs. (\<exists>w1 w2. fetch_lane st (batchPda c) (batchPayer c) payee1 w1 = Some (Inr (batchLane c), w2))
      \<and> batchAmount c = js_plus (settledCumulative (channelLane (batchLane c))) ?gross"
    using channels(2) by (metis in_set_conv_nth)
  ultimately show ?thesis using calls(2) n methods reads unfolding result by blast
qed

section \<open>What the program reads from a round\<close>

definition read_block :: "round_preview_block \<Rightarrow> round_block" where
  "read_block block = (word_of_int (walletParticipantId (roundParticipant block)),
     map (\<lambda>entry. (word_of_int (roundPayeeRef entry), word_of_int (roundTargetCumulative entry))) (roundEntries block))"

definition block_fits :: "round_preview_block \<Rightarrow> bool" where
  "block_fits block \<longleftrightarrow> 0 \<le> walletParticipantId (roundParticipant block) \<and> walletParticipantId (roundParticipant block) < 2 ^ 32
     \<and> length (roundEntries block) < 256
     \<and> (\<forall>entry \<in> set (roundEntries block). 0 \<le> roundPayeeRef entry \<and> roundPayeeRef entry < 256
          \<and> 0 \<le> roundTargetCumulative entry \<and> roundTargetCumulative entry < 2 ^ 64)"

lemma uint_of_int: "0 \<le> n \<Longrightarrow> n < 2 ^ LENGTH('a :: len) \<Longrightarrow> uint (word_of_int n :: 'a word) = n"
  by (simp add: uint_word_of_int)

lemma block_spec: "block_fits block \<Longrightarrow> round_block_spec block = spec_of_block (read_block block)"
  by (auto simp: round_block_spec_def spec_of_block_def read_block_def block_fits_def uint_of_int)

lemma round_message_reads:
  assumes "createClearingRoundMessage bn (uint (token :: u16)) domain (map round_block_spec blocks) (Some BLS_CLEARING_ROUND_MESSAGE_VERSION) =
      Inr message"
    and bn: "\<And>n k. 0 \<le> n \<Longrightarrow> n < 256 ^ k \<Longrightarrow> bn n k = Inr (le_bytes k (nat n))"
    and "length domain = 16" "blocks \<noteq> []" "length blocks < 256" "\<forall>block \<in> set blocks. block_fits block"
  shows "\<exists>layout. parse_clearing_round_layout_with_version message domain 5 = Inr layout \<and> layout_token_id layout = token
    \<and> map (recovered_block message) (layout_blocks layout) = map read_block blocks
    \<and> channel_count layout = sum_list (map (\<lambda>block. length (roundEntries block)) blocks)"
proof -
  have specs: "map round_block_spec blocks = map spec_of_block (map read_block blocks)"
    using assms(6) by (auto intro: block_spec)
  have small: "\<forall>b \<in> set (map read_block blocks). length (snd b) < 256"
    using assms(6) by (auto simp: read_block_def block_fits_def)
  have "BLS_CLEARING_ROUND_MESSAGE_VERSION = uint (5 :: byte)" by (simp add: BLS_CLEARING_ROUND_MESSAGE_VERSION_def)
  moreover have "sum_list (map (\<lambda>b. length (snd b)) (map read_block blocks)) = sum_list (map (\<lambda>block. length (roundEntries block)) blocks)"
    by (simp add: comp_def read_block_def)
  ultimately show ?thesis
    using clearing_decoded [of bn domain "map read_block blocks" token 5, OF bn assms(3) _ _ small] assms(1,4,5) specs by auto
qed

section \<open>The routed payment\<close>

lemma topped_wallet:
  assumes "top_up s token vault target wallet w = Some (Inr wallet', w')"
  shows "walletKeypair wallet' = walletKeypair wallet" "walletName wallet' = walletName wallet"
proof -
  obtain view wallet1 w1 where read: "internal_balance s wallet token w = Some (Inr (view, wallet1), w1)"
    and after: "wallet' = wallet1 \<or> (\<exists>amount signature. depositForWallet s wallet1 token amount vault w1 = Some (Inr (signature, wallet'), w'))"
    using assms unfolding top_up_def by (elim io_success) (auto elim!: bindIO_pairE split: if_splits; blast)
  have "walletKeypair wallet2 = walletKeypair wallet1 \<and> walletName wallet2 = walletName wallet1"
    if "depositForWallet s wallet1 token amount vault w1 = Some (Inr (signature, wallet2), w')" for amount signature wallet2
    using that unfolding depositForWallet_def
    by (elim bindIO_InrE) (auto elim!: bindIO_InrE split: if_splits)
  then show "walletKeypair wallet' = walletKeypair wallet" "walletName wallet' = walletName wallet"
    using after balance_id(3,4) [OF read] by auto
qed

lemma funded_wallets:
  assumes "ensureMinimumInternalBalances s wallets token vault minimum w = Some (Inr wallets', w')"
  shows "list_all2 (\<lambda>wallet wallet'. walletKeypair wallet' = walletKeypair wallet) wallets wallets'"
  using assms unfolding ensureMinimumInternalBalances_def
  by (rule mapIO_all2 [rotated]) (auto simp: Let_def split: if_splits dest: topped_wallet)

text \<open>
  Reading the balances of wallets whose buckets show them does not change the world.
\<close>

definition honest_reads :: "('w, 'g, 'i, 't) stage \<Rightarrow> int \<Rightarrow> (pubkey \<Rightarrow> int) \<Rightarrow> ('w \<Rightarrow> pubkey \<Rightarrow> int) \<Rightarrow> pubkey set \<Rightarrow> bool" where
  "honest_reads st token ids balance keys \<longleftrightarrow>
     (\<forall>w. \<forall>key \<in> keys. shows_balance (stageSession st) token ids balance w key \<and> 0 \<le> balance w key \<and> balance w key < 2 ^ 53)
     \<and> (\<forall>n < 2 ^ 53. bnToNumber (stage_net st) n = Inr n)"

lemma honest_balance:
  assumes "honest_reads st token ids balance keys" "wallet_key wallet \<in> keys"
    and "internal_balance (stageSession st) wallet token w = Some (Inr (view, wallet'), w')"
  shows "w' = w" "viewAvailable view = balance w (wallet_key wallet)" "walletParticipantId wallet' = ids (wallet_key wallet)"
    "walletKeypair wallet' = walletKeypair wallet"
proof -
  have "\<exists>view pda. internal_balance (stageSession st) wallet token w =
      Some (Inr (view, wallet\<lparr>participantPda := pda, walletParticipantId := ids (wallet_key wallet)\<rparr>), w)
    \<and> viewAvailable view = balance w (wallet_key wallet)"
    using balance_shown [of "stageSession st" token ids balance w wallet] assms(1,2) unfolding honest_reads_def by blast
  then show "w' = w" "viewAvailable view = balance w (wallet_key wallet)" "walletParticipantId wallet' = ids (wallet_key wallet)"
    "walletKeypair wallet' = walletKeypair wallet" using assms(3) by auto
qed

lemma three_read:
  assumes honest: "honest_reads st token ids balance keys" and keys: "{wallet_key a, wallet_key b, wallet_key c} \<subseteq> keys"
    and run: "three_balances st token a b c w = Some (Inr (views, a', b', c'), w')"
  shows "w' = w" "map viewAvailable views = map (balance w) [wallet_key a, wallet_key b, wallet_key c]"
    "walletKeypair a' = walletKeypair a" "walletKeypair b' = walletKeypair b" "walletKeypair c' = walletKeypair c"
    "\<forall>wallet \<in> {a', b', c'}. 0 \<le> walletParticipantId wallet \<and> walletParticipantId wallet < 2 ^ 32"
proof -
  obtain v1 w1 v2 w2 v3 where reads: "internal_balance (stageSession st) a token w = Some (Inr (v1, a'), w1)"
      "internal_balance (stageSession st) b token w1 = Some (Inr (v2, b'), w2)"
      "internal_balance (stageSession st) c token w2 = Some (Inr (v3, c'), w')" and views: "views = [v1, v2, v3]"
    using run unfolding three_balances_def
    by (elim bindIO_pairE) (auto simp only: returnIO_apply option.inject prod.inject sum.inject)
  note one = honest_balance [OF honest _ reads(1)] and two = honest_balance [OF honest _ reads(2)] and three = honest_balance [OF honest _ reads(3)]
  show "w' = w" "map viewAvailable views = map (balance w) [wallet_key a, wallet_key b, wallet_key c]"
    using one two three keys by (simp_all add: views)
  show "walletKeypair a' = walletKeypair a" "walletKeypair b' = walletKeypair b" "walletKeypair c' = walletKeypair c"
    "\<forall>wallet \<in> {a', b', c'}. 0 \<le> walletParticipantId wallet \<and> walletParticipantId wallet < 2 ^ 32"
    using balance_id [OF reads(1)] balance_id [OF reads(2)] balance_id [OF reads(3)] by simp_all
qed

lemma three_ids:
  assumes honest: "honest_reads st token ids balance keys" and keys: "{wallet_key a, wallet_key b, wallet_key c} \<subseteq> keys"
    and run: "three_balances st token a b c w = Some (Inr (views, a', b', c'), w')"
  shows "walletParticipantId a' = ids (wallet_key a)" "walletParticipantId b' = ids (wallet_key b)" "walletParticipantId c' = ids (wallet_key c)"
  using run honest_balance(3) [OF honest] keys unfolding three_balances_def
  by (elim bindIO_pairE; auto simp only: returnIO_apply option.inject prod.inject sum.inject insert_subset)+

lemma routed_call_ok:
  assumes "routed_call st domain token payer middleman recipient channels blocks = Inr (message, aggregate, call)"
  shows "createClearingRoundMessage (boxBn (stage_box st)) token domain (map round_block_spec blocks) (Some BLS_CLEARING_ROUND_MESSAGE_VERSION) = Inr message"
    "settleMethod call = SettleClearingRound message aggregate" "settleSigners call = [walletKeypair middleman]"
  using assms by (auto simp: routed_call_def bindR_eq_Inr)

lemma third_values: "map f xs = [a, b, c] \<Longrightarrow> f (xs ! 1) = b \<and> f (xs ! 2) = c"
  by (auto simp: map_eq_Cons_conv)

lemma routed_blocks_fit:
  assumes "\<forall>wallet \<in> {payer, middleman, recipient}. 0 \<le> walletParticipantId wallet \<and> walletParticipantId wallet < 2 ^ 32"
    and "0 \<le> first" "first < 2 ^ 64" "0 \<le> second" "second < 2 ^ 64"
  shows "\<forall>block \<in> set (routed_blocks payer middleman recipient first second). block_fits block"
  using assms by (simp add: routed_blocks_def block_fits_def)

text \<open>
  C3: When the routed payment returns, whatever the cluster did with the round and in between, two things hold. The round
  that was sent is one from which the program reads the payer paying the middleman and the middleman paying the
  recipient, each the routed amount above what its channel had settled, and the recipient paying nobody. And where
  the three buckets show their balances, the recipient holds exactly the routed amount more than when the round was
  sent, and the middleman as much as then.
\<close>

theorem routed_payment_safe:
  assumes run: "runAtomicRoutedClearingScenario st messageDomain (uint (token :: u16)) symbol decimals payer middleman recipient amount vault w =
      Some (Inr (result, wallets), w')"
    and bn: "\<And>n k. 0 \<le> n \<Longrightarrow> n < 256 ^ k \<Longrightarrow> boxBn (stage_box st) n k = Inr (le_bytes k (nat n))"
    and honest: "honest_reads st (uint token) ids balance {wallet_key payer, wallet_key middleman, wallet_key recipient}"
    and number: "\<And>n m. bnToNumber (stage_net st) n = Inr m \<Longrightarrow> m = n \<and> n < 2 ^ 53"
    and raw: "toRawAmount (sesShowNumber (stageSession st)) amount decimals = Inr raw" "0 \<le> raw" "length messageDomain = 16"
  shows "\<exists>call message aggregate signature size w1 w2 w3 first second layout.
    stageSettle st call w1 = Some (Inr signature, w2) \<and> scenarioSignature result = Some signature
    \<and> settleMethod call = SettleClearingRound message aggregate \<and> settleSigners call = [walletKeypair middleman]
    \<and> (\<exists>payer1 pda lane v v'. walletKeypair payer1 = walletKeypair payer
        \<and> fetch_lane st pda payer1 middleman v = Some (Inr lane, v') \<and> first = settledCumulative (channelLane lane))
    \<and> (\<exists>pda lane v v'. fetch_lane st pda middleman recipient v = Some (Inr lane, v') \<and> second = settledCumulative (channelLane lane))
    \<and> parse_clearing_round_layout_with_version message messageDomain 5 = Inr layout \<and> layout_token_id layout = token
    \<and> map (recovered_block message) (layout_blocks layout) =
        [(word_of_int (ids (wallet_key payer)), [(1, word_of_int (js_plus first raw))]),
         (word_of_int (ids (wallet_key middleman)), [(2, word_of_int (js_plus second raw))]),
         (word_of_int (ids (wallet_key recipient)), [])]
    \<and> fetchSerializedTransactionBytes st signature w2 = Some (Inr size, w3)
    \<and> balance w3 (wallet_key middleman) = balance w1 (wallet_key middleman)
    \<and> balance w3 (wallet_key recipient) = balance w1 (wallet_key recipient) + raw"
proof -
  obtain funded w01 w02 pda1 pda2 lane1 w1 lane2 w2 w3 before payer1 middleman1 recipient1 w4 first second message aggregate call signature w5
      size w6 after payer2 middleman2 recipient2 w7 u
    where funded: "ensureMinimumInternalBalances (stageSession st) [payer] (uint token) vault [walletParticipantId payer \<mapsto> raw] w01 =
        Some (Inr funded, w02)"
      and lanes: "fetch_lane st pda1 (hd funded) middleman w1 = Some (Inr lane1, w2)" "fetch_lane st pda2 middleman recipient w2 = Some (Inr lane2, w3)"
      and before: "three_balances st (uint token) (hd funded) middleman recipient w3 = Some (Inr (before, payer1, middleman1, recipient1), w4)"
      and settled: "settled_number st lane1 = Inr first" "settled_number st lane2 = Inr second"
      and call: "routed_call st messageDomain (uint token) payer1 middleman1 recipient1 [pda1, pda2]
        (routed_blocks payer1 middleman1 recipient1 (js_plus first raw) (js_plus second raw)) = Inr (message, aggregate, call)"
      and sent: "stageSettle st call w4 = Some (Inr signature, w5)" and size: "fetchSerializedTransactionBytes st signature w5 = Some (Inr size, w6)"
      and after: "three_balances st (uint token) payer1 middleman1 recipient1 w6 = Some (Inr (after, payer2, middleman2, recipient2), w7)"
      and checked: "check_routed raw before after = Inr u" and result: "scenarioSignature result = Some signature"
    using run [unfolded runAtomicRoutedClearingScenario_def raw(1) liftIO_Inr bindIO_returnIO Let_def]
    by (elim io_success) (auto simp only: liftIO_apply returnIO_apply option.inject prod.inject sum.inject scenario_result.simps)
  have payer: "walletKeypair (hd funded) = walletKeypair payer"
    using funded_wallets [OF funded] by (auto simp: list_all2_Cons1)
  note reads1 = three_read [OF honest _ before, unfolded payer, simplified]
  note reads2 = three_read [OF honest _ after, unfolded reads1(3-5), simplified]
  have ids: "walletParticipantId payer1 = ids (wallet_key payer)" "walletParticipantId middleman1 = ids (wallet_key middleman)"
    "walletParticipantId recipient1 = ids (wallet_key recipient)"
    using three_ids [OF honest _ before, unfolded payer] by simp_all
  have amounts: "first = settledCumulative (channelLane lane1)" "second = settledCumulative (channelLane lane2)"
    "0 \<le> first" "first < 2 ^ 53" "0 \<le> second" "second < 2 ^ 53"
    using settled number fetched_amounts [OF lanes(1)] fetched_amounts [OF lanes(2)] by (auto simp: settled_number_def)
  have raw': "raw < 2 ^ 53" using toRawAmount_safe [OF raw(1)] by simp
  let ?blocks = "routed_blocks payer1 middleman1 recipient1 (js_plus first raw) (js_plus second raw)"
  have fits: "\<forall>block \<in> set ?blocks. block_fits block"
    using js_plus_small [OF amounts(3) raw(2) amounts(4) raw'] js_plus_small [OF amounts(5) raw(2) amounts(6) raw'] reads1(6)
    by (intro routed_blocks_fit) auto
  have few: "?blocks \<noteq> []" "length ?blocks < 256" by (simp_all add: routed_blocks_def)
  obtain layout where layout: "parse_clearing_round_layout_with_version message messageDomain 5 = Inr layout" "layout_token_id layout = token"
    "map (recovered_block message) (layout_blocks layout) = map read_block ?blocks"
    using round_message_reads [OF routed_call_ok(1) [OF call] bn raw(3) few fits] by blast
  have "viewAvailable (after ! 1) = viewAvailable (before ! 1)" "js_round (viewAvailable (after ! 2) - viewAvailable (before ! 2)) = raw"
    using checked by (auto simp: check_routed_def throwError_def split: if_splits)
  moreover have "\<bar>balance w6 (wallet_key recipient) - balance w3 (wallet_key recipient)\<bar> \<le> 2 ^ 53"
    using honest unfolding honest_reads_def by (smt (verit) insertCI)
  ultimately have balances: "balance w6 (wallet_key middleman) = balance w3 (wallet_key middleman)"
    "balance w6 (wallet_key recipient) = balance w3 (wallet_key recipient) + raw"
    using third_values [OF reads1(2)] third_values [OF reads2(2)] by simp_all
  have "map read_block ?blocks = [(word_of_int (ids (wallet_key payer)), [(1, word_of_int (js_plus first raw))]),
      (word_of_int (ids (wallet_key middleman)), [(2, word_of_int (js_plus second raw))]), (word_of_int (ids (wallet_key recipient)), [])]"
    by (simp add: routed_blocks_def read_block_def ids)
  then show ?thesis
    using sent [unfolded reads1(1)] result routed_call_ok(2,3) [OF call] reads1(4) lanes payer amounts(1,2) layout size balances by metis
qed

end
