(* ===== verification/Samples.thy ===== *)
theory Samples
  imports Flagship Settled
begin

text \<open>
  A small cluster on which the scenarios run to their end, and the witnesses of their theorems.

  Three parties with the ids 0, 45 and 90 are the first participants of their buckets, each with 100 of
  token 1. The buckets of their three channels are the data given. The world tells whether a
  settlement has been sent; then the third party has 5 more.
\<close>

section \<open>The cluster\<close>

definition party_key :: "int \<Rightarrow> pubkey" where
  "party_key i = replicate 32 (word_of_int i)"

definition party :: "int \<Rightarrow> demo_wallet" where
  "party i = (sample_wallet i)\<lparr>walletKeypair := \<lparr>publicKey = party_key i, secretKey = replicate 64 2\<rparr>,
     participantPda := le_bytes 4 (nat (i div 9))\<rparr>"

definition party_id :: "pubkey \<Rightarrow> int" where
  "party_id key = uint (hd key)"

definition party_amount :: "bool \<Rightarrow> pubkey \<Rightarrow> int" where
  "party_amount settled key = (if settled \<and> key = party_key 90 then 105 else 100)"

text \<open>The address of an account is the number of its bucket: four bytes for participants, eight for channels.\<close>

definition party_account :: "(nat \<Rightarrow> bytes) \<Rightarrow> pubkey \<Rightarrow> bool \<Rightarrow> bytes" where
  "party_account channels pda settled =
     (if length pda = 8 then channels (le_nat pda)
      else let i = 9 * le_nat pda; key = party_key (int i) in held_bucket key i (nat (party_amount settled key)))"

definition party_net :: "(nat \<Rightarrow> bytes) \<Rightarrow> (bool, string, unit) cluster" where
  "party_net channels = (sample_net Inr (\<lambda>_. []))\<lparr>
     netAccountInfo := (\<lambda>pda w. Some (Inr (Some (party_account channels pda w)), w)),
     netOwnerIndex := (\<lambda>_. returnIO (map (\<lambda>i. (True, party_key i, i)) [0, 45, 90])),
     netLookupTable := (\<lambda>_. returnIO (Some ())),
     bnToNumber := (\<lambda>n. if n < 2 ^ 53 then Inr n else throwError ''Number can only safely store up to 53 bits'')\<rparr>"

definition party_session :: "(nat \<Rightarrow> bytes) \<Rightarrow> (bool, string, unit, unit) session" where
  "party_session channels = (sample_session Inr (\<lambda>_. []) (\<lambda>_. returnIO ''sig''))\<lparr>
     sesNet := party_net channels, sesDerive := (\<lambda>seeds _. last seeds)\<rparr>"

definition party_box :: "(unit, string) toolbox" where
  "party_box = \<lparr>boxBn = \<lambda>n k. Inr (le_bytes k (nat n)), boxToNumber = Inr, boxShowNumber = (\<lambda>_. ''amount''),
     boxSha256 = (\<lambda>_. replicate 32 1), boxSign = (\<lambda>_ _. replicate 64 1), boxCurve = sesCurve (party_session (\<lambda>_. [])),
     boxDerive = (\<lambda>_ _. []), boxProgramId = [], boxSysvar = [],
     boxSettleInstruction = (\<lambda>_ _ _ _. Inr ''settle''), boxHeapFrame = (\<lambda>_. ''heap''), boxComputeUnits = (\<lambda>_. ''units'')\<rparr>"

definition party_stage :: "(nat \<Rightarrow> bytes) \<Rightarrow> (bool, unit, string, unit) stage" where
  "party_stage channels = \<lparr>stageSession = party_session channels,
     stageBench = \<lparr>benchNet = party_net channels, benchBox = party_box, benchMkdir = (\<lambda>_. returnIO ()),
       benchAppend = (\<lambda>_ _. returnIO ()), benchDirname = (\<lambda>_. ''logs''), benchIsoNow = returnIO ''2025'',
       benchEndpoint = ''http://localhost'', benchParseLogs = (\<lambda>_. Inr [])\<rparr>,
     stageVerify = (\<lambda>_ message. Inr message), stageSettle = (\<lambda>_ _. Some (Inr ''sig'', True)),
     stageRawTransaction = (\<lambda>_. returnIO (Some [1, 2])), stageNoEvents = returnIO (), stageProviderPayer = None\<rparr>"

section \<open>Its balances\<close>

lemma party_fields:
  "stageSession (party_stage channels) = party_session channels" "stage_box (party_stage channels) = party_box"
  "sesNet (party_session channels) = party_net channels" "stageVerify (party_stage channels) key message = Inr message"
  "stageSettle (party_stage channels) call w = Some (Inr ''sig'', True)" "stageProviderPayer (party_stage channels) = None"
  "boxBn party_box n k = Inr (le_bytes k (nat n))" "sesBn (party_session channels) n k = Inr (le_bytes k (nat n))"
  "webPublicKey (party_net channels) = Inr" "boxSign party_box = (\<lambda>_ _. replicate 64 1)"
  by (simp_all add: party_stage_def party_session_def party_net_def party_box_def sample_session_def sample_net_def)

lemma party_number: "bnToNumber (party_net channels) n = (if n < 2 ^ 53 then Inr n else throwError ''Number can only safely store up to 53 bits'')"
  by (simp add: party_net_def)

lemma party_bucket: "participant_bucket (party_session channels) i = Inr (le_bytes 4 (nat (participantBucketIdForParticipantId i)))"
  by (simp add: participant_bucket_def findParticipantBucketPda_def u32Le_def party_session_def sample_session_def)

lemma party_keys: "length (party_key i) = 32" "i \<in> {0, 45, 90} \<Longrightarrow> party_id (party_key i) = i" "wallet_key (party i) = party_key i"
    "walletParticipantId (party i) = i"
  by (auto simp: party_key_def party_id_def party_def sample_wallet_def)

lemma party_shows:
  assumes "i \<in> {0, 45, 90}"
  shows "shows_balance (party_session channels) 1 party_id party_amount w (party_key i)"
proof -
  let ?s = "party_session channels" and ?v = "nat (party_amount w (party_key i))"
  have i: "nat i < 2 ^ 32" "nat i mod 9 = 0" "int (nat i) = i" "?v < 2 ^ 64" "int ?v = party_amount w (party_key i)"
    using assms by (auto simp: party_amount_def)
  obtain slot where slot: "readRawParticipantBucketSlot Inr (held_bucket (party_key i) (nat i) ?v) i = Inr slot" "owner slot = party_key i"
    "slot_available slot 1 = party_amount w (party_key i)" "\<forall>b \<in> set (tokenBalances slot). withdrawingBalance b = 0"
    using held_slot [OF party_keys(1) i(1,2,4), where newKey = Inr and f = "\<lambda>k. k", of i] i(3,5) by auto
  obtain indexPda where index: "owner_index ?s (party_key i) = Inr indexPda"
    by (auto simp: owner_index_def findOwnerIndexBucketPda_def u32Le_def party_session_def sample_session_def)
  let ?pda = "le_bytes 4 (nat (participantBucketIdForParticipantId i))"
  have account: "netAccountInfo (party_net channels) ?pda w = Some (Inr (Some (held_bucket (party_key i) (nat i) ?v)), w)"
    using assms by (auto simp: party_net_def party_account_def le_nat_le_bytes participantBucketIdForParticipantId_def
        PARTICIPANT_BUCKET_SLOT_COUNT_def Let_def)
  have "find (\<lambda>(initialized, k, _). initialized \<and> k = party_key i) (map (\<lambda>i. (True, party_key i, i)) [0, 45, 90]) = Some (True, party_key i, i)"
    using assms by (auto simp: party_key_def)
  then show ?thesis
    unfolding shows_balance_def
    by (intro exI [of _ indexPda] exI [of _ "map (\<lambda>i. (True, party_key i, i)) [0, 45, 90]"] exI [of _ ?pda]
        exI [of _ "held_bucket (party_key i) (nat i) ?v"] exI [of _ slot])
      (use index slot account assms in \<open>simp add: party_bucket party_keys party_fields\<close>, simp add: party_net_def)
qed

lemma party_balance:
  assumes "i \<in> {0, 45, 90}"
  shows "\<exists>view. internal_balance (party_session channels) (party i) 1 w = Some (Inr (view, party i), w)
    \<and> viewAvailable view = party_amount w (party_key i)"
proof -
  have "party_amount w (party_key i) < 2 ^ 53" by (simp add: party_amount_def)
  from balance_shown [of "party_session channels" 1 party_id party_amount w "party i", unfolded party_keys(3), OF party_shows [OF assms] _ this]
  obtain view pda where view: "internal_balance (party_session channels) (party i) 1 w =
      Some (Inr (view, (party i)\<lparr>participantPda := pda, walletParticipantId := i\<rparr>), w)"
    "viewAvailable view = party_amount w (party_key i)" "participant_bucket (party_session channels) i = Inr pda"
    using assms by (auto simp: party_keys(2) party_fields party_number)
  have "pda = le_bytes 4 (nat (i div 9))"
    using view(3) assms by (auto simp: party_bucket participantBucketIdForParticipantId_def PARTICIPANT_BUCKET_SLOT_COUNT_def)
  then have "(party i)\<lparr>participantPda := pda, walletParticipantId := i\<rparr> = party i" by (simp add: party_def sample_wallet_def)
  then show ?thesis using view by simp
qed

section \<open>Its channels\<close>

definition party_lane :: "int \<Rightarrow> int \<Rightarrow> raw_lane directional_channel" where
  "party_lane p q = \<lparr>payerId = p, payeeId = q, channelTokenId = 1, channelLane = lane_view (fresh_lane sample_signer)\<rparr>"

definition party_pda :: "int \<Rightarrow> int \<Rightarrow> pubkey" where
  "party_pda p q = le_bytes 8 (nat (channelBucketIdForPair p q))"

text \<open>The bucket of a pair has its lane open.\<close>

definition lane_open :: "(nat \<Rightarrow> bytes) \<Rightarrow> u32 \<Rightarrow> u32 \<Rightarrow> bool" where
  "lane_open channels p q \<longleftrightarrow> (let data = channels (nat (channelBucketIdForPair (uint p) (uint q))) in
     p < 910000000 \<and> q < 910000000 \<and> lanes data (p, q) = Some (fresh_lane sample_signer) \<and> field_u16 data 8 = 1
     \<and> 0 \<le> channelBucketIdForPair (uint p) (uint q) \<and> channelBucketIdForPair (uint p) (uint q) < 2 ^ 53)"

lemma party_channel:
  assumes "lane_open channels p q"
  shows "session_channel (party_session channels) (party (uint p)) (party (uint q)) 1 = Inr (party_pda (uint p) (uint q))"
    and "fetch_lane (party_stage channels) (party_pda (uint p) (uint q)) (party (uint p)) (party (uint q)) w =
      Some (Inr (party_lane (uint p) (uint q)), w)"
    and "ensureChannel (party_session channels) (party (uint p)) (party (uint q)) 1 w = Some (Inr (party_pda (uint p) (uint q)), w)"
proof -
  let ?b = "nat (channelBucketIdForPair (uint p) (uint q))" and ?s = "party_session channels"
  have small: "p < 910000000" "q < 910000000" and lane: "lanes (channels ?b) (p, q) = Some (fresh_lane sample_signer)"
    and token: "field_u16 (channels ?b) 8 = 1" and b: "?b < 2 ^ 64" "int ?b = channelBucketIdForPair (uint p) (uint q)" "channelBucketIdForPair (uint p) (uint q) < 2 ^ 53"
    using assms by (simp_all add: lane_open_def Let_def nat_less_iff)
  show pda: "session_channel ?s (party (uint p)) (party (uint q)) 1 = Inr (party_pda (uint p) (uint q))"
    by (simp add: session_channel_def findChannelPda_def party_session_def sample_session_def u64Le_def party_keys party_pda_def js_number_decimal_exact [OF b(3)])
  have account: "netAccountInfo (party_net channels) (party_pda (uint p) (uint q)) w = Some (Inr (Some (channels ?b)), w)"
    using b(1) by (simp add: party_net_def party_account_def party_pda_def le_nat_le_bytes)
  have core: "read_resolved_lane_core_from_data (channels ?b) p q = Inr (fresh_lane sample_signer)" and ne: "p \<noteq> q"
    using lane by (auto simp: lanes_iff holds_lane_def lane_core_iff)
  obtain pair where pair: "readRawChannelBucketState Inr (channels ?b) (uint p) (uint q) = Inr pair" "tokenId pair = 1"
    "getDirectionalLaneState pair (uint p) (uint q) = Inr (lane_view (fresh_lane sample_signer))"
    using client_channel_state [OF _ ne small core, of Inr] token by auto
  have normal: "normalizeDirectionalChannelState pair (uint p) (uint q) = Inr (party_lane (uint p) (uint q))"
    by (simp add: normalizeDirectionalChannelState_def pair party_lane_def)
  then show "fetch_lane (party_stage channels) (party_pda (uint p) (uint q)) (party (uint p)) (party (uint q)) w =
      Some (Inr (party_lane (uint p) (uint q)), w)"
    by (simp add: fetch_lane_def fetchDirectionalChannelState_def fetchRawChannelBucketState_def fetchAccountData_def bindIO_def
        party_fields party_keys account pair(1))
  show "ensureChannel ?s (party (uint p)) (party (uint q)) 1 w = Some (Inr (party_pda (uint p) (uint q)), w)"
    by (simp add: ensureChannel_def pda bindIO_def party_fields account channel_exists_def existing_lane_def party_keys pair normal)
      (simp add: party_lane_def lane_view_def fresh_lane_def)
qed

lemma party_amounts: "settled_number (party_stage channels) (party_lane p q) = Inr 0" "locked_number (party_stage channels) (party_lane p q) = Inr 0"
    "settledCumulative (channelLane (party_lane p q)) = 0" "lockedBalance (channelLane (party_lane p q)) = 0"
    "payerId (party_lane p q) = p" "payeeId (party_lane p q) = q"
  by (simp_all add: settled_number_def locked_number_def party_fields party_number party_lane_def lane_view_def fresh_lane_def)

text \<open>Channels for the pairs (0, 45), (0, 90) and (45, 90), or (90, 0) in place of the second.\<close>

lemma party_bucket_ids: "channelBucketIdForPair 0 45 = 21" "channelBucketIdForPair 45 90 = 88" "channelBucketIdForPair 0 90 = 87"
    "channelBucketIdForPair 90 0 = 87"
  by code_simp+

lemma party_channels_exist:
  "\<exists>channels. lane_open channels 0 45 \<and> lane_open channels 45 90 \<and> lane_open channels 0 90"
  "\<exists>channels. lane_open channels 0 45 \<and> lane_open channels 45 90 \<and> lane_open channels 90 0"
proof -
  obtain a where a: "lanes a (0, 45) = Some (fresh_lane sample_signer)" "field_u16 a 8 = 1" using opened_bucket [of 0 45] by auto
  obtain b where b: "lanes b (45, 90) = Some (fresh_lane sample_signer)" "field_u16 b 8 = 1" using opened_bucket [of 45 90] by auto
  obtain c where c: "lanes c (0, 90) = Some (fresh_lane sample_signer)" "field_u16 c 8 = 1" using opened_bucket [of 0 90] by auto
  obtain d where d: "lanes d (90, 0) = Some (fresh_lane sample_signer)" "field_u16 d 8 = 1" using opened_bucket [of 90 0] by auto
  have "lane_open (\<lambda>n. if n = 21 then a else if n = 88 then b else e) 0 45" "lane_open (\<lambda>n. if n = 21 then a else if n = 88 then b else e) 45 90"
    for e using a b by (simp_all add: lane_open_def party_bucket_ids)
  moreover have "lane_open (\<lambda>n. if n = 21 then a else if n = 88 then b else c) 0 90"
    "lane_open (\<lambda>n. if n = 21 then a else if n = 88 then b else d) 90 0"
    using c d by (simp_all add: lane_open_def party_bucket_ids)
  ultimately show "\<exists>channels. lane_open channels 0 45 \<and> lane_open channels 45 90 \<and> lane_open channels 0 90"
    "\<exists>channels. lane_open channels 0 45 \<and> lane_open channels 45 90 \<and> lane_open channels 90 0" by blast+
qed

section \<open>The scenarios run\<close>

lemma party_views:
  "\<exists>view. \<forall>i w. i \<in> {0, 45, 90} \<longrightarrow> internal_balance (party_session channels) (party i) 1 w = Some (Inr (view i w, party i), w)
    \<and> viewAvailable (view i w) = party_amount w (party_key i)"
proof -
  have "\<forall>x. \<exists>v. fst x \<in> {0, 45, 90} \<longrightarrow> internal_balance (party_session channels) (party (fst x)) 1 (snd x) = Some (Inr (v, party (fst x)), snd x)
      \<and> viewAvailable v = party_amount (snd x) (party_key (fst x))"
    using party_balance by blast
  from choice [OF this] obtain f where "\<forall>x. fst x \<in> {0, 45, 90} \<longrightarrow>
      internal_balance (party_session channels) (party (fst x)) 1 (snd x) = Some (Inr (f x, party (fst x)), snd x)
      \<and> viewAvailable (f x) = party_amount (snd x) (party_key (fst x))" ..
  then show ?thesis by (intro exI [of _ "\<lambda>i w. f (i, w)"]) force
qed

lemma party_message:
  "0 \<le> p \<Longrightarrow> 0 \<le> q \<Longrightarrow> 0 \<le> amount \<Longrightarrow>
    \<exists>message. createCommitmentMessage (boxBn party_box) p q (Some amount) None 1 domain = Inr message"
  by (simp add: createCommitmentMessage_def party_fields)

lemma party_raw: "toRawAmount (sesShowNumber (party_session channels)) (Float 5 0) 0 = Inr 5"
  by (simp add: toRawAmount_def)

lemma party_log: "logScenarioEvents (stageBench (party_stage channels)) signature w = Some (Inr (), w)"
  by (simp add: logScenarioEvents_def parseProgramEvents_def bindIO_def party_stage_def party_net_def sample_net_def)

lemma party_transaction: "fetchSerializedTransactionBytes (party_stage channels) signature w = Some (Inr 2, w)"
  by (simp add: fetchSerializedTransactionBytes_def bindIO_def party_stage_def)

lemma single_runs:
  assumes "lane_open channels 0 45"
  shows "\<exists>result. runSingleCommitmentScenario (party_stage channels) domain 1 ''USDC'' 0 (party 0) (party 45) 3 (Float 5 0) False =
    Some (Inr (result, party 0, party 45), True)"
proof -
  note channel = party_channel [OF assms, simplified]
  obtain view where view: "\<And>i w. i \<in> {0, 45, 90} \<Longrightarrow> internal_balance (party_session channels) (party i) 1 w = Some (Inr (view i w, party i), w)"
    using party_views by blast
  obtain message where message: "createCommitmentMessage (boxBn party_box) 0 45 (Some 15) None 1 domain = Inr message"
    using party_message [of 0 45 15] by auto
  obtain preview where preview: "buildSignedCommitmentPreview (boxBn party_box) (boxSign party_box) domain (int 0) ''USDC''
      [\<lparr>inputPayer = party 0, inputPayee = party 45, inputCommittedAmount = 15, inputTokenId = 1\<rparr>] = Inr preview"
    by (simp add: buildSignedCommitmentPreview_def commitment_message_of_def party_keys message)
  obtain call where call: "single_call (party_stage channels) domain 1 (party 0) (party 45) (party_pda 0 45) (party_lane 0 45) 15 = Inr (message, call)"
    by (simp add: single_call_def party_amounts party_fields(2,4) message)
  have sum: "js_round (5 * 3) = 15" "js_plus 0 15 = 15" by simp_all
  show ?thesis
    unfolding runSingleCommitmentScenario_def party_fields(1,2)
    by (simp only: bindIO_ok [OF channel(2)] bindIO_ok [OF channel(3)] bindIO_ok [OF view [of 0]] bindIO_ok [OF view [of 45]] prod.case
        party_raw party_amounts liftIO_Inr bindIO_returnIO Let_def sum preview call bindIO_ok [OF party_fields(5)] bindIO_ok [OF party_log]
        bindIO_ok [OF party_transaction] insert_iff simp_thms returnIO_apply) blast
qed

lemma party_bn: "boxBn (stage_box (party_stage channels)) n k = Inr (le_bytes k (nat n))"
  by (simp add: party_fields)

lemma party_safe: "bnToNumber (stage_net (party_stage channels)) n = Inr m \<Longrightarrow> m = n \<and> n < 2 ^ 53"
  by (auto simp: party_fields party_number throwError_def split: if_splits)

theorem single_commitment_settled_witness:
  "\<exists>channels result message.
    runSingleCommitmentScenario (party_stage channels) (replicate 16 9) (uint (1 :: u16)) ''USDC'' 0 (party 0) (party 45) 3 (Float 5 0) False =
      Some (Inr (result, party 0, party 45), True)
    \<and> parse_commitment_message message (replicate 16 9) = Inr \<lparr>payer_id = 0, payee_id = 45, commitment_token_id = 1,
        committed_amount = 15, authorized_settler = None\<rparr>
    \<and> scenarioSignature result = Some ''sig'' \<and> underlyingPaymentCount (scenarioBenchmark result) = 3"
proof -
  obtain channels where lane: "lane_open channels 0 45" using party_channels_exist(1) by blast
  note channel = party_channel [OF lane, simplified]
  obtain result where run: "runSingleCommitmentScenario (party_stage channels) (replicate 16 9) (uint (1 :: u16)) ''USDC'' 0 (party 0) (party 45) 3
      (Float 5 0) False = Some (Inr (result, party 0, party 45), True)" using single_runs [OF lane] by auto
  have ids: "walletParticipantId (party 0) = uint (0 :: u32)" "walletParticipantId (party 45) = uint (45 :: u32)"
    by (simp_all add: party_keys)
  obtain pda lane message where "session_channel (party_session channels) (party 0) (party 45) 1 = Inr pda"
    and fetched: "\<exists>w1 w2. fetch_lane (party_stage channels) pda (party 0) (party 45) w1 = Some (Inr lane, w2)"
    and message: "parse_commitment_message message (replicate 16 9) = Inr \<lparr>payer_id = 0, payee_id = 45, commitment_token_id = 1,
        committed_amount = word_of_int (js_plus (settledCumulative (channelLane lane)) 15), authorized_settler = None\<rparr>"
    and result: "scenarioSignature result = Some ''sig''" "underlyingPaymentCount (scenarioBenchmark result) = 3"
    using single_commitment_settled [OF run party_bn [of channels] party_safe [of channels] ids, where raw = 5] by (auto simp: party_fields toRawAmount_def; blast)
  moreover from this have "lane = party_lane 0 45" by (auto simp: channel)
  ultimately show ?thesis using run by (auto simp: party_amounts)
qed

lemma batch_channel_runs:
  assumes "lane_open channels p q"
  shows "batch_channel_of (party_stage channels) 1 (party (uint q)) 15 (party (uint p)) w =
    Some (Inr \<lparr>batchPayer = party (uint p), batchPda = party_pda (uint p) (uint q), batchLane = party_lane (uint p) (uint q), batchAmount = 15\<rparr>, w)"
proof -
  note channel = party_channel [OF assms]
  have "js_plus 0 15 = 15" by simp
  then show ?thesis
    unfolding batch_channel_of_def party_fields(1)
    by (simp only: bindIO_ok [OF channel(3)] bindIO_ok [OF channel(2)] party_amounts liftIO_Inr bindIO_returnIO returnIO_apply)
qed

lemma batch_runs:
  assumes "lane_open channels 0 90" "lane_open channels 45 90" and domain: "length domain = 16"
  shows "\<exists>result. runBatchCommitmentScenario (party_stage channels) domain 1 ''USDC'' 0 [party 0, party 45] (party 90) 2 3 (Float 5 0) False =
    Some (Inr (result, [party 0, party 45], party 90), True)"
proof -
  note first = party_channel [OF assms(1), simplified] batch_channel_runs [OF assms(1), simplified]
  note second = party_channel [OF assms(2), simplified] batch_channel_runs [OF assms(2), simplified]
  obtain view where view: "\<And>i w. i \<in> {0, 45, 90} \<Longrightarrow> internal_balance (party_session channels) (party i) 1 w = Some (Inr (view i w, party i), w)"
    using party_views by blast
  let ?c = "\<lambda>p. \<lparr>batchPayer = party p, batchPda = party_pda p 90, batchLane = party_lane p 90, batchAmount = 15\<rparr>"
  obtain m0 m45 where message: "createCommitmentMessage (boxBn party_box) 0 90 (Some 15) None 1 domain = Inr m0"
    "createCommitmentMessage (boxBn party_box) 45 90 (Some 15) None 1 domain = Inr m45"
    using party_message [of 0 90 15 domain] party_message [of 45 90 15 domain] by (auto; blast)
  have each: "batch_message (party_stage channels) domain 1 (?c 0) = Inr m0" "batch_message (party_stage channels) domain 1 (?c 45) = Inr m45"
    by (simp_all add: batch_message_def party_fields(2) party_amounts message)
  have "length m0 \<le> 41" "length m45 \<le> 41"
    using message domain by (auto intro!: commitment_length simp: party_fields)
  then obtain verification where verification: "createMultiMessageEd25519Instruction (boxSign party_box)
      [(walletKeypair (party 0), m0), (walletKeypair (party 45), m45)] = Inr verification"
    using multi_message_read [of "[(walletKeypair (party 0), m0), (walletKeypair (party 45), m45)]" 0 "boxSign party_box"]
    by (auto simp: party_keys party_fields signEd25519Message_def)
  obtain call where call: "bundle_call (party_stage channels) domain 1 (party 90) [?c 0, ?c 45] = Inr call"
    by (simp add: bundle_call_def each party_fields(2) verification)
  let ?inputs = "[\<lparr>inputPayer = party 0, inputPayee = party 90, inputCommittedAmount = 15, inputTokenId = 1\<rparr>,
    \<lparr>inputPayer = party 45, inputPayee = party 90, inputCommittedAmount = 15, inputTokenId = 1\<rparr>]"
  have "\<exists>preview. buildCommitmentBundlePayloadPreview (boxBn party_box) (boxSign party_box) domain (int 0) 1 ''USDC'' (party 90) ?inputs = Inr preview"
    by (simp add: buildCommitmentBundlePayloadPreview_def commitment_message_of_def party_keys message)
  then obtain preview where preview:
    "buildCommitmentBundlePayloadPreview (boxBn party_box) (boxSign party_box) domain (int 0) 1 ''USDC'' (party 90) ?inputs = Inr preview" by blast
  have selected: "js_subarray [party 0, party 45] 0 2 = [party 0, party 45]" by (simp add: js_subarray_def js_index_def)
  have chunk: "chunks MAX_BUNDLE_CHANNELS_PER_TX [?c 0, ?c 45] = [[?c 0, ?c 45]]"
    by (simp add: MAX_BUNDLE_CHANNELS_PER_TX_def chunks.simps)
  have gross: "js_round (5 * 3) = 15" by simp
  have settled: "foldIO (settle_chunk (party_stage channels) domain 1 (party 90)) [[?c 0, ?c 45]] [] w = Some (Inr [''sig''], True)" for w
    by (simp add: settle_chunk_def call bindIO_def party_fields(5))
  have before: "mapIO (\<lambda>p. internal_balance (party_session channels) p 1) [party 0, party 45] w =
      Some (Inr [(view 0 w, party 0), (view 45 w, party 45)], w)" for w
    by (simp add: bindIO_def view)
  have states: "mapIO (batch_channel_of (party_stage channels) 1 (party 90) 15) [party 0, party 45] w = Some (Inr [?c 0, ?c 45], w)" for w
    by (simp add: bindIO_def first(4) second(4))
  have lanes: "mapIO (\<lambda>c. fetch_lane (party_stage channels) (batchPda c) (batchPayer c) (party 90)) [?c 0, ?c 45] w =
      Some (Inr [party_lane 0 90, party_lane 45 90], w)" for w
    by (simp add: bindIO_def first(2) second(2))
  have after: "mapIO (\<lambda>c. internal_balance (party_session channels) (batchPayer c) 1) [?c 0, ?c 45] w =
      Some (Inr [(view 0 w, party 0), (view 45 w, party 45)], w)" for w
    by (simp add: bindIO_def view)
  have numbers: "mapR (settled_number (party_stage channels)) [party_lane 0 90, party_lane 45 90] = Inr [0, 0]"
    by (simp add: party_amounts)
  have sizes: "mapIO (fetchSerializedTransactionBytes (party_stage channels)) [''sig''] w = Some (Inr [2], w)" for w
    by (simp add: bindIO_def party_transaction)
  have messages: "mapR (batch_message (party_stage channels) domain 1) [?c 0, ?c 45] = Inr [m0, m45]" by (simp add: each)
  have logged: "log_latest (party_stage channels) (Some ''sig'') w = Some (Inr (), w)" for w by (simp add: log_latest_def party_log)
  have empty: "([''sig''] = []) = False" "last [''sig''] = ''sig''" by simp_all
  show ?thesis
    unfolding runBatchCommitmentScenario_def party_fields(1,2)
    by (simp only: Let_def selected party_raw liftIO_Inr bindIO_returnIO bindIO_ok [OF view [of 90]] prod.case bindIO_ok [OF before]
        list.map snd_conv gross bindIO_ok [OF states] batch_channel.select_convs preview chunk bindIO_ok [OF settled] bindIO_ok [OF lanes]
        bindIO_ok [OF after] numbers bindIO_ok [where m = "mapIO (fetchSerializedTransactionBytes (party_stage channels)) [''sig'']", OF sizes] empty if_False bindIO_ok [where m = "log_latest (party_stage channels) (Some ''sig'')", OF logged] messages insert_iff simp_thms returnIO_apply) blast
qed

lemma five: "0 \<le> (5 :: int)" "0 \<le> 5 * (3 :: int)" "5 * (3 :: int) < 2 ^ 53"
  by simp_all

lemma domain9: "length (replicate 16 (9 :: byte)) = 16"
  by simp

theorem batch_commitments_settled_witness:
  "\<exists>channels result calls cs.
    runBatchCommitmentScenario (party_stage channels) (replicate 16 9) (uint (1 :: u16)) ''USDC'' 0 [party 0, party 45] (party 90) 2 3
      (Float 5 0) False = Some (Inr (result, [party 0, party 45], party 90), True)
    \<and> length cs = 2 \<and> length calls = 1 \<and> settleMethod (calls ! 0) = SettleCommitmentBundle 2
    \<and> commits (calls ! 0) 0 (replicate 16 9) (party_key 0) (batch_commitment 1 (cs ! 0))
    \<and> commits (calls ! 0) 1 (replicate 16 9) (party_key 45) (batch_commitment 1 (cs ! 1))"
proof -
  obtain channels where lanes: "lane_open channels 0 90" "lane_open channels 45 90" using party_channels_exist(1) by blast
  obtain result where run: "runBatchCommitmentScenario (party_stage channels) (replicate 16 9) (uint (1 :: u16)) ''USDC'' 0 [party 0, party 45]
      (party 90) 2 3 (Float 5 0) False = Some (Inr (result, [party 0, party 45], party 90), True)"
    using batch_runs [OF lanes, of "replicate 16 9"] by auto
  have selected: "js_subarray [party 0, party 45] 0 2 = [party 0, party 45]" by (simp add: js_subarray_def js_index_def)
  have signs: "\<forall>wallet \<in> set [party 0, party 45]. can_sign (party_stage channels) wallet"
    by (simp add: can_sign_def party_keys party_fields signEd25519Message_def)
  have raw: "toRawAmount (sesShowNumber (stageSession (party_stage channels))) (Float 5 0) 0 = Inr 5" by (simp add: toRawAmount_def)
  obtain cs calls where cs: "map (\<lambda>c. walletKeypair (batchPayer c)) cs = map walletKeypair (js_subarray [party 0, party 45] 0 2)"
    and calls: "length calls = (length cs + 1) div 2" "\<forall>j < length calls. settleMethod (calls ! j) = SettleCommitmentBundle (int (min 2 (length cs - 2 * j)))"
    "\<forall>k < length cs. commits (calls ! (k div 2)) (k mod 2) (replicate 16 9) (wallet_key (batchPayer (cs ! k))) (batch_commitment 1 (cs ! k))"
    by (rule exE [OF batch_commitments_settled [OF run party_bn [of channels] party_safe [of channels] raw five(2,3) domain9 signs]],
        assumption, elim exE conjE, rule that)
  obtain c d where two: "cs = [c, d]" "wallet_key (batchPayer c) = party_key 0" "wallet_key (batchPayer d) = party_key 45"
    using cs by (auto simp: map_eq_Cons_conv party_keys selected)
  have one: "length calls = 1" using calls(1) by (simp add: two)
  have "settleMethod (calls ! 0) = SettleCommitmentBundle 2" using calls(2) [rule_format, of 0] by (simp add: two one)
  moreover have "commits (calls ! 0) 0 (replicate 16 9) (party_key 0) (batch_commitment 1 (cs ! 0))"
    using calls(3) [rule_format, of 0] by (simp add: two)
  moreover have "commits (calls ! 0) 1 (replicate 16 9) (party_key 45) (batch_commitment 1 (cs ! 1))"
    using calls(3) [rule_format, of 1] by (simp add: two)
  ultimately show ?thesis using run one two(1) by (intro exI [of _ channels] exI [of _ result] exI [of _ calls] exI [of _ cs]) simp
qed

lemma routed_runs:
  assumes "lane_open channels 0 45" "lane_open channels 45 90"
  shows "\<exists>result. runAtomicRoutedClearingScenario (party_stage channels) domain 1 ''USDC'' 0 (party 0) (party 45) (party 90) (Float 5 0) [8] False =
    Some (Inr (result, party 0, party 45, party 90), True)"
proof -
  note first = party_channel [OF assms(1), simplified]
  note second = party_channel [OF assms(2), simplified]
  let ?s = "party_session channels" and ?st = "party_stage channels"
  obtain view where view: "\<And>i w. i \<in> {0, 45, 90} \<Longrightarrow> internal_balance ?s (party i) 1 w = Some (Inr (view i w, party i), w)"
    and amounts: "\<And>i w. i \<in> {0, 45, 90} \<Longrightarrow> viewAvailable (view i w) = party_amount w (party_key i)"
    using party_views by blast
  have enough: "5 \<le> viewAvailable (view 0 w)" for w by (simp add: amounts party_amount_def)
  have funded: "ensureMinimumInternalBalances ?s [party 0] 1 [8] [0 \<mapsto> 5] w = Some (Inr [party 0], w)" for w
    by (simp add: ensureMinimumInternalBalances_def party_keys top_up_def bindIO_def view enough)
  obtain indexPda where index: "owner_index ?s (party_key 0) = Inr indexPda"
    by (auto simp: owner_index_def findOwnerIndexBucketPda_def u32Le_def party_session_def sample_session_def)
  have locked: "ensureLockedChannelFunds ?s (party 0) (party 45) 1 (party_pda 0 45) 5 w = Some (Inr (), w)" for w
    using first(2) [of w]
    by (simp add: ensureLockedChannelFunds_def fetch_lane_def party_fields bindIO_def party_amounts party_number index party_keys)
      (simp add: party_session_def sample_session_def)
  have three: "three_balances ?st 1 (party 0) (party 45) (party 90) w =
      Some (Inr ([view 0 w, view 45 w, view 90 w], party 0, party 45, party 90), w)" for w
    by (simp add: three_balances_def party_fields bindIO_def view)
  let ?blocks = "routed_blocks (party 0) (party 45) (party 90) 5 5"
  obtain message where message: "createClearingRoundMessage (boxBn party_box) 1 domain (map round_block_spec ?blocks)
      (Some BLS_CLEARING_ROUND_MESSAGE_VERSION) = Inr message"
    by (simp add: createClearingRoundMessage_def routed_blocks_def round_block_spec_def block_part_def entry_part_def party_keys party_fields)
  obtain aggregate call where call: "routed_call ?st domain 1 (party 0) (party 45) (party 90) [party_pda 0 45, party_pda 45 90] ?blocks =
      Inr (message, aggregate, call)"
    using message
    by (simp add: routed_call_def party_fields(2) signWalletBlsMessage_def signBlsMessage_def hashMessageToBlsPoint_def aggregateBlsSignatures_def)
      (simp add: party_box_def party_session_def sample_session_def)
  obtain preview where preview: "buildClearingRoundPayloadPreview (boxBn party_box) (boxSign party_box) domain 1 ''USDC'' (int 0) ?blocks
      (Some BLS_CLEARING_ROUND_MESSAGE_VERSION) (Some aggregate) = Inr preview"
    using message by (simp add: buildClearingRoundPayloadPreview_def Let_def)
  have checked: "check_routed 5 [view 0 False, view 45 False, view 90 False] [view 0 True, view 45 True, view 90 True] = Inr ()"
    by (simp add: check_routed_def amounts party_amount_def party_key_def)
  have numbers: "mapR (\<lambda>f. f) (routed_numbers ?st (party_lane 0 45) (party_lane 0 45) @ routed_numbers ?st (party_lane 45 90) (party_lane 45 90)) =
      Inr [0, 0, 0, 0, 0, 0, 0, 0]"
    by (simp add: routed_numbers_def party_amounts)
  have sum: "js_plus 0 5 = 5" by simp
  show ?thesis
    unfolding runAtomicRoutedClearingScenario_def party_fields(1,2)
    by (simp only: Let_def party_raw liftIO_Inr bindIO_returnIO party_keys(4) bindIO_ok [OF funded] list.sel bindIO_ok [OF first(3)]
        bindIO_ok [OF locked] bindIO_ok [OF second(3)] bindIO_ok [OF first(2)] bindIO_ok [OF second(2)] bindIO_ok [OF three] prod.case
        party_amounts sum call preview bindIO_ok [OF party_fields(5)] bindIO_ok [OF party_transaction] checked numbers bindIO_ok [OF party_log]
        returnIO_apply) blast
qed

theorem routed_payment_safe_witness:
  "\<exists>channels result aggregate (call :: settle_call) message layout first second w1 w3.
    runAtomicRoutedClearingScenario (party_stage channels) (replicate 16 9) (uint (1 :: u16)) ''USDC'' 0 (party 0) (party 45) (party 90)
      (Float 5 0) [8] False = Some (Inr (result, party 0, party 45, party 90), True)
    \<and> settleMethod call = SettleClearingRound message aggregate
    \<and> parse_clearing_round_layout_with_version message (replicate 16 9) 5 = Inr layout
    \<and> map (recovered_block message) (layout_blocks layout) =
        [(0, [(1, word_of_int (js_plus first 5))]), (45, [(2, word_of_int (js_plus second 5))]), (90, [])]
    \<and> party_amount w3 (party_key 45) = party_amount w1 (party_key 45)
    \<and> party_amount w3 (party_key 90) = party_amount w1 (party_key 90) + 5"
proof -
  obtain channels where lanes: "lane_open channels 0 45" "lane_open channels 45 90" using party_channels_exist(1) by blast
  note first = party_channel [OF lanes(1), simplified] and second = party_channel [OF lanes(2), simplified]
  obtain result where run: "runAtomicRoutedClearingScenario (party_stage channels) (replicate 16 9) (uint (1 :: u16)) ''USDC'' 0 (party 0)
      (party 45) (party 90) (Float 5 0) [8] False = Some (Inr (result, party 0, party 45, party 90), True)"
    using routed_runs [OF lanes] by auto
  have honest: "honest_reads (party_stage channels) (uint (1 :: u16)) party_id party_amount
      {wallet_key (party 0), wallet_key (party 45), wallet_key (party 90)}"
    using party_shows by (auto simp: honest_reads_def party_fields party_keys party_number party_amount_def)
  have raw: "toRawAmount (sesShowNumber (stageSession (party_stage channels))) (Float 5 0) 0 = Inr 5" by (simp add: toRawAmount_def)
  obtain call :: settle_call and message aggregate w1 w3 fst' snd' layout where sent: "settleMethod call = SettleClearingRound message aggregate"
    and layout: "parse_clearing_round_layout_with_version message (replicate 16 9) 5 = Inr layout"
      "map (recovered_block message) (layout_blocks layout) =
        [(word_of_int (party_id (wallet_key (party 0))), [(1, word_of_int (js_plus fst' 5))]),
         (word_of_int (party_id (wallet_key (party 45))), [(2, word_of_int (js_plus snd' 5))]),
         (word_of_int (party_id (wallet_key (party 90))), [])]"
    and balances: "party_amount w3 (wallet_key (party 45)) = party_amount w1 (wallet_key (party 45))"
      "party_amount w3 (wallet_key (party 90)) = party_amount w1 (wallet_key (party 90)) + 5"
    by (rule exE [OF routed_payment_safe [OF run party_bn [of channels] honest party_safe [of channels] raw five(1) domain9]],
        assumption, elim exE conjE, rule that)
  show ?thesis
    using run sent layout balances
    by (intro exI [of _ channels] exI [of _ result] exI [of _ aggregate] exI [of _ call] exI [of _ message] exI [of _ layout] exI [of _ fst']
        exI [of _ snd'] exI [of _ w1] exI [of _ w3]) (simp add: party_keys)
qed

end
