(* ===== verification/LiveSamples.thy ===== *)
theory LiveSamples
  imports Samples
begin

text \<open>
  A ring of the three parties of \<open>Samples\<close>, searched, prepared and submitted on their cluster: the
  witnesses of the theorems on live submissions. Four channels are cached at 5, three of them are in the
  ring; the chain has nothing settled on any of them.
\<close>

section \<open>The bench\<close>

definition live_box :: "(bool, string) toolbox" where
  "live_box = \<lparr>boxBn = \<lambda>n k. Inr (le_bytes k (nat n)), boxToNumber = Inr, boxShowNumber = (\<lambda>_. ''amount''),
     boxSha256 = (\<lambda>_. replicate 32 0), boxSign = (\<lambda>_ _. replicate 64 1), boxCurve = parity_curve,
     boxDerive = (\<lambda>seeds _. last seeds), boxProgramId = [9], boxSysvar = [],
     boxSettleInstruction = (\<lambda>_ _ _ _. Inr ''settle''), boxHeapFrame = (\<lambda>_. ''heap''), boxComputeUnits = (\<lambda>_. ''units'')\<rparr>"

definition live_bench :: "(nat \<Rightarrow> bytes) \<Rightarrow> (bool, bool, string, unit) bench" where
  "live_bench channels = \<lparr>benchNet = party_net channels, benchBox = live_box, benchMkdir = (\<lambda>_. returnIO ()),
     benchAppend = (\<lambda>_ _. returnIO ()), benchDirname = (\<lambda>_. ''logs''), benchIsoNow = returnIO ''2025'',
     benchEndpoint = ''http://localhost'', benchParseLogs = (\<lambda>_. Inr [])\<rparr>"

definition parties :: "demo_wallet list" where
  "parties = [party 0, party 45, party 90]"

definition party_edge :: "int \<Rightarrow> int \<Rightarrow> channel_edge" where
  "party_edge p q = \<lparr>edgePayer = party p, edgePayee = party q, edgeChannelPda = party_pda p q, edgeSettledCumulative = 5\<rparr>"

definition ring_edges :: "channel_edge list" where
  "ring_edges = [party_edge 0 45, party_edge 45 90, party_edge 90 0]"

definition ring_context :: "unit search_context" where
  "ring_context = sample_context\<lparr>fullParticipants := parties,
     completeGraphEdges := [party_edge 90 0, party_edge 0 45, party_edge 0 90, party_edge 45 90], sponsor := walletKeypair (party 0)\<rparr>"

definition ring_scenario :: scenario_definition where
  "ring_scenario = sample_scenario\<lparr>fullParticipantSet := parties\<rparr>"

definition ring_selection :: edge_selection where
  "ring_selection = \<lparr>selectionEdges = ring_edges, selectionParticipants = parties\<rparr>"

definition sample_attempt :: search_attempt where
  "sample_attempt = \<lparr>candidateParticipantCount = 3, candidateChannelCount = 3, txBytes = 1, fitsPacket = True,
     simulationPassed = True, simulationError = None, messageBytes = 0, aggregateSignatureBytes = 0\<rparr>"

section \<open>Its calls\<close>

lemma live_fields:
  "benchNet (live_bench channels) = party_net channels" "benchBox (live_bench channels) = live_box"
  "benchIsoNow (live_bench channels) = returnIO ''2025''" "benchParseLogs (live_bench channels) logs = Inr []"
  "netLatestBlockhash (party_net channels) = returnIO (''hash'', 100)" "webV0 (party_net channels) k h is ts ss = Inr [1]"
  "netSimulate (party_net channels) tx = returnIO (None, [])" "netSendRaw (party_net channels) tx b = returnIO ''sig''"
  "netConfirm (party_net channels) sg h n = returnIO None" "netTransactionLogs (party_net channels) sg = returnIO None"
  by (simp_all add: live_bench_def party_net_def sample_net_def del: returnIO_apply)

lemma live_estimate: "estimateVersionedTransactionBytes (party_net channels) payer is ts ss = returnIO 1"
  by (simp add: estimateVersionedTransactionBytes_def live_fields del: returnIO_apply)

lemma live_simulation:
  "simulateVersionedTransaction (party_net channels) payer is ts ss =
     returnIO \<lparr>simulationOk = True, simulationErrorText = None, simulationLogLines = []\<rparr>"
  by (simp add: simulateVersionedTransaction_def live_fields retry_returnIO del: returnIO_apply)

lemma live_sent: "sendVersionedTransaction (party_net channels) payer is ts ss b = returnIO ''sig''"
proof -
  have "submit_and_confirm (party_net channels) tx b h n = returnIO ''sig''" for tx h n
    by (simp add: submit_and_confirm_def live_fields retry_returnIO del: returnIO_apply)
  then show ?thesis
    by (simp add: sendVersionedTransaction_def live_fields retry_returnIO fun_eq_iff)
qed

lemma live_logged: "appendBlsSearchResult (live_bench channels) path j = returnIO ()"
  by (simp add: appendBlsSearchResult_def live_bench_def del: returnIO_apply)

lemma live_fetched:
  assumes "wallets = parties"
  shows "\<exists>views. fetch_balances (live_bench channels) 1 wallets w = Some (Inr views, w) \<and> map snd views = parties"
proof -
  obtain view where view: "\<And>i w. i \<in> {0, 45, 90} \<Longrightarrow> internal_balance (party_session channels) (party i) 1 w = Some (Inr (view i w, party i), w)"
    using party_views [of channels] by blast
  have same: "fetchInternalBalance (benchNet (live_bench channels)) (boxBn (benchBox (live_bench channels))) (boxDerive (benchBox (live_bench channels)))
      (benchSha (live_bench channels)) (boxProgramId (benchBox (live_bench channels))) wallet 1 = internal_balance (party_session channels) wallet 1" for wallet
    by (simp add: internal_balance_def live_fields live_box_def party_session_def sample_session_def)
  show ?thesis
    unfolding fetch_balances_def same assms parties_def by (simp add: view bindIO_def)
qed

lemma parties_refreshed: "i \<in> {0, 45, 90} \<Longrightarrow> refreshed parties (party i) = party i"
  by (auto simp: refreshed_def parties_def party_def party_key_def)

lemma edges_refreshed: "p \<in> {0, 45, 90} \<Longrightarrow> q \<in> {0, 45, 90} \<Longrightarrow> refresh_edge parties (party_edge p q) = party_edge p q"
  by (simp add: refresh_edge_def party_edge_def parties_refreshed)

lemma channel_fetched:
  assumes "lane_open channels p q"
  shows "fetch_channel (party_net channels) (party_edge (uint p) (uint q)) w = Some (Inr (party_edge (uint p) (uint q), 0), w)"
  using party_channel(2) [OF assms, of w] party_amounts(3)
  by (simp add: fetch_channel_def fetch_lane_def party_edge_def party_fields party_keys bindIO_def)

lemma ring_fetched:
  assumes "lane_open channels 0 45" "lane_open channels 45 90" "lane_open channels 90 0"
  shows "mapIO (fetch_channel (party_net channels)) (map (refresh_edge parties) ring_edges) w = Some (Inr (map (\<lambda>e. (e, 0)) ring_edges), w)"
  using assms [THEN channel_fetched, of w] by (simp add: ring_edges_def edges_refreshed bindIO_def)

section \<open>The ring\<close>

lemma party_pairs: "multilateralEdgeKey 0 45 = ''0->45''" "multilateralEdgeKey 45 90 = ''45->90''" "multilateralEdgeKey 90 0 = ''90->0''"
    "multilateralEdgeKey 0 90 = ''0->90''"
  by code_simp+

lemma edge_keys: "edge_key (party_edge p q) = multilateralEdgeKey p q"
  by (simp add: edge_key_def party_edge_def party_keys)

lemma ring_selected: "selectMultilateralEdgesForCandidate ring_context ring_scenario 3 = Inr ring_selection"
proof -
  have "edgeByKeyOf (completeGraphEdges ring_context) =
      [''90->0'' \<mapsto> party_edge 90 0, ''0->45'' \<mapsto> party_edge 0 45, ''0->90'' \<mapsto> party_edge 0 90, ''45->90'' \<mapsto> party_edge 45 90]"
    by (simp add: edgeByKeyOf_def js_map_def ring_context_def edge_keys party_pairs)
  then show ?thesis
    by (simp add: selectMultilateralEdgesForCandidate_def ring_scenario_def sample_scenario_def ring_selection_def ring_edges_def parties_def
        js_subarray_def js_index_def ring_key_def ring_payee_def party_keys party_pairs upt_rec)
qed

lemma ring_ordered: "orderEdges parties ring_edges = ring_edges"
  by (simp add: orderEdges_def index_or_max_def participantIndexById_def js_map_def ring_edges_def parties_def party_edge_def party_keys)

lemma ring_prepared:
  "\<exists>prep. prepareMultilateralRound live_box ring_context ring_scenario ring_selection = Inr prep
    \<and> roundEdges prep = ring_edges \<and> roundParticipantsOf prep = parties"
proof -
  have "fitting_round live_box ring_context ring_selection 50 200"
    by (simp add: fitting_round_def closed_selection_def payer_of_def toRawAmount_def live_box_def ring_context_def sample_context_def
        ring_selection_def ring_edges_def party_edge_def parties_def party_keys)
  moreover have "working_box live_box ring_selection"
    by (simp add: working_box_def live_box_def parity_curve_def ring_selection_def parties_def party_def sample_wallet_def BLS_SCALAR_MODULUS_def)
  ultimately obtain prep where prep: "prepareMultilateralRound live_box ring_context ring_scenario ring_selection = Inr prep"
    using prepared [of live_box ring_context ring_selection 50 200 1 ring_scenario]
    by (auto simp: ring_context_def sample_context_def ring_selection_def ring_edges_def parties_def party_edge_def)
  have "roundEdges prep = orderEdges parties ring_edges" "roundParticipantsOf prep = parties"
    using prep by (auto simp: prepareMultilateralRound_def Let_def bindR_eq_Inr ring_selection_def)
  then show ?thesis using prep ring_ordered by simp
qed

section \<open>The submission\<close>

definition all_open :: "(nat \<Rightarrow> bytes) \<Rightarrow> bool" where
  "all_open channels \<longleftrightarrow> lane_open channels 0 45 \<and> lane_open channels 45 90 \<and> lane_open channels 90 0"

lemma ring_submitted:
  assumes "all_open channels" and prep: "roundEdges prep = ring_edges" "roundParticipantsOf prep = parties"
  shows "\<exists>result context'. submitMultilateralScenario (live_bench channels) ring_context ring_scenario attempt prep w =
    Some (Inr (result, context'), w)"
proof -
  let ?b = "live_bench channels" and ?is = "live_instructions (live_bench channels) ring_context prep"
  have log: "appendBlsLiveSubmitResult ?b c s a r = returnIO ()" for c :: "unit search_context" and s a r
    by (simp add: appendBlsLiveSubmitResult_def live_fields live_logged del: returnIO_apply)
  have sim: "final_simulation ?b ring_context ring_scenario attempt ?is =
      returnIO \<lparr>simulationOk = True, simulationErrorText = None, simulationLogLines = []\<rparr>"
    by (simp add: final_simulation_def live_fields live_simulation Let_def fun_eq_iff)
  have send: "live_send ?b ring_context ring_scenario attempt ?is simulation = returnIO ''sig''" for simulation
    by (simp add: live_send_def live_fields live_sent Let_def fun_eq_iff)
  have events: "logScenarioEvents ?b ''sig'' = returnIO ()"
    by (simp add: logScenarioEvents_def parseProgramEvents_def live_fields del: returnIO_apply)
  obtain views where views: "fetch_balances ?b 1 parties w = Some (Inr views, w)" "map snd views = parties"
    using live_fetched [OF refl] by blast
  have channels: "mapIO (fetch_channel (party_net channels)) (map (refresh_edge parties) ring_edges) w = Some (Inr (map (\<lambda>e. (e, 0)) ring_edges), w)"
    using assms(1) by (intro ring_fetched) (simp_all add: all_open_def)
  have samples: "channel_samples (party_net channels) (map (\<lambda>e. (e, 0)) ring_edges) = Inr ()"
    by (simp add: channel_samples_def ring_edges_def party_edge_def party_number)
  have token: "contextTokenId ring_context = 1" by (simp add: ring_context_def sample_context_def)
  show ?thesis
    unfolding submitMultilateralScenario_def Let_def live_instructions_def [symmetric] live_fields(1) token prep
    by (intro exI, rule bindIO_ok [THEN trans], rule views(1), simp only: sim send bindIO_returnIO views(2),
        rule bindIO_ok [THEN trans], rule views(1), simp only: views(2),
        rule bindIO_ok [THEN trans], rule channels, simp only: log bindIO_returnIO samples liftIO_Inr events returnIO_apply)
qed

theorem live_submission_witness:
  "\<exists>channels prep result context'.
    submitMultilateralScenario (live_bench channels) ring_context ring_scenario sample_attempt prep False = Some (Inr (result, context'), False)
    \<and> settledChannelCount result = 3 \<and> signatures (resultBenchmark result) = [primarySignature result]
    \<and> map edge_key (completeGraphEdges context') = [''90->0'', ''0->45'', ''0->90'', ''45->90'']
    \<and> map edgeSettledCumulative (completeGraphEdges context') = [0, 0, 5, 0]"
proof -
  obtain channels where channels: "all_open channels" using party_channels_exist(2) by (auto simp: all_open_def)
  obtain prep :: "string prepared_round" where prep: "roundEdges prep = ring_edges" "roundParticipantsOf prep = parties" using ring_prepared by blast
  obtain result context' where run: "submitMultilateralScenario (live_bench channels) ring_context ring_scenario sample_attempt prep False =
      Some (Inr (result, context'), False)"
    using ring_submitted [OF channels prep] by blast
  have token: "contextTokenId ring_context = 1" by (simp add: ring_context_def sample_context_def)
  obtain before after updates w1 w3 w4 w5 where
    before: "fetch_balances (live_bench channels) 1 parties False = Some (Inr before, w1)"
    and after: "fetch_balances (live_bench channels) 1 (map snd before) w3 = Some (Inr after, w4)"
    and fetched: "mapIO (fetch_channel (benchNet (live_bench channels))) (map (refresh_edge (map snd after)) ring_edges) w4 = Some (Inr updates, w5)"
    and result: "signatures (resultBenchmark result) = [primarySignature result]" "settledChannelCount result = int (length ring_edges)"
    and cached: "let cached = map (refresh_edge (map snd after)) (completeGraphEdges ring_context) in
      completeGraphEdges context' = map (updated_channel updates cached) [0..<length cached]"
    using live_submission [OF run] unfolding token prep by blast
  have wallets: "map snd before = parties" "map snd after = parties"
    using live_fetched [OF refl, of channels False] before live_fetched [of "map snd before" channels w3] after by auto
  have updates: "updates = map (\<lambda>e. (e, 0)) ring_edges"
    using fetched ring_fetched [of channels w4] channels unfolding wallets live_fields(1) all_open_def by simp
  have edges: "map (refresh_edge parties) (completeGraphEdges ring_context) = [party_edge 90 0, party_edge 0 45, party_edge 0 90, party_edge 45 90]"
    by (simp add: ring_context_def edges_refreshed)
  have "completeGraphEdges context' = [(party_edge 90 0)\<lparr>edgeSettledCumulative := 0\<rparr>, (party_edge 0 45)\<lparr>edgeSettledCumulative := 0\<rparr>,
      party_edge 0 90, (party_edge 45 90)\<lparr>edgeSettledCumulative := 0\<rparr>]"
    using cached unfolding wallets edges Let_def updates
    by (simp add: updated_channel_def ring_edges_def edge_keys party_pairs upt_rec)
  then have graph: "map edge_key (completeGraphEdges context') = [''90->0'', ''0->45'', ''0->90'', ''45->90'']"
    "map edgeSettledCumulative (completeGraphEdges context') = [0, 0, 5, 0]"
    by (simp_all add: edge_key_def party_edge_def party_keys party_pairs)
  show ?thesis
    by (rule exI [of _ channels], rule exI [of _ prep], rule exI [of _ result], rule exI [of _ context'])
      (use run result graph in \<open>simp add: ring_edges_def\<close>)
qed

section \<open>After a search\<close>

lemma ring_found:
  "\<exists>c. findLargestSimulatedCandidate (live_bench channels) ring_context ring_scenario w =
      Some (Inr \<lparr>searchBest = c, successfulCandidates = [c]\<rparr>, w)
    \<and> roundEdges (evaluatedRound c) = ring_edges \<and> roundParticipantsOf (evaluatedRound c) = parties"
proof -
  obtain prep where prep: "prepareMultilateralRound live_box ring_context ring_scenario ring_selection = Inr prep"
    "roundEdges prep = ring_edges" "roundParticipantsOf prep = parties"
    using ring_prepared by blast
  let ?c = "\<lparr>evaluatedAttempt = attempt_for ring_selection prep 1
       (Some \<lparr>simulationOk = True, simulationErrorText = None, simulationLogLines = []\<rparr>), evaluatedRound = prep\<rparr>"
  have evaluated: "evaluateMultilateralCandidate (live_bench channels) ring_context ring_scenario 3 = returnIO ?c"
    unfolding evaluateMultilateralCandidate_def
    by (simp del: returnIO_apply add: ring_selected live_fields prep(1) live_estimate live_simulation live_logged LEGACY_PACKET_DATA_SIZE_def Let_def)
  have passes: "passes ?c" by (simp add: passes_def attempt_for_def LEGACY_PACKET_DATA_SIZE_def)
  have bounds: "lowerBound ring_scenario = 3" "upperBound ring_scenario = 3" by (simp_all add: ring_scenario_def sample_scenario_def)
  have "search_loop (evaluateMultilateralCandidate (live_bench channels) ring_context ring_scenario) 3 3 [] = returnIO [?c]"
    by (subst search_loop.simps) (simp add: evaluated passes search_loop.simps Let_def del: returnIO_apply)
  then show ?thesis
    using prep(2, 3) unfolding findLargestSimulatedCandidate_def bounds by (intro exI [of _ ?c]) simp
qed

theorem live_fallback_witness:
  "\<exists>channels found result. findLargestSimulatedCandidate (live_bench channels) ring_context ring_scenario False = Some (Inr found, False)
    \<and> submitLargestLiveMultilateralScenario (live_bench channels) ring_context ring_scenario found False = Some (Inr result, False)
    \<and> (\<exists>c w1. c \<in> set (successfulCandidates found) \<and> passes c
        \<and> submitMultilateralScenario (live_bench channels) ring_context ring_scenario (evaluatedAttempt c) (evaluatedRound c) w1 = Some (Inr result, False))"
proof -
  obtain channels where channels: "all_open channels" using party_channels_exist(2) by (auto simp: all_open_def)
  obtain c where found: "findLargestSimulatedCandidate (live_bench channels) ring_context ring_scenario False =
      Some (Inr \<lparr>searchBest = c, successfulCandidates = [c]\<rparr>, False)"
    and c: "roundEdges (evaluatedRound c) = ring_edges" "roundParticipantsOf (evaluatedRound c) = parties"
    using ring_found by blast
  obtain result where run: "submitMultilateralScenario (live_bench channels) ring_context ring_scenario (evaluatedAttempt c) (evaluatedRound c) False =
      Some (Inr result, False)"
    using ring_submitted [OF channels c] by blast
  have sent: "submitLargestLiveMultilateralScenario (live_bench channels) ring_context ring_scenario
      \<lparr>searchBest = c, successfulCandidates = [c]\<rparr> False = Some (Inr result, False)"
    by (simp add: submitLargestLiveMultilateralScenario_def submission_order_def same_shape_def run)
  show ?thesis
    using live_fallback [OF found sent] found sent by fastforce
qed

end
