(* ===== verification/Yield.thy ===== *)
theory Yield
  imports Formats Onchain_Base
begin

text \<open>
  Yield-bearing tokens: the conversion between USDC and shares of the client
  (\<open>shared/yield.ts\<close>) and of the program (\<open>YieldStrategy\<close> in
  \<open>programs/ryvo-protocol/src/state/yield_strategy.rs\<close>), the attribution of new yield
  (\<open>apply_yield_delta\<close>) and the solvency check (\<open>require_solvent\<close>).

  The arguments \<open>bigint | number | string | BN\<close> of the client all become the \<open>bigint\<close> they denote.
  A Rust function that may panic returns \<open>None\<close> for the panic.
\<close>

section \<open>The client\<close>

definition Q64 :: int where "Q64 = push_bit 64 1"

definition usdcToAgShares :: "int \<Rightarrow> int \<Rightarrow> int js" where
  "usdcToAgShares userIndexQ64 usdc =
     (if usdc = 0 then Inr 0
      else if userIndexQ64 = 0 then throwError ''YieldStrategy.user_index_q64 is zero; uninitialized strategy''
      else Inr (js_div (usdc * Q64) userIndexQ64))"

definition agSharesToUsdc :: "int \<Rightarrow> int \<Rightarrow> int" where
  "agSharesToUsdc userIndexQ64 shares = (if shares = 0 then 0 else drop_bit 64 (shares * userIndexQ64))"

definition nextCommitmentAmountUsd :: "int \<Rightarrow> int \<Rightarrow> int \<Rightarrow> int js" where
  "nextCommitmentAmountUsd settledCumulativeShares deltaUsdc userIndexQ64 =
     bindR (usdcToAgShares userIndexQ64 deltaUsdc) (\<lambda>newShares. Inr (settledCumulativeShares + newShares))"

definition formatUsdc :: "int \<Rightarrow> nat \<Rightarrow> string" where
  "formatUsdc amount decimals =
     (let negative = amount < 0; magnitude = (if negative then - amount else amount);
          divisor = 10 ^ decimals; whole = js_div magnitude divisor; frac = js_mod magnitude divisor;
          fracStr = strip_zeros (pad_start (int decimals) (show_int frac)); wholeStr = show_int whole;
          body = (if length fracStr = 0 then wholeStr else wholeStr @ ''.'' @ fracStr) in
      if negative then ''-'' @ body else body)"

section \<open>The program\<close>

type_synonym u128 = "128 word"

record yield_strategy =
  protocol_yield_share_bps :: u16
  user_index_q64 :: u128
  last_settled_underlying :: u64
  total_user_shares :: u64
  protocol_owed_underlying :: u64

definition checked_mul128 :: "u128 \<Rightarrow> u128 \<Rightarrow> u128 vres" where
  "checked_mul128 a b = (if uint a * uint b < 2 ^ 128 then Inr (a * b) else Inl MathOverflow)"

definition checked_add128 :: "u128 \<Rightarrow> u128 \<Rightarrow> u128 vres" where
  "checked_add128 a b = (if uint a + uint b < 2 ^ 128 then Inr (a + b) else Inl MathOverflow)"

text \<open>\<open>u64::try_from\<close> of a \<open>u128\<close>, and \<open>x as u128\<close>.\<close>

definition try_u64 :: "u128 \<Rightarrow> u64 vres" where
  "try_u64 x = (if uint x < 2 ^ 64 then Inr (ucast x) else Inl MathOverflow)"

definition as_u128 :: "'a::len word \<Rightarrow> u128" where
  "as_u128 x = ucast x"

definition user_underlying_owed :: "yield_strategy \<Rightarrow> u64 vres" where
  "user_underlying_owed s =
     bindR (checked_mul128 (as_u128 (total_user_shares s)) (user_index_q64 s)) (\<lambda>owed_q64.
     try_u64 (drop_bit 64 owed_q64))"

definition usdc_to_shares :: "yield_strategy \<Rightarrow> u64 \<Rightarrow> u64 vres option" where
  "usdc_to_shares s usdc =
     (if user_index_q64 s = 0 then None
      else Some (try_u64 (push_bit 64 (as_u128 usdc) div user_index_q64 s)))"

definition shares_to_usdc :: "yield_strategy \<Rightarrow> u64 \<Rightarrow> u64 vres" where
  "shares_to_usdc s shares =
     bindR (checked_mul128 (as_u128 shares) (user_index_q64 s)) (\<lambda>usdc_q64.
     try_u64 (drop_bit 64 usdc_q64))"

definition apply_yield_delta :: "yield_strategy \<Rightarrow> u64 \<Rightarrow> yield_strategy vres" where
  "apply_yield_delta strategy delta_underlying =
     (if delta_underlying = 0 then Inr strategy
      else if total_user_shares strategy = 0 then
        bindR (checked_add64 MathOverflow (protocol_owed_underlying strategy) delta_underlying) (\<lambda>owed.
        Inr (strategy\<lparr>protocol_owed_underlying := owed\<rparr>))
      else
        bindR (checked_mul128 (as_u128 delta_underlying) (as_u128 (protocol_yield_share_bps strategy))) (\<lambda>product.
        bindR (try_u64 (product div 10000)) (\<lambda>protocol_cut.
        bindR (checked_sub64 MathOverflow delta_underlying protocol_cut) (\<lambda>user_cut.
        bindR (if user_cut > 0 then
            bindR (checked_add128 (user_index_q64 strategy)
              (push_bit 64 (as_u128 user_cut) div as_u128 (total_user_shares strategy))) (\<lambda>index.
            Inr (strategy\<lparr>user_index_q64 := index\<rparr>))
          else Inr strategy) (\<lambda>strategy1.
        if protocol_cut > 0 then
          bindR (checked_add64 MathOverflow (protocol_owed_underlying strategy1) protocol_cut) (\<lambda>owed.
          Inr (strategy1\<lparr>protocol_owed_underlying := owed\<rparr>))
        else Inr strategy1)))))"

definition require_solvent :: "yield_strategy \<Rightarrow> u64 \<Rightarrow> unit vres" where
  "require_solvent strategy share_vault_underlying =
     bindR (user_underlying_owed strategy) (\<lambda>user_owed.
     bindR (checked_add64 MathOverflow user_owed (protocol_owed_underlying strategy)) (\<lambda>total_owed.
     requireR (share_vault_underlying \<ge> total_owed) SolvencyInvariantBroken (Inr ())))"

section \<open>Words as numbers\<close>

lemma uint_as_u128 [simp]: "uint (as_u128 (x :: u64)) = uint x" "uint (as_u128 (y :: u16)) = uint y"
  unfolding as_u128_def by (rule uint_up_ucast, simp add: is_up)+

lemma u64_bound: "0 \<le> uint (x :: u64)" "uint (x :: u64) < 2 ^ 64"
  using uint_lt2p [of x] by simp_all

lemma uint_shift_u128 [simp]: "uint (push_bit 64 (as_u128 (x :: u64))) = uint x * 2 ^ 64"
proof -
  have "uint x * 2 ^ 64 < 2 ^ 128" using u64_bound [of x] by simp
  then show ?thesis
    using u64_bound [of x] by (simp add: push_bit_eq_mult uint_word_ariths)
qed

lemma uint_high_u128 [simp]: "uint (drop_bit 64 (x :: u128)) = uint x div 2 ^ 64"
  by (simp add: drop_bit_eq_div uint_div)

lemma uint_try_u64: "try_u64 x = Inr y \<Longrightarrow> uint y = uint x"
  by (auto simp: try_u64_def unsigned_ucast_eq take_bit_int_eq_self split: if_splits)

lemma uint_checked_mul128: "checked_mul128 a b = Inr c \<Longrightarrow> uint c = uint a * uint b"
  by (auto simp: checked_mul128_def uint_word_ariths split: if_splits)

lemma uint_checked_add128: "checked_add128 a b = Inr c \<Longrightarrow> uint c = uint a + uint b"
  by (auto simp: checked_add128_def uint_word_ariths split: if_splits)

lemma try_u64_cases: "try_u64 x = Inr y \<longleftrightarrow> uint x = uint y"
proof
  assume "uint x = uint y"
  then have "uint x < 2 ^ 64" using u64_bound(2) [of y] by simp
  moreover from this have "uint (ucast x :: u64) = uint y"
    using \<open>uint x = uint y\<close> by (simp add: unsigned_ucast_eq take_bit_int_eq_self)
  ultimately show "try_u64 x = Inr y" by (simp add: try_u64_def word_uint_eq_iff)
qed (simp add: uint_try_u64)

lemma uint_index_pos: "(x :: u128) \<noteq> 0 \<longleftrightarrow> 0 < uint x"
  by (metis uint_0_iff uint_ge_0 less_le)

section \<open>Client and program\<close>

lemma usdc_to_shares_iff:
  "usdc_to_shares s usdc = Some (Inr v) \<longleftrightarrow>
     user_index_q64 s \<noteq> 0 \<and> uint usdc * 2 ^ 64 div uint (user_index_q64 s) = uint v"
  by (simp add: usdc_to_shares_def try_u64_cases uint_div)

lemma usdcToAgShares_nonneg:
  assumes "0 < i" "0 \<le> u"
  shows "usdcToAgShares i u = Inr (u * 2 ^ 64 div i)"
  using assms by (auto simp: usdcToAgShares_def js_div_def Q64_def push_bit_eq_mult signed_divide_int_def)

lemma agSharesToUsdc_div: "agSharesToUsdc i n = n * i div 2 ^ 64"
  by (simp add: agSharesToUsdc_def drop_bit_eq_div)

lemma shares_to_usdc_iff:
  "shares_to_usdc s shares = Inr v \<longleftrightarrow> uint shares * uint (user_index_q64 s) div 2 ^ 64 = uint v"
proof (cases "uint shares * uint (user_index_q64 s) < 2 ^ 128")
  case True
  then have "uint (as_u128 shares * user_index_q64 s) = uint shares * uint (user_index_q64 s)"
    by (simp add: uint_word_ariths)
  with True show ?thesis by (simp add: shares_to_usdc_def checked_mul128_def try_u64_cases)
next
  case False
  then have "2 ^ 64 \<le> uint shares * uint (user_index_q64 s) div 2 ^ 64" by simp
  then have "uint shares * uint (user_index_q64 s) div 2 ^ 64 \<noteq> uint v" using u64_bound(2) [of v] by simp
  with False show ?thesis by (simp add: shares_to_usdc_def checked_mul128_def)
qed

lemma shares_to_usdc_error: "shares_to_usdc s shares = Inl e \<Longrightarrow> e = MathOverflow"
  by (auto simp: shares_to_usdc_def checked_mul128_def try_u64_def bindR_def split: sum.splits if_splits)

lemma usdc_to_shares_error: "usdc_to_shares s usdc = Some (Inl e) \<Longrightarrow> e = MathOverflow"
  by (auto simp: usdc_to_shares_def try_u64_def split: if_splits)

text \<open>
  C33: the client and the program convert the same way. The program's share count of an amount is the
  client's when the client's fits 64 bits and a \<open>MathOverflow\<close> otherwise; a strategy whose index is
  still zero makes the client throw for a nonzero amount and the program panic for every amount. The
  amount of a number of shares is the client's whenever that fits 64 bits, although the program's
  product is limited to 128 bits, and a \<open>MathOverflow\<close> otherwise.
\<close>

theorem yield_conversions_agree:
  "usdc_to_shares s usdc =
     (if user_index_q64 s = 0 then None
      else Some (case usdcToAgShares (uint (user_index_q64 s)) (uint usdc) of
        Inr n \<Rightarrow> if n < 2 ^ 64 then Inr (word_of_int n) else Inl MathOverflow | Inl e \<Rightarrow> Inl MathOverflow)) \<and>
   (usdcToAgShares (uint (user_index_q64 s)) (uint usdc) =
      throwError ''YieldStrategy.user_index_q64 is zero; uninitialized strategy'') =
     (user_index_q64 s = 0 \<and> usdc \<noteq> 0) \<and>
   shares_to_usdc s shares =
     (let n = agSharesToUsdc (uint (user_index_q64 s)) (uint shares) in
      if n < 2 ^ 64 then Inr (word_of_int n) else Inl MathOverflow)"
proof -
  let ?i = "uint (user_index_q64 s)"
  have small: "n < 2 ^ 64 \<Longrightarrow> 0 \<le> n \<Longrightarrow> uint (word_of_int n :: u64) = n" for n
    by (simp add: uint_word_of_int)
  have "usdc_to_shares s usdc = Some (case usdcToAgShares ?i (uint usdc) of
        Inr n \<Rightarrow> if n < 2 ^ 64 then Inr (word_of_int n) else Inl MathOverflow | Inl e \<Rightarrow> Inl MathOverflow)"
    if "user_index_q64 s \<noteq> 0"
  proof -
    let ?n = "uint usdc * 2 ^ 64 div ?i"
    have pos: "0 < ?i" "0 \<le> ?n" using that by (simp_all add: uint_index_pos pos_imp_zdiv_nonneg_iff)
    define r where "r = try_u64 (push_bit 64 (as_u128 usdc) div user_index_q64 s)"
    have r: "usdc_to_shares s usdc = Some r" using that by (simp add: usdc_to_shares_def r_def)
    have "r = (if ?n < 2 ^ 64 then Inr (word_of_int ?n) else Inl MathOverflow)"
    proof (cases r)
      case (Inl e)
      then have "e = MathOverflow" "\<not> ?n < 2 ^ 64"
        using r usdc_to_shares_error [of s usdc e] usdc_to_shares_iff [of s usdc "word_of_int ?n"] that small [of ?n] pos
        by auto
      with Inl show ?thesis by simp
    next
      case (Inr v)
      then have "?n = uint v" using r usdc_to_shares_iff by auto
      with Inr u64_bound(2) [of v] show ?thesis by simp
    qed
    with r show ?thesis by (simp add: usdcToAgShares_nonneg [OF pos(1)])
  qed
  moreover have "shares_to_usdc s shares = (let n = agSharesToUsdc ?i (uint shares) in
      if n < 2 ^ 64 then Inr (word_of_int n) else Inl MathOverflow)"
  proof (cases "shares_to_usdc s shares")
    case (Inl e)
    have "0 \<le> uint shares * ?i div 2 ^ 64" by (simp add: pos_imp_zdiv_nonneg_iff)
    with Inl have "\<not> uint shares * ?i div 2 ^ 64 < 2 ^ 64"
      using shares_to_usdc_iff [of s shares "word_of_int (uint shares * ?i div 2 ^ 64)"] small by auto
    with Inl shares_to_usdc_error [OF Inl] show ?thesis by (simp add: agSharesToUsdc_div)
  next
    case (Inr v)
    then have "uint shares * ?i div 2 ^ 64 = uint v" by (simp add: shares_to_usdc_iff)
    with Inr u64_bound(2) [of v] show ?thesis by (simp add: agSharesToUsdc_div)
  qed
  ultimately show ?thesis
    by (auto simp: usdc_to_shares_def usdcToAgShares_def uint_0_iff)
qed

lemma high_le: "(x :: int) \<le> u * 2 ^ 64 \<Longrightarrow> x div 2 ^ 64 \<le> u"
  using zdiv_mono1 [of x "u * 2 ^ 64" "2 ^ 64"] by simp

lemma high_less:
  assumes "(u :: int) * 2 ^ 64 < x + i"
  shows "u < x div 2 ^ 64 + i div 2 ^ 64 + 2"
proof -
  let ?q = "18446744073709551616 :: int"
  have "x = x div ?q * ?q + x mod ?q" "i = i div ?q * ?q + i mod ?q" by simp_all
  moreover have "x mod ?q < ?q" "i mod ?q < ?q" by simp_all
  ultimately have "u * ?q < (x div ?q + i div ?q + 2) * ?q" using assms by (simp only: distrib_right) simp
  then show ?thesis by simp
qed

text \<open>
  Converting an amount to shares and back never gains and loses less than the value of one share
  and one unit. The shares of a commitment for the next amount are never fewer than the shares already
  settled.
\<close>

theorem yield_round_trip:
  assumes "0 < index" "0 \<le> usdc" "0 \<le> settled"
  obtains shares where "usdcToAgShares index usdc = Inr shares"
    "agSharesToUsdc index shares \<le> usdc"
    "usdc < agSharesToUsdc index shares + index div 2 ^ 64 + 2"
    "nextCommitmentAmountUsd settled usdc index = Inr (settled + shares)" "settled \<le> settled + shares"
proof -
  define shares where "shares = usdc * 2 ^ 64 div index"
  define back_usdc where "back_usdc = shares * index div 2 ^ 64"
  have sh: "usdcToAgShares index usdc = Inr shares"
    using assms by (simp add: usdcToAgShares_nonneg shares_def)
  have pos: "0 \<le> shares" using assms by (simp add: shares_def pos_imp_zdiv_nonneg_iff)
  have split: "usdc * 2 ^ 64 = shares * index + usdc * 2 ^ 64 mod index"
    unfolding shares_def by (rule div_mult_mod_eq [symmetric])
  have up: "shares * index \<le> usdc * 2 ^ 64" "usdc * 2 ^ 64 < shares * index + index"
    using split pos_mod_bound [OF assms(1), of "usdc * 2 ^ 64"] pos_mod_sign [OF assms(1), of "usdc * 2 ^ 64"]
    by linarith+
  have le: "back_usdc \<le> usdc" unfolding back_usdc_def using up(1) by (rule high_le)
  have lt: "usdc < back_usdc + index div 2 ^ 64 + 2"
    unfolding back_usdc_def using up(2) by (rule high_less)
  show thesis
    by (rule that [of shares]) (use sh pos le lt in
      \<open>simp_all add: agSharesToUsdc_div nextCommitmentAmountUsd_def back_usdc_def\<close>)
qed

section \<open>Attribution of yield\<close>

lemma user_underlying_owed_iff:
  "user_underlying_owed s = Inr v \<longleftrightarrow> uint (total_user_shares s) * uint (user_index_q64 s) div 2 ^ 64 = uint v"
proof -
  have "user_underlying_owed s = shares_to_usdc s (total_user_shares s)"
    by (simp add: user_underlying_owed_def shares_to_usdc_def)
  then show ?thesis by (simp add: shares_to_usdc_iff)
qed

lemma uint_checked_add64: "checked_add64 e a b = Inr c \<Longrightarrow> uint c = uint a + uint b"
  by (simp only: uint_nat unat_checked_add64 of_nat_add)

lemma uint_checked_sub64: "checked_sub64 e a b = Inr c \<Longrightarrow> uint c = uint a - uint b"
  by (simp only: checked_sub64_Inr flip: uint_minus_simple_alt)

lemma unat_sum: "unat (a :: u64) + unat b = nat (uint a + uint b)"
  by (simp only: unat_eq_nat_uint nat_add_distrib uint_ge_0)

lemma uint_plus64: "uint (a :: u64) + uint b < 2 ^ 64 \<Longrightarrow> uint (a + b) = uint a + uint b"
  by (simp add: uint_add_lem [symmetric])

lemma checked_add64_fits:
  assumes "uint a + uint b < 2 ^ 64"
  shows "checked_add64 e a b = Inr (a + b)"
proof -
  have "int (unat a + unat b) < 2 ^ 64"
    using assms by (simp only: uint_nat of_nat_add)
  then have "nat (int (unat a + unat b)) < nat (2 ^ 64)" by (rule nat_mono_iff [THEN iffD2, rotated]) simp
  then have "unat a + unat b < 2 ^ 64" unfolding nat_int by (simp only: nat_power_eq nat_numeral zero_le_numeral)
  then show ?thesis unfolding checked_add64_def by (simp only: if_True)
qed

definition bps_cut :: "yield_strategy \<Rightarrow> u64 \<Rightarrow> int" where
  "bps_cut s d = uint d * uint (protocol_yield_share_bps s) div 10000"

lemma apply_yield_delta_Inr:
  assumes "apply_yield_delta s d = Inr s'" "d \<noteq> 0" "total_user_shares s \<noteq> 0"
  shows "bps_cut s d \<le> uint d"
    "uint (user_index_q64 s') = uint (user_index_q64 s) + (uint d - bps_cut s d) * 2 ^ 64 div uint (total_user_shares s)"
    "uint (protocol_owed_underlying s') = uint (protocol_owed_underlying s) + bps_cut s d"
    "total_user_shares s' = total_user_shares s"
proof -
  obtain product cut user s1 where st:
    "checked_mul128 (as_u128 d) (as_u128 (protocol_yield_share_bps s)) = Inr product"
    "try_u64 (product div 10000) = Inr cut" "checked_sub64 MathOverflow d cut = Inr user"
    "(if user > 0 then bindR (checked_add128 (user_index_q64 s)
       (push_bit 64 (as_u128 user) div as_u128 (total_user_shares s))) (\<lambda>index. Inr (s\<lparr>user_index_q64 := index\<rparr>))
      else Inr s) = Inr s1"
    "(if cut > 0 then bindR (checked_add64 MathOverflow (protocol_owed_underlying s1) cut)
        (\<lambda>owed. Inr (s1\<lparr>protocol_owed_underlying := owed\<rparr>)) else Inr s1) = Inr s'"
    using assms by (auto simp: apply_yield_delta_def bindR_def split: sum.splits)
  have cut: "uint cut = bps_cut s d"
    using uint_try_u64 [OF st(2)] uint_checked_mul128 [OF st(1)] by (simp add: bps_cut_def uint_div)
  have user: "uint user = uint d - bps_cut s d" "cut \<le> d"
    using uint_checked_sub64 [OF st(3)] st(3) cut by (simp_all add: checked_sub64_Inr)
  show "bps_cut s d \<le> uint d" using user(2) cut by (simp add: word_le_def)
  have s1: "uint (user_index_q64 s1) = uint (user_index_q64 s) + uint user * 2 ^ 64 div uint (total_user_shares s)"
    "protocol_owed_underlying s1 = protocol_owed_underlying s" "total_user_shares s1 = total_user_shares s"
    using st(4) by (cases "user = 0"; auto simp: bindR_def uint_div word_gt_0 dest!: uint_checked_add128 split: sum.splits)+
  have s': "uint (protocol_owed_underlying s') = uint (protocol_owed_underlying s1) + uint cut"
    "user_index_q64 s' = user_index_q64 s1" "total_user_shares s' = total_user_shares s1"
    using st(5) by (cases "cut = 0"; auto simp: bindR_def word_gt_0 dest!: uint_checked_add64 split: sum.splits)+
  show "uint (user_index_q64 s') = uint (user_index_q64 s) + (uint d - bps_cut s d) * 2 ^ 64 div uint (total_user_shares s)"
    "uint (protocol_owed_underlying s') = uint (protocol_owed_underlying s) + bps_cut s d"
    "total_user_shares s' = total_user_shares s"
    using s1 s' user cut by simp_all
qed

abbreviation user_value :: "yield_strategy \<Rightarrow> int" where
  "user_value s \<equiv> uint (total_user_shares s) * uint (user_index_q64 s) div 2 ^ 64"

lemma require_solvent_iff:
  "require_solvent s v = Inr () \<longleftrightarrow> user_value s + uint (protocol_owed_underlying s) \<le> uint v"
proof
  assume "require_solvent s v = Inr ()"
  then obtain u t where "user_underlying_owed s = Inr u" "checked_add64 MathOverflow u (protocol_owed_underlying s) = Inr t"
    "t \<le> v"
    by (auto simp: require_solvent_def bindR_def requireR_def split: sum.splits if_splits)
  then show "user_value s + uint (protocol_owed_underlying s) \<le> uint v"
    by (simp add: user_underlying_owed_iff uint_checked_add64 word_le_def)
next
  assume le: "user_value s + uint (protocol_owed_underlying s) \<le> uint v"
  define uv where "uv = user_value s"
  define u :: u64 where "u = word_of_int uv"
  have "0 \<le> uv" by (simp add: uv_def pos_imp_zdiv_nonneg_iff)
  moreover have "uv < 2 ^ 64"
    using le u64_bound(1) [of "protocol_owed_underlying s"] u64_bound(2) [of v] unfolding uv_def by linarith
  ultimately have u: "uint u = uv" by (simp add: uint_word_of_int u_def)
  have sum: "uint u + uint (protocol_owed_underlying s) < 2 ^ 64"
    using le u64_bound(2) [of v] unfolding u uv_def by linarith
  have "u + protocol_owed_underlying s \<le> v"
    using le unfolding word_le_def uint_plus64 [OF sum] u uv_def .
  moreover have "user_underlying_owed s = Inr u" unfolding user_underlying_owed_iff u uv_def ..
  ultimately show "require_solvent s v = Inr ()"
    by (simp add: require_solvent_def checked_add64_fits [OF sum] requireR_def)
qed

lemma attribution_bound:
  "0 < (n :: int) \<Longrightarrow> n * (i + c * 2 ^ 64 div n) div 2 ^ 64 \<le> n * i div 2 ^ 64 + c"
proof -
  assume "0 < n"
  have "n * (c * 2 ^ 64 div n) \<le> c * 2 ^ 64"
    using mult_div_mod_eq [of n "c * 2 ^ 64"] pos_mod_sign [OF \<open>0 < n\<close>, of "c * 2 ^ 64"] by linarith
  then have "n * (i + c * 2 ^ 64 div n) \<le> n * i + c * 2 ^ 64" by (simp add: distrib_left)
  then have "n * (i + c * 2 ^ 64 div n) div 2 ^ 64 \<le> (n * i + c * 2 ^ 64) div 2 ^ 64"
    by (rule zdiv_mono1) simp
  then show ?thesis by simp
qed

lemma apply_yield_delta_value:
  assumes "apply_yield_delta s d = Inr s'"
  shows "user_value s' + uint (protocol_owed_underlying s') \<le>
           user_value s + uint (protocol_owed_underlying s) + uint d \<and>
    uint (user_index_q64 s) \<le> uint (user_index_q64 s') \<and>
    uint (protocol_owed_underlying s) \<le> uint (protocol_owed_underlying s') \<and>
    total_user_shares s' = total_user_shares s"
proof (cases "d = 0 \<or> total_user_shares s = 0")
  case True
  then show ?thesis
    using assms u64_bound(1) [of d]
    by (auto simp: apply_yield_delta_def bindR_def dest!: uint_checked_add64 split: if_splits sum.splits)
next
  case False
  then have nz: "d \<noteq> 0" "total_user_shares s \<noteq> 0" by simp_all
  note step = apply_yield_delta_Inr [OF assms nz]
  have pos: "0 < uint (total_user_shares s)" using nz(2) by (metis uint_0_iff uint_ge_0 less_le)
  have "0 \<le> (uint d - bps_cut s d) * 2 ^ 64 div uint (total_user_shares s)"
    using step(1) pos by (simp add: pos_imp_zdiv_nonneg_iff)
  moreover have "0 \<le> bps_cut s d" by (simp add: bps_cut_def pos_imp_zdiv_nonneg_iff)
  moreover have "user_value s' \<le> user_value s + (uint d - bps_cut s d)"
    unfolding step(2,4) by (rule attribution_bound [OF pos])
  then have "user_value s' + (uint (protocol_owed_underlying s) + bps_cut s d) \<le>
      user_value s + uint (protocol_owed_underlying s) + uint d" by linarith
  ultimately show ?thesis
    unfolding step(2-4) by (intro conjI) (simp_all only: refl le_add_same_cancel1)
qed

text \<open>
  C9: attributing new yield keeps the strategy solvent: a strategy whose vault covers what is owed to
  the users and to the protocol is still covered after the vault and the strategy both take the yield.
  The value of a share and the protocol's claim never fall, and no shares are made.
\<close>

theorem yield_stays_solvent:
  assumes "require_solvent s vault = Inr ()" "apply_yield_delta s delta = Inr s'"
    "uint vault + uint delta < 2 ^ 64"
  shows "require_solvent s' (vault + delta) = Inr () \<and> user_index_q64 s \<le> user_index_q64 s' \<and>
    protocol_owed_underlying s \<le> protocol_owed_underlying s' \<and> total_user_shares s' = total_user_shares s"
  using assms apply_yield_delta_value [OF assms(2)]
  unfolding require_solvent_iff word_le_def uint_plus64 [OF assms(3)] by linarith

definition sample_strategy :: yield_strategy where
  "sample_strategy = \<lparr>protocol_yield_share_bps = 3333, user_index_q64 = 2 ^ 64, last_settled_underlying = 1000000,
     total_user_shares = 1000000, protocol_owed_underlying = 7\<rparr>"

lemma sample_strategy_yields:
  "apply_yield_delta sample_strategy 60000 =
     Inr (sample_strategy\<lparr>user_index_q64 := 19184650730146081099, protocol_owed_underlying := 20005\<rparr>)"
  apply (simp add: apply_yield_delta_def sample_strategy_def checked_mul128_def checked_add128_def try_u64_def as_u128_def
  checked_add64_def checked_sub64_def)
  done
lemma yield_stays_solvent_witness:
  "require_solvent (sample_strategy\<lparr>user_index_q64 := 19184650730146081099, protocol_owed_underlying := 20005\<rparr>)
     (1000007 + 60000) = Inr ()"
  by (rule yield_stays_solvent [OF _ sample_strategy_yields, THEN conjunct1])
    (simp_all add: require_solvent_iff sample_strategy_def)

lemma yield_round_trip_witness:
  "\<exists>shares. usdcToAgShares (3 * 2 ^ 63) 100 = Inr shares \<and> agSharesToUsdc (3 * 2 ^ 63) shares \<le> 100"
  by (rule yield_round_trip [of "3 * 2 ^ 63" 100 5]) auto

end
