(* ===== verification/Unilateral.thy ===== *)
theory Unilateral
  imports Capacity Ed25519
begin

text \<open>
  How many commitments a settlement fits into a packet: \<open>scripts/lib/unilateral-settlement-capacity.ts\<close>.
  The sizes come from \<open>sizing\<close>, as in \<open>Capacity\<close>; the file has its own copies of the helpers, of which
  only \<open>uniquePublicKey\<close> differs.
\<close>

section \<open>Synthetic instructions\<close>

definition LEGACY_COMMITMENT_V2_MESSAGE_BYTES :: int where "LEGACY_COMMITMENT_V2_MESSAGE_BYTES = 103"
definition CURRENT_COMMITMENT_V4_TYPICAL_MESSAGE_BYTES :: int where "CURRENT_COMMITMENT_V4_TYPICAL_MESSAGE_BYTES = 28"
definition CURRENT_COMMITMENT_V4_CONSERVATIVE_MESSAGE_BYTES :: int where
  "CURRENT_COMMITMENT_V4_CONSERVATIVE_MESSAGE_BYTES = 29"

definition uniquePublicKey_unilateral :: "int \<Rightarrow> pubkey" where
  "uniquePublicKey_unilateral seed = uint32_le seed @ uint32_le (seed XOR 0x91f123ab) @ replicate 24 0"

definition createSyntheticEd25519Instruction :: "sizing \<Rightarrow> int \<Rightarrow> int \<Rightarrow> bool \<Rightarrow> instruction" where
  "createSyntheticEd25519Instruction lib signatureCount messageBytesPerSignature sharedMessage =
     (let headerSize = 2 + 14 * signatureCount;
          signerBytes = signatureCount * (32 + 64);
          messageBytes = (if sharedMessage then messageBytesPerSignature else signatureCount * messageBytesPerSignature) in
      \<lparr>instructionProgramId = sizingEd25519 lib, instructionKeys = [],
       instructionData = replicate (nat (headerSize + signerBytes + messageBytes)) 0\<rparr>)"

definition createIndividualSettlementInstruction ::
  "sizing \<Rightarrow> pubkey \<Rightarrow> pubkey \<Rightarrow> pubkey \<Rightarrow> pubkey \<Rightarrow> pubkey \<Rightarrow> instruction" where
  "createIndividualSettlementInstruction lib programId submitter payerBucket payeeBucket channelBucketAccount =
     \<lparr>instructionProgramId = programId,
      instructionKeys =
        [meta (deriveProgramAddress lib programId ''token-registry'') False False,
         meta (deriveProgramAddress lib programId ''global-config'') False False,
         meta payerBucket False True, meta payeeBucket False True, meta channelBucketAccount False True,
         meta submitter True True, meta (sizingSysvar lib) False False],
      instructionData = replicate 8 0\<rparr>"

definition createBundleSettlementInstruction ::
  "sizing \<Rightarrow> pubkey \<Rightarrow> pubkey \<Rightarrow> pubkey \<Rightarrow> pubkey list \<Rightarrow> pubkey list \<Rightarrow> instruction" where
  "createBundleSettlementInstruction lib programId submitter payeeBucket payerAccounts channelAccounts =
     \<lparr>instructionProgramId = programId,
      instructionKeys =
        [meta (deriveProgramAddress lib programId ''token-registry'') False False,
         meta (deriveProgramAddress lib programId ''global-config'') False False,
         meta payeeBucket False True, meta submitter True True, meta (sizingSysvar lib) False False] @
        map (\<lambda>key. meta key False True) payerAccounts @ map (\<lambda>key. meta key False True) channelAccounts,
      instructionData = replicate 9 0\<rparr>"

definition buildBundleLookupTable :: "sizing \<Rightarrow> pubkey \<Rightarrow> pubkey \<Rightarrow> pubkey list \<Rightarrow> pubkey list \<Rightarrow> lookup_table" where
  "buildBundleLookupTable lib programId payeeBucket payerAccounts channelAccounts =
     \<lparr>tableKey = uniquePublicKey_unilateral 8000,
      tableAddresses = [deriveProgramAddress lib programId ''token-registry'',
        deriveProgramAddress lib programId ''global-config'', sizingSysvar lib, payeeBucket] @
        payerAccounts @ channelAccounts\<rparr>"

section \<open>Measurements\<close>

record individual_measurement =
  individualMessageBytes :: int
  individualTxBytes :: int
  individualRemaining :: int
  individualFits :: bool

definition measureIndividualSettlementCapacity :: "sizing \<Rightarrow> pubkey \<Rightarrow> int \<Rightarrow> int option \<Rightarrow> individual_measurement" where
  "measureIndividualSettlementCapacity lib programId messageBytes packet =
     (let packetDataSize = default_to LEGACY_PACKET_DATA_SIZE packet;
          submitter = sizingKeypair lib 0;
          settleIx = createIndividualSettlementInstruction lib programId (publicKey submitter)
            (uniquePublicKey_unilateral 1000) (uniquePublicKey_unilateral 1001) (uniquePublicKey_unilateral 1002);
          size = estimateLegacySignedTransactionSize lib (publicKey submitter)
            [createSyntheticEd25519Instruction lib 1 messageBytes True, settleIx] 1 in
      \<lparr>individualMessageBytes = messageBytes, individualTxBytes = size,
       individualRemaining = packetDataSize - size, individualFits = (size \<le> packetDataSize)\<rparr>)"

record bundle_measurement =
  bundleMessageBytes :: int
  measuredEntryCount :: int
  bundleEnvelopeBytes :: int
  bundleTxBytes :: int
  bundleRemaining :: int
  bundleFits :: bool

definition bundleAccounts :: "int \<Rightarrow> int \<Rightarrow> pubkey list" where
  "bundleAccounts base entryCount = map (\<lambda>index. uniquePublicKey_unilateral (base + index)) [0..entryCount - 1]"

definition measureBundleSettlementCapacity :: "sizing \<Rightarrow> pubkey \<Rightarrow> int \<Rightarrow> int option \<Rightarrow> int \<Rightarrow> bundle_measurement" where
  "measureBundleSettlementCapacity lib programId messageBytes packet entryCount =
     (let packetDataSize = default_to LEGACY_PACKET_DATA_SIZE packet;
          submitter = sizingKeypair lib 0;
          payeeBucket = uniquePublicKey_unilateral 2000;
          payerAccounts = bundleAccounts 2100 entryCount; channelAccounts = bundleAccounts 3100 entryCount;
          ed25519Ix = createSyntheticEd25519Instruction lib entryCount messageBytes False;
          settleIx = createBundleSettlementInstruction lib programId (publicKey submitter) payeeBucket
            payerAccounts channelAccounts;
          size = estimateV0AltSignedTransactionSize lib submitter [ed25519Ix, settleIx]
            (buildBundleLookupTable lib programId payeeBucket payerAccounts channelAccounts) in
      \<lparr>bundleMessageBytes = messageBytes, measuredEntryCount = entryCount,
       bundleEnvelopeBytes = int (length (instructionData ed25519Ix)), bundleTxBytes = size,
       bundleRemaining = packetDataSize - size, bundleFits = (size \<le> packetDataSize)\<rparr>)"

function bundle_loop :: "(int \<Rightarrow> bundle_measurement) \<Rightarrow> int \<Rightarrow> int \<Rightarrow> bundle_measurement \<Rightarrow> bundle_measurement" where
  "bundle_loop measurement maxEntries entryCount best =
     (if entryCount \<le> maxEntries then
        let m = measurement entryCount in
        if \<not> bundleFits m then best else bundle_loop measurement maxEntries (entryCount + 1) m
      else best)"
  by pat_completeness auto
termination
  by (relation "measure (\<lambda>(_, maxEntries, n, _). nat (maxEntries + 1 - n))") auto

declare bundle_loop.simps [simp del]

definition findLargestBundleSettlementEntryCount ::
  "sizing \<Rightarrow> pubkey \<Rightarrow> int \<Rightarrow> int option \<Rightarrow> int option \<Rightarrow> bundle_measurement" where
  "findLargestBundleSettlementEntryCount lib programId messageBytes maxEntries packet =
     bundle_loop (measureBundleSettlementCapacity lib programId messageBytes packet) (default_to 32 maxEntries) 2
       (measureBundleSettlementCapacity lib programId messageBytes packet 1)"

section \<open>Properties\<close>

lemma measured_count [simp]:
  "measuredEntryCount (measureBundleSettlementCapacity lib programId messageBytes packet n) = n"
  by (simp add: measureBundleSettlementCapacity_def Let_def)

lemma envelope_size:
  assumes "0 \<le> n" "0 \<le> messageBytes"
  shows "bundleEnvelopeBytes (measureBundleSettlementCapacity lib programId messageBytes packet n) =
    2 + 110 * n + n * messageBytes"
  using assms by (simp add: measureBundleSettlementCapacity_def createSyntheticEd25519Instruction_def Let_def)

text \<open>The loop stops at the first bundle that does not fit.\<close>

lemma bundle_loop_stops:
  "\<exists>n. bundle_loop measurement maxEntries c (measurement (c - 1)) = measurement n \<and> c - 1 \<le> n \<and> n \<le> max (c - 1) maxEntries
    \<and> (\<forall>k \<in> {c..n}. bundleFits (measurement k)) \<and> (n < maxEntries \<longrightarrow> \<not> bundleFits (measurement (n + 1)))"
proof (induction "nat (maxEntries + 1 - c)" arbitrary: c)
  case 0
  then show ?case by (intro exI [of _ "c - 1"]) (simp add: bundle_loop.simps [of _ _ c])
next
  case (Suc j)
  then have c: "c \<le> maxEntries" by simp
  show ?case
  proof (cases "bundleFits (measurement c)")
    case False
    then show ?thesis
      using c by (intro exI [of _ "c - 1"]) (simp add: bundle_loop.simps [of _ _ c] Let_def)
  next
    case True
    have "j = nat (maxEntries + 1 - (c + 1))" using Suc.hyps(2) by simp
    from Suc.hyps(1) [OF this] obtain n where n: "bundle_loop measurement maxEntries (c + 1) (measurement c) = measurement n"
      "c \<le> n" "n \<le> max c maxEntries" "\<forall>k \<in> {c + 1..n}. bundleFits (measurement k)"
      "n < maxEntries \<longrightarrow> \<not> bundleFits (measurement (n + 1))" by auto
    have "\<forall>k \<in> {c..n}. bundleFits (measurement k)"
    proof
      fix k assume "k \<in> {c..n}"
      then show "bundleFits (measurement k)" using True n(4) by (cases "k = c") auto
    qed
    with n c True show ?thesis by (intro exI [of _ n]) (auto simp: bundle_loop.simps [of _ _ c] Let_def)
  qed
qed

lemma bundle_envelope:
  assumes "1 \<le> n" "0 \<le> messageBytes" and entries: "length entries = nat n"
      "\<forall>(signer, message) \<in> set entries. length message = nat messageBytes
        \<and> length (publicKey signer) = 32 \<and> length (signEd25519Message cryptoSign message signer) = 64"
    and small: "2 + 110 * n + n * messageBytes \<le> 65535"
  shows "\<exists>data. createMultiMessageEd25519Instruction cryptoSign entries = Inr data \<and>
    int (length data) = bundleEnvelopeBytes (measureBundleSettlementCapacity lib programId messageBytes packet n)"
proof -
  obtain buffers rows stop where c: "collectEntries cryptoSign entries (2 + 14 * length entries) = (buffers, rows, stop)"
    by (metis prod_cases3)
  have "map (\<lambda>e. length (snd e)) entries = map (\<lambda>_. nat messageBytes) entries" using entries(2) by auto
  from arg_cong [OF this, of sum_list] have total: "sum_list (map (\<lambda>e. length (snd e)) entries) = nat n * nat messageBytes"
    by (simp only: sum_list_triv entries(1) of_nat_id)
  have product: "int (nat n * nat messageBytes) = n * messageBytes" using assms(1,2) by simp
  then have room: "2 + 110 * length entries + sum_list (map (\<lambda>e. length (snd e)) entries) \<le> 65535"
    using small assms(1) unfolding total entries(1) by linarith
  have lens: "\<forall>(signer, message) \<in> set entries. length (publicKey signer) = 32
      \<and> length (signEd25519Message cryptoSign message signer) = 64" using entries(2) by auto
  note built = multi_message_bytes [OF c lens room]
  have "int (length (instruction_bytes rows (concat buffers))) = 2 + 110 * n + n * messageBytes"
    using product assms(1) unfolding built(5) built(4) total entries(1) by linarith
  with built(1) show ?thesis using envelope_size assms(1,2) by auto
qed

text \<open>
  The bundle that is reported fits exactly as claimed. Unless it is the single commitment the search starts
  from, every bundle up to it fits the packet and, below the limit of the search, the next one does not; and the
  measured envelope has the size of the Ed25519 instruction the demo builds for that many commitments of that length.
\<close>

theorem largest_bundle_found:
  assumes "1 \<le> default_to 32 maxEntries" "0 \<le> messageBytes"
  shows "\<exists>n. findLargestBundleSettlementEntryCount lib programId messageBytes maxEntries packet =
      measureBundleSettlementCapacity lib programId messageBytes packet n
    \<and> 1 \<le> n \<and> n \<le> default_to 32 maxEntries
    \<and> (\<forall>k \<in> {2..n}. bundleFits (measureBundleSettlementCapacity lib programId messageBytes packet k))
    \<and> (n < default_to 32 maxEntries \<longrightarrow>
        \<not> bundleFits (measureBundleSettlementCapacity lib programId messageBytes packet (n + 1)))
    \<and> (\<forall>cryptoSign entries. length entries = nat n \<and> (\<forall>(signer, message) \<in> set entries. length message = nat messageBytes
          \<and> length (publicKey signer) = 32 \<and> length (signEd25519Message cryptoSign message signer) = 64)
        \<and> 2 + 110 * n + n * messageBytes \<le> 65535 \<longrightarrow>
        (\<exists>data. createMultiMessageEd25519Instruction cryptoSign entries = Inr data
          \<and> int (length data) = bundleEnvelopeBytes (findLargestBundleSettlementEntryCount lib programId messageBytes maxEntries packet)))"
proof -
  let ?M = "measureBundleSettlementCapacity lib programId messageBytes packet"
  obtain n where n: "findLargestBundleSettlementEntryCount lib programId messageBytes maxEntries packet = ?M n"
    "1 \<le> n" "n \<le> default_to 32 maxEntries" "\<forall>k \<in> {2..n}. bundleFits (?M k)"
    "n < default_to 32 maxEntries \<longrightarrow> \<not> bundleFits (?M (n + 1))"
    using bundle_loop_stops [of ?M "default_to 32 maxEntries" 2] assms(1)
    unfolding findLargestBundleSettlementEntryCount_def by auto
  show ?thesis
  proof (intro exI [of _ n] conjI allI impI)
    fix cryptoSign and entries :: "(keypair \<times> bytes) list"
    assume "length entries = nat n \<and> (\<forall>(signer, message) \<in> set entries. length message = nat messageBytes
        \<and> length (publicKey signer) = 32 \<and> length (signEd25519Message cryptoSign message signer) = 64)
      \<and> 2 + 110 * n + n * messageBytes \<le> 65535"
    then show "\<exists>data. createMultiMessageEd25519Instruction cryptoSign entries = Inr data \<and>
        int (length data) = bundleEnvelopeBytes (findLargestBundleSettlementEntryCount lib programId messageBytes maxEntries packet)"
      unfolding n(1) using n(2) assms(2) by (intro bundle_envelope) simp_all
  qed (use n in blast)+
qed

text \<open>A library whose transactions are the data of their instructions: eight commitments of 28 bytes fit.\<close>

definition data_sizing :: sizing where
  "data_sizing = plain_sizing\<lparr>sizingV0Transaction :=
     (\<lambda>payer blockhash instructions tables. Inr (concat (map instructionData instructions)))\<rparr>"

lemma data_sizing_fits:
  "0 \<le> n \<Longrightarrow> bundleFits (measureBundleSettlementCapacity data_sizing [] 28 None n) \<longleftrightarrow> 138 * n + 11 \<le> 1232"
  by (simp add: measureBundleSettlementCapacity_def estimateV0AltSignedTransactionSize_def size_or_max_def data_sizing_def
      createSyntheticEd25519Instruction_def createBundleSettlementInstruction_def default_to_def LEGACY_PACKET_DATA_SIZE_def Let_def)

theorem largest_bundle_found_witness:
  "measuredEntryCount (findLargestBundleSettlementEntryCount data_sizing [] 28 None None) = 8"
proof -
  let ?M = "measureBundleSettlementCapacity data_sizing [] 28 None"
  obtain n where n: "findLargestBundleSettlementEntryCount data_sizing [] 28 None None = ?M n" "1 \<le> n" "n \<le> 32"
    "\<forall>k \<in> {2..n}. bundleFits (?M k)" "n < 32 \<longrightarrow> \<not> bundleFits (?M (n + 1))"
    using largest_bundle_found [of None 28 data_sizing "[]" None] by (auto simp: default_to_def)
  have "n \<noteq> 1" using n(5) data_sizing_fits [of 2] by auto
  then have "bundleFits (?M n)" using n(2,4) by auto
  then have "138 * n + 11 \<le> 1232" using data_sizing_fits n(2) by simp
  moreover from this have "\<not> 138 * (n + 1) + 11 \<le> 1232" using n(2,5) data_sizing_fits [of "n + 1"] by simp
  ultimately have "n = 8" by simp
  with n(1) show ?thesis by simp
qed

end
