(* ===== verification/Wallets.thy ===== *)
theory Wallets
  imports Options Bls "HOL-Library.Multiset"
begin

text \<open>
  The wallets of the demo on the disk: key files, the manifest that names them, and how a later run finds
  them again. Values read from a file are kept as parsed; one of the wrong type where the code needs a string
  or an array of numbers is a \<open>TypeError\<close>. Random key pairs (by their position), \<open>Keypair.fromSecretKey\<close>,
  the base58 text of a key, the clock, the collation order of strings, SHA-256 and the curve are fields of
  \<open>wallet_tools\<close>.
\<close>

section \<open>Values of a file\<close>

definition typeError :: "string \<Rightarrow> 'a js" where
  "typeError what = Inl (JsError ''TypeError'' what)"

definition field :: "jsv \<Rightarrow> string \<Rightarrow> jsv option js" where
  "field v name = (if v = VNull then typeError (''Cannot read properties of null (reading '' @ name @ '')'')
     else Inr (member_of v name))"

definition truthy :: "jsv option \<Rightarrow> bool" where
  "truthy v = (case v of None \<Rightarrow> False | Some VNull \<Rightarrow> False | Some (VBool b) \<Rightarrow> b
     | Some (VNumber d) \<Rightarrow> d \<noteq> Fin 0 \<and> d \<noteq> NotANumber | Some (VText s) \<Rightarrow> s \<noteq> '''' | _ \<Rightarrow> True)"

definition textField :: "jsv \<Rightarrow> string \<Rightarrow> string js" where
  "textField v name = bindR (field v name) (\<lambda>f.
     case f of Some (VText s) \<Rightarrow> Inr s | _ \<Rightarrow> typeError (name @ '' is not a string''))"

definition number_text :: "(rat \<Rightarrow> string) \<Rightarrow> js_double \<Rightarrow> string" where
  "number_text showNumber d = (case d of
     Fin q \<Rightarrow> if of_int (floor q) = q then show_int (floor q) else showNumber q
   | Infin negative \<Rightarrow> (if negative then ''-Infinity'' else ''Infinity'') | NotANumber \<Rightarrow> ''NaN'')"

text \<open>\<open>String(value)\<close>, and \<open>JSON.stringify(value, null, 2)\<close> of a parsed value.\<close>

fun js_text :: "(rat \<Rightarrow> string) \<Rightarrow> jsv \<Rightarrow> string" where
  "js_text showNumber VNull = ''null''"
| "js_text showNumber (VBool b) = (if b then ''true'' else ''false'')"
| "js_text showNumber (VNumber d) = number_text showNumber d"
| "js_text showNumber (VText s) = s"
| "js_text showNumber (VArray items) =
     joined (CHR '','') (map (\<lambda>v. if v = VNull then '''' else js_text showNumber v) items)"
| "js_text showNumber (VObject members) = ''[object Object]''"

definition template_text :: "(rat \<Rightarrow> string) \<Rightarrow> jsv option \<Rightarrow> string" where
  "template_text showNumber v = (case v of None \<Rightarrow> ''undefined'' | Some x \<Rightarrow> js_text showNumber x)"

fun print_value :: "(rat \<Rightarrow> string) \<Rightarrow> nat \<Rightarrow> jsv \<Rightarrow> string" where
  "print_value showNumber n VNull = ''null''"
| "print_value showNumber n (VBool b) = (if b then ''true'' else ''false'')"
| "print_value showNumber n (VNumber d) = (if isFinite d then number_text showNumber d else ''null'')"
| "print_value showNumber n (VText s) = json_string s"
| "print_value showNumber n (VArray items) =
     (if items = [] then ''[]''
      else ''['' @ joined (CHR '','') (map (\<lambda>v. indent (n + 2) @ print_value showNumber (n + 2) v) items) @ indent n @ '']'')"
| "print_value showNumber n (VObject members) =
     (if members = [] then ''{}''
      else ''{'' @ joined (CHR '','') (map (\<lambda>(name, v). indent (n + 2) @ json_string name @ '': '' @
        print_value showNumber (n + 2) v) members) @ indent n @ ''}'')"

text \<open>\<open>Array.prototype.sort\<close>: stable, with a comparison that may throw.\<close>

fun insert_by :: "('a \<Rightarrow> 'a \<Rightarrow> int js) \<Rightarrow> 'a \<Rightarrow> 'a list \<Rightarrow> 'a list js" where
  "insert_by cmp x [] = Inr [x]"
| "insert_by cmp x (y # ys) = bindR (cmp x y) (\<lambda>c.
     if c < 0 then Inr (x # y # ys) else bindR (insert_by cmp x ys) (\<lambda>zs. Inr (y # zs)))"

definition js_sort :: "('a \<Rightarrow> 'a \<Rightarrow> int js) \<Rightarrow> 'a list \<Rightarrow> 'a list js" where
  "js_sort cmp xs = foldl (\<lambda>sorted x. bindR sorted (insert_by cmp x)) (Inr []) xs"

section \<open>Names and numbers of wallets\<close>

record 'g wallet_tools =
  toolSha256 :: "bytes \<Rightarrow> bytes"
  toolCurve :: "'g bls_curve"
  toolFromSecretKey :: "bytes \<Rightarrow> keypair js"
  toolGenerate :: "nat \<Rightarrow> keypair"
  toolNow :: string
  toolShowKey :: "pubkey \<Rightarrow> string"
  toolParseKey :: "string \<Rightarrow> pubkey js"
  toolCollation :: "string \<Rightarrow> string \<Rightarrow> int"
  toolShowNumber :: "rat \<Rightarrow> string"

definition DEMO_WALLET_BASE_NAMES :: "string list" where
  "DEMO_WALLET_BASE_NAMES = [''Alice'', ''Bob'', ''Carol'', ''Dave'', ''Erin'', ''Frank'', ''Grace'', ''Heidi'', ''Ivan'', ''Judy'']"

definition walletNameForIndex :: "int \<Rightarrow> string" where
  "walletNameForIndex index =
     (if 0 \<le> index \<and> index < int (length DEMO_WALLET_BASE_NAMES) then DEMO_WALLET_BASE_NAMES ! nat index
      else ''Agent'' @ show_int (index + 1))"

text \<open>\<open>match(/^(\d+)-/)\<close>: the digits and what follows the dash.\<close>

definition leading_number :: "string \<Rightarrow> (string \<times> string) option" where
  "leading_number s = (let ds = takeWhile is_digit s; rest = dropWhile is_digit s in
     if ds \<noteq> [] \<and> prefix ''-'' rest then Some (ds, tl rest) else None)"

definition walletIndexFromSecretPath :: "string \<Rightarrow> int option" where
  "walletIndexFromSecretPath path =
     (case leading_number (path_basename path) of None \<Rightarrow> None
      | Some (ds, _) \<Rightarrow> (let index = to_number (of_nat (read_digits ds)) in
          if isInteger index \<and> 0 < rational_of index then Some (floor (round_f64 (rational_of index - 1))) else None))"

definition upper_char :: "char \<Rightarrow> char" where
  "upper_char c = (let n = of_char c :: nat in if 97 \<le> n \<and> n \<le> 122 then char_of (n - 32) else c)"

definition capitalize :: "string \<Rightarrow> string" where
  "capitalize part = (case part of [] \<Rightarrow> '''' | c # cs \<Rightarrow> upper_char c # cs)"

definition walletNameFromSecretPath :: "string \<Rightarrow> string" where
  "walletNameFromSecretPath path =
     (case walletIndexFromSecretPath path of Some index \<Rightarrow> walletNameForIndex index
      | None \<Rightarrow> (let stem = path_basename_ext path ''.json'';
          fileStem = (case leading_number stem of Some (_, rest) \<Rightarrow> rest | None \<Rightarrow> stem) in
          if fileStem \<noteq> '''' then concat (map capitalize (filter (\<lambda>part. part \<noteq> '''') (split_on (CHR ''-'') fileStem)))
          else ''Agent''))"

definition compareManifestWallets :: "(string \<Rightarrow> string \<Rightarrow> int) \<Rightarrow> jsv \<Rightarrow> jsv \<Rightarrow> int js" where
  "compareManifestWallets collation left right =
     (let byName = bindR (textField left ''name'') (\<lambda>l. bindR (textField right ''name'') (\<lambda>r. Inr (collation l r))) in
      bindR (textField left ''secretPath'') (\<lambda>leftPath. bindR (textField right ''secretPath'') (\<lambda>rightPath.
      case (walletIndexFromSecretPath leftPath, walletIndexFromSecretPath rightPath) of
        (Some leftIndex, Some rightIndex) \<Rightarrow> if leftIndex \<noteq> rightIndex then Inr (leftIndex - rightIndex) else byName
      | (Some _, None) \<Rightarrow> Inr (- 1)
      | (None, Some _) \<Rightarrow> Inr 1
      | (None, None) \<Rightarrow> byName)))"

section \<open>The manifest\<close>

text \<open>\<open>PublicKey.default\<close>; a property that is \<open>undefined\<close> is not written.\<close>

definition default_key :: pubkey where
  "default_key = replicate 32 0"

definition serializeWalletForManifest :: "(pubkey \<Rightarrow> string) \<Rightarrow> demo_wallet \<Rightarrow> json" where
  "serializeWalletForManifest showKey wallet = JsonObject
     [(''name'', Some (JsonText (walletName wallet))),
      (''publicKey'', Some (JsonText (showKey (publicKey (walletKeypair wallet))))),
      (''participantId'', if 0 \<le> walletParticipantId wallet then Some (JsonNumber (walletParticipantId wallet)) else None),
      (''participantPda'', if participantPda wallet = default_key then None else Some (JsonText (showKey (participantPda wallet)))),
      (''tokenAccount'', if tokenAccount wallet = default_key then None else Some (JsonText (showKey (tokenAccount wallet)))),
      (''secretPath'', Some (JsonText (secretPath wallet)))]"

text \<open>\<open>entry.publicKey || entry.secretPath\<close>; objects are compared by identity, so that no two of them are equal.\<close>

definition wallet_identity :: "jsv \<Rightarrow> jsv option js" where
  "wallet_identity entry = bindR (field entry ''publicKey'') (\<lambda>key.
     if truthy key then Inr key else field entry ''secretPath'')"

definition is_primitive :: "jsv option \<Rightarrow> bool" where
  "is_primitive v = (case v of Some (VArray _) \<Rightarrow> False | Some (VObject _) \<Rightarrow> False | _ \<Rightarrow> True)"

fun merge_loop :: "jsv list \<Rightarrow> jsv list \<Rightarrow> jsv option list \<Rightarrow> jsv list js" where
  "merge_loop [] merged seen = Inr merged"
| "merge_loop (existingEntry # entries) merged seen =
     bindR (wallet_identity existingEntry) (\<lambda>identity.
     if \<not> truthy identity \<or> (is_primitive identity \<and> identity \<in> set seen) then merge_loop entries merged seen
     else merge_loop entries (merged @ [existingEntry]) (seen @ [identity]))"

definition mergeExistingWalletManifestEntries ::
  "(string \<Rightarrow> string \<Rightarrow> int) \<Rightarrow> string \<Rightarrow> jsv list \<Rightarrow> (disk, jsv list) io" where
  "mergeExistingWalletManifestEntries collation outputPath walletEntries d =
     (if \<not> existsSync d outputPath then returnIO walletEntries d else
      case bindIO (readFileSync outputPath) (\<lambda>content. liftIO (JSON_parse content)) d of
        None \<Rightarrow> None
      | Some (Inl _, d') \<Rightarrow> returnIO walletEntries d'
      | Some (Inr manifest, d') \<Rightarrow> (case member_of manifest ''wallets'' of
          Some (VArray existing) \<Rightarrow> liftIO (
            bindR (mapR wallet_identity walletEntries) (\<lambda>seen.
            bindR (merge_loop existing walletEntries seen) (\<lambda>merged.
            js_sort (compareManifestWallets collation) merged))) d'
        | _ \<Rightarrow> returnIO walletEntries d'))"

definition saveRunManifest :: "(rat \<Rightarrow> string) \<Rightarrow> string \<Rightarrow> jsv \<Rightarrow> (disk, unit) io" where
  "saveRunManifest showNumber outputPath content =
     bindIO (mkdirSync (path_dirname outputPath)) (\<lambda>_.
     writeFileSync outputPath (print_value showNumber 0 content @ [CHR 0x0A]))"

definition inferNetwork :: "string \<Rightarrow> string" where
  "inferNetwork rpcEndpoint =
     (if js_includes rpcEndpoint ''mainnet'' then ''mainnet''
      else if js_includes rpcEndpoint ''devnet'' then ''devnet''
      else if js_includes rpcEndpoint ''testnet'' then ''testnet''
      else if js_includes rpcEndpoint ''127.0.0.1'' \<or> js_includes rpcEndpoint ''localhost'' then ''localnet''
      else ''localnet'')"

text \<open>What a manifest records besides the wallets: the arguments of \<open>saveWalletManifest\<close>.\<close>

record manifest_run =
  runEndpoint :: string
  runProgramId :: pubkey
  runDeployer :: pubkey
  runTokenId :: js_double
  runTokenSymbol :: string
  runTokenMint :: pubkey
  runDecimals :: int
  runVault :: pubkey
  runFeeRecipient :: pubkey
  runRunId :: string
  runReusedFrom :: "string option"

definition manifest_content :: "'g wallet_tools \<Rightarrow> manifest_run \<Rightarrow> jsv list \<Rightarrow> jsv" where
  "manifest_content tools run walletEntries =
     (let key = (\<lambda>k. VText (toolShowKey tools k)) in VObject
     [(''runId'', VText (runRunId run)),
      (''network'', VText (inferNetwork (runEndpoint run))),
      (''rpcEndpoint'', VText (runEndpoint run)),
      (''programId'', key (runProgramId run)),
      (''deployer'', key (runDeployer run)),
      (''token'', VObject
        [(''id'', VNumber (runTokenId run)), (''symbol'', VText (runTokenSymbol run)), (''mint'', key (runTokenMint run)),
         (''decimals'', VNumber (Fin (of_int (runDecimals run)))), (''vaultTokenAccount'', key (runVault run))]),
      (''feeRecipient'', key (runFeeRecipient run)),
      (''reusedFromManifest'', case runReusedFrom run of None \<Rightarrow> VNull | Some p \<Rightarrow> VText p),
      (''generatedAt'', VText (toolNow tools)),
      (''wallets'', VArray walletEntries)])"

definition saveWalletManifest ::
  "'g wallet_tools \<Rightarrow> string \<Rightarrow> manifest_run \<Rightarrow> demo_wallet list \<Rightarrow> (disk, unit) io" where
  "saveWalletManifest tools outputPath run wallets =
     bindIO (mergeExistingWalletManifestEntries (toolCollation tools) outputPath
       (map (\<lambda>w. value_of (serializeWalletForManifest (toolShowKey tools) w)) wallets)) (\<lambda>walletEntries.
     saveRunManifest (toolShowNumber tools) outputPath (manifest_content tools run walletEntries))"

definition shouldLogProgress :: "int \<Rightarrow> int \<Rightarrow> int \<Rightarrow> bool" where
  "shouldLogProgress completed total' frequency \<longleftrightarrow>
     completed = total' \<or> completed = 1 \<or> (frequency \<noteq> 0 \<and> completed mod frequency = 0)"

definition createSessionNonce :: "int \<Rightarrow> int \<Rightarrow> int" where
  "createSessionNonce now offset = now div 1000 + offset"

section \<open>Key files\<close>

definition byte_of_value :: "jsv \<Rightarrow> byte js" where
  "byte_of_value v = (case v of VNumber (Fin q) \<Rightarrow> Inr (js_octet (if q < 0 then - floor (- q) else floor q))
     | VNumber _ \<Rightarrow> Inr 0 | _ \<Rightarrow> typeError ''not a number'')"

definition bytes_of_value :: "jsv \<Rightarrow> bytes js" where
  "bytes_of_value v = (case v of VArray items \<Rightarrow> mapR byte_of_value items | _ \<Rightarrow> typeError ''not an array'')"

definition loadKeypair :: "'g wallet_tools \<Rightarrow> string \<Rightarrow> (disk, keypair) io" where
  "loadKeypair tools path =
     bindIO (readFileSync path) (\<lambda>content. liftIO (
     bindR (JSON_parse content) (\<lambda>v. bindR (bytes_of_value v) (toolFromSecretKey tools))))"

definition BLS_DEMO_KEY_DERIVATION_TAG :: bytes where
  "BLS_DEMO_KEY_DERIVATION_TAG = ascii ''ryvo-demo-bls-key-v1''"

definition deriveWalletBlsKeypair :: "'g wallet_tools \<Rightarrow> keypair \<Rightarrow> bls_keypair js" where
  "deriveWalletBlsKeypair tools wallet =
     createBlsKeypairFromSeed (toolSha256 tools) (toolCurve tools) (BLS_DEMO_KEY_DERIVATION_TAG @ secretKey wallet)"

datatype wallet_origin = Created | FromManifest

record prepared_wallet_set =
  preparedRunId :: string
  preparedWalletDir :: string
  preparedWallets :: "demo_wallet list"
  preparedSource :: wallet_origin
  preparedManifestPath :: "string option"

definition run_id :: "string \<Rightarrow> string" where
  "run_id now = map (\<lambda>c. if c = CHR '':'' \<or> c = CHR ''.'' then CHR ''-'' else c) now"

text \<open>A wallet whose participant state is not known yet.\<close>

definition fresh_wallet :: "string \<Rightarrow> keypair \<Rightarrow> string \<Rightarrow> pubkey \<Rightarrow> bls_keypair \<Rightarrow> demo_wallet" where
  "fresh_wallet name kp path token bls = \<lparr>walletName = name, walletKeypair = kp, secretPath = path,
     participantPda = default_key, walletParticipantId = - 1, tokenAccount = token,
     blsSecretScalar = secretScalar bls, blsPublicKeyOf = publicKeyCompressed bls\<rparr>"

definition wallet_file_name :: "int \<Rightarrow> string" where
  "wallet_file_name index = pad_start 2 (show_int (index + 1)) @ ''-'' @ toLowerCase (walletNameForIndex index) @ ''.json''"

definition key_file_text :: "bytes \<Rightarrow> string" where
  "key_file_text key = stringify (JsonArray (map (\<lambda>b. JsonNumber (uint b)) key))"

definition create_wallet :: "'g wallet_tools \<Rightarrow> string \<Rightarrow> nat \<Rightarrow> (disk, demo_wallet) io" where
  "create_wallet tools walletDir index =
     (let kp = toolGenerate tools index; name = walletNameForIndex (int index);
          path = path_join [walletDir, wallet_file_name (int index)] in
      bindIO (writeFileSync path (key_file_text (secretKey kp))) (\<lambda>_.
      bindIO (liftIO (deriveWalletBlsKeypair tools kp)) (\<lambda>bls.
      returnIO (fresh_wallet name kp path default_key bls))))"

definition createWalletFiles :: "'g wallet_tools \<Rightarrow> int \<Rightarrow> string \<Rightarrow> (disk, prepared_wallet_set) io" where
  "createWalletFiles tools walletCount repoRoot =
     (let runId = run_id (toolNow tools); walletDir = path_join [repoRoot, ''keys'', ''ryvo-protocol-demo'', runId] in
      bindIO (mkdirSync walletDir) (\<lambda>_.
      bindIO (mapIO (create_wallet tools walletDir) [0..<nat walletCount]) (\<lambda>wallets.
      returnIO \<lparr>preparedRunId = runId, preparedWalletDir = walletDir, preparedWallets = wallets,
        preparedSource = Created, preparedManifestPath = None\<rparr>)))"

section \<open>Loading wallets\<close>

text \<open>A name that is no string is a \<open>TypeError\<close> here; the code would carry it on until it is used.\<close>

definition loadWalletFromManifestEntry :: "'g wallet_tools \<Rightarrow> string \<Rightarrow> jsv \<Rightarrow> (disk, demo_wallet) io" where
  "loadWalletFromManifestEntry tools repoRoot entry =
     bindIO (liftIO (textField entry ''secretPath'')) (\<lambda>rawPath d.
     let path = resolveInputPath d repoRoot rawPath in
     if \<not> existsSync d path then throwIO (JsError ''Error'' (''Wallet secret file not found: '' @ path)) d else
     bindIO (loadKeypair tools path) (\<lambda>kp.
     bindIO (liftIO (field entry ''publicKey'')) (\<lambda>expected.
     if truthy expected \<and> expected \<noteq> Some (VText (toolShowKey tools (publicKey kp))) then
       throwIO (JsError ''Error'' (''Manifest public key mismatch for '' @
         template_text (toolShowNumber tools) (member_of entry ''name'') @ '': expected '' @
         template_text (toolShowNumber tools) expected @ '', found '' @ toolShowKey tools (publicKey kp)))
     else
     bindIO (liftIO (deriveWalletBlsKeypair tools kp)) (\<lambda>bls.
     bindIO (liftIO (field entry ''tokenAccount'')) (\<lambda>token.
     bindIO (liftIO (if truthy token then bindR (textField entry ''tokenAccount'') (toolParseKey tools) else Inr default_key)) (\<lambda>account.
     bindIO (liftIO (textField entry ''name'')) (\<lambda>name.
     returnIO (fresh_wallet name kp path account bls))))))) d)"

definition candidate_entry :: "string \<Rightarrow> string \<Rightarrow> jsv" where
  "candidate_entry key path =
     VObject [(''name'', VText (walletNameFromSecretPath path)), (''publicKey'', VText key), (''secretPath'', VText path)]"

fun recover_loop ::
  "'g wallet_tools \<Rightarrow> int \<Rightarrow> string list \<Rightarrow> string list \<Rightarrow> jsv list \<Rightarrow> (disk, jsv list) io" where
  "recover_loop tools walletCount [] known expanded = returnIO expanded"
| "recover_loop tools walletCount (path # paths) known expanded =
     (if walletCount \<le> int (length expanded) then returnIO expanded
      else if path \<in> set known then recover_loop tools walletCount paths known expanded
      else bindIO (loadKeypair tools path) (\<lambda>kp.
        recover_loop tools walletCount paths (known @ [path])
          (expanded @ [candidate_entry (toolShowKey tools (publicKey kp)) path])))"

definition candidate_paths :: "'g wallet_tools \<Rightarrow> string \<Rightarrow> disk \<Rightarrow> string list js" where
  "candidate_paths tools walletDir d =
     (if \<not> isDir d walletDir then throwError (''ENOTDIR: not a directory, scandir '' @ walletDir) else
      js_sort (\<lambda>left right. compareManifestWallets (toolCollation tools) (candidate_entry '''' left) (candidate_entry '''' right))
        (map (\<lambda>fileName. path_join [walletDir, fileName]) (filter (suffix ''.json'') (readdirSync d walletDir))))"

definition expandManifestWalletsFromDirectory ::
  "'g wallet_tools \<Rightarrow> jsv list \<Rightarrow> int \<Rightarrow> string \<Rightarrow> (disk, jsv list) io" where
  "expandManifestWalletsFromDirectory tools manifestWallets walletCount repoRoot d =
     (if walletCount \<le> int (length manifestWallets) \<or> manifestWallets = [] then returnIO manifestWallets d else
      bindIO (liftIO (textField (hd manifestWallets) ''secretPath'')) (\<lambda>firstPath d.
      let walletDir = path_dirname (resolveInputPath d repoRoot firstPath) in
      if \<not> existsSync d walletDir then returnIO manifestWallets d else
      bindIO (liftIO (mapR (\<lambda>entry. textField entry ''secretPath'') manifestWallets)) (\<lambda>paths.
      bindIO (liftIO (candidate_paths tools walletDir d)) (\<lambda>candidates.
      bindIO (recover_loop tools walletCount candidates (map (resolveInputPath d repoRoot) paths) manifestWallets) (\<lambda>expanded.
      liftIO (js_sort (compareManifestWallets (toolCollation tools)) expanded)))) d) d)"

definition loadWalletsFromManifest ::
  "'g wallet_tools \<Rightarrow> string \<Rightarrow> int \<Rightarrow> string \<Rightarrow> (disk, prepared_wallet_set) io" where
  "loadWalletsFromManifest tools manifestPath walletCount repoRoot d =
     (let resolvedManifestPath = resolveInputPath d repoRoot manifestPath in
      bindIO (readFileSync resolvedManifestPath) (\<lambda>content.
      bindIO (liftIO (JSON_parse content)) (\<lambda>manifest.
      bindIO (liftIO (field manifest ''wallets'')) (\<lambda>listed.
      bindIO (expandManifestWalletsFromDirectory tools
        (case listed of Some (VArray items) \<Rightarrow> items | _ \<Rightarrow> []) walletCount repoRoot) (\<lambda>manifestWallets.
      if int (length manifestWallets) < walletCount then
        throwIO (JsError ''Error'' (''Manifest '' @ resolvedManifestPath @ '' only contains '' @
          show_int (case listed of Some (VArray items) \<Rightarrow> int (length items) | Some (VText s) \<Rightarrow> int (length s) | _ \<Rightarrow> 0) @
          '' wallets and only '' @ show_int (int (length manifestWallets)) @
          '' could be recovered from the wallet directory, but '' @ show_int walletCount @ '' are required''))
      else
      bindIO (mapIO (loadWalletFromManifestEntry tools repoRoot) (take (nat walletCount) manifestWallets)) (\<lambda>wallets.
      if wallets = [] then liftIO (typeError ''Cannot read properties of undefined (reading secretPath)'') else
      returnIO \<lparr>preparedRunId = run_id (toolNow tools), preparedWalletDir = path_dirname (secretPath (hd wallets)),
        preparedWallets = wallets, preparedSource = FromManifest, preparedManifestPath = Some resolvedManifestPath\<rparr>))))) d)"

definition resolveDefaultWalletManifestPath :: "disk \<Rightarrow> string \<Rightarrow> string \<Rightarrow> string" where
  "resolveDefaultWalletManifestPath d repoRoot walletManifestPath = resolveInputPath d repoRoot walletManifestPath"

definition prepareDemoWallets :: "'g wallet_tools \<Rightarrow> cli_settings \<Rightarrow> string \<Rightarrow> (disk, prepared_wallet_set) io" where
  "prepareDemoWallets tools options repoRoot d =
     (let load = (\<lambda>path. loadWalletsFromManifest tools path (optWalletCount options) repoRoot d);
          default = (let defaultManifestPath = resolveDefaultWalletManifestPath d repoRoot (optWalletManifestPath options) in
            if existsSync d defaultManifestPath then load defaultManifestPath
            else createWalletFiles tools (optWalletCount options) repoRoot d) in
      case optReuseManifestPath options of Some path \<Rightarrow> if path \<noteq> '''' then load path else default | None \<Rightarrow> default)"

definition selectActiveWallets :: "demo_wallet list \<Rightarrow> string list option \<Rightarrow> demo_wallet list js" where
  "selectActiveWallets wallets activeWalletNames =
     (case activeWalletNames of None \<Rightarrow> Inr wallets | Some names \<Rightarrow>
        if names = [] then Inr wallets else
        bindR (mapR (\<lambda>name. case find (\<lambda>w. walletName w = name) (rev wallets) of
            None \<Rightarrow> throwError (''Active wallet '' @ [CHR 0x27] @ name @ [CHR 0x27] @ '' was not found in the loaded manifest'')
          | Some w \<Rightarrow> Inr w) names) (\<lambda>selected.
        if length selected < 6 then
          throwError (''At least 6 active wallets are required, but only '' @ show_int (int (length selected)) @ '' were configured'')
        else Inr selected))"

section \<open>Files that were written\<close>

lemma read_iff: "readFileSync p d = Some (Inr content, d') \<longleftrightarrow> d' = d \<and> map_of (diskFiles d) (fs_key d p) = Some content"
  by (auto simp: readFileSync_def throwError_def split: option.splits if_splits)

lemma print_value_of: "print_value showNumber n (value_of j) = render indent '': '' n j"
proof (induction j arbitrary: n rule: value_of.induct)
  case (3 m)
  then show ?case by (simp add: number_text_def isFinite_def)
next
  case (5 items)
  have "map (\<lambda>j. indent (n + 2) @ print_value showNumber (n + 2) (value_of j)) items =
    map (\<lambda>j. indent (n + 2) @ render indent '': '' (n + 2) j) items"
    by (rule map_cong [OF refl]) (use 5 in simp)
  then show ?case by (simp only: value_of.simps print_value.simps render.simps list.map_comp comp_def map_is_Nil_conv)
next
  case (6 members)
  have printed: "map (\<lambda>(name, j). indent (n + 2) @ json_string name @ '': '' @ print_value showNumber (n + 2) (value_of j)) (present members) =
    map (\<lambda>(name, j). indent (n + 2) @ json_string name @ '': '' @ render indent '': '' (n + 2) j) (present members)"
  proof (rule map_cong [OF refl])
    fix m assume "m \<in> set (present members)"
    then obtain name j where m: "m = (name, j)" "(name, Some j) \<in> set members" by (auto simp only: set_present)
    have "print_value showNumber (n + 2) (value_of j) = render indent '': '' (n + 2) j"
      by (rule 6 [OF m(2) refl refl])
    then show "(case m of (name, j) \<Rightarrow> indent (n + 2) @ json_string name @ '': '' @ print_value showNumber (n + 2) (value_of j)) =
      (case m of (name, j) \<Rightarrow> indent (n + 2) @ json_string name @ '': '' @ render indent '': '' (n + 2) j)"
      by (simp add: m)
  qed
  have again: "map (\<lambda>(name, v). indent (n + 2) @ json_string name @ '': '' @ print_value showNumber (n + 2) v)
      (map (\<lambda>(name, j). (name, value_of j)) (present members)) =
    map (\<lambda>(name, j). indent (n + 2) @ json_string name @ '': '' @ print_value showNumber (n + 2) (value_of j)) (present members)"
    by (simp add: case_prod_unfold comp_def)
  show ?case unfolding value_of_object render_object print_value.simps again printed Let_def map_is_Nil_conv by (rule refl)
qed (simp_all add: isFinite_def)

lemma manifest_read:
  assumes "readable j"
  shows "JSON_parse (print_value showNumber 0 (value_of j) @ [CHR 0x0A]) = Inr (value_of j)"
  using pretty_read [OF assms] by (simp add: print_value_of pretty_def)

lemma byte_read: "byte_of_value (VNumber (Fin (of_int m))) = Inr (js_octet m)"
proof -
  have "- floor (- (of_int m :: rat)) = m" by (simp flip: of_int_minus)
  then show ?thesis by (simp add: byte_of_value_def)
qed

lemma bytes_read: "mapR byte_of_value (map value_of (map (\<lambda>b. JsonNumber (uint b)) key)) = Inr key"
proof (induction key)
  case (Cons b key)
  have "byte_of_value (value_of (JsonNumber (uint b))) = Inr b"
    unfolding value_of.simps byte_read by (simp add: js_octet_def)
  then show ?case using Cons by (simp del: value_of.simps)
qed simp

lemma key_file_read:
  "bindR (JSON_parse (key_file_text key)) bytes_of_value = Inr key"
proof -
  have small: "\<bar>uint b\<bar> < 2 ^ 53" for b :: byte using uint_lt2p [of b] by simp
  then have "JSON_parse (key_file_text key) = Inr (value_of (JsonArray (map (\<lambda>b. JsonNumber (uint b)) key)))"
    unfolding key_file_text_def by (intro stringify_read) simp
  then show ?thesis by (simp only: bindR_Inr value_of.simps(5) bytes_of_value_def jsv.case bytes_read)
qed

lemma key_loaded:
  assumes "readFileSync path d = Some (Inr (key_file_text (secretKey kp)), d)" "toolFromSecretKey tools (secretKey kp) = Inr kp"
  shows "loadKeypair tools path d = Some (Inr kp, d)"
proof -
  have "bindR (JSON_parse (key_file_text (secretKey kp))) (\<lambda>v. bindR (bytes_of_value v) (toolFromSecretKey tools)) = Inr kp"
    using key_file_read [of "secretKey kp"] assms(2) by (simp flip: bindR_assoc)
  then show ?thesis using assms(1) by (simp add: loadKeypair_def)
qed

lemma saved_manifest:
  assumes "saveRunManifest showNumber path content d = Some (Inr u, d')"
  shows "diskCwd d' = diskCwd d \<and> existsSync d' path
    \<and> diskFiles d' = AList.update (fs_key d path) (print_value showNumber 0 content @ [CHR 0x0A]) (diskFiles d)"
  using assms
  by (auto simp: saveRunManifest_def mkdirSync_def writeFileSync_def bindIO_eq_Inr Let_def fs_key_def existsSync_def
      isFile_def update_conv' split: if_splits)

section \<open>A saved manifest is loaded again\<close>

text \<open>A wallet whose key file is on the disk, and the wallet as a later run knows it.\<close>

definition stored_wallet :: "'g wallet_tools \<Rightarrow> disk \<Rightarrow> demo_wallet \<Rightarrow> bool" where
  "stored_wallet tools d w \<longleftrightarrow> maybeTranslateWslPath (secretPath w) = secretPath w
    \<and> readFileSync (secretPath w) d = Some (Inr (key_file_text (secretKey (walletKeypair w))), d)
    \<and> toolFromSecretKey tools (secretKey (walletKeypair w)) = Inr (walletKeypair w)
    \<and> deriveWalletBlsKeypair tools (walletKeypair w) =
        Inr \<lparr>secretScalar = blsSecretScalar w, publicKeyCompressed = blsPublicKeyOf w\<rparr>
    \<and> \<bar>walletParticipantId w\<bar> < 2 ^ 53"

definition without_participant :: "demo_wallet \<Rightarrow> demo_wallet" where
  "without_participant w = w\<lparr>participantPda := default_key, walletParticipantId := - 1\<rparr>"

text \<open>The base58 text of a key is not empty and is read back.\<close>

definition keys_readable :: "'g wallet_tools \<Rightarrow> bool" where
  "keys_readable tools \<longleftrightarrow> (\<forall>k. toolShowKey tools k \<noteq> '''' \<and> toolParseKey tools (toolShowKey tools k) = Inr k)"

definition wallet_value :: "'g wallet_tools \<Rightarrow> demo_wallet \<Rightarrow> jsv" where
  "wallet_value tools w = value_of (serializeWalletForManifest (toolShowKey tools) w)"

lemma wallet_fields:
  "field (wallet_value tools w) ''name'' = Inr (Some (VText (walletName w)))"
  "field (wallet_value tools w) ''publicKey'' = Inr (Some (VText (toolShowKey tools (publicKey (walletKeypair w)))))"
  "field (wallet_value tools w) ''secretPath'' = Inr (Some (VText (secretPath w)))"
  "field (wallet_value tools w) ''tokenAccount'' =
     Inr (if tokenAccount w = default_key then None else Some (VText (toolShowKey tools (tokenAccount w))))"
  by (auto simp: wallet_value_def serializeWalletForManifest_def field_def member_of_def)

lemma existing_resolved:
  "existsSync d p \<Longrightarrow> maybeTranslateWslPath p = p \<Longrightarrow> resolveInputPath d repoRoot p = p"
  by (simp add: resolveInputPath_def)

lemma read_exists: "readFileSync p d = Some (Inr content, d) \<Longrightarrow> existsSync d p"
  by (simp add: read_iff existsSync_def isFile_def)

lemma wallet_loaded:
  assumes stored: "stored_wallet tools d w" and keys: "keys_readable tools"
  shows "loadWalletFromManifestEntry tools repoRoot (wallet_value tools w) d = Some (Inr (without_participant w), d)"
proof -
  have there: "existsSync d (secretPath w)" using stored read_exists unfolding stored_wallet_def by blast
  then have path: "resolveInputPath d repoRoot (secretPath w) = secretPath w"
    using stored by (intro existing_resolved) (auto simp: stored_wallet_def)
  have loaded: "loadKeypair tools (secretPath w) d = Some (Inr (walletKeypair w), d)"
    using stored by (intro key_loaded) (auto simp: stored_wallet_def)
  have bls: "deriveWalletBlsKeypair tools (walletKeypair w) =
      Inr \<lparr>secretScalar = blsSecretScalar w, publicKeyCompressed = blsPublicKeyOf w\<rparr>"
    using stored by (simp add: stored_wallet_def)
  show ?thesis
    using keys by (simp add: loadWalletFromManifestEntry_def fresh_wallet_def without_participant_def textField_def wallet_fields path there loaded bls truthy_def
        keys_readable_def)
qed

lemma mapIO_map: "mapIO f (map g xs) = mapIO (\<lambda>x. f (g x)) xs"
  by (induction xs) simp_all

lemma mapIO_pure:
  "(\<And>x. x \<in> set xs \<Longrightarrow> f x w = Some (Inr (g x), w)) \<Longrightarrow> mapIO f xs w = Some (Inr (map g xs), w)"
  by (induction xs) auto

definition manifest_json :: "'g wallet_tools \<Rightarrow> manifest_run \<Rightarrow> int \<Rightarrow> demo_wallet list \<Rightarrow> json" where
  "manifest_json tools run tokenNumber wallets = JsonObject
     (let key = (\<lambda>k. Some (JsonText (toolShowKey tools k))) in
     [(''runId'', Some (JsonText (runRunId run))),
      (''network'', Some (JsonText (inferNetwork (runEndpoint run)))),
      (''rpcEndpoint'', Some (JsonText (runEndpoint run))),
      (''programId'', key (runProgramId run)),
      (''deployer'', key (runDeployer run)),
      (''token'', Some (JsonObject
        [(''id'', Some (JsonNumber tokenNumber)), (''symbol'', Some (JsonText (runTokenSymbol run))), (''mint'', key (runTokenMint run)),
         (''decimals'', Some (JsonNumber (runDecimals run))), (''vaultTokenAccount'', key (runVault run))])),
      (''feeRecipient'', key (runFeeRecipient run)),
      (''reusedFromManifest'', Some (case runReusedFrom run of None \<Rightarrow> JsonNull | Some p \<Rightarrow> JsonText p)),
      (''generatedAt'', Some (JsonText (toolNow tools))),
      (''wallets'', Some (JsonArray (map (serializeWalletForManifest (toolShowKey tools)) wallets)))])"

lemma manifest_value:
  "runTokenId run = Fin (of_int tokenNumber) \<Longrightarrow>
     manifest_content tools run (map (wallet_value tools) wallets) = value_of (manifest_json tools run tokenNumber wallets)"
  by (simp add: manifest_content_def manifest_json_def wallet_value_def Let_def split: option.split)

lemma manifest_readable:
  assumes "\<bar>tokenNumber\<bar> < 2 ^ 53" "\<bar>runDecimals run\<bar> < 2 ^ 53" "\<forall>w \<in> set wallets. \<bar>walletParticipantId w\<bar> < 2 ^ 53"
  shows "readable (manifest_json tools run tokenNumber wallets)"
proof -
  have "readable (serializeWalletForManifest (toolShowKey tools) w)" if "w \<in> set wallets" for w
    using assms(3) that by (auto simp: serializeWalletForManifest_def)
  then show ?thesis using assms(1,2) by (auto simp: manifest_json_def Let_def split: option.split)
qed

lemma manifest_wallets:
  "field (manifest_content tools run entries) ''wallets'' = Inr (Some (VArray entries))"
  by (simp add: manifest_content_def Let_def field_def member_of_def)

lemma manifest_reads:
  assumes "runTokenId run = Fin (of_int tokenNumber)" "\<bar>tokenNumber\<bar> < 2 ^ 53" "\<bar>runDecimals run\<bar> < 2 ^ 53"
    and "\<forall>w \<in> set wallets. stored_wallet tools d w"
  shows "JSON_parse (print_value showNumber 0 (manifest_content tools run (map (wallet_value tools) wallets)) @ [CHR 0x0A]) =
    Inr (manifest_content tools run (map (wallet_value tools) wallets))"
proof -
  have "readable (manifest_json tools run tokenNumber wallets)"
    by (rule manifest_readable) (use assms in \<open>auto simp: stored_wallet_def\<close>)
  then show ?thesis unfolding manifest_value [OF assms(1)] by (rule manifest_read)
qed

lemma manifest_saved:
  assumes "saveWalletManifest tools outputPath run wallets d = Some (Inr (), d')" "\<not> existsSync d outputPath"
  shows "diskCwd d' = diskCwd d \<and> existsSync d' outputPath \<and> diskFiles d' = AList.update (fs_key d outputPath)
    (print_value (toolShowNumber tools) 0 (manifest_content tools run (map (wallet_value tools) wallets)) @ [CHR 0x0A]) (diskFiles d)"
proof -
  have "mergeExistingWalletManifestEntries (toolCollation tools) outputPath (map (wallet_value tools) wallets) d =
      Some (Inr (map (wallet_value tools) wallets), d)"
    using assms(2) by (simp add: mergeExistingWalletManifestEntries_def)
  then have "saveRunManifest (toolShowNumber tools) outputPath (manifest_content tools run (map (wallet_value tools) wallets)) d =
      Some (Inr (), d')"
    using assms(1) by (simp add: saveWalletManifest_def flip: wallet_value_def)
  then show ?thesis by (rule saved_manifest)
qed

lemma stored_after_save:
  assumes "stored_wallet tools d w" "\<not> existsSync d outputPath"
    and "diskCwd d' = diskCwd d" "diskFiles d' = AList.update (fs_key d outputPath) content (diskFiles d)"
  shows "stored_wallet tools d' w"
proof -
  have "fs_key d (secretPath w) \<noteq> fs_key d outputPath"
    using assms(1,2) by (auto simp: stored_wallet_def read_iff existsSync_def isFile_def)
  moreover have "fs_key d' (secretPath w) = fs_key d (secretPath w)" by (simp add: fs_key_def assms(3))
  ultimately show ?thesis using assms(1,4) by (simp add: stored_wallet_def read_iff update_conv')
qed

text \<open>
  C26: Wallets that one run saves in a new manifest come back in a later run: loading the first \<open>walletCount\<close> of
  them returns the same names, key pairs, token accounts, key paths and BLS keys, with the participant left to
  be looked up, and changes nothing on the disk.
\<close>

theorem manifest_reloads:
  assumes saved: "saveWalletManifest tools outputPath run wallets d = Some (Inr (), d')" "\<not> existsSync d outputPath"
    and wallets: "\<forall>w \<in> set wallets. stored_wallet tools d w" "1 \<le> walletCount" "walletCount \<le> int (length wallets)"
    and run: "runTokenId run = Fin (of_int tokenNumber)" "\<bar>tokenNumber\<bar> < 2 ^ 53" "\<bar>runDecimals run\<bar> < 2 ^ 53"
    and tools: "keys_readable tools" "maybeTranslateWslPath outputPath = outputPath"
  shows "loadWalletsFromManifest tools outputPath walletCount repoRoot d' = Some (Inr
    \<lparr>preparedRunId = run_id (toolNow tools), preparedWalletDir = path_dirname (secretPath (hd wallets)),
     preparedWallets = map without_participant (take (nat walletCount) wallets), preparedSource = FromManifest,
     preparedManifestPath = Some outputPath\<rparr>, d')"
proof -
  let ?content = "manifest_content tools run (map (wallet_value tools) wallets)"
  have disk: "diskCwd d' = diskCwd d" "existsSync d' outputPath"
    "diskFiles d' = AList.update (fs_key d outputPath) (print_value (toolShowNumber tools) 0 ?content @ [CHR 0x0A]) (diskFiles d)"
    using manifest_saved [OF saved] by auto
  have written: "readFileSync outputPath d' = Some (Inr (print_value (toolShowNumber tools) 0 ?content @ [CHR 0x0A]), d')"
    using disk by (simp add: read_iff update_conv' fs_key_def)
  have stored: "stored_wallet tools d' w" if "w \<in> set wallets" for w
    by (rule stored_after_save [OF bspec [OF wallets(1) that] saved(2) disk(1,3)])
  have each: "loadWalletFromManifestEntry tools repoRoot (wallet_value tools w) d' = Some (Inr (without_participant w), d')"
    if "w \<in> set (take (nat walletCount) wallets)" for w
    by (rule wallet_loaded [OF stored [OF in_set_takeD [OF that]] tools(1)])
  have load: "mapIO (loadWalletFromManifestEntry tools repoRoot) (map (wallet_value tools) (take (nat walletCount) wallets)) d' =
      Some (Inr (map without_participant (take (nat walletCount) wallets)), d')"
    unfolding mapIO_map by (rule mapIO_pure, rule each)
  have some: "take (nat walletCount) wallets \<noteq> []" "hd (take (nat walletCount) wallets) = hd wallets" using wallets by auto
  then have first: "secretPath (hd (map without_participant (take (nat walletCount) wallets))) = secretPath (hd wallets)"
    by (simp add: hd_map without_participant_def)
  have kept: "expandManifestWalletsFromDirectory tools (map (wallet_value tools) wallets) walletCount repoRoot =
      returnIO (map (wallet_value tools) wallets)"
    using wallets(3) by (intro ext) (simp add: expandManifestWalletsFromDirectory_def)
  have enough: "\<not> int (length (map (wallet_value tools) wallets)) < walletCount" using wallets(3) by simp
  show ?thesis
    unfolding loadWalletsFromManifest_def Let_def existing_resolved [OF disk(2) tools(2)] bindIO_ok [where m = "readFileSync outputPath", OF written]
      manifest_reads [OF run wallets(1)] liftIO_Inr bindIO_returnIO manifest_wallets option.case jsv.case kept
      if_not_P [OF enough] take_map
      bindIO_ok [where m = "mapIO (loadWalletFromManifestEntry tools repoRoot) entries" for entries, OF load]
    using some(1) by (simp add: first)
qed

section \<open>Created wallets\<close>

text \<open>The last segment of a path.\<close>

definition last_part :: "string \<Rightarrow> string" where
  "last_part s = rev (takeWhile ((\<noteq>) (CHR ''/'')) (rev s))"

definition plain_name :: "string \<Rightarrow> bool" where
  "plain_name f \<longleftrightarrow> CHR ''/'' \<notin> set f \<and> f \<noteq> '''' \<and> f \<noteq> ''.'' \<and> f \<noteq> ''..''"

lemma last_part_simps [simp]:
  "CHR ''/'' \<notin> set f \<Longrightarrow> last_part f = f"
  "CHR ''/'' \<notin> set f \<Longrightarrow> last_part (x @ CHR ''/'' # f) = f"
  "CHR ''/'' \<notin> set f \<Longrightarrow> last_part (CHR ''/'' # f) = f"
proof -
  assume f: "CHR ''/'' \<notin> set f"
  have until: "takeWhile ((\<noteq>) (CHR ''/'')) (rev f @ CHR ''/'' # t) = rev f" for t
    using f by (subst takeWhile_append2) auto
  have "takeWhile ((\<noteq>) (CHR ''/'')) (rev f) = rev f" using f by (auto simp: takeWhile_eq_all_conv)
  then show "last_part f = f" by (simp add: last_part_def del: takeWhile_eq_all_conv)
  from until [of "rev x"] until [of "[]"]
  show "last_part (x @ CHR ''/'' # f) = f" "last_part (CHR ''/'' # f) = f" by (simp_all add: last_part_def)
qed

lemma split_on_some: "split_on d s \<noteq> []"
  by (induction s) (auto split: list.split)

lemma split_on_append: "split_on d (a @ d # b) = split_on d a @ split_on d b"
  by (induction a) (use split_on_some in \<open>auto split: list.split\<close>)

lemma segments_last:
  assumes "plain_name f"
  shows "\<exists>T. segments (a @ CHR ''/'' # f) = T @ [f]"
proof -
  have "split_on (CHR ''/'') f = [f]" using assms by (simp add: plain_name_def no_slash_split)
  then have "segments (a @ CHR ''/'' # f) = foldl (add_segment (isAbsolute (a @ CHR ''/'' # f))) [] (split_on (CHR ''/'') a) @ [f]"
    using assms by (simp add: segments_def split_on_append add_segment_def plain_name_def)
  then show ?thesis by blast
qed

lemma joined_snoc: "joined c (T @ [f]) = (if T = [] then f else joined c T @ c # f)"
proof (induction T)
  case (Cons x T)
  then show ?case by (cases T) simp_all
qed simp

lemma path_text_last:
  assumes "plain_name f"
  obtains "path_text absolute (T @ [f]) = f" "\<not> absolute" "T = []"
  | x where "path_text absolute (T @ [f]) = x @ CHR ''/'' # f"
proof (cases "T = []")
  case True
  then show ?thesis using that(1) that(2) [of "[]"] by (cases absolute) (simp_all add: path_text_def)
next
  case False
  then show ?thesis using that(2) [of "(if absolute then ''/'' else '''') @ joined (CHR ''/'') T"]
    by (simp add: path_text_def joined_snoc)
qed

lemma path_join_last:
  assumes "plain_name f" "dir \<noteq> ''''"
  obtains T where "path_join [dir, f] = path_text (isAbsolute (dir @ CHR ''/'' # f)) (T @ [f])"
proof -
  let ?p = "dir @ CHR ''/'' # f"
  obtain T where T: "segments ?p = T @ [f]" using segments_last [OF assms(1)] by blast
  have "last f \<noteq> CHR ''/''" using assms(1) last_in_set [of f] unfolding plain_name_def by metis
  then have "\<not> suffix ''/'' ?p"
    using assms(1) by (auto simp: plain_name_def suffix_def append_eq_Cons_conv append_eq_append_conv2 dest!: arg_cong [where f = last])
  moreover have "path_text (isAbsolute ?p) (T @ [f]) \<noteq> ''''"
    using assms(1) by (auto simp: path_text_def joined_snoc plain_name_def)
  moreover have "path_join [dir, f] = path_normalize ?p" using assms by (simp add: path_join_def plain_name_def)
  ultimately have "path_join [dir, f] = path_text (isAbsolute ?p) (T @ [f])"
    by (simp add: path_normalize_def T Let_def)
  then show ?thesis by (rule that)
qed

lemma path_join_name:
  assumes "plain_name f" "dir \<noteq> ''''"
  shows "path_basename (path_join [dir, f]) = f" "last_part (fs_key d (path_join [dir, f])) = f"
proof -
  have f: "CHR ''/'' \<notin> set f" "f \<noteq> []" using assms(1) by (simp_all add: plain_name_def)
  obtain T where T: "path_join [dir, f] = path_text (isAbsolute (dir @ CHR ''/'' # f)) (T @ [f])"
    using path_join_last [OF assms] by blast
  have "dropWhile ((=) (CHR ''/'')) (rev f @ t) = rev f @ t" for t
    using f by (cases "rev f") (auto simp: dest: arg_cong [where f = set])
  then have bare: "drop_slashes f = f" "drop_slashes (x @ CHR ''/'' # f) = x @ CHR ''/'' # f" for x
    using \<open>\<And>t. dropWhile _ (rev f @ t) = _\<close> [of "[]"] by (simp_all add: drop_slashes_def)
  have key: "last_part (path_text True (segments (x @ CHR ''/'' # f))) = f" for x
  proof -
    obtain S where S: "segments (x @ CHR ''/'' # f) = S @ [f]" using segments_last [OF assms(1)] by blast
    show ?thesis unfolding S by (rule path_text_last [OF assms(1), of True S]) (use f in simp_all)
  qed
  have base: "path_basename p = last_part (drop_slashes p)" for p by (simp add: path_basename_def last_part_def)
  show "path_basename (path_join [dir, f]) = f"
    unfolding T base
    by (rule path_text_last [OF assms(1), of "isAbsolute (dir @ CHR ''/'' # f)" T]) (use f bare in simp_all)
  show "last_part (fs_key d (path_join [dir, f])) = f"
    unfolding T
  proof (rule path_text_last [OF assms(1), of "isAbsolute (dir @ CHR ''/'' # f)" T])
    assume "path_text (isAbsolute (dir @ CHR ''/'' # f)) (T @ [f]) = f"
    moreover have "\<not> isAbsolute f" using f by (auto simp: isAbsolute_def prefix_def)
    ultimately show "last_part (fs_key d (path_text (isAbsolute (dir @ CHR ''/'' # f)) (T @ [f]))) = f"
      using key [of "diskCwd d"] by (simp add: fs_key_def)
  next
    fix x assume "path_text (isAbsolute (dir @ CHR ''/'' # f)) (T @ [f]) = x @ CHR ''/'' # f"
    then show "last_part (fs_key d (path_text (isAbsolute (dir @ CHR ''/'' # f)) (T @ [f]))) = f"
      using key [of x] key [of "diskCwd d @ ''/'' @ x"] by (simp add: fs_key_def)
  qed
qed

lemma wallet_file_plain:
  assumes "0 \<le> i"
  shows "plain_name (wallet_file_name i)"
    and "leading_number (wallet_file_name i) = Some (pad_start 2 (show_int (i + 1)), toLowerCase (walletNameForIndex i) @ ''.json'')"
    and "read_digits (pad_start 2 (show_int (i + 1))) = nat (i + 1)"
proof -
  have number: "show_int (i + 1) = show_nat (nat (i + 1))" using assms by (simp add: show_int_abs)
  have padded: "\<forall>c \<in> set (pad_start 2 (show_int (i + 1))). is_digit c" "pad_start 2 (show_int (i + 1)) \<noteq> []"
    using show_nat_digits unfolding number pad_start_def by (auto simp: is_digit_def)
  have dash: "\<not> is_digit (CHR ''-'')" by (simp add: is_digit_def)
  show "leading_number (wallet_file_name i) = Some (pad_start 2 (show_int (i + 1)), toLowerCase (walletNameForIndex i) @ ''.json'')"
    using padded dash by (simp add: leading_number_def wallet_file_name_def Let_def takeWhile_append2 dropWhile_append2)
  show "read_digits (pad_start 2 (show_int (i + 1))) = nat (i + 1)"
    unfolding number pad_start_def by (simp add: read_digits_zeros)
  have digit: "is_digit c \<Longrightarrow> c \<noteq> CHR ''/''" for c by (auto simp: is_digit_def)
  have named: "CHR ''/'' \<notin> set (toLowerCase (walletNameForIndex i))"
  proof -
    have lower: "lower_char c = CHR ''/'' \<Longrightarrow> c = CHR ''/''" for c
      by (auto simp: lower_char_def Let_def split: if_splits dest: arg_cong [where f = "of_char :: char \<Rightarrow> nat"])
    have "CHR ''/'' \<notin> set (walletNameForIndex i)"
    proof (cases "i < int (length DEMO_WALLET_BASE_NAMES)")
      case True
      then have "walletNameForIndex i \<in> set DEMO_WALLET_BASE_NAMES" using assms by (auto simp: walletNameForIndex_def)
      then show ?thesis by (auto simp: DEMO_WALLET_BASE_NAMES_def)
    next
      case False
      then show ?thesis using show_nat_digits digit by (auto simp: walletNameForIndex_def number)
    qed
    then show ?thesis using lower by (force simp: toLowerCase_def)
  qed
  have "length (wallet_file_name i) > 2" by (simp add: wallet_file_name_def)
  then have "wallet_file_name i \<notin> {'''', ''.'', ''..''}" by auto
  then show "plain_name (wallet_file_name i)"
    using padded(1) digit named by (auto simp: plain_name_def wallet_file_name_def)
qed

lemma wallet_file_inject:
  assumes "0 \<le> i" "0 \<le> j" "wallet_file_name i = wallet_file_name j"
  shows "i = j"
proof -
  have "pad_start 2 (show_int (i + 1)) = pad_start 2 (show_int (j + 1))"
    using wallet_file_plain(2) [OF assms(1)] wallet_file_plain(2) [OF assms(2)] assms(3) by simp
  then have "nat (i + 1) = nat (j + 1)" using wallet_file_plain(3) assms(1,2) by metis
  then show ?thesis using assms(1,2) by simp
qed

lemma created_index:
  assumes "0 \<le> i" "i < 2 ^ 52" "dir \<noteq> ''''"
  shows "walletIndexFromSecretPath (path_join [dir, wallet_file_name i]) = Some i"
proof -
  have base: "path_basename (path_join [dir, wallet_file_name i]) = wallet_file_name i"
    by (rule path_join_name [OF wallet_file_plain(1) [OF assms(1)] assms(3)])
  have "(of_nat (nat (i + 1)) :: rat) = of_int (i + 1)" using assms(1) by simp
  then have number: "to_number (of_nat (nat (i + 1))) = Fin (of_int (i + 1))"
    using to_number_of_int [of "i + 1"] assms by simp
  have "(of_int (i + 1) - 1 :: rat) = of_int i" by simp
  then have "round_f64 (of_int (i + 1) - 1) = of_int i" using round_f64_of_int [of i] assms by simp
  then show ?thesis
    unfolding walletIndexFromSecretPath_def base wallet_file_plain(2) [OF assms(1)] option.case prod.case
      wallet_file_plain(3) [OF assms(1)] number Let_def
    using assms by (simp add: isInteger_def rational_of_def)
qed

lemma created_name:
  assumes "0 \<le> i" "i < 2 ^ 52" "dir \<noteq> ''''"
  shows "walletNameFromSecretPath (path_join [dir, wallet_file_name i]) = walletNameForIndex i"
  by (simp add: walletNameFromSecretPath_def created_index [OF assms])

lemma path_join_nonempty: "path_join parts \<noteq> ''''"
  by (simp add: path_join_def path_normalize_def Let_def)

lemma write_effect:
  "writeFileSync p content d = Some (Inr u, d') \<Longrightarrow>
     diskCwd d' = diskCwd d \<and> diskFiles d' = AList.update (fs_key d p) content (diskFiles d)"
  by (auto simp: writeFileSync_def split: if_splits)

text \<open>What creating one wallet, and then several, leaves on the disk.\<close>

definition wallet_path :: "string \<Rightarrow> nat \<Rightarrow> string" where
  "wallet_path dir i = path_join [dir, wallet_file_name (int i)]"

definition created_as :: "'g wallet_tools \<Rightarrow> string \<Rightarrow> disk \<Rightarrow> nat \<Rightarrow> demo_wallet \<Rightarrow> bool" where
  "created_as tools dir d i w \<longleftrightarrow> walletName w = walletNameForIndex (int i) \<and> walletKeypair w = toolGenerate tools i
    \<and> secretPath w = wallet_path dir i
    \<and> map_of (diskFiles d) (fs_key d (wallet_path dir i)) = Some (key_file_text (secretKey (toolGenerate tools i)))"

lemma wallet_created:
  assumes "create_wallet tools dir i d = Some (Inr w, d')"
  shows "created_as tools dir d' i w \<and> diskCwd d' = diskCwd d
    \<and> diskFiles d' = AList.update (fs_key d (wallet_path dir i)) (key_file_text (secretKey (toolGenerate tools i))) (diskFiles d)"
proof -
  obtain u bls where "writeFileSync (wallet_path dir i) (key_file_text (secretKey (toolGenerate tools i))) d = Some (Inr u, d')"
    and w: "w = fresh_wallet (walletNameForIndex (int i)) (toolGenerate tools i) (wallet_path dir i) default_key bls"
    using assms unfolding create_wallet_def Let_def wallet_path_def [symmetric]
    by (elim bindIO_InrE) (simp only: returnIO_apply option.inject prod.inject sum.inject liftIO_apply, elim conjE, blast)
  from write_effect [OF this(1)] show ?thesis
    by (simp add: created_as_def w fresh_wallet_def update_conv' fs_key_def)
qed

lemma wallet_keys_differ:
  assumes "i \<noteq> j" "dir \<noteq> ''''"
  shows "fs_key d (wallet_path dir i) \<noteq> fs_key d (wallet_path dir j)"
proof -
  have "last_part (fs_key d (wallet_path dir k)) = wallet_file_name (int k)" for k
    unfolding wallet_path_def by (rule path_join_name [OF wallet_file_plain(1) assms(2)]) simp
  then show ?thesis using wallet_file_inject [of "int i" "int j"] assms(1) by (metis of_nat_0_le_iff of_nat_eq_iff)
qed

lemma wallets_created:
  assumes "mapIO (create_wallet tools dir) indices d = Some (Inr ws, d')" "distinct indices" "dir \<noteq> ''''"
  shows "list_all2 (created_as tools dir d') indices ws \<and> diskCwd d' = diskCwd d
    \<and> (\<forall>k. (\<forall>i \<in> set indices. k \<noteq> fs_key d (wallet_path dir i)) \<longrightarrow> map_of (diskFiles d') k = map_of (diskFiles d) k)"
  using assms(1,2)
proof (induction indices arbitrary: d ws)
  case (Cons i indices)
  obtain w d1 ws1 where one: "create_wallet tools dir i d = Some (Inr w, d1)"
    and others: "mapIO (create_wallet tools dir) indices d1 = Some (Inr ws1, d')" and ws: "ws = w # ws1"
    using Cons.prems(1) unfolding mapIO.simps by (elim bindIO_InrE) (auto simp only: returnIO_apply option.inject prod.inject sum.inject)
  note first = wallet_created [OF one] and rest = Cons.IH [OF others] Cons.prems(2)
  have same: "fs_key d1 p = fs_key d p" "fs_key d' p = fs_key d p" for p using first rest by (simp_all add: fs_key_def)
  have "\<forall>j \<in> set indices. fs_key d (wallet_path dir i) \<noteq> fs_key d (wallet_path dir j)"
    using wallet_keys_differ [OF _ assms(3)] Cons.prems(2) by (metis distinct.simps(2))
  then have "created_as tools dir d' i w" using first rest by (simp add: created_as_def same update_conv')
  then show ?case using first rest by (auto simp: ws same update_conv')
qed simp

text \<open>
  C27: \<open>createWalletFiles\<close> returns the wallets it was asked for: each with the name of its number, whose key file
  has a path that gives that number and name back and a content that \<open>loadKeypair\<close> reads as the same key pair,
  from the disk as all of them have left it.
\<close>

theorem created_wallets:
  assumes "createWalletFiles tools walletCount repoRoot d = Some (Inr prepared, d')" "walletCount \<le> 2 ^ 52"
    and "\<forall>i. toolFromSecretKey tools (secretKey (toolGenerate tools i)) = Inr (toolGenerate tools i)"
  shows "length (preparedWallets prepared) = nat walletCount \<and>
    (\<forall>i < nat walletCount. let w = preparedWallets prepared ! i in
      walletName w = walletNameForIndex (int i) \<and> walletKeypair w = toolGenerate tools i
      \<and> walletIndexFromSecretPath (secretPath w) = Some (int i) \<and> walletNameFromSecretPath (secretPath w) = walletName w
      \<and> loadKeypair tools (secretPath w) d' = Some (Inr (walletKeypair w), d'))"
proof -
  let ?dir = "path_join [repoRoot, ''keys'', ''ryvo-protocol-demo'', run_id (toolNow tools)]"
  obtain d1 where "mapIO (create_wallet tools ?dir) [0..<nat walletCount] d1 = Some (Inr (preparedWallets prepared), d')"
    using assms(1) unfolding createWalletFiles_def Let_def by (elim bindIO_InrE) (auto simp only: returnIO_apply option.inject prod.inject sum.inject prepared_wallet_set.simps)
  from wallets_created [OF this] have all: "list_all2 (created_as tools ?dir d') [0..<nat walletCount] (preparedWallets prepared)"
    by (simp add: path_join_nonempty)
  have "let w = preparedWallets prepared ! i in
      walletName w = walletNameForIndex (int i) \<and> walletKeypair w = toolGenerate tools i
      \<and> walletIndexFromSecretPath (secretPath w) = Some (int i) \<and> walletNameFromSecretPath (secretPath w) = walletName w
      \<and> loadKeypair tools (secretPath w) d' = Some (Inr (walletKeypair w), d')" if i: "i < nat walletCount" for i
  proof -
    have w: "created_as tools ?dir d' i (preparedWallets prepared ! i)" using list_all2_nthD [OF all, of i] i by simp
    then have "loadKeypair tools (wallet_path ?dir i) d' = Some (Inr (toolGenerate tools i), d')"
      using assms(3) by (intro key_loaded) (auto simp: created_as_def read_iff)
    then show ?thesis
      using w created_index [of "int i" ?dir] created_name [of "int i" ?dir] path_join_nonempty i assms(2)
      by (simp add: created_as_def wallet_path_def Let_def)
  qed
  then show ?thesis using list_all2_lengthD [OF all] by simp
qed

section \<open>Merging manifests\<close>

lemma insert_by_mset: "insert_by cmp x ys = Inr zs \<Longrightarrow> mset zs = add_mset x (mset ys)"
proof (induction ys arbitrary: zs)
  case (Cons y ys)
  then show ?case by (auto simp: result_iffs split: if_splits)
qed simp

lemma js_sort_fold:
  "foldl (\<lambda>sorted x. bindR sorted (insert_by cmp x)) start xs = Inr zs \<Longrightarrow>
     \<exists>ys. start = Inr ys \<and> mset zs = mset ys + mset xs"
proof (induction xs arbitrary: start)
  case (Cons x xs)
  then obtain ys where "bindR start (insert_by cmp x) = Inr ys" "mset zs = mset ys + mset xs"
    by auto
  then show ?case using insert_by_mset by (fastforce simp: result_iffs)
qed simp

lemma js_sort_mset: "js_sort cmp xs = Inr zs \<Longrightarrow> mset zs = mset xs"
  using js_sort_fold [of cmp "Inr []" xs zs] by (auto simp: js_sort_def)

text \<open>What the loop keeps: the identities seen are those of the merged entries, none twice.\<close>

definition identity_of :: "jsv \<Rightarrow> jsv option" where
  "identity_of entry = (if truthy (member_of entry ''publicKey'') then member_of entry ''publicKey'' else member_of entry ''secretPath'')"

lemma wallet_identity_eq: "wallet_identity e = Inr i \<longleftrightarrow> e \<noteq> VNull \<and> i = identity_of e"
  by (auto simp: wallet_identity_def identity_of_def field_def typeError_def)

text \<open>
  The old entries that are kept next to the new ones: some of those in the file, each with an identity of its own
  that no new entry has. Identities that are objects are compared by reference, so they never coincide.
\<close>

definition kept_beside :: "jsv list \<Rightarrow> jsv list \<Rightarrow> jsv list \<Rightarrow> bool" where
  "kept_beside new existing kept \<longleftrightarrow> subseq kept existing \<and> (\<forall>e \<in> set kept. truthy (identity_of e))
     \<and> distinct (filter is_primitive (map identity_of kept))
     \<and> (\<forall>e \<in> set kept. is_primitive (identity_of e) \<longrightarrow> identity_of e \<notin> identity_of ` set new)
     \<and> (\<forall>e \<in> set existing. truthy (identity_of e) \<longrightarrow> identity_of e \<in> identity_of ` set new \<union> identity_of ` set kept)"

lemma subseq_set: "subseq xs ys \<Longrightarrow> set xs \<subseteq> set ys"
  by (induction rule: list_emb.induct) auto

lemma kept_skip:
  assumes "kept_beside new es kept" "\<not> truthy (identity_of e) \<or> identity_of e \<in> identity_of ` set new"
  shows "kept_beside new (e # es) kept"
  using assms by (auto simp: kept_beside_def)

lemma kept_push:
  assumes "kept_beside (new @ [e]) es kept" "truthy (identity_of e)"
    "is_primitive (identity_of e) \<longrightarrow> identity_of e \<notin> identity_of ` set new"
  shows "kept_beside new (e # es) (e # kept)"
  using assms by (auto simp: kept_beside_def)

lemma merge_loop_result:
  assumes "merge_loop existing merged seen = Inr out" "set seen = identity_of ` set merged"
  shows "\<exists>kept. out = merged @ kept \<and> kept_beside merged existing kept"
  using assms
proof (induction existing arbitrary: merged seen)
  case (Cons e es)
  let ?skip = "\<not> truthy (identity_of e) \<or> (is_primitive (identity_of e) \<and> identity_of e \<in> set seen)"
  from Cons.prems(1) have step: "(if ?skip then merge_loop es merged seen else merge_loop es (merged @ [e]) (seen @ [identity_of e])) = Inr out"
    by (cases "wallet_identity e") (auto simp: wallet_identity_eq)
  show ?case
  proof (cases ?skip)
    case True
    then have "merge_loop es merged seen = Inr out" using step by simp
    from Cons.IH [OF this Cons.prems(2)] obtain kept where "out = merged @ kept" "kept_beside merged es kept" by blast
    moreover have "\<not> truthy (identity_of e) \<or> identity_of e \<in> identity_of ` set merged" using True Cons.prems(2) by simp
    ultimately show ?thesis using kept_skip by blast
  next
    case False
    then have out: "merge_loop es (merged @ [e]) (seen @ [identity_of e]) = Inr out" using step if_not_P [OF False] by metis
    have "set (seen @ [identity_of e]) = identity_of ` set (merged @ [e])" using Cons.prems(2) by simp
    from Cons.IH [OF out this] obtain kept where "out = (merged @ [e]) @ kept" "kept_beside (merged @ [e]) es kept" by blast
    then show ?thesis using False Cons.prems(2) kept_push [of merged e es kept] by auto
  qed
qed (simp add: kept_beside_def)

text \<open>
  C36: Saving never loses a wallet and adds none twice: what \<open>mergeExistingWalletManifestEntries\<close> returns is, up to
  its order, the new entries and with them some of the entries of the file, each at most as often as it is there. Those
  that are kept have an identity (public key or key path), no two of them the same, and none that of a new entry; and
  every identity of the file is that of a new entry or of a kept one.
\<close>

theorem manifest_merge_keeps:
  assumes "mergeExistingWalletManifestEntries collation outputPath new d = Some (Inr entries, d')"
    and "readFileSync outputPath d = Some (Inr content, d)" "JSON_parse content = Inr manifest"
    and "member_of manifest ''wallets'' = Some (VArray existing)"
  shows "d' = d \<and> (\<exists>kept. mset entries = mset (new @ kept) \<and> subseq kept existing
    \<and> (\<forall>e \<in> set kept. truthy (identity_of e))
    \<and> distinct (filter is_primitive (map identity_of kept))
    \<and> (\<forall>e \<in> set kept. is_primitive (identity_of e) \<longrightarrow> identity_of e \<notin> identity_of ` set new)
    \<and> (\<forall>e \<in> set existing. truthy (identity_of e) \<longrightarrow> identity_of e \<in> identity_of ` set new \<union> identity_of ` set kept))"
proof -
  have read: "bindIO (readFileSync outputPath) (\<lambda>content. liftIO (JSON_parse content)) d = Some (Inr manifest, d)"
    by (simp add: bindIO_def assms(2,3))
  have merged: "bindR (mapR wallet_identity new) (\<lambda>seen. bindR (merge_loop existing new seen)
      (js_sort (compareManifestWallets collation))) = Inr entries" "d' = d"
    using assms(1) read_exists [OF assms(2)]
    by (simp_all add: mergeExistingWalletManifestEntries_def read assms(4))
  then obtain seen out where seen: "mapR wallet_identity new = Inr seen" and out: "merge_loop existing new seen = Inr out"
    and sorted: "js_sort (compareManifestWallets collation) out = Inr entries"
    by (auto simp: bindR_eq_Inr)
  have "list_all2 (\<lambda>e i. wallet_identity e = Inr i) new seen" using seen by (simp add: mapR_eq_Inr_iff)
  then have "seen = map identity_of new" by (induction rule: list_all2_induct) (simp_all add: wallet_identity_eq)
  then have "set seen = identity_of ` set new" by simp
  from merge_loop_result [OF out this] obtain kept where "out = new @ kept" "kept_beside new existing kept" by blast
  with js_sort_mset [OF sorted] merged(2) show ?thesis unfolding kept_beside_def by (intro conjI exI [of _ kept]) simp_all
qed

lemma found: "find P (rev xs) = Some x \<Longrightarrow> P x \<and> x \<in> set xs"
  by (metis find_Some_iff nth_mem set_rev)

text \<open>
  The active wallets are the named ones, in the order of the names; without names all of them are active. A
  name that no wallet has is refused, and so are fewer than six names.
\<close>

theorem active_wallets_selected:
  "case selectActiveWallets wallets names of
     Inr selected \<Rightarrow> (if names \<in> {None, Some []} then selected = wallets
       else map walletName selected = the names \<and> set selected \<subseteq> set wallets \<and> 6 \<le> length selected)
   | Inl _ \<Rightarrow> \<exists>ns. names = Some ns \<and> (length ns < 6 \<or> (\<exists>n. n \<in> set ns - walletName ` set wallets))"
proof (cases "names \<in> {None, Some []}")
  case True
  then show ?thesis by (auto simp: selectActiveWallets_def)
next
  case False
  then obtain ns where ns: "names = Some ns" "ns \<noteq> []" by auto
  define pick where "pick name = (case find (\<lambda>w. walletName w = name) (rev wallets) of
      None \<Rightarrow> throwError (''Active wallet '' @ [CHR 0x27] @ name @ [CHR 0x27] @ '' was not found in the loaded manifest'')
    | Some w \<Rightarrow> Inr w)" for name
  have picked: "pick name = Inr w \<Longrightarrow> walletName w = name \<and> w \<in> set wallets" for name w
    unfolding pick_def by (cases "find (\<lambda>w. walletName w = name) (rev wallets)") (auto dest: found)
  have missing: "(\<exists>w. pick name = Inr w) \<longleftrightarrow> name \<in> walletName ` set wallets" for name
    by (auto simp: pick_def find_None_iff split: option.splits dest: found)
  show ?thesis
  proof (cases "mapR pick ns")
    case (Inl e)
    have "\<not> set ns \<subseteq> walletName ` set wallets"
    proof
      assume "set ns \<subseteq> walletName ` set wallets"
      then have "\<forall>n \<in> set ns. pick n = Inr (projr (pick n))" using missing by (metis subsetD sum.sel(2))
      then show False using mapR_Inr [of ns pick "\<lambda>n. projr (pick n)"] Inl by simp
    qed
    then obtain n where "n \<in> set ns - walletName ` set wallets" by blast
    then show ?thesis using Inl ns by (auto simp: selectActiveWallets_def simp flip: pick_def)
  next
    case (Inr selected)
    then have "list_all2 (\<lambda>n w. pick n = Inr w) ns selected" by (simp add: mapR_eq_Inr_iff)
    then have "map walletName selected = ns \<and> set selected \<subseteq> set wallets \<and> length selected = length ns"
      by (induction rule: list_all2_induct) (auto dest: picked)
    then show ?thesis using Inr ns by (simp add: selectActiveWallets_def throwError_def flip: pick_def)
  qed
qed

section \<open>Witnesses\<close>

definition sample_tools :: "unit wallet_tools" where
  "sample_tools = \<lparr>toolSha256 = (\<lambda>_. []), toolCurve = \<lparr>g1_base = (), g1_zero = (), g1_multiply = (\<lambda>_ _. Inr ()), g1_add = (\<lambda>_ _. ()),
     g1_toRawBytes = (\<lambda>_. []), g1_fromHex = (\<lambda>_. Inr ()), g2_public = (\<lambda>_. Inr [5])\<rparr>,
     toolFromSecretKey = (\<lambda>s. Inr \<lparr>publicKey = s, secretKey = s\<rparr>), toolGenerate = (\<lambda>i. \<lparr>publicKey = [of_nat i], secretKey = [of_nat i]\<rparr>),
     toolNow = ''2026-01-01T00:00:00.000Z'', toolShowKey = (\<lambda>k. CHR ''k'' # map (\<lambda>b. char_of (unat b)) k),
     toolParseKey = (\<lambda>s. Inr (map (\<lambda>c. word_of_nat (of_char c)) (tl s))), toolCollation = (\<lambda>_ _. 0), toolShowNumber = (\<lambda>_. '''')\<rparr>"

definition sample_disk :: disk where
  "sample_disk = \<lparr>diskCwd = ''/r'', diskDirs = [''/'', ''/r''], diskFiles = [(''/r/k'', key_file_text [7])]\<rparr>"

definition kept_wallet :: demo_wallet where
  "kept_wallet = fresh_wallet ''Alice'' \<lparr>publicKey = [7], secretKey = [7]\<rparr> ''/r/k'' [9]
     \<lparr>secretScalar = secret_scalar_from_seed (\<lambda>_. []) (BLS_DEMO_KEY_DERIVATION_TAG @ [7]), publicKeyCompressed = [5]\<rparr>"

lemma suffix_last: "suffix [c] s \<longleftrightarrow> s \<noteq> [] \<and> last s = c"
  by (cases s rule: rev_cases) auto

lemmas path_eval = fs_key_def isAbsolute_def segments_def add_segment_def path_text_def path_dirname_def drop_slashes_def
  path_join_def path_normalize_def maybeTranslateWslPath_def js_replaceAll_def resolveInputPath_def

lemma sample_keys: "keys_readable sample_tools"
proof -
  have "map ((\<lambda>c. word_of_nat (of_char c)) \<circ> (\<lambda>b. char_of (unat b))) k = (k :: bytes)" for k
  proof (rule map_idI)
    fix b :: byte
    have "unat b mod 256 = unat b" using unsigned_less [of b, where ?'a = nat] by simp
    then show "((\<lambda>c. word_of_nat (of_char c)) \<circ> (\<lambda>b. char_of (unat b))) b = b" by simp
  qed
  then show ?thesis by (simp add: keys_readable_def sample_tools_def comp_def)
qed

lemma sample_stored: "stored_wallet sample_tools sample_disk kept_wallet"
  by (simp add: stored_wallet_def kept_wallet_def fresh_wallet_def read_iff sample_disk_def sample_tools_def
      deriveWalletBlsKeypair_def createBlsKeypairFromSeed_def Let_def path_eval suffix_last)

definition sample_run :: manifest_run where
  "sample_run = \<lparr>runEndpoint = ''http://127.0.0.1:8899'', runProgramId = [1], runDeployer = [2], runTokenId = Fin (of_int 1),
     runTokenSymbol = ''USDC'', runTokenMint = [3], runDecimals = 6, runVault = [4], runFeeRecipient = [5], runRunId = ''run'',
     runReusedFrom = None\<rparr>"

lemma sample_new: "\<not> existsSync sample_disk ''/r/m''"
  by (simp add: existsSync_def isFile_def isDir_def sample_disk_def path_eval)

lemma sample_saved: "\<exists>d'. saveWalletManifest sample_tools ''/r/m'' sample_run [kept_wallet] sample_disk = Some (Inr (), d')"
proof -
  have "\<exists>d'. saveRunManifest showNumber ''/r/m'' content sample_disk = Some (Inr (), d')" for showNumber content
    by (simp add: saveRunManifest_def mkdirSync_def writeFileSync_def isDir_def ancestors_def sample_disk_def path_eval bindIO_def Let_def upt_conv_Cons)
  then show ?thesis
    using sample_new by (simp add: saveWalletManifest_def mergeExistingWalletManifestEntries_def bindIO_def)
qed

theorem manifest_reloads_witness:
  "\<exists>d'. saveWalletManifest sample_tools ''/r/m'' sample_run [kept_wallet] sample_disk = Some (Inr (), d')
    \<and> loadWalletsFromManifest sample_tools ''/r/m'' 1 ''/r'' d' = Some (Inr
      \<lparr>preparedRunId = ''2026-01-01T00-00-00-000Z'', preparedWalletDir = ''/r'',
       preparedWallets = [kept_wallet], preparedSource = FromManifest, preparedManifestPath = Some ''/r/m''\<rparr>, d')"
proof -
  obtain d' where saved: "saveWalletManifest sample_tools ''/r/m'' sample_run [kept_wallet] sample_disk = Some (Inr (), d')"
    using sample_saved by blast
  have "maybeTranslateWslPath ''/r/m'' = ''/r/m''" by (simp add: path_eval)
  from manifest_reloads [OF saved sample_new _ _ _ _ _ _ sample_keys this, of 1 1 "''/r''"]
  show ?thesis using saved sample_stored
    by (simp add: sample_run_def run_id_def sample_tools_def without_participant_def kept_wallet_def fresh_wallet_def path_eval)
qed

definition sample_dir :: string where
  "sample_dir = ''/r/keys/ryvo-protocol-demo/2026-01-01T00-00-00-000Z''"

definition sample_made :: disk where
  "sample_made = sample_disk\<lparr>diskDirs := [''/'', ''/r'', ''/r/keys'', ''/r/keys/ryvo-protocol-demo'', sample_dir]\<rparr>"

lemma sample_dir_made: "mkdirSync sample_dir sample_disk = Some (Inr (), sample_made)"
proof -
  let ?segs = "[''r'', ''keys'', ''ryvo-protocol-demo'', ''2026-01-01T00-00-00-000Z'']"
  have segs: "segments sample_dir = ?segs" by (simp add: sample_dir_def segments_def add_segment_def isAbsolute_def)
  have key: "fs_key d sample_dir = sample_dir" for d
    unfolding fs_key_def using segs by (simp add: isAbsolute_def path_text_def sample_dir_def)
  have steps: "[0..<length ?segs + 1] = [0, 1, 2, 3, 4]" by (simp add: upt_conv_Cons)
  have "ancestors sample_dir = [''/'', ''/r'', ''/r/keys'', ''/r/keys/ryvo-protocol-demo'', sample_dir]"
    unfolding ancestors_def segs steps by (simp add: path_text_def sample_dir_def)
  then show ?thesis unfolding mkdirSync_def key sample_made_def by (simp add: sample_disk_def sample_dir_def)
qed

lemma sample_file:
  assumes "f \<in> {''01-alice.json'', ''02-bob.json''}"
  shows "path_join [sample_dir, f] = sample_dir @ ''/'' @ f" "fs_key d (sample_dir @ ''/'' @ f) = sample_dir @ ''/'' @ f"
    "path_dirname (sample_dir @ ''/'' @ f) = sample_dir" "sample_dir @ ''/'' @ f \<notin> set (diskDirs sample_made)"
    "fs_key d sample_dir = sample_dir" "sample_dir \<in> set (diskDirs sample_made)"
proof -
  have segs: "segments (sample_dir @ ''/'' @ f) = [''r'', ''keys'', ''ryvo-protocol-demo'', ''2026-01-01T00-00-00-000Z'', f]"
    "segments sample_dir = [''r'', ''keys'', ''ryvo-protocol-demo'', ''2026-01-01T00-00-00-000Z'']"
    using assms by (auto simp: sample_dir_def segments_def add_segment_def isAbsolute_def)
  show "fs_key d (sample_dir @ ''/'' @ f) = sample_dir @ ''/'' @ f" "fs_key d sample_dir = sample_dir"
    unfolding fs_key_def using segs by (simp_all add: isAbsolute_def path_text_def sample_dir_def)
  show "path_join [sample_dir, f] = sample_dir @ ''/'' @ f"
    using assms segs by (auto simp: path_join_def path_normalize_def isAbsolute_def path_text_def suffix_last sample_dir_def)
  show "path_dirname (sample_dir @ ''/'' @ f) = sample_dir" using assms by (auto simp: path_dirname_def drop_slashes_def sample_dir_def)
  show "sample_dir @ ''/'' @ f \<notin> set (diskDirs sample_made)" "sample_dir \<in> set (diskDirs sample_made)"
    using assms by (auto simp: sample_made_def sample_dir_def)
qed

lemma sample_wallet_made:
  assumes "diskDirs d = diskDirs sample_made" "f \<in> {''01-alice.json'', ''02-bob.json''}" "wallet_file_name (int i) = f"
  shows "\<exists>w d'. create_wallet sample_tools sample_dir i d = Some (Inr w, d') \<and> diskDirs d' = diskDirs sample_made"
proof -
  have "\<exists>d'. writeFileSync (sample_dir @ ''/'' @ f) t d = Some (Inr (), d') \<and> diskDirs d' = diskDirs sample_made" for t
    unfolding writeFileSync_def isDir_def sample_file [OF assms(2)] using assms(1) sample_file [OF assms(2)] by simp
  then obtain d' where d': "writeFileSync (sample_dir @ ''/'' @ f) (key_file_text (secretKey (toolGenerate sample_tools i))) d = Some (Inr (), d')"
    "diskDirs d' = diskDirs sample_made" by blast
  have "\<exists>bls. deriveWalletBlsKeypair sample_tools (toolGenerate sample_tools i) = Inr bls"
    by (simp add: deriveWalletBlsKeypair_def createBlsKeypairFromSeed_def sample_tools_def Let_def)
  then show ?thesis
    using d' unfolding create_wallet_def Let_def assms(3) sample_file(1) [OF assms(2)] bindIO_def by auto
qed

lemma sample_created:
  "\<exists>prepared d'. createWalletFiles sample_tools 2 ''/r'' sample_disk = Some (Inr prepared, d')"
proof -
  have names: "wallet_file_name (int 0) = ''01-alice.json''" "wallet_file_name (int (Suc 0)) = ''02-bob.json''"
    by (simp_all add: wallet_file_name_def pad_start_def show_int_digit walletNameForIndex_def DEMO_WALLET_BASE_NAMES_def
        toLowerCase_def lower_char_def char_of_def bit_0)
  have dir: "path_join [''/r'', ''keys'', ''ryvo-protocol-demo'', run_id (toolNow sample_tools)] = sample_dir"
    by (simp add: path_eval run_id_def sample_tools_def suffix_last sample_dir_def)
  obtain w1 d1 where w1: "create_wallet sample_tools sample_dir 0 sample_made = Some (Inr w1, d1)" "diskDirs d1 = diskDirs sample_made"
    using sample_wallet_made [OF refl _ names(1)] by auto
  obtain w2 d2 where w2: "create_wallet sample_tools sample_dir (Suc 0) d1 = Some (Inr w2, d2)"
    using sample_wallet_made [OF w1(2) _ names(2)] by auto
  have both: "[0..<nat 2] = [0, Suc 0]" by (simp add: upt_conv_Cons)
  show ?thesis
    unfolding createWalletFiles_def Let_def dir both mapIO.simps bindIO_def by (simp add: sample_dir_made w1(1) w2)
qed

theorem created_wallets_witness:
  "\<exists>prepared d'. createWalletFiles sample_tools 2 ''/r'' sample_disk = Some (Inr prepared, d')
    \<and> length (preparedWallets prepared) = 2 \<and> walletName (preparedWallets prepared ! 1) = ''Bob''
    \<and> loadKeypair sample_tools (secretPath (preparedWallets prepared ! 1)) d' = Some (Inr \<lparr>publicKey = [1], secretKey = [1]\<rparr>, d')"
proof -
  obtain prepared d' where created: "createWalletFiles sample_tools 2 ''/r'' sample_disk = Some (Inr prepared, d')"
    using sample_created by blast
  have "\<forall>i. toolFromSecretKey sample_tools (secretKey (toolGenerate sample_tools i)) = Inr (toolGenerate sample_tools i)"
    by (simp add: sample_tools_def)
  from created_wallets [OF created _ this]
  have all: "length (preparedWallets prepared) = 2 \<and> (\<forall>i < 2. let w = preparedWallets prepared ! i in
      walletName w = walletNameForIndex (int i) \<and> walletKeypair w = toolGenerate sample_tools i
      \<and> walletIndexFromSecretPath (secretPath w) = Some (int i) \<and> walletNameFromSecretPath (secretPath w) = walletName w
      \<and> loadKeypair sample_tools (secretPath w) d' = Some (Inr (walletKeypair w), d'))" by simp
  moreover have "toolGenerate sample_tools 1 = \<lparr>publicKey = [1], secretKey = [1]\<rparr>" by (simp add: sample_tools_def)
  moreover have "walletNameForIndex (int 1) = ''Bob''" by (simp add: walletNameForIndex_def DEMO_WALLET_BASE_NAMES_def)
  ultimately show ?thesis using created by (metis (no_types, lifting) one_less_numeral_iff semiring_norm(76))
qed

lemma sample_kept:
  assumes "subseq kept [e, f, e]" "distinct (filter is_primitive (map identity_of kept))"
    and "\<forall>x \<in> set kept. is_primitive (identity_of x) \<longrightarrow> identity_of x \<noteq> b"
    and "identity_of f = b" "is_primitive (identity_of e)" "is_primitive b" "identity_of e \<noteq> b" "identity_of e \<in> insert b (identity_of ` set kept)"
  shows "kept = [e]"
proof -
  have es: "x = e" if "x \<in> set kept" for x using subseq_set [OF assms(1)] assms(3, 4, 6) that by auto
  then have same: "kept = replicate (length kept) e" by (intro replicate_eqI) auto
  have "length kept \<noteq> 0" using assms(7, 8) by auto
  moreover have "distinct (replicate (length kept) (identity_of e))"
    using assms(2, 5) by (subst (asm) same) (simp add: filter_replicate)
  then have "length kept \<noteq> Suc (Suc n)" for n by auto
  ultimately have "length kept = 1" by (metis One_nat_def not0_implies_Suc)
  then show ?thesis using same by simp
qed

theorem manifest_merge_keeps_witness:
  "let wallet = (\<lambda>key path. JsonObject [(''publicKey'', Some (JsonText key)), (''secretPath'', Some (JsonText path))]);
       old = JsonObject [(''wallets'', Some (JsonArray [wallet ''a'' ''01-x'', wallet ''b'' ''07-w'', wallet ''a'' ''01-x'']))];
       d = sample_disk\<lparr>diskFiles := [(''/r/m'', stringify old)]\<rparr>;
       new = VObject [(''publicKey'', VText ''b''), (''secretPath'', VText ''02-y'')] in
    \<exists>entries. mergeExistingWalletManifestEntries (\<lambda>_ _. 0) ''/r/m'' [new] d = Some (Inr entries, d)
      \<and> mset entries = mset [new, value_of (wallet ''a'' ''01-x'')]"
proof -
  let ?wallet = "\<lambda>key path. JsonObject [(''publicKey'', Some (JsonText key)), (''secretPath'', Some (JsonText path))]"
  let ?e = "?wallet ''a'' ''01-x''" and ?f = "?wallet ''b'' ''07-w''"
  let ?old = "JsonObject [(''wallets'', Some (JsonArray [?e, ?f, ?e]))]"
  let ?d = "sample_disk\<lparr>diskFiles := [(''/r/m'', stringify ?old)]\<rparr>"
  let ?new = "VObject [(''publicKey'', VText ''b''), (''secretPath'', VText ''02-y'')]"
  have read: "readFileSync ''/r/m'' ?d = Some (Inr (stringify ?old), ?d)"
    by (simp add: read_iff sample_disk_def path_eval del: stringify.simps)
  have parsed: "JSON_parse (stringify ?old) = Inr (value_of ?old)" by (rule stringify_read) simp
  have listed: "member_of (value_of ?old) ''wallets'' = Some (VArray [value_of ?e, value_of ?f, value_of ?e])"
    by (simp add: member_of_def)
  have ids: "identity_of (value_of ?e) = Some (VText ''a'')" "identity_of (value_of ?f) = Some (VText ''b'')"
    "identity_of ?new = Some (VText ''b'')"
    by (simp_all add: identity_of_def member_of_def truthy_def)
  have basic: "path_basename ''01-x'' = ''01-x''" "path_basename ''02-y'' = ''02-y''" by (simp_all add: path_basename_def drop_slashes_def)
  have "\<exists>entries. js_sort (compareManifestWallets (\<lambda>_ _. 0)) [?new, value_of ?e] = Inr entries"
    by (simp add: js_sort_def compareManifestWallets_def textField_def field_def member_of_def walletIndexFromSecretPath_def
        leading_number_def basic is_digit_def Let_def read_digits_def digit_value_def isInteger_def to_number_of_int [of 1, simplified]
        to_number_of_int [of 2, simplified] rational_of_def round_f64_of_int [of 0, simplified] round_f64_of_int [of 1, simplified] split: option.split)
  then obtain entries where sorted: "js_sort (compareManifestWallets (\<lambda>_ _. 0)) [?new, value_of ?e] = Inr entries" by blast
  have identity: "wallet_identity (value_of ?e) = Inr (Some (VText ''a''))" "wallet_identity (value_of ?f) = Inr (Some (VText ''b''))"
    "wallet_identity ?new = Inr (Some (VText ''b''))"
    unfolding wallet_identity_eq using ids by simp_all
  have seen: "mapR wallet_identity [?new] = Inr [Some (VText ''b'')]" unfolding mapR.simps identity(3) by simp
  have merged: "merge_loop [value_of ?e, value_of ?f, value_of ?e] [?new] [Some (VText ''b'')] = Inr [?new, value_of ?e]"
    unfolding merge_loop.simps identity(1, 2) by (simp add: truthy_def is_primitive_def del: value_of.simps)
  have "bindIO (readFileSync ''/r/m'') (\<lambda>content. liftIO (JSON_parse content)) ?d = Some (Inr (value_of ?old), ?d)"
    unfolding bindIO_def read by (simp add: parsed del: value_of.simps stringify.simps)
  then have run: "mergeExistingWalletManifestEntries (\<lambda>_ _. 0) ''/r/m'' [?new] ?d = Some (Inr entries, ?d)"
    using read_exists [OF read]
    by (simp only: mergeExistingWalletManifestEntries_def if_False not_not option.case sum.case prod.case listed jsv.case seen merged sorted
        bindR_Inr liftIO_apply if_True simp_thms)
  obtain kept where kept: "mset entries = mset ([?new] @ kept)" "subseq kept [value_of ?e, value_of ?f, value_of ?e]"
    and distinct: "distinct (filter is_primitive (map identity_of kept))"
    and others: "\<forall>e \<in> set kept. is_primitive (identity_of e) \<longrightarrow> identity_of e \<notin> identity_of ` set [?new]"
    and all: "\<forall>e \<in> set [value_of ?e, value_of ?f, value_of ?e]. truthy (identity_of e) \<longrightarrow> identity_of e \<in> identity_of ` set [?new] \<union> identity_of ` set kept"
    using manifest_merge_keeps [OF run read parsed listed] by blast
  have "kept = [value_of ?e]"
    by (rule sample_kept [OF kept(2) distinct, where b = "Some (VText ''b'')"])
      (use others all ids in \<open>simp_all add: truthy_def is_primitive_def del: value_of.simps\<close>)
  then show ?thesis using run kept(1) unfolding Let_def by (intro exI [of _ entries]) simp
qed

end
