(* ===== verification/Demo.thy ===== *)
theory Demo
  imports Flagship Wallets
begin

text \<open>
  \<open>main\<close> of the demo: the provider and the program, the wallets and their manifest, the chain set up, the
  scenarios one after the other, and the manifest of the run.

  The world is the cluster's and the disk. What depends on the provider and the program, Anchor's
  clients and the libraries, is the stage that \<open>hostConnect\<close> gives. Console output is left out, but not
  the measurements and reads in it that may throw.
\<close>

section \<open>Two worlds\<close>

definition on_chain :: "('w, 'a) io \<Rightarrow> ('w \<times> disk, 'a) io" where
  "on_chain m wd = map_option (\<lambda>(r, w). (r, w, snd wd)) (m (fst wd))"

definition on_disk :: "(disk, 'a) io \<Rightarrow> ('w \<times> disk, 'a) io" where
  "on_disk m wd = map_option (\<lambda>(r, d). (r, fst wd, d)) (m (snd wd))"

definition with_disk :: "(disk \<Rightarrow> ('w \<times> disk, 'a) io) \<Rightarrow> ('w \<times> disk, 'a) io" where
  "with_disk f wd = f (snd wd) wd"

section \<open>The provider and the program\<close>

record ('w, 'g, 'i, 't) host =
  hostTools :: "'g wallet_tools"
  hostSizing :: sizing
  hostEnv :: "string \<rightharpoonup> string"
  hostDirname :: string
  hostConnect :: "string \<Rightarrow> keypair \<Rightarrow> pubkey \<Rightarrow> ('w, 'g, 'i, 't) stage"

text \<open>An environment variable that is set and not empty.\<close>

definition env_text :: "(string \<rightharpoonup> string) \<Rightarrow> string \<Rightarrow> string option" where
  "env_text env name = (case env name of Some v \<Rightarrow> if v = '''' then None else Some v | None \<Rightarrow> None)"

definition resolveProjectRpcUrl :: "(string \<rightharpoonup> string) \<Rightarrow> string \<Rightarrow> string" where
  "resolveProjectRpcUrl env network =
     (case env_text env ''RYVO_RPC_URL'' of Some url \<Rightarrow> url | None \<Rightarrow>
      case env_text env ''ANCHOR_PROVIDER_URL'' of Some url \<Rightarrow> url | None \<Rightarrow>
      case (if network = ''mainnet'' then env_text env ''RYVO_MAINNET_RPC_URL'' else None) of Some url \<Rightarrow> url | None \<Rightarrow>
      case (if network = ''devnet'' then env_text env ''RYVO_DEVNET_RPC_URL'' else None) of Some url \<Rightarrow> url | None \<Rightarrow>
      if network = ''mainnet'' then ''https://api.mainnet-beta.solana.com'' else ''https://api.devnet.solana.com'')"

text \<open>
  \<open>config/rpc.env\<close> is read when the script is loaded; \<open>process.env\<close> is a map, which a line extends.
\<close>

definition parseEnvLine :: "string \<Rightarrow> (string \<times> string) option" where
  "parseEnvLine line =
     (let trimmed = js_trim line; key = takeWhile ((\<noteq>) CHR ''='') trimmed;
          assigned = js_trim (drop (length key + 1) trimmed) in
      if trimmed = '''' \<or> prefix ''#'' trimmed \<or> CHR ''='' \<notin> set trimmed then None
      else Some (js_trim key,
        if quoted (CHR 0x22) assigned \<or> quoted (CHR 0x27) assigned then butlast (tl assigned) else assigned))"

definition load_env_line :: "string \<Rightarrow> (string \<rightharpoonup> string) \<Rightarrow> (string \<rightharpoonup> string)" where
  "load_env_line line env = (case parseEnvLine line of None \<Rightarrow> env
     | Some (key, assigned) \<Rightarrow> if env key \<noteq> None then env else env(key \<mapsto> assigned))"

definition loadProjectRpcEnv :: "(string \<rightharpoonup> string) \<Rightarrow> string \<Rightarrow> (disk, string \<rightharpoonup> string) io" where
  "loadProjectRpcEnv env repoRoot d =
     (let rpcEnvFile = or_else (env ''RYVO_RPC_ENV_FILE'') (path_join [repoRoot, ''config'', ''rpc.env'']) in
      if \<not> existsSync d rpcEnvFile then returnIO env d
      else bindIO (readFileSync rpcEnvFile) (\<lambda>contents. returnIO (fold load_env_line (split_lines contents) env)) d)"

definition loadProvider :: "('w, 'g, 'i, 't) host \<Rightarrow> (disk, string \<times> keypair) io" where
  "loadProvider host d =
     (let rpcEndpoint = or_else (hostEnv host ''ANCHOR_PROVIDER_URL'') (resolveProjectRpcUrl (hostEnv host) ''devnet'');
          walletPath = or_else (hostEnv host ''ANCHOR_WALLET'') (path_join [diskCwd d, ''keys'', ''devnet-deployer.json'']) in
      if \<not> existsSync d walletPath then
        throwErrorIO (''Wallet file not found. Set ANCHOR_WALLET or create '' @ walletPath) d
      else bindIO (loadKeypair (hostTools host) walletPath) (\<lambda>payer. returnIO (rpcEndpoint, payer)) d)"

text \<open>A line of \<open>Anchor.toml\<close>: \<open>/^ryvo_protocol\s*=\s*"([^"]+)"$/\<close>.\<close>

definition program_line :: "string \<Rightarrow> string option" where
  "program_line trimmed =
     (let rest = dropWhile js_space (drop (length ''ryvo_protocol'') trimmed);
          quotedPart = dropWhile js_space (drop 1 rest);
          name = takeWhile ((\<noteq>) (CHR 0x22)) (drop 1 quotedPart) in
      if prefix ''ryvo_protocol'' trimmed \<and> prefix ''='' rest \<and> prefix [CHR 0x22] quotedPart \<and> name \<noteq> ''''
         \<and> drop (length name + 1) quotedPart = [CHR 0x22] then Some name else None)"

fun scan_anchor_toml :: "string \<Rightarrow> bool \<Rightarrow> string list \<Rightarrow> string option" where
  "scan_anchor_toml sectionHeader inSection [] = None"
| "scan_anchor_toml sectionHeader inSection (line # rest) =
     (let trimmed = js_trim line in
      if prefix ''['' trimmed then scan_anchor_toml sectionHeader (trimmed = sectionHeader) rest
      else if \<not> inSection then scan_anchor_toml sectionHeader inSection rest
      else case program_line trimmed of Some name \<Rightarrow> Some name | None \<Rightarrow> scan_anchor_toml sectionHeader inSection rest)"

definition resolveProgramId :: "('w, 'g, 'i, 't) host \<Rightarrow> string \<Rightarrow> jsv \<Rightarrow> (disk, pubkey) io" where
  "resolveProgramId host rpcEndpoint idl d =
     (let parse = toolParseKey (hostTools host); anchorTomlPath = path_join [hostDirname host, ''..'', ''Anchor.toml''];
          fromIdl = bindIO (liftIO (field idl ''address'')) (\<lambda>address. case address of
              Some (VText s) \<Rightarrow> if s \<noteq> '''' then liftIO (parse s) else
                throwErrorIO ''Unable to resolve program id. Set RYVO_PROGRAM_ID or update Anchor.toml.''
            | _ \<Rightarrow> throwErrorIO ''Unable to resolve program id. Set RYVO_PROGRAM_ID or update Anchor.toml.'') in
      case env_text (map_option js_trim \<circ> hostEnv host) ''RYVO_PROGRAM_ID'' of
        Some fromEnv \<Rightarrow> liftIO (parse fromEnv) d
      | None \<Rightarrow>
          if existsSync d anchorTomlPath then
            bindIO (readFileSync anchorTomlPath) (\<lambda>content.
              case scan_anchor_toml (''[programs.'' @ inferNetwork rpcEndpoint @ '']'') False (split_lines content) of
                Some name \<Rightarrow> liftIO (parse name)
              | None \<Rightarrow> fromIdl) d
          else fromIdl d)"

definition loadProgram :: "('w, 'g, 'i, 't) host \<Rightarrow> string \<Rightarrow> (disk, pubkey) io" where
  "loadProgram host rpcEndpoint =
     bindIO (readFileSync (path_join [hostDirname host, ''..'', ''target'', ''idl'', ''ryvo_protocol.json''])) (\<lambda>content.
     bindIO (liftIO (JSON_parse content)) (\<lambda>idl. resolveProgramId host rpcEndpoint idl))"

section \<open>The manifest of a run\<close>

definition settlement_text :: "settlement_mode \<Rightarrow> string" where
  "settlement_text mode = (case mode of LatestCommitment \<Rightarrow> ''latest-commitment'' | Bundle \<Rightarrow> ''bundle''
     | SinglePayerClearing \<Rightarrow> ''single-payer-clearing'' | BilateralClearing \<Rightarrow> ''bilateral-clearing''
     | AtomicRoutedClearing \<Rightarrow> ''atomic-routed-clearing'' | MultilateralClearing \<Rightarrow> ''multilateral-clearing'')"

abbreviation VInt :: "int \<Rightarrow> jsv" where
  "VInt n \<equiv> VNumber (Fin (of_int n))"

definition savings_value :: "benchmark_savings \<Rightarrow> jsv" where
  "savings_value s = VObject
     [(''baselineModel'', VText (savingsBaselineModel s)), (''baselineTransactionCount'', VInt (baselineTransactionCount s)),
      (''settlementTransactionCount'', VInt (savingsSettlementCount s)), (''savedTransactions'', VInt (savedTransactions s)),
      (''reductionPercent'', VNumber (Fin (reductionPercent s))), (''compressionRatio'', VNumber (Fin (compressionRatio s))),
      (''estimatedBaselineCostUsd'', VNumber (Fin (estimatedBaselineCostUsd s))),
      (''estimatedRyvoCostUsd'', VNumber (Fin (estimatedRyvoCostUsd s))),
      (''estimatedSavingsUsd'', VNumber (Fin (estimatedSavingsUsd s)))]"

definition shape_member :: "string \<Rightarrow> benchmark_shape option \<Rightarrow> (string \<times> jsv) list" where
  "shape_member name shape = (case shape of None \<Rightarrow> [] | Some s \<Rightarrow> [(name, VObject
     [(''participantCount'', VInt (shapeParticipantCount s)), (''channelCount'', VInt (shapeChannelCount s))])])"

definition benchmark_value :: "benchmark_scenario \<Rightarrow> jsv" where
  "benchmark_value b = VObject (
     [(''id'', VText (benchmarkId b)), (''title'', VText (benchmarkTitle b)),
      (''settlementMode'', VText (settlement_text (settlementMode b))), (''participantCount'', VInt (participantCount b)),
      (''channelCount'', VInt (channelCount b)), (''underlyingPaymentCount'', VInt (underlyingPaymentCount b)),
      (''grossValueRaw'', VText (grossValueRaw b)), (''grossValueFormatted'', VText (grossValueFormatted b)),
      (''settlementTransactionCount'', VInt (settlementTransactionCount b)), (''signatures'', VArray (map VText (signatures b))),
      (''explorerLinks'', VArray (map VText (explorerLinks b))),
      (''serializedTransactionBytes'', VArray (map VInt (serializedTransactionBytes b))),
      (''totalSerializedTransactionBytes'', VInt (totalSerializedTransactionBytes b)),
      (''signedMessageBytes'', VInt (signedMessageBytes b)), (''signatureCount'', VInt (signatureCount b)),
      (''participantBalanceWrites'', VInt (participantBalanceWrites b)), (''channelLaneWrites'', VInt (channelLaneWrites b)),
      (''baselineModel'', VText (baselineModel b)), (''savings'', savings_value (savings b)),
      (''notes'', VArray (map VText (scenarioNotes b)))] @
     shape_member ''requestedShape'' (requestedShape b) @ shape_member ''achievedShape'' (achievedShape b))"

definition settings_value :: "cli_options \<Rightarrow> string \<Rightarrow> string \<Rightarrow> jsv" where
  "settings_value options walletManifestPath resultsPath =
     (let o' = cliSettings options; p = cliScenarios options; real = (\<lambda>x. VNumber (Fin x)) in VObject
     [(''skipFunding'', VBool (optSkipFunding o')), (''skipParticipantInit'', VBool (optSkipParticipantInit o')),
      (''skipDeposits'', VBool (optSkipDeposits o')), (''skipMaxChannels'', VBool (optSkipMaxChannels o')),
      (''walletManifestPath'', VText walletManifestPath), (''blsSearchResultsLogPath'', VText resultsPath),
      (''blsInternalBalanceTarget'', real (optBlsInternalBalanceTarget o')), (''blsRandomSeed'', VText (optBlsRandomSeed o')),
      (''blsRandomMinAmount'', real (optBlsRandomMinAmount o')), (''blsRandomMaxAmount'', real (optBlsRandomMaxAmount o')),
      (''blsMaxDenseChannels'', VInt (optBlsMaxDenseChannels o')), (''blsComputeUnitLimit'', VInt (optBlsComputeUnitLimit o')),
      (''singleCommitmentCount'', VInt (optSingleCommitmentCount p)), (''singleCommitmentAmount'', real (optSingleCommitmentAmount p)),
      (''batchCommitmentBatchCount'', VInt (optBatchCommitmentBatchCount p)),
      (''batchCommitmentBatchSize'', VInt (optBatchCommitmentBatchSize p)),
      (''batchCommitmentAmount'', real (optBatchCommitmentAmount p)),
      (''unilateralPayeeACommitmentCount'', VInt (optUnilateralPayeeACommitmentCount p)),
      (''unilateralPayeeBCommitmentCount'', VInt (optUnilateralPayeeBCommitmentCount p)),
      (''unilateralAmountPerCommitment'', real (optUnilateralAmountPerCommitment p)),
      (''unilateralLockAmount'', real (optUnilateralLockAmount p)),
      (''bilateralForwardCommitmentCount'', VInt (optBilateralForwardCommitmentCount p)),
      (''bilateralReverseCommitmentCount'', VInt (optBilateralReverseCommitmentCount p)),
      (''bilateralAmountPerCommitment'', real (optBilateralAmountPerCommitment p)),
      (''multilateralEdgeCommitmentCount'', VInt (optMultilateralEdgeCommitmentCount p)),
      (''multilateralAmountPerCommitment'', real (optMultilateralAmountPerCommitment p))])"

definition wallet_value :: "(pubkey \<Rightarrow> string) \<Rightarrow> demo_wallet \<Rightarrow> jsv" where
  "wallet_value showKey w = VObject
     [(''name'', VText (walletName w)), (''publicKey'', VText (showKey (wallet_key w))),
      (''participantId'', VInt (walletParticipantId w)), (''participantPda'', VText (showKey (participantPda w))),
      (''tokenAccount'', VText (showKey (tokenAccount w))), (''secretPath'', VText (secretPath w))]"

text \<open>A signature that is \<open>undefined\<close> is not written as such, but its link is.\<close>

definition signatures_value :: "(string \<times> string option) list \<Rightarrow> jsv" where
  "signatures_value scenarios = VObject (concat (map (\<lambda>(name, signature). case signature of
     None \<Rightarrow> [] | Some s \<Rightarrow> [(name, VText s)]) scenarios))"

definition links_value :: "(string \<times> string option) list \<Rightarrow> jsv" where
  "links_value scenarios = VObject (map (\<lambda>(name, signature).
     (name, VText (explorerUrl (or_else signature ''undefined'')))) scenarios)"

record demo_run =
  demoOptions :: cli_options
  demoRun :: manifest_run
  demoMessageDomain :: bytes
  demoWalletManifest :: string
  demoResultsLog :: string
  demoWallets :: "demo_wallet list"
  demoBenchmarks :: "benchmark_scenario list"
  demoSignatures :: "(string \<times> string option) list"

definition run_manifest :: "'g wallet_tools \<Rightarrow> demo_run \<Rightarrow> jsv" where
  "run_manifest tools run =
     (let key = (\<lambda>k. VText (toolShowKey tools k)); r = demoRun run in VObject
     [(''runId'', VText (runRunId r)), (''network'', VText (inferNetwork (runEndpoint r))), (''rpcEndpoint'', VText (runEndpoint r)),
      (''programId'', key (runProgramId r)), (''deployer'', key (runDeployer r)),
      (''token'', VObject
        [(''id'', VNumber (runTokenId r)), (''symbol'', VText (runTokenSymbol r)), (''mint'', key (runTokenMint r)),
         (''decimals'', VInt (runDecimals r)), (''vaultTokenAccount'', key (runVault r))]),
      (''feeRecipient'', key (runFeeRecipient r)), (''messageDomain'', VText (hex_string (demoMessageDomain run))),
      (''reusedFromManifest'', case runReusedFrom r of None \<Rightarrow> VNull | Some p \<Rightarrow> VText p),
      (''settings'', settings_value (demoOptions run) (demoWalletManifest run) (demoResultsLog run)),
      (''wallets'', VArray (map (wallet_value (toolShowKey tools)) (demoWallets run))),
      (''benchmarkScenarios'', VArray (map benchmark_value (demoBenchmarks run))),
      (''scenarios'', signatures_value (demoSignatures run)), (''explorer'', links_value (demoSignatures run)),
      (''generatedAt'', VText (toolNow tools))])"

section \<open>The run\<close>

text \<open>A token id that is no number is the id of no token of the registry.\<close>

definition program_ready :: "('w, 'i, 't, 'g) session \<Rightarrow> cli_settings \<Rightarrow> ('w, program_state \<times> int) io" where
  "program_ready s settings = (case optTokenId settings of
     Fin q \<Rightarrow> bindIO (ensureProgramReady s (floor q) (optTokenMint settings)) (\<lambda>state. returnIO (state, floor q))
   | other \<Rightarrow> bindIO (sesGlobalConfig s (config_pda s)) (\<lambda>_. bindIO (sesTokenRegistry s (registry_pda s)) (\<lambda>_.
       throwErrorIO (''Token id '' @ number_text (\<lambda>_. '''') other @
         '' is not allowlisted on-chain. Run deployment with RYVO_ALLOWLIST_TOKENS first.''))))"

definition fund_or_reuse ::
  "('w, 'i, 't, 'g) session \<Rightarrow> keypair \<Rightarrow> cli_settings \<Rightarrow> nat \<Rightarrow> demo_wallet list \<Rightarrow> ('w, demo_wallet list) io" where
  "fund_or_reuse s deployer settings decimals wallets =
     (if optSkipFunding settings then ensureWalletTokenAccounts s deployer wallets (optTokenMint settings)
      else fundDemoWallets s deployer wallets (optTokenMint settings) decimals (num_of_double (optSolPerWallet settings))
        (num_of_double (optTokensPerWallet settings)))"

text \<open>What the printed capacity analysis measures: the shapes requested and achieved in the two searches.\<close>

definition logClearingRoundCapacityAnalysis :: "sizing \<Rightarrow> pubkey \<Rightarrow> multilateral_result \<Rightarrow> multilateral_result \<Rightarrow> unit js" where
  "logClearingRoundCapacityAnalysis lib programId participantsResult channelsResult =
     (let measure = (\<lambda>shape participantDefault channelDefault. measureClearingRoundCapacity lib
            \<lparr>capacityProgramId = programId, capacityMode = HypotheticalBlsV0Alt, packetDataSize = None, aggregateBytes = None\<rparr>
            (case shape of Some s \<Rightarrow> shapeParticipantCount s | None \<Rightarrow> participantDefault)
            (case shape of Some s \<Rightarrow> shapeChannelCount s | None \<Rightarrow> channelDefault));
          requested = (\<lambda>r. measure (requestedShape (resultBenchmark r)) (participantCount (resultBenchmark r)) (channelCount (resultBenchmark r)));
          achieved = (\<lambda>r. measure (achievedShape (resultBenchmark r)) (participantCount (resultBenchmark r)) (settledChannelCount r)) in
      bindR (requested participantsResult) (\<lambda>_. bindR (achieved participantsResult) (\<lambda>_.
      bindR (requested channelsResult) (\<lambda>_. bindR (achieved channelsResult) (\<lambda>_. Inr ())))))"

definition logFinalSummary :: "('w, 'i, 't, 'g) session \<Rightarrow> demo_wallet list \<Rightarrow> int \<Rightarrow> ('w, demo_wallet list) io" where
  "logFinalSummary s wallets token =
     mapIO (\<lambda>wallet. bindIO (internal_balance s wallet token) (\<lambda>(_, wallet).
       bindIO (sesTokenAmount s (tokenAccount wallet)) (\<lambda>_. returnIO wallet))) wallets"

text \<open>The scenarios in their order: their results, and the wallets as they have been updated.\<close>

record scenario_results =
  resultSingle :: scenario_result
  resultBatch :: scenario_result
  resultRouted :: scenario_result
  resultParticipants :: multilateral_result
  resultChannels :: "multilateral_result option"
  resultLogPath :: string
  resultWallets :: "demo_wallet list"

definition run_scenarios ::
  "('w, 'g, 'i, 't) stage \<Rightarrow> cli_options \<Rightarrow> program_state \<Rightarrow> int \<Rightarrow> disk \<Rightarrow> string \<Rightarrow> string \<Rightarrow> demo_wallet list \<Rightarrow>
    ('w, scenario_results) io" where
  "run_scenarios st options readiness token d repoRoot run wallets =
     (let settings = cliSettings options; p = cliScenarios options; domain = stateMessageDomain readiness;
          decimals = stateDecimals readiness; symbol = optTokenSymbol settings in
      bindIO (runSingleCommitmentScenario st domain token symbol decimals (wallets ! 0) (wallets ! 1)
        (optSingleCommitmentCount p) (num_of_double (optSingleCommitmentAmount p))) (\<lambda>(single, payer, payee).
      let wallets = map (refreshed [payer, payee]) wallets in
      bindIO (runBatchCommitmentScenario st domain token symbol decimals (drop 1 wallets) (wallets ! 0)
        (optBatchCommitmentBatchCount p) (optBatchCommitmentBatchSize p) (num_of_double (optBatchCommitmentAmount p)))
        (\<lambda>(batch, payers, payee).
      let wallets = map (refreshed (payee # payers)) wallets in
      bindIO (runAtomicRoutedClearingScenario st domain token symbol decimals (wallets ! 3) (wallets ! 4) (wallets ! 5)
        (Float 1 0) (stateVault readiness)) (\<lambda>(routed, payer, middleman, recipient).
      let wallets = map (refreshed [payer, middleman, recipient]) wallets in
      bindIO (prepareMultilateralSearchContext st domain token symbol decimals wallets (stateVault readiness) d repoRoot options run)
        (\<lambda>context.
      bindIO (runBinarySearchMultilateralScenario (stageBench st) context
        \<lparr>scenarioId = ''blsMaxParticipantsClearing'',
         scenarioTitle = ''Scenario 5/6 - BLS Clearing Round (Max Participants v0 + ALT)'', scenarioMode = MaxParticipants,
         fullParticipantSet = fullParticipants context, lowerBound = 3, upperBound = int (length wallets)\<rparr>)
        (\<lambda>(maxParticipants, context).
      bindIO (if optSkipMaxChannels settings then returnIO (None, context)
        else bindIO (runAdaptiveMaxChannelsScenario (stageBench st) context ''blsMaxChannelsClearing''
          ''Scenario 6/6 - BLS Clearing Round (Max Channels v0 + ALT)'') (\<lambda>(r, context). returnIO (Some r, context)))
        (\<lambda>(maxChannels, context).
      returnIO \<lparr>resultSingle = single, resultBatch = batch, resultRouted = routed, resultParticipants = maxParticipants,
        resultChannels = maxChannels, resultLogPath = resultsLogPath context, resultWallets = fullParticipants context\<rparr>)))))))"

definition result_benchmarks :: "scenario_results \<Rightarrow> benchmark_scenario list" where
  "result_benchmarks r =
     [scenarioBenchmark (resultSingle r), scenarioBenchmark (resultBatch r), scenarioBenchmark (resultRouted r),
      resultBenchmark (resultParticipants r)] @
     (case resultChannels r of None \<Rightarrow> [] | Some c \<Rightarrow> [resultBenchmark c])"

definition result_signatures :: "scenario_results \<Rightarrow> (string \<times> string option) list" where
  "result_signatures r =
     [(''singleCommitment'', scenarioSignature (resultSingle r)), (''batchCommitment'', scenarioSignature (resultBatch r)),
      (''atomicRoutedClearing'', scenarioSignature (resultRouted r)),
      (''blsMaxParticipantsClearing'', Some (primarySignature (resultParticipants r)))] @
     (case resultChannels r of None \<Rightarrow> [] | Some c \<Rightarrow> [(''blsMaxChannelsClearing'', Some (primarySignature c))])"

text \<open>From the prepared wallets to the wallets the scenarios use: funded, registered and with their deposits.\<close>

definition prepare_chain ::
  "('w, 'i, 't, 'g) session \<Rightarrow> keypair \<Rightarrow> cli_options \<Rightarrow> program_state \<Rightarrow> int \<Rightarrow> demo_wallet list \<Rightarrow> ('w, demo_wallet list) io" where
  "prepare_chain s deployer options readiness token wallets =
     bindIO (fund_or_reuse s deployer (cliSettings options) (stateDecimals readiness) wallets) (\<lambda>wallets.
     bindIO (ensureParticipants s (stateFeeRecipient readiness) wallets (optSkipParticipantInit (cliSettings options))) (\<lambda>wallets.
     bindIO (ensureParticipantBlsKeys s (stateMessageDomain readiness) wallets) (\<lambda>_.
     ensureDeposits s wallets token (stateDecimals readiness) (stateVault readiness)
       (js_map (map (\<lambda>(name, amount). (name, num_of_double amount)) (cliDepositPlan options)))
       (optSkipDeposits (cliSettings options)))))"

definition save_run_manifests :: "(rat \<Rightarrow> string) \<Rightarrow> string \<Rightarrow> string \<Rightarrow> jsv \<Rightarrow> (disk, unit) io" where
  "save_run_manifests showNumber repoRoot run manifest =
     bindIO (saveRunManifest showNumber (path_join [repoRoot, ''config'', ''ryvo-protocol-demo-'' @ run @ ''.json'']) manifest) (\<lambda>_.
     saveRunManifest showNumber (path_join [repoRoot, ''config'', ''ryvo-protocol-demo-last-run.json'']) manifest)"

definition run_demo :: "('w, 'g, 'i, 't) host \<Rightarrow> cli_options \<Rightarrow> string \<Rightarrow> keypair \<Rightarrow> pubkey \<Rightarrow> ('w \<times> disk, unit) io" where
  "run_demo host options rpcEndpoint deployer programId =
     (let st = (hostConnect host rpcEndpoint deployer programId)\<lparr>stageProviderPayer := Some deployer\<rparr>; s = stageSession st;
          tools = hostTools host; settings = cliSettings options in
      bindIO (liftIO (summarizeClearingRoundCapacity (hostSizing host) programId None)) (\<lambda>_.
      if inferNetwork rpcEndpoint \<noteq> ''devnet'' then
        throwErrorIO (''This showcase is wired for Solana devnet because the provided mint '' @ toolShowKey tools (optTokenMint settings) @
          '' is a devnet mint. Connected RPC: '' @ rpcEndpoint)
      else
      bindIO (on_chain (program_ready s settings)) (\<lambda>(readiness, token).
      with_disk (\<lambda>d. let repoRoot = diskCwd d in
      bindIO (on_disk (prepareDemoWallets tools settings repoRoot)) (\<lambda>prepared.
      bindIO (liftIO (selectActiveWallets (preparedWallets prepared) (optActiveWalletNames settings))) (\<lambda>wallets.
      with_disk (\<lambda>d. let walletManifestPath = resolveDefaultWalletManifestPath d repoRoot (optWalletManifestPath settings);
          reused = (case preparedManifestPath prepared of Some p \<Rightarrow> Some p | None \<Rightarrow> optReuseManifestPath settings);
          run = \<lparr>runEndpoint = rpcEndpoint, runProgramId = programId, runDeployer = publicKey deployer,
            runTokenId = optTokenId settings, runTokenSymbol = optTokenSymbol settings, runTokenMint = optTokenMint settings,
            runDecimals = int (stateDecimals readiness), runVault = stateVault readiness,
            runFeeRecipient = stateFeeRecipient readiness, runRunId = preparedRunId prepared, runReusedFrom = reused\<rparr> in
      bindIO (on_disk (saveWalletManifest tools walletManifestPath run (preparedWallets prepared))) (\<lambda>_.
      bindIO (on_chain (prepare_chain s deployer options readiness token wallets)) (\<lambda>wallets.
      bindIO (on_disk (saveWalletManifest tools walletManifestPath run (map (refreshed wallets) (preparedWallets prepared)))) (\<lambda>_.
      with_disk (\<lambda>d.
      bindIO (on_chain (run_scenarios st options readiness token d repoRoot (preparedRunId prepared) wallets)) (\<lambda>results.
      bindIO (liftIO (case resultChannels results of None \<Rightarrow> Inr () | Some channelsResult \<Rightarrow>
        logClearingRoundCapacityAnalysis (hostSizing host) programId (resultParticipants results) channelsResult)) (\<lambda>_.
      bindIO (on_chain (logFinalSummary s (resultWallets results) token)) (\<lambda>wallets.
      let manifest = run_manifest tools \<lparr>demoOptions = options, demoRun = run, demoMessageDomain = stateMessageDomain readiness,
            demoWalletManifest = walletManifestPath, demoResultsLog = resultLogPath results, demoWallets = wallets,
            demoBenchmarks = result_benchmarks results, demoSignatures = result_signatures results\<rparr> in
      on_disk (save_run_manifests (toolShowNumber tools) repoRoot (preparedRunId prepared) manifest)))))))))))))))"

definition main :: "('w, 'g, 'i, 't) host \<Rightarrow> string list \<Rightarrow> ('w \<times> disk, unit) io" where
  "main host argv =
     with_disk (\<lambda>d. bindIO (on_disk (loadProjectRpcEnv (hostEnv host) (diskCwd d))) (\<lambda>env.
     let host = host\<lparr>hostEnv := env\<rparr> in
     bindIO (on_disk (parseArgs (toolShowNumber (hostTools host)) (toolParseKey (hostTools host)) env argv)) (\<lambda>parsed.
     case parsed of None \<Rightarrow> returnIO () | Some options \<Rightarrow>
     bindIO (on_disk (loadProvider host)) (\<lambda>(rpcEndpoint, deployer).
     bindIO (on_disk (loadProgram host rpcEndpoint)) (\<lambda>programId.
     run_demo host options rpcEndpoint deployer programId)))))"

section \<open>The environment file\<close>

text \<open>
  The environment file fills in what is missing: a variable that is already set keeps its text, any other has
  the text of the first line of the file that assigns it.
\<close>

theorem environment_precedence:
  "fold load_env_line lines env = map_of (List.map_filter parseEnvLine lines) ++ env"
proof (induction lines arbitrary: env)
  case (Cons line lines)
  show ?case
    using Cons.IH [of "load_env_line line env"]
    by (auto simp: load_env_line_def List.map_filter_def map_add_def fun_eq_iff split: option.splits)
qed (simp add: List.map_filter_def)

section \<open>Nothing is sent off devnet\<close>

text \<open>Steps that leave the world they start in, and their composition.\<close>

named_theorems reading

definition still :: "('a js \<times> 'd) option \<Rightarrow> 'd \<Rightarrow> bool" where
  "still outcome d \<longleftrightarrow> (\<forall>r d'. outcome = Some (r, d') \<longrightarrow> d' = d)"

abbreviation reads_at :: "('d, 'a) io \<Rightarrow> 'd \<Rightarrow> bool" where
  "reads_at m d \<equiv> still (m d) d"

lemma reads_Some [reading, simp]: "still (Some (r, d)) d"
  by (simp add: still_def)

lemma reads_liftIO [reading]: "reads_at (liftIO r) d"
  by (simp add: still_def)

lemma reads_returnIO [reading]: "reads_at (returnIO x) d"
  by (simp add: still_def)

lemma reads_throwErrorIO [reading]: "reads_at (throwErrorIO e) d"
  by (simp add: still_def throwErrorIO_def)

lemma reads_bindIO [reading]: "reads_at m d \<Longrightarrow> (\<And>x. m d = Some (Inr x, d) \<Longrightarrow> reads_at (f x) d) \<Longrightarrow> reads_at (bindIO m f) d"
  by (auto simp: still_def bindIO_def split: option.splits sum.splits)

lemma reads_if [reading]: "(b \<Longrightarrow> still x d) \<Longrightarrow> (\<not> b \<Longrightarrow> still y d) \<Longrightarrow> still (if b then x else y) d"
  by simp

lemma reads_on_disk [reading]: "reads_at m (snd wd) \<Longrightarrow> reads_at (on_disk m) wd"
  by (auto simp: still_def on_disk_def)

lemma reads_with_disk [reading]: "reads_at (f (snd wd)) wd \<Longrightarrow> reads_at (with_disk f) wd"
  by (simp add: still_def with_disk_def)

lemma reads_file [reading]: "reads_at (readFileSync p) d"
  by (simp add: still_def readFileSync_def)

lemma reads_loadConfigFile [reading]: "reads_at (loadConfigFile folder p) d"
  unfolding loadConfigFile_def Let_def by (intro reading)

lemma reads_loadKeypair [reading]: "reads_at (loadKeypair tools p) d"
  unfolding loadKeypair_def by (intro reading)

lemma reads_loadProjectRpcEnv [reading]: "reads_at (loadProjectRpcEnv env folder) d"
  unfolding loadProjectRpcEnv_def Let_def by (intro reading)

lemma reads_parseArgs [reading]: "reads_at (parseArgs showNumber key env argv) d"
  unfolding parseArgs_def Let_def by (intro reading)

lemma reads_loadProvider [reading]: "reads_at (loadProvider host) d"
  unfolding loadProvider_def Let_def by (intro reading)

lemma provider_endpoint:
  "loadProvider host d = Some (Inr (endpoint, deployer), d') \<Longrightarrow>
    endpoint = or_else (hostEnv host ''ANCHOR_PROVIDER_URL'') (resolveProjectRpcUrl (hostEnv host) ''devnet'')"
  by (auto simp: loadProvider_def Let_def throwErrorIO_def elim!: bindIO_InrE split: if_splits)

lemma reads_resolveProgramId [reading]: "reads_at (resolveProgramId host url idl) d"
proof -
  have idl: "reads_at (bindIO (liftIO a) (\<lambda>address. case address of
        Some (VText s) \<Rightarrow> if s \<noteq> [] then liftIO (parse s) else throwErrorIO e | _ \<Rightarrow> throwErrorIO e)) d"
    for a and parse :: "string \<Rightarrow> pubkey js" and e
    by (intro reading) (auto intro: reading split: option.splits jsv.splits)
  have toml: "reads_at (bindIO (readFileSync p) (\<lambda>content. case f content of Some name \<Rightarrow> liftIO (parse name) | None \<Rightarrow> m)) d"
    if "reads_at m d" for p and f :: "string \<Rightarrow> string option" and parse :: "string \<Rightarrow> pubkey js" and m
    by (intro reading) (auto intro: reading that split: option.splits)
  show ?thesis
    unfolding resolveProgramId_def Let_def
    by (cases "env_text (map_option js_trim \<circ> hostEnv host) ''RYVO_PROGRAM_ID''") (simp_all add: idl toml)
qed

lemma reads_loadProgram [reading]: "reads_at (loadProgram host url) d"
  unfolding loadProgram_def by (intro reading)

lemma off_devnet:
  assumes "inferNetwork url \<noteq> ''devnet''"
  shows "reads_at (run_demo host options url deployer programId) wd"
  using assms unfolding run_demo_def Let_def by (auto intro!: reading)

text \<open>
  C11: \<open>main\<close> changes neither the cluster nor the disk, whatever the command line, the files and the answers of the
  cluster are, unless the endpoint it has resolved is one of devnet: \<open>ANCHOR_PROVIDER_URL\<close>, or what
  \<open>resolveProjectRpcUrl\<close> gives, in the environment that the environment file has completed.
\<close>

theorem chain_only_on_devnet:
  "case main host argv (w, d) of None \<Rightarrow> True | Some (r, (w', d')) \<Rightarrow>
     (w' = w \<and> d' = d)
     \<or> (\<exists>env endpoint. loadProjectRpcEnv (hostEnv host) (diskCwd d) d = Some (Inr env, d)
         \<and> endpoint = or_else (env ''ANCHOR_PROVIDER_URL'') (resolveProjectRpcUrl env ''devnet'')
         \<and> inferNetwork endpoint = ''devnet'')"
proof -
  let ?devnet = "\<lambda>env. inferNetwork (or_else (env ''ANCHOR_PROVIDER_URL'') (resolveProjectRpcUrl env ''devnet'')) = ''devnet''"
  have "reads_at (main host argv) (w, d)"
    if off: "\<And>env. loadProjectRpcEnv (hostEnv host) (diskCwd d) d = Some (Inr env, d) \<Longrightarrow> \<not> ?devnet env"
    unfolding main_def
  proof (intro reading)
    fix env assume "on_disk (loadProjectRpcEnv (hostEnv host) (diskCwd (snd (w, d)))) (w, d) = Some (Inr env, w, d)"
    then have env: "loadProjectRpcEnv (hostEnv host) (diskCwd d) d = Some (Inr env, d)" by (auto simp: on_disk_def)
    let ?host = "host\<lparr>hostEnv := env\<rparr>"
    have demo: "reads_at (case provider of (url, deployer) \<Rightarrow> bindIO (on_disk (loadProgram ?host url)) (\<lambda>programId.
        run_demo ?host options url deployer programId)) (w, d)"
      if provider: "on_disk (loadProvider ?host) (w, d) = Some (Inr provider, w, d)" for provider options
    proof (cases provider)
      case (Pair url deployer)
      then have "url = or_else (env ''ANCHOR_PROVIDER_URL'') (resolveProjectRpcUrl env ''devnet'')"
        using provider_endpoint [of ?host d url deployer d] provider by (auto simp: on_disk_def)
      then have "inferNetwork url \<noteq> ''devnet''" using off [OF env] by simp
      then show ?thesis unfolding Pair prod.case by (intro reading off_devnet)
    qed
    show "reads_at (let host = ?host in bindIO (on_disk (parseArgs (toolShowNumber (hostTools host)) (toolParseKey (hostTools host)) env argv))
      (\<lambda>parsed. case parsed of None \<Rightarrow> returnIO () | Some options \<Rightarrow> bindIO (on_disk (loadProvider host)) (\<lambda>(rpcEndpoint, deployer).
        bindIO (on_disk (loadProgram host rpcEndpoint)) (\<lambda>programId. run_demo host options rpcEndpoint deployer programId)))) (w, d)"
      unfolding Let_def
    proof (intro reading)
      fix parsed
      show "reads_at (case parsed of None \<Rightarrow> returnIO () | Some options \<Rightarrow> bindIO (on_disk (loadProvider ?host)) (\<lambda>(rpcEndpoint, deployer).
        bindIO (on_disk (loadProgram ?host rpcEndpoint)) (\<lambda>programId. run_demo ?host options rpcEndpoint deployer programId))) (w, d)"
        by (cases parsed) (simp, simp only: option.case, intro reads_bindIO demo reads_on_disk reads_loadProvider)
    qed
  qed
  then show ?thesis by (auto simp: still_def split: option.splits)
qed

end
