(* ===== verification/Config.thy ===== *)
theory Config
  imports ChannelBucket "HOL-Library.Sublist"
begin

text \<open>
  The two global accounts of the program: \<open>GlobalConfig\<close> (\<open>state/config.rs\<close>) and \<open>TokenRegistry\<close>
  (\<open>state/token_registry.rs\<close>), with the instructions that write them (\<open>instructions/initialize.rs\<close>,
  \<open>update_config.rs\<close>, \<open>token_registry.rs\<close>). A ledger holds both; an instruction gives a new ledger or fails,
  with an error of the program or because one of Anchor's account constraints does not hold. What the runtime
  knows besides is \<open>runtime\<close>: SHA-256, the upgrade authority, the decimals of mints, which accounts are owned
  by the system program or executable, and the clock. The vault that \<open>register_token\<close> creates, and events, have
  no state here.
\<close>

section \<open>The accounts\<close>

record config_account =
  cfgAuthority :: pubkey
  cfgFeeRecipient :: pubkey
  cfgFeeBps :: u16
  cfgWithdrawalTimelockSeconds :: int
  cfgRegistrationFeeLamports :: u64
  cfgNextParticipantId :: u32
  cfgChainId :: u16
  cfgMessageDomain :: bytes
  cfgPendingAuthority :: pubkey
  cfgChannelUnlockTimelockSeconds :: int

record token_entry =
  entryId :: u16
  entryMint :: pubkey
  entryDecimals :: byte
  entrySymbol :: bytes
  entryRegisteredAt :: u64
  entryKind :: byte

record registry_account =
  regAuthority :: pubkey
  regTokens :: "token_entry list"
  regPendingAuthority :: pubkey
  regDataLen :: nat

record ledger =
  ledConfig :: "config_account option"
  ledRegistry :: "registry_account option"

record runtime =
  rtSha256 :: "bytes \<Rightarrow> bytes"
  rtProgramId :: pubkey
  rtUpgradeAuthority :: "pubkey option"
  rtMintDecimals :: "pubkey \<Rightarrow> byte option"
  rtSystemOwned :: "pubkey \<Rightarrow> bool"
  rtExecutable :: "pubkey \<Rightarrow> bool"
  rtClock :: u64

text \<open>An error of the program, or an account constraint that Anchor checks before the handler.\<close>

datatype anchor_error = Vault vault_error | Constraint

definition on_handler :: "'a vres \<Rightarrow> anchor_error + 'a" where
  "on_handler r = (case r of Inl e \<Rightarrow> Inl (Vault e) | Inr x \<Rightarrow> Inr x)"

section \<open>Constants\<close>

definition MIN_FEE_BPS :: u16 where "MIN_FEE_BPS = 3"
definition MAX_FEE_BPS :: u16 where "MAX_FEE_BPS = 30"
definition MIN_REGISTRATION_FEE_LAMPORTS :: u64 where "MIN_REGISTRATION_FEE_LAMPORTS = 1000000"
definition MAX_REGISTRATION_FEE_LAMPORTS :: u64 where "MAX_REGISTRATION_FEE_LAMPORTS = 10000000"
definition CONFIG_DOMAIN_TAG :: bytes where "CONFIG_DOMAIN_TAG = ascii ''ryvo-message-domain-v1''"
definition CHANNEL_UNLOCK_TIMELOCK_SECONDS :: int where "CHANNEL_UNLOCK_TIMELOCK_SECONDS = 259200"
definition LOCALNET_CHANNEL_UNLOCK_TIMELOCK_SECONDS :: int where "LOCALNET_CHANNEL_UNLOCK_TIMELOCK_SECONDS = 2"
definition MAX_TOKEN_DECIMALS :: byte where "MAX_TOKEN_DECIMALS = 20"
definition TOKEN_ENTRY_SPACE :: nat where "TOKEN_ENTRY_SPACE = 56"
definition REGISTRY_BASE_SPACE :: nat where "REGISTRY_BASE_SPACE = 8 + 32 + 4 + 1 + 32"
definition MAX_TOKENS :: nat where "MAX_TOKENS = 181"
definition DEFAULT_PROTOCOL_YIELD_SHARE_BPS :: u16 where "DEFAULT_PROTOCOL_YIELD_SHARE_BPS = 3333"
definition MAX_PROTOCOL_YIELD_SHARE_BPS :: u16 where "MAX_PROTOCOL_YIELD_SHARE_BPS = 5000"
definition REGISTRY_SPACE :: nat where "REGISTRY_SPACE = REGISTRY_BASE_SPACE + MAX_TOKENS * TOKEN_ENTRY_SPACE"

section \<open>The global configuration\<close>

definition withdrawal_timelock_for_chain_id :: "u16 \<Rightarrow> int vres" where
  "withdrawal_timelock_for_chain_id chain_id =
     (if chain_id \<in> {0, 1, 2, 3} then Inr 0 else Inl InvalidChainId)"

definition channel_unlock_timelock_for_chain_id :: "u16 \<Rightarrow> int vres" where
  "channel_unlock_timelock_for_chain_id chain_id =
     (if chain_id = 3 then Inr LOCALNET_CHANNEL_UNLOCK_TIMELOCK_SECONDS
      else if chain_id \<in> {0, 1, 2} then Inr CHANNEL_UNLOCK_TIMELOCK_SECONDS
      else Inl InvalidChainId)"

definition effective_channel_unlock_timelock_seconds :: "config_account \<Rightarrow> int vres" where
  "effective_channel_unlock_timelock_seconds config =
     (if 0 < cfgChannelUnlockTimelockSeconds config then Inr (cfgChannelUnlockTimelockSeconds config)
      else channel_unlock_timelock_for_chain_id (cfgChainId config))"

definition derive_message_domain :: "(bytes \<Rightarrow> bytes) \<Rightarrow> pubkey \<Rightarrow> u16 \<Rightarrow> bytes" where
  "derive_message_domain sha256 program_id chain_id =
     take 16 (sha256 (CONFIG_DOMAIN_TAG @ program_id @ le_bytes 2 (unat chain_id)))"

definition resolve_bootstrap_authorities :: "pubkey \<Rightarrow> pubkey option \<Rightarrow> (pubkey \<times> pubkey) vres" where
  "resolve_bootstrap_authorities upgrade_authority initial_authority =
     requireR (upgrade_authority \<noteq> default_pubkey) InvalidAuthority (
     let nominated_authority = (case initial_authority of Some a \<Rightarrow> a | None \<Rightarrow> upgrade_authority) in
     requireR (nominated_authority \<noteq> default_pubkey) InvalidAuthority (
     Inr (upgrade_authority, if nominated_authority = upgrade_authority then default_pubkey else nominated_authority)))"

definition fee_allowed :: "u16 \<Rightarrow> bool" where
  "fee_allowed bps \<longleftrightarrow> MIN_FEE_BPS \<le> bps \<and> bps \<le> MAX_FEE_BPS"

definition registration_fee_allowed :: "u64 \<Rightarrow> bool" where
  "registration_fee_allowed lamports \<longleftrightarrow> lamports = 0
     \<or> (MIN_REGISTRATION_FEE_LAMPORTS \<le> lamports \<and> lamports \<le> MAX_REGISTRATION_FEE_LAMPORTS)"

text \<open>The handler of \<open>initialize\<close>: the configuration it writes into the new account.\<close>

definition initialize_config ::
  "runtime \<Rightarrow> u16 \<Rightarrow> u16 \<Rightarrow> u64 \<Rightarrow> pubkey option \<Rightarrow> pubkey \<Rightarrow> pubkey \<Rightarrow> config_account vres" where
  "initialize_config rt chain_id fee_bps registration_fee initial_authority fee_recipient upgrade_authority =
     requireR (fee_allowed fee_bps) InvalidFeeBps (
     requireR (fee_recipient \<noteq> default_pubkey) InvalidFeeRecipient (
     requireR (registration_fee_allowed registration_fee) InvalidRegistrationFee (
     bindR (resolve_bootstrap_authorities upgrade_authority initial_authority) (\<lambda>(authority, pending_authority).
     bindR (withdrawal_timelock_for_chain_id chain_id) (\<lambda>withdrawal.
     bindR (channel_unlock_timelock_for_chain_id chain_id) (\<lambda>unlock.
     Inr \<lparr>cfgAuthority = authority, cfgFeeRecipient = fee_recipient, cfgFeeBps = fee_bps,
       cfgWithdrawalTimelockSeconds = withdrawal, cfgRegistrationFeeLamports = registration_fee,
       cfgNextParticipantId = 0, cfgChainId = chain_id,
       cfgMessageDomain = derive_message_domain (rtSha256 rt) (rtProgramId rt) chain_id,
       cfgPendingAuthority = pending_authority, cfgChannelUnlockTimelockSeconds = unlock\<rparr>))))))"

definition update_config ::
  "runtime \<Rightarrow> pubkey option \<Rightarrow> pubkey option \<Rightarrow> u16 option \<Rightarrow> u64 option \<Rightarrow> pubkey list \<Rightarrow> config_account \<Rightarrow> config_account vres" where
  "update_config rt new_authority new_fee_recipient new_fee_bps new_registration_fee remaining_accounts config =
     bindR (case new_authority of None \<Rightarrow> Inr config
       | Some a \<Rightarrow> requireR (a \<noteq> default_pubkey) InvalidAuthority (Inr (config\<lparr>cfgPendingAuthority := a\<rparr>))) (\<lambda>config.
     bindR (case new_fee_recipient of None \<Rightarrow> Inr config
       | Some f \<Rightarrow> requireR (f \<noteq> default_pubkey) InvalidFeeRecipient (
           case remaining_accounts of [] \<Rightarrow> Inl InvalidFeeRecipient
           | account # _ \<Rightarrow> requireR (account = f) InvalidFeeRecipient (
               requireR (rtSystemOwned rt account \<and> \<not> rtExecutable rt account) InvalidFeeRecipient (Inr (config\<lparr>cfgFeeRecipient := f\<rparr>))))) (\<lambda>config.
     bindR (case new_fee_bps of None \<Rightarrow> Inr config
       | Some bps \<Rightarrow> requireR (fee_allowed bps) InvalidFeeBps (Inr (config\<lparr>cfgFeeBps := bps\<rparr>))) (\<lambda>config.
     case new_registration_fee of None \<Rightarrow> Inr config
       | Some r \<Rightarrow> requireR (registration_fee_allowed r) InvalidRegistrationFee
           (Inr (config\<lparr>cfgRegistrationFeeLamports := r\<rparr>)))))"

definition accept_config_authority :: "pubkey \<Rightarrow> config_account \<Rightarrow> config_account vres" where
  "accept_config_authority signer config =
     requireR (cfgPendingAuthority config \<noteq> default_pubkey) NoPendingAuthorityTransfer (
     requireR (cfgPendingAuthority config = signer) UnauthorizedPendingAuthority (
     Inr (config\<lparr>cfgAuthority := signer, cfgPendingAuthority := default_pubkey\<rparr>)))"

section \<open>The token registry\<close>

definition initialize_token_registry :: "pubkey \<Rightarrow> registry_account" where
  "initialize_token_registry authority =
     \<lparr>regAuthority = authority, regTokens = [], regPendingAuthority = default_pubkey, regDataLen = REGISTRY_SPACE\<rparr>"

definition is_token_registered :: "registry_account \<Rightarrow> u16 \<Rightarrow> bool" where
  "is_token_registered registry token_id \<longleftrightarrow> (\<exists>entry \<in> set (regTokens registry). entryId entry = token_id)"

definition is_mint_registered :: "registry_account \<Rightarrow> pubkey \<Rightarrow> bool" where
  "is_mint_registered registry mint \<longleftrightarrow> (\<exists>entry \<in> set (regTokens registry). entryMint entry = mint)"

definition required_space :: "nat \<Rightarrow> nat vres" where
  "required_space token_count =
     (let entries_space = token_count * TOKEN_ENTRY_SPACE in
      if entries_space \<ge> 2 ^ 64 \<or> REGISTRY_BASE_SPACE + entries_space \<ge> 2 ^ 64 then Inl MathOverflow
      else Inr (REGISTRY_BASE_SPACE + entries_space))"

definition symbol_allowed :: "bytes \<Rightarrow> bool" where
  "symbol_allowed symbol \<longleftrightarrow> (\<forall>b \<in> set symbol. b < 128) \<and> (\<exists>b \<in> set symbol. b \<noteq> 0)"

definition register_token ::
  "runtime \<Rightarrow> u16 \<Rightarrow> bytes \<Rightarrow> pubkey \<Rightarrow> byte \<Rightarrow> pubkey \<Rightarrow> registry_account \<Rightarrow> registry_account vres" where
  "register_token rt token_id symbol_bytes mint decimals authority registry =
     requireR (authority = regAuthority registry) UnauthorizedTokenRegistration (
     requireR (0 < token_id) InvalidTokenId (
     requireR (\<not> is_token_registered registry token_id) TokenIdAlreadyInUse (
     requireR (\<not> is_mint_registered registry mint) TokenAlreadyRegistered (
     requireR (decimals \<le> MAX_TOKEN_DECIMALS) InvalidTokenDecimals (
     requireR (symbol_allowed symbol_bytes) InvalidTokenSymbol (
     bindR (required_space (length (regTokens registry) + 1)) (\<lambda>space.
     requireR (space \<le> regDataLen registry) TokenRegistryFull (
     Inr (registry\<lparr>regTokens := regTokens registry @
       [\<lparr>entryId = token_id, entryMint = mint, entryDecimals = decimals, entrySymbol = symbol_bytes,
         entryRegisteredAt = rtClock rt, entryKind = 0\<rparr>]\<rparr>)))))))))"

text \<open>
  \<open>register_yield_bearing_token\<close>, as far as it concerns the registry, with the reserve of the yield program and the
  share of the yield that the strategy will give the protocol.
\<close>

record yield_reserve =
  reserveUnderlyingMint :: pubkey
  reserveShareMint :: pubkey
  reserveLiquidityVault :: pubkey

definition register_yield_bearing_token ::
  "runtime \<Rightarrow> u16 \<Rightarrow> bytes \<Rightarrow> u16 \<Rightarrow> pubkey \<Rightarrow> byte \<Rightarrow> yield_reserve \<Rightarrow> pubkey \<Rightarrow> pubkey \<Rightarrow> pubkey \<Rightarrow>
   registry_account \<Rightarrow> (registry_account \<times> u16) vres" where
  "register_yield_bearing_token rt token_id symbol_bytes share_bps underlying decimals reserve share_mint liquidity_vault authority registry =
     requireR (authority = regAuthority registry) UnauthorizedTokenRegistration (
     requireR (0 < token_id) InvalidTokenId (
     requireR (\<not> is_token_registered registry token_id) TokenIdAlreadyInUse (
     requireR (symbol_allowed symbol_bytes) InvalidTokenSymbol (
     requireR (decimals \<le> MAX_TOKEN_DECIMALS) InvalidTokenDecimals (
     let bps = (if share_bps = 0 then DEFAULT_PROTOCOL_YIELD_SHARE_BPS else share_bps) in
     requireR (bps \<le> MAX_PROTOCOL_YIELD_SHARE_BPS) InvalidProtocolYieldShareBps (
     requireR (reserveUnderlyingMint reserve = underlying) YieldUnderlyingMismatch (
     requireR (reserveShareMint reserve = share_mint) InvalidYieldStrategy (
     requireR (reserveLiquidityVault reserve = liquidity_vault) InvalidYieldStrategy (
     bindR (required_space (length (regTokens registry) + 1)) (\<lambda>space.
     requireR (space \<le> regDataLen registry) TokenRegistryFull (
     Inr (registry\<lparr>regTokens := regTokens registry @
       [\<lparr>entryId = token_id, entryMint = underlying, entryDecimals = decimals, entrySymbol = symbol_bytes,
         entryRegisteredAt = rtClock rt, entryKind = 1\<rparr>]\<rparr>, bps))))))))))))"

definition update_registry_authority :: "pubkey \<Rightarrow> pubkey \<Rightarrow> registry_account \<Rightarrow> registry_account vres" where
  "update_registry_authority new_authority current_authority registry =
     requireR (current_authority = regAuthority registry) UnauthorizedTokenRegistration (
     requireR (new_authority \<noteq> default_pubkey) InvalidAuthority (
     Inr (registry\<lparr>regPendingAuthority := new_authority\<rparr>)))"

definition accept_registry_authority :: "pubkey \<Rightarrow> registry_account \<Rightarrow> registry_account vres" where
  "accept_registry_authority signer registry =
     requireR (regPendingAuthority registry \<noteq> default_pubkey) NoPendingAuthorityTransfer (
     requireR (regPendingAuthority registry = signer) UnauthorizedPendingAuthority (
     Inr (registry\<lparr>regAuthority := signer, regPendingAuthority := default_pubkey\<rparr>)))"

section \<open>Instructions\<close>

text \<open>
  An instruction with its arguments and the accounts that are no address derived from seeds; the signer comes
  with it. An account that is to be created must not exist, one that is used must.
\<close>

datatype config_instruction =
    Initialize u16 u16 u64 "pubkey option" pubkey
  | UpdateConfig "pubkey option" "pubkey option" "u16 option" "u64 option" "pubkey list"
  | AcceptConfigAuthority
  | InitializeTokenRegistry
  | RegisterToken u16 bytes pubkey
  | RegisterYieldBearingToken u16 bytes u16 pubkey yield_reserve pubkey pubkey
  | UpdateRegistryAuthority pubkey
  | AcceptRegistryAuthority

definition with_config :: "ledger \<Rightarrow> (config_account \<Rightarrow> anchor_error + 'a) \<Rightarrow> anchor_error + 'a" where
  "with_config led f = (case ledConfig led of None \<Rightarrow> Inl Constraint | Some config \<Rightarrow> f config)"

definition with_registry :: "ledger \<Rightarrow> (registry_account \<Rightarrow> anchor_error + 'a) \<Rightarrow> anchor_error + 'a" where
  "with_registry led f = (case ledRegistry led of None \<Rightarrow> Inl Constraint | Some registry \<Rightarrow> f registry)"

definition put_config :: "ledger \<Rightarrow> config_account vres \<Rightarrow> anchor_error + ledger" where
  "put_config led r = bindR (on_handler r) (\<lambda>config. Inr (led\<lparr>ledConfig := Some config\<rparr>))"

definition put_registry :: "ledger \<Rightarrow> registry_account vres \<Rightarrow> anchor_error + ledger" where
  "put_registry led r = bindR (on_handler r) (\<lambda>registry. Inr (led\<lparr>ledRegistry := Some registry\<rparr>))"

fun execute :: "runtime \<Rightarrow> config_instruction \<Rightarrow> pubkey \<Rightarrow> ledger \<Rightarrow> anchor_error + ledger" where
  "execute rt (Initialize chain_id fee_bps registration_fee initial_authority fee_recipient) signer led =
     requireR (ledConfig led = None \<and> rtSystemOwned rt fee_recipient) Constraint (
     requireR (rtUpgradeAuthority rt = Some signer) (Vault UnauthorizedInitializer) (
     put_config led (initialize_config rt chain_id fee_bps registration_fee initial_authority fee_recipient signer)))"
| "execute rt (UpdateConfig new_authority new_fee_recipient new_fee_bps new_registration_fee remaining) signer led =
     with_config led (\<lambda>config. requireR (cfgAuthority config = signer) Constraint (
     put_config led (update_config rt new_authority new_fee_recipient new_fee_bps new_registration_fee remaining config)))"
| "execute rt AcceptConfigAuthority signer led =
     with_config led (\<lambda>config. put_config led (accept_config_authority signer config))"
| "execute rt InitializeTokenRegistry signer led =
     requireR (ledRegistry led = None) Constraint (
     with_config led (\<lambda>config. requireR (cfgAuthority config = signer) (Vault UnauthorizedTokenRegistration) (
     put_registry led (Inr (initialize_token_registry signer)))))"
| "execute rt (RegisterToken token_id symbol_bytes mint) signer led =
     with_registry led (\<lambda>registry. with_config led (\<lambda>config.
     case rtMintDecimals rt mint of None \<Rightarrow> Inl Constraint | Some decimals \<Rightarrow>
     put_registry led (register_token rt token_id symbol_bytes mint decimals signer registry)))"
| "execute rt (RegisterYieldBearingToken token_id symbol_bytes share_bps underlying reserve share_mint liquidity_vault) signer led =
     with_registry led (\<lambda>registry. with_config led (\<lambda>config.
     case rtMintDecimals rt underlying of None \<Rightarrow> Inl Constraint | Some decimals \<Rightarrow>
     put_registry led (bindR (register_yield_bearing_token rt token_id symbol_bytes share_bps underlying decimals reserve share_mint
       liquidity_vault signer registry) (\<lambda>(registry, _). Inr registry))))"
| "execute rt (UpdateRegistryAuthority new_authority) signer led =
     with_registry led (\<lambda>registry. put_registry led (update_registry_authority new_authority signer registry))"
| "execute rt AcceptRegistryAuthority signer led =
     with_registry led (\<lambda>registry. put_registry led (accept_registry_authority signer registry))"

text \<open>Transactions in a row; one that fails leaves the ledger as it is.\<close>

fun run_instructions :: "runtime \<Rightarrow> (config_instruction \<times> pubkey) list \<Rightarrow> ledger \<Rightarrow> ledger" where
  "run_instructions rt [] led = led"
| "run_instructions rt ((instruction, signer) # rest) led =
     run_instructions rt rest (case execute rt instruction signer led of Inl _ \<Rightarrow> led | Inr led' \<Rightarrow> led')"

definition empty_ledger :: ledger where
  "empty_ledger = \<lparr>ledConfig = None, ledRegistry = None\<rparr>"

section \<open>What every ledger keeps\<close>

definition config_ok :: "runtime \<Rightarrow> config_account \<Rightarrow> bool" where
  "config_ok rt config \<longleftrightarrow>
     fee_allowed (cfgFeeBps config) \<and> registration_fee_allowed (cfgRegistrationFeeLamports config)
     \<and> cfgAuthority config \<noteq> default_pubkey \<and> cfgFeeRecipient config \<noteq> default_pubkey
     \<and> cfgMessageDomain config = derive_message_domain (rtSha256 rt) (rtProgramId rt) (cfgChainId config)
     \<and> withdrawal_timelock_for_chain_id (cfgChainId config) = Inr (cfgWithdrawalTimelockSeconds config)
     \<and> channel_unlock_timelock_for_chain_id (cfgChainId config) = Inr (cfgChannelUnlockTimelockSeconds config)"

definition registry_ok :: "registry_account \<Rightarrow> bool" where
  "registry_ok registry \<longleftrightarrow>
     regAuthority registry \<noteq> default_pubkey \<and> regDataLen registry = REGISTRY_SPACE
     \<and> length (regTokens registry) \<le> MAX_TOKENS
     \<and> distinct (map entryId (regTokens registry)) \<and> distinct (map entryMint (filter (\<lambda>entry. entryKind entry = 0) (regTokens registry)))
     \<and> (\<forall>entry \<in> set (regTokens registry). 0 < entryId entry \<and> entryDecimals entry \<le> MAX_TOKEN_DECIMALS
          \<and> symbol_allowed (entrySymbol entry))"

definition ledger_ok :: "runtime \<Rightarrow> ledger \<Rightarrow> bool" where
  "ledger_ok rt led \<longleftrightarrow> pred_option (config_ok rt) (ledConfig led) \<and> pred_option registry_ok (ledRegistry led)"

lemma on_handler_Inr [simp]: "on_handler r = Inr x \<longleftrightarrow> r = Inr x"
  by (cases r) (simp_all add: on_handler_def)

lemma put_config_Inr [simp]: "put_config led r = Inr led' \<longleftrightarrow> (\<exists>config. r = Inr config \<and> led' = led\<lparr>ledConfig := Some config\<rparr>)"
  by (auto simp: put_config_def bindR_eq_Inr)

lemma put_registry_Inr [simp]:
  "put_registry led r = Inr led' \<longleftrightarrow> (\<exists>registry. r = Inr registry \<and> led' = led\<lparr>ledRegistry := Some registry\<rparr>)"
  by (auto simp: put_registry_def bindR_eq_Inr)

lemma with_config_Inr: "with_config led f = Inr x \<longleftrightarrow> (\<exists>config. ledConfig led = Some config \<and> f config = Inr x)"
  by (simp add: with_config_def split: option.splits)

lemma with_registry_Inr: "with_registry led f = Inr x \<longleftrightarrow> (\<exists>registry. ledRegistry led = Some registry \<and> f registry = Inr x)"
  by (simp add: with_registry_def split: option.splits)

lemma requireR_Inr: "requireR b e r = Inr x \<longleftrightarrow> b \<and> r = Inr x"
  by (simp add: requireR_def)

lemmas instruction_iffs = with_config_Inr with_registry_Inr requireR_Inr bindR_eq_Inr

lemma initialized_config:
  "initialize_config rt chain_id fee_bps fee initial recipient signer = Inr config \<Longrightarrow> config_ok rt config \<and> cfgAuthority config = signer
    \<and> cfgChainId config = chain_id \<and> cfgFeeRecipient config = recipient"
  by (auto simp: initialize_config_def resolve_bootstrap_authorities_def config_ok_def instruction_iffs Let_def)

lemma updated_config:
  "update_config rt authority recipient bps fee remaining config = Inr config' \<Longrightarrow> config_ok rt config \<Longrightarrow>
    config_ok rt config' \<and> cfgAuthority config' = cfgAuthority config \<and> cfgChainId config' = cfgChainId config
    \<and> cfgFeeRecipient config' = (case recipient of None \<Rightarrow> cfgFeeRecipient config | Some f \<Rightarrow> f)"
  by (auto simp: update_config_def config_ok_def instruction_iffs split: option.splits list.splits)

lemma accepted_config:
  "accept_config_authority signer config = Inr config' \<Longrightarrow> config_ok rt config \<Longrightarrow> config_ok rt config'"
  by (auto simp: accept_config_authority_def config_ok_def instruction_iffs)

lemma space_for_tokens: "required_space n = Inr k \<Longrightarrow> k \<le> REGISTRY_SPACE \<Longrightarrow> n \<le> MAX_TOKENS"
  by (simp add: required_space_def Let_def REGISTRY_SPACE_def TOKEN_ENTRY_SPACE_def MAX_TOKENS_def split: if_splits)

lemma appended_token:
  assumes "registry_ok registry" "entryId entry \<notin> entryId ` set (regTokens registry)"
    "entryKind entry = 0 \<Longrightarrow> entryMint entry \<notin> entryMint ` set (regTokens registry)"
    "0 < entryId entry" "entryDecimals entry \<le> MAX_TOKEN_DECIMALS" "symbol_allowed (entrySymbol entry)"
    "required_space (length (regTokens registry) + 1) = Inr k" "k \<le> regDataLen registry"
  shows "registry_ok (registry\<lparr>regTokens := regTokens registry @ [entry]\<rparr>)"
proof -
  have "length (regTokens registry) + 1 \<le> MAX_TOKENS"
    using assms(1, 7, 8) space_for_tokens [of "length (regTokens registry) + 1" k] by (simp add: registry_ok_def)
  then show ?thesis using assms unfolding registry_ok_def by auto
qed

lemma registered_token:
  "register_token rt token_id symbol mint decimals authority registry = Inr registry' \<Longrightarrow> registry_ok registry \<Longrightarrow> registry_ok registry'"
  by (auto simp: register_token_def instruction_iffs is_token_registered_def is_mint_registered_def intro!: appended_token)

lemma registered_yield_token:
  "register_yield_bearing_token rt token_id symbol bps underlying decimals reserve share_mint vault authority registry = Inr (registry', b) \<Longrightarrow>
    registry_ok registry \<Longrightarrow> registry_ok registry'"
  by (auto simp: register_yield_bearing_token_def instruction_iffs is_token_registered_def Let_def intro!: appended_token)

lemma registry_authority_ok:
  "config_ok rt config \<Longrightarrow> registry_ok (initialize_token_registry (cfgAuthority config))"
  "update_registry_authority new signer registry = Inr registry' \<Longrightarrow> registry_ok registry \<Longrightarrow> registry_ok registry'"
  "accept_registry_authority signer registry = Inr registry' \<Longrightarrow> registry_ok registry \<Longrightarrow> registry_ok registry'"
  by (auto simp: config_ok_def registry_ok_def initialize_token_registry_def update_registry_authority_def
      accept_registry_authority_def instruction_iffs)

lemma execute_ok: "execute rt instruction signer led = Inr led' \<Longrightarrow> ledger_ok rt led \<Longrightarrow> ledger_ok rt led'"
proof (induction rt instruction signer led rule: execute.induct)
  case (5 rt token_id symbol_bytes mint signer led)
  then show ?case by (auto simp: instruction_iffs ledger_ok_def split: option.splits) (rule registered_token, assumption+)
next
  case (6 rt token_id symbol_bytes share_bps underlying reserve share_mint liquidity_vault signer led)
  then show ?case by (auto simp: instruction_iffs ledger_ok_def split: option.splits) (rule registered_yield_token, assumption+)
qed (auto simp: instruction_iffs ledger_ok_def dest: initialized_config updated_config accepted_config registry_authority_ok)

text \<open>
  C16: Whatever transactions run on a new deployment, the global accounts stay well formed: fees within their limits, the
  message domain that of program and chain, the timelocks those of the chain, and at most 181 tokens of positive and
  distinct ids, whose plain ones have distinct mints.
\<close>

theorem global_accounts_stay_valid: "ledger_ok rt (run_instructions rt steps empty_ledger)"
proof -
  have "ledger_ok rt led \<Longrightarrow> ledger_ok rt (run_instructions rt steps led)" for led
  proof (induction steps arbitrary: led)
    case (Cons step steps)
    then show ?case by (cases step) (auto split: sum.splits intro: execute_ok)
  qed simp
  then show ?thesis by (simp add: ledger_ok_def empty_ledger_def)
qed

text \<open>What no instruction undoes: the chain and the domain of the configuration, and registered tokens.\<close>

definition extends_ledger :: "ledger \<Rightarrow> ledger \<Rightarrow> bool" where
  "extends_ledger led led' \<longleftrightarrow>
     (\<forall>c. ledConfig led = Some c \<longrightarrow> (\<exists>c'. ledConfig led' = Some c' \<and> cfgChainId c' = cfgChainId c \<and> cfgMessageDomain c' = cfgMessageDomain c))
     \<and> (\<forall>r. ledRegistry led = Some r \<longrightarrow> (\<exists>r'. ledRegistry led' = Some r' \<and> prefix (regTokens r) (regTokens r')))"

lemma extends_refl [simp]: "extends_ledger led led"
  by (simp add: extends_ledger_def)

lemma extends_trans: "extends_ledger a b \<Longrightarrow> extends_ledger b c \<Longrightarrow> extends_ledger a c"
  by (fastforce simp: extends_ledger_def intro: prefix_order.trans)

lemma extends_config:
  "(\<And>c. ledConfig led = Some c \<Longrightarrow> cfgChainId c' = cfgChainId c \<and> cfgMessageDomain c' = cfgMessageDomain c) \<Longrightarrow>
    extends_ledger led (led\<lparr>ledConfig := Some c'\<rparr>)"
  by (auto simp: extends_ledger_def)

lemma extends_registry:
  "(\<And>r. ledRegistry led = Some r \<Longrightarrow> prefix (regTokens r) (regTokens r')) \<Longrightarrow> extends_ledger led (led\<lparr>ledRegistry := Some r'\<rparr>)"
  by (auto simp: extends_ledger_def)

lemma config_kept:
  "update_config rt authority recipient bps fee remaining c = Inr c' \<Longrightarrow> cfgChainId c' = cfgChainId c \<and> cfgMessageDomain c' = cfgMessageDomain c"
  "accept_config_authority signer c = Inr c' \<Longrightarrow> cfgChainId c' = cfgChainId c \<and> cfgMessageDomain c' = cfgMessageDomain c"
  by (auto simp: update_config_def accept_config_authority_def instruction_iffs split: option.splits list.splits)

lemma tokens_kept:
  "register_token rt i symbol mint decimals signer r = Inr r' \<Longrightarrow> prefix (regTokens r) (regTokens r')"
  "register_yield_bearing_token rt i symbol bps mint decimals reserve share vault signer r = Inr (r', b) \<Longrightarrow> prefix (regTokens r) (regTokens r')"
  "update_registry_authority new signer r = Inr r' \<Longrightarrow> prefix (regTokens r) (regTokens r')"
  "accept_registry_authority signer r = Inr r' \<Longrightarrow> prefix (regTokens r) (regTokens r')"
  by (auto simp: register_token_def register_yield_bearing_token_def update_registry_authority_def accept_registry_authority_def
      instruction_iffs Let_def)

lemma execute_extends: "execute rt instruction signer led = Inr led' \<Longrightarrow> extends_ledger led led'"
proof (induction rt instruction signer led rule: execute.induct)
  case (5 rt token_id symbol_bytes mint signer led)
  then show ?case by (auto simp: instruction_iffs split: option.splits intro!: extends_registry) (rule tokens_kept, assumption)
next
  case (6 rt token_id symbol_bytes share_bps underlying reserve share_mint liquidity_vault signer led)
  then show ?case by (auto simp: instruction_iffs split: option.splits intro!: extends_registry) (rule tokens_kept, assumption)
qed (auto simp: instruction_iffs intro!: extends_config extends_registry dest: config_kept tokens_kept)

end
