(* ===== verification/Deploy.thy ===== *)
theory Deploy
  imports Demo Config
begin

text \<open>
  \<open>scripts/initialize-program.ts\<close>: a deployment of the program is initialized, its token registry created, the
  fee recipient set and the requested tokens allowlisted, and what is on chain is reported. The script has its own
  copies of \<open>loadProvider\<close>, \<open>loadProgram\<close>, \<open>resolveProgramId\<close> and \<open>inferNetwork\<close>, which are those of the demo.

  Anchor's client, \<open>getOrCreateAssociatedTokenAccount\<close> and \<open>new PublicKey\<close> of a JSON value are the fields of
  \<open>deployer_session\<close>. A key that is printed and parsed again is that key, and \<open>process.exit\<close> is left out.
\<close>

section \<open>Options\<close>

record deploy_options =
  cliAllowlist :: "string option"
  cliFeeRecipient :: "string option"
  cliInitialAuthority :: "string option"

definition take_option :: "string \<Rightarrow> string option \<Rightarrow> deploy_options \<Rightarrow> deploy_options" where
  "take_option key parsedValue options =
     (if key = ''allowlisted-tokens-json'' \<and> parsedValue \<noteq> None then options\<lparr>cliAllowlist := parsedValue\<rparr>
      else if key = ''fee-recipient'' \<and> parsedValue \<noteq> None then options\<lparr>cliFeeRecipient := parsedValue\<rparr>
      else if key = ''initial-authority'' \<and> parsedValue \<noteq> None then options\<lparr>cliInitialAuthority := parsedValue\<rparr>
      else options)"

text \<open>A value that follows its option is taken unless it is empty or an option itself.\<close>

function parse_cli :: "string list \<Rightarrow> deploy_options \<Rightarrow> deploy_options" where
  "parse_cli [] options = options"
| "parse_cli (value # rest) options =
     (if \<not> prefix ''--'' value then parse_cli rest options else
      let trimmed = drop 2 value; key = takeWhile ((\<noteq>) (CHR ''='')) trimmed in
      if CHR ''='' \<in> set trimmed then parse_cli rest (take_option key (Some (drop (length key + 1) trimmed)) options)
      else case rest of
        [] \<Rightarrow> options
      | next # rest' \<Rightarrow>
          if next = '''' \<or> prefix ''--'' next then parse_cli rest options
          else parse_cli rest' (take_option trimmed (Some next) options))"
  by pat_completeness auto
termination by (relation "measure (\<lambda>(rest, _). length rest)") auto

definition parseCliArgs :: "string list \<Rightarrow> deploy_options" where
  "parseCliArgs argv = parse_cli argv \<lparr>cliAllowlist = None, cliFeeRecipient = None, cliInitialAuthority = None\<rparr>"

definition chainIdForNetwork :: "string \<Rightarrow> int" where
  "chainIdForNetwork network = (if network = ''mainnet'' then 0 else if network = ''devnet'' then 1
     else if network = ''testnet'' then 2 else 3)"

section \<open>Tokens\<close>

record allowlisted_token =
  allowedId :: int
  allowedMint :: string
  allowedSymbol :: string

definition printable_symbol :: "string \<Rightarrow> bool" where
  "printable_symbol s \<longleftrightarrow> 1 \<le> length s \<and> length s \<le> 8 \<and> (\<forall>c \<in> set s. 0x20 \<le> (of_char c :: nat) \<and> (of_char c :: nat) \<le> 0x7E)"

definition allowed_token ::
  "(pubkey \<Rightarrow> string) \<Rightarrow> (jsv option \<Rightarrow> pubkey js) \<Rightarrow> nat \<times> jsv \<Rightarrow> allowlisted_token js" where
  "allowed_token showKey keyOf = (\<lambda>(index, token).
     bindR (field token ''id'') (\<lambda>tokenId. case tokenId of
       Some (VNumber n) \<Rightarrow>
         if \<not> isInteger n \<or> integer_of n \<le> 0 \<or> 65535 < integer_of n then
           throwError (''Invalid token id at index '' @ show_int (int index))
         else
         bindR (field token ''symbol'') (\<lambda>symbol. case symbol of
           Some (VText s) \<Rightarrow>
             if \<not> printable_symbol s then throwError (''Invalid token symbol at index '' @ show_int (int index))
             else bindR (field token ''mint'') (\<lambda>mint. bindR (keyOf mint) (\<lambda>key.
               Inr \<lparr>allowedId = integer_of n, allowedMint = showKey key, allowedSymbol = s\<rparr>))
         | _ \<Rightarrow> throwError (''Invalid token symbol at index '' @ show_int (int index)))
     | _ \<Rightarrow> throwError (''Invalid token id at index '' @ show_int (int index))))"

definition parseAllowlistedTokens ::
  "(pubkey \<Rightarrow> string) \<Rightarrow> (jsv option \<Rightarrow> pubkey js) \<Rightarrow> (string \<rightharpoonup> string) \<Rightarrow> deploy_options \<Rightarrow> allowlisted_token list js" where
  "parseAllowlistedTokens showKey keyOf env options =
     (case (case cliAllowlist options of Some raw \<Rightarrow> Some raw | None \<Rightarrow> env ''RYVO_ALLOWLIST_TOKENS'') of
        None \<Rightarrow> Inr []
      | Some raw \<Rightarrow> if raw = '''' then Inr [] else
          bindR (JSON_parse raw) (\<lambda>tokens. case tokens of
            VArray items \<Rightarrow> mapR (allowed_token showKey keyOf) (enumerate 0 items)
          | _ \<Rightarrow> throwError ''RYVO_ALLOWLIST_TOKENS must be a JSON array''))"

text \<open>Eight bytes, padded with zeros; \<open>toString("ascii")\<close> clears the highest bit.\<close>

definition symbolBytes :: "string \<Rightarrow> bytes" where
  "symbolBytes symbol = take 8 (ascii symbol) @ replicate (8 - length symbol) 0"

definition decodeSymbol :: "bytes \<Rightarrow> string" where
  "decodeSymbol symbol = map (\<lambda>b. char_of (unat b mod 128)) (rev (dropWhile ((=) 0) (rev (map (\<lambda>b. b AND 127) symbol))))"

section \<open>The program's client\<close>

record config_view =
  gcAuthority :: pubkey
  gcPendingAuthority :: pubkey
  gcFeeRecipient :: pubkey
  gcFeeBps :: int
  gcRegistrationFeeLamports :: int
  gcWithdrawalTimelockSeconds :: int
  gcChannelUnlockTimelockSeconds :: "int option"
  gcMessageDomain :: bytes

record token_view =
  tokenViewId :: int
  tokenViewMint :: pubkey
  tokenViewSymbol :: bytes
  tokenViewDecimals :: int

datatype deploy_method =
    InitializeMethod int int int pubkey
  | UpdateConfigMethod "pubkey option" "pubkey option" "int option" "int option"
  | InitializeTokenRegistryMethod
  | RegisterTokenMethod int bytes

record deploy_call =
  deployMethod :: deploy_method
  deployAccounts :: "(string \<times> pubkey) list"
  deployRemaining :: "pubkey list"

record 'w deployer_session =
  depDerive :: derive_address
  depBn :: bn_to_le
  depToNumber :: "int \<Rightarrow> int js"
  depConfig :: "pubkey \<Rightarrow> ('w, config_view) io"
  depRegistry :: "pubkey \<Rightarrow> ('w, token_view list) io"
  depTokenAccount :: "keypair \<Rightarrow> pubkey \<Rightarrow> pubkey \<Rightarrow> ('w, pubkey) io"
  depRpc :: "deploy_call \<Rightarrow> ('w, string) io"

definition BPF_LOADER_UPGRADEABLE_PROGRAM_ID :: string where
  "BPF_LOADER_UPGRADEABLE_PROGRAM_ID = ''BPFLoaderUpgradeab1e11111111111111111111111''"

record deployment_token =
  deployedId :: int
  deployedMint :: string
  deployedSymbol :: string
  deployedDecimals :: int
  deployedVault :: string
  deployedFeeAccount :: string

record deployment_config =
  deploymentProgramId :: string
  deploymentNetwork :: string
  deploymentChainId :: int
  deploymentMessageDomain :: string
  deploymentDeployer :: string
  deploymentAuthority :: string
  deploymentFeeRecipient :: string
  deploymentFeeBps :: int
  deploymentRegistrationFee :: int
  deploymentWithdrawalTimelock :: int
  deploymentUnlockTimelock :: "int option"
  deploymentTokens :: "deployment_token list"
  deployedAt :: string

definition ensureTokenRegistry :: "'w deployer_session \<Rightarrow> pubkey \<Rightarrow> pubkey \<Rightarrow> pubkey \<Rightarrow> ('w, unit) io" where
  "ensureTokenRegistry s programId globalConfig authority =
     catchIO
       (bindIO (depRegistry s (findTokenRegistryPda (depDerive s) programId)) (\<lambda>_. returnIO ()))
       (\<lambda>_. bindIO (depRpc s \<lparr>deployMethod = InitializeTokenRegistryMethod,
          deployAccounts = [(''globalConfig'', globalConfig), (''authority'', authority)], deployRemaining = []\<rparr>) (\<lambda>_. returnIO ()))"

definition allow_token ::
  "(pubkey \<Rightarrow> string) \<Rightarrow> (string \<Rightarrow> pubkey js) \<Rightarrow> 'w deployer_session \<Rightarrow> keypair \<Rightarrow> pubkey \<Rightarrow> token_view list \<Rightarrow>
   allowlisted_token \<Rightarrow> unit \<Rightarrow> ('w, unit) io" where
  "allow_token showKey parse s payer feeRecipientWallet registered token _ =
     bindIO (case find (\<lambda>entry. tokenViewId entry = allowedId token) registered of
         Some existing \<Rightarrow>
           if showKey (tokenViewMint existing) \<noteq> allowedMint token then
             throwErrorIO (''Token id '' @ show_int (allowedId token) @ '' is already registered to '' @
               showKey (tokenViewMint existing) @ '', not '' @ allowedMint token)
           else returnIO ()
       | None \<Rightarrow>
           bindIO (liftIO (parse (allowedMint token))) (\<lambda>mint.
           bindIO (depRpc s \<lparr>deployMethod = RegisterTokenMethod (allowedId token) (symbolBytes (allowedSymbol token)),
             deployAccounts = [(''mint'', mint), (''authority'', publicKey payer)], deployRemaining = []\<rparr>) (\<lambda>_. returnIO ()))) (\<lambda>_.
     bindIO (liftIO (parse (allowedMint token))) (\<lambda>mint.
     bindIO (depTokenAccount s payer mint feeRecipientWallet) (\<lambda>_. returnIO ())))"

definition ensureAllowlistedTokens ::
  "(pubkey \<Rightarrow> string) \<Rightarrow> (string \<Rightarrow> pubkey js) \<Rightarrow> 'w deployer_session \<Rightarrow> pubkey \<Rightarrow> keypair \<Rightarrow> pubkey \<Rightarrow>
   allowlisted_token list \<Rightarrow> ('w, unit) io" where
  "ensureAllowlistedTokens showKey parse s programId payer feeRecipientWallet requestedTokens =
     (if requestedTokens = [] then returnIO () else
      bindIO (depRegistry s (findTokenRegistryPda (depDerive s) programId)) (\<lambda>registered.
      foldIO (allow_token showKey parse s payer feeRecipientWallet registered) requestedTokens ()))"

definition deployment_token_of ::
  "(pubkey \<Rightarrow> string) \<Rightarrow> 'w deployer_session \<Rightarrow> pubkey \<Rightarrow> keypair \<Rightarrow> pubkey \<Rightarrow> token_view \<Rightarrow> ('w, deployment_token) io" where
  "deployment_token_of showKey s programId payer feeRecipientWallet entry =
     bindIO (depTokenAccount s payer (tokenViewMint entry) feeRecipientWallet) (\<lambda>account.
     bindIO (liftIO (findVaultTokenAccountPda (depBn s) (depDerive s) programId (tokenViewId entry))) (\<lambda>vault.
     returnIO \<lparr>deployedId = tokenViewId entry, deployedMint = showKey (tokenViewMint entry),
       deployedSymbol = decodeSymbol (tokenViewSymbol entry), deployedDecimals = tokenViewDecimals entry,
       deployedVault = showKey vault, deployedFeeAccount = showKey account\<rparr>))"

definition buildDeploymentTokens ::
  "(pubkey \<Rightarrow> string) \<Rightarrow> 'w deployer_session \<Rightarrow> pubkey \<Rightarrow> keypair \<Rightarrow> pubkey \<Rightarrow> ('w, deployment_token list) io" where
  "buildDeploymentTokens showKey s programId payer feeRecipientWallet =
     bindIO (catchIO (bindIO (depRegistry s (findTokenRegistryPda (depDerive s) programId)) (\<lambda>tokens. returnIO (Some tokens)))
       (\<lambda>_. returnIO None)) (\<lambda>registry.
     case registry of None \<Rightarrow> returnIO []
     | Some entries \<Rightarrow>
         bindIO (mapIO (deployment_token_of showKey s programId payer feeRecipientWallet) entries) (\<lambda>tokens.
         returnIO (sort_key deployedId tokens)))"

section \<open>The script\<close>

definition fetch_or_initialize ::
  "'w deployer_session \<Rightarrow> pubkey \<Rightarrow> keypair \<Rightarrow> pubkey \<Rightarrow> pubkey \<Rightarrow> int \<Rightarrow> pubkey \<Rightarrow> pubkey \<Rightarrow> ('w, config_view) io" where
  "fetch_or_initialize s programId deployer globalConfigPda programDataPda chainId initialAuthority feeRecipient =
     catchIO (depConfig s globalConfigPda) (\<lambda>_.
       bindIO (depRpc s \<lparr>deployMethod = InitializeMethod chainId 30 0 initialAuthority,
         deployAccounts = [(''feeRecipient'', feeRecipient), (''upgradeAuthority'', publicKey deployer),
           (''program'', programId), (''programData'', programDataPda)],
         deployRemaining = []\<rparr>) (\<lambda>_. depConfig s globalConfigPda))"

definition update_recipient ::
  "'w deployer_session \<Rightarrow> keypair \<Rightarrow> pubkey \<Rightarrow> pubkey \<Rightarrow> config_view \<Rightarrow> ('w, config_view) io" where
  "update_recipient s deployer globalConfigPda desired config =
     (if gcAuthority config = publicKey deployer \<and> gcFeeRecipient config \<noteq> desired then
        bindIO (depRpc s \<lparr>deployMethod = UpdateConfigMethod None (Some desired) None None,
          deployAccounts = [(''globalConfig'', globalConfigPda), (''authority'', publicKey deployer)],
          deployRemaining = [desired]\<rparr>) (\<lambda>_. depConfig s globalConfigPda)
      else returnIO config)"

definition client_message_domain :: "(bytes \<Rightarrow> bytes) \<Rightarrow> pubkey \<Rightarrow> int \<Rightarrow> bytes" where
  "client_message_domain sha256 programId chainId =
     take 16 (sha256 (ascii ''ryvo-message-domain-v1'' @ programId @ [word_of_int chainId, word_of_int (chainId div 256)]))"

definition initialize_deployment ::
  "'g wallet_tools \<Rightarrow> 'w deployer_session \<Rightarrow> string \<Rightarrow> keypair \<Rightarrow> pubkey \<Rightarrow> allowlisted_token list \<Rightarrow> pubkey \<Rightarrow> pubkey \<Rightarrow>
   ('w, deployment_config) io" where
  "initialize_deployment tools s rpcEndpoint deployer programId requestedTokens initialAuthority feeRecipient =
     (let showKey = toolShowKey tools; network = inferNetwork rpcEndpoint; chainId = chainIdForNetwork network;
          globalConfigPda = findGlobalConfigPda (depDerive s) programId;
          messageDomain = client_message_domain (toolSha256 tools) programId chainId in
      bindIO (liftIO (toolParseKey tools BPF_LOADER_UPGRADEABLE_PROGRAM_ID)) (\<lambda>loader.
      bindIO (fetch_or_initialize s programId deployer globalConfigPda (depDerive s [programId] loader) chainId initialAuthority feeRecipient)
        (\<lambda>globalConfig.
      let currentAuthority = gcAuthority globalConfig in
      bindIO (if currentAuthority \<noteq> publicKey deployer then returnIO ()
        else ensureTokenRegistry s programId globalConfigPda (publicKey deployer)) (\<lambda>_.
      bindIO (update_recipient s deployer globalConfigPda feeRecipient globalConfig) (\<lambda>globalConfig.
      bindIO (ensureAllowlistedTokens showKey (toolParseKey tools) s programId deployer (gcFeeRecipient globalConfig)
        (if currentAuthority = publicKey deployer then requestedTokens else [])) (\<lambda>_.
      bindIO (depConfig s globalConfigPda) (\<lambda>globalConfig.
      if hex_string (gcMessageDomain globalConfig) \<noteq> hex_string messageDomain then
        throwErrorIO (''GlobalConfig message_domain mismatch: expected '' @ hex_string messageDomain @ '', got '' @
          hex_string (gcMessageDomain globalConfig))
      else
      bindIO (buildDeploymentTokens showKey s programId deployer (gcFeeRecipient globalConfig)) (\<lambda>tokens.
      bindIO (liftIO (case gcChannelUnlockTimelockSeconds globalConfig of None \<Rightarrow> Inr None
        | Some n \<Rightarrow> bindR (depToNumber s n) (\<lambda>m. Inr (Some m)))) (\<lambda>unlock.
      bindIO (liftIO (depToNumber s (gcWithdrawalTimelockSeconds globalConfig))) (\<lambda>withdrawal.
      bindIO (liftIO (depToNumber s (gcRegistrationFeeLamports globalConfig))) (\<lambda>registrationFee.
      returnIO \<lparr>deploymentProgramId = showKey programId, deploymentNetwork = network, deploymentChainId = chainId,
        deploymentMessageDomain = hex_string (gcMessageDomain globalConfig), deploymentDeployer = showKey (publicKey deployer),
        deploymentAuthority = showKey (gcAuthority globalConfig), deploymentFeeRecipient = showKey (gcFeeRecipient globalConfig),
        deploymentFeeBps = gcFeeBps globalConfig, deploymentRegistrationFee = registrationFee,
        deploymentWithdrawalTimelock = withdrawal, deploymentUnlockTimelock = unlock,
        deploymentTokens = tokens, deployedAt = toolNow tools\<rparr>)))))))))))"

text \<open>A key given on the command line, or in the environment, or the deployer's.\<close>

definition desired_key ::
  "(string \<Rightarrow> pubkey js) \<Rightarrow> string option \<Rightarrow> string option \<Rightarrow> pubkey \<Rightarrow> pubkey js" where
  "desired_key parse fromCli fromEnv deployer =
     (case fromCli of
        Some (c # s) \<Rightarrow> parse (c # s)
      | _ \<Rightarrow> (case fromEnv of Some (c # s) \<Rightarrow> parse (c # s) | _ \<Rightarrow> Inr deployer))"

definition initializeProgram ::
  "('w, 'g, 'i, 't) host \<Rightarrow> (jsv option \<Rightarrow> pubkey js) \<Rightarrow> (string \<Rightarrow> keypair \<Rightarrow> pubkey \<Rightarrow> 'w deployer_session) \<Rightarrow> string list \<Rightarrow>
   ('w \<times> disk, deployment_config) io" where
  "initializeProgram host keyOf connect argv =
     (let tools = hostTools host; parse = toolParseKey tools; options = parseCliArgs argv in
      with_disk (\<lambda>d. bindIO (on_disk (loadProjectRpcEnv (hostEnv host) (diskCwd d))) (\<lambda>env.
      let host = host\<lparr>hostEnv := env\<rparr> in
      bindIO (on_disk (loadProvider host)) (\<lambda>(rpcEndpoint, deployer).
      bindIO (on_disk (loadProgram host rpcEndpoint)) (\<lambda>programId.
      bindIO (liftIO (parseAllowlistedTokens (toolShowKey tools) keyOf env options)) (\<lambda>requestedTokens.
      bindIO (liftIO (desired_key parse (cliInitialAuthority options) (env ''RYVO_INITIAL_AUTHORITY'') (publicKey deployer)))
        (\<lambda>initialAuthority.
      bindIO (liftIO (desired_key parse (cliFeeRecipient options) (env ''RYVO_FEE_RECIPIENT'') (publicKey deployer))) (\<lambda>feeRecipient.
      on_chain (initialize_deployment tools (connect rpcEndpoint deployer programId) rpcEndpoint deployer programId
        requestedTokens initialAuthority feeRecipient)))))))))"

section \<open>Symbols\<close>

lemma masked_char:
  assumes "(of_char c :: nat) < 128"
  shows "(word_of_nat (of_char c) :: byte) AND 127 = word_of_nat (of_char c)" "unat (word_of_nat (of_char c) :: byte) = of_char c"
proof -
  have "(127 :: byte) = mask 7" by (simp add: mask_eq_exp_minus_1)
  then have "(word_of_nat (of_char c) :: byte) AND 127 = take_bit 7 (word_of_nat (of_char c))"
    by (simp only: take_bit_eq_mask)
  also have "\<dots> = word_of_nat (take_bit 7 (of_char c))" by (simp add: take_bit_word_eq_self flip: take_bit_of_nat)
  also have "take_bit 7 (of_char c) = (of_char c :: nat)" using assms by (simp add: take_bit_nat_eq_self_iff)
  finally show "(word_of_nat (of_char c) :: byte) AND 127 = word_of_nat (of_char c)" .
  show "unat (word_of_nat (of_char c) :: byte) = of_char c" using assms by (simp add: unsigned_of_nat take_bit_nat_eq_self_iff)
qed

text \<open>
  The symbol of an allowlisted token is eight bytes that the program accepts, and decodes to the same text.
\<close>

theorem symbol_roundtrip:
  assumes "printable_symbol s"
  shows "symbol_allowed (symbolBytes s) \<and> length (symbolBytes s) = 8 \<and> decodeSymbol (symbolBytes s) = s"
proof -
  have chars: "32 \<le> (of_char c :: nat)" "(of_char c :: nat) < 128" if "c \<in> set s" for c
    using assms that by (auto simp: printable_symbol_def)
  have len: "1 \<le> length s" "length s \<le> 8" using assms by (simp_all add: printable_symbol_def)
  have bytes: "symbolBytes s = map (\<lambda>c. word_of_nat (of_char c)) s @ replicate (8 - length s) 0"
    using len by (simp add: symbolBytes_def ascii_def)
  have small: "(word_of_nat (of_char c) :: byte) < 128" "(word_of_nat (of_char c) :: byte) \<noteq> 0" if "c \<in> set s" for c
    using chars [OF that] masked_char(2) [of c] by (auto simp: word_less_nat_alt)
  have "dropWhile ((=) 0) (rev (map (\<lambda>b. b AND 127) (symbolBytes s))) = rev (map (\<lambda>c. word_of_nat (of_char c)) s)"
  proof -
    have "map (\<lambda>b. b AND 127) (symbolBytes s) = map (\<lambda>c. word_of_nat (of_char c)) s @ replicate (8 - length s) 0"
      using chars masked_char by (simp add: bytes)
    moreover have "dropWhile ((=) 0) (replicate n (0 :: byte) @ xs) = dropWhile ((=) 0) xs" for n xs
      by (induction n) auto
    moreover have "dropWhile ((=) 0) (rev (map (\<lambda>c. word_of_nat (of_char c) :: byte) s)) = rev (map (\<lambda>c. word_of_nat (of_char c)) s)"
      using small(2) by (intro dropWhile_eq_self_iff [THEN iffD2]) (cases s rule: rev_cases, auto)
    ultimately show ?thesis by simp
  qed
  then have "decodeSymbol (symbolBytes s) = s"
    using chars masked_char(2) by (simp add: decodeSymbol_def comp_def map_idI)
  moreover have "symbol_allowed (symbolBytes s)"
    unfolding symbol_allowed_def bytes using small len by (cases s) auto
  ultimately show ?thesis using len by (simp add: bytes)
qed

theorem symbol_roundtrip_witness: "decodeSymbol (symbolBytes ''USDC'') = ''USDC''"
  by (rule symbol_roundtrip [THEN conjunct2, THEN conjunct2]) (simp add: printable_symbol_def)

section \<open>Against the program\<close>

text \<open>
  A session that talks to the program: a read that succeeds shows the ledger of the cluster and leaves it, and a
  transaction that succeeds has run its instruction, signed by the deployer.
\<close>

definition view_of_config :: "config_account \<Rightarrow> config_view" where
  "view_of_config c = \<lparr>gcAuthority = cfgAuthority c, gcPendingAuthority = cfgPendingAuthority c, gcFeeRecipient = cfgFeeRecipient c,
     gcFeeBps = uint (cfgFeeBps c), gcRegistrationFeeLamports = uint (cfgRegistrationFeeLamports c),
     gcWithdrawalTimelockSeconds = cfgWithdrawalTimelockSeconds c,
     gcChannelUnlockTimelockSeconds = Some (cfgChannelUnlockTimelockSeconds c), gcMessageDomain = cfgMessageDomain c\<rparr>"

definition view_of_entry :: "token_entry \<Rightarrow> token_view" where
  "view_of_entry e = \<lparr>tokenViewId = uint (entryId e), tokenViewMint = entryMint e, tokenViewSymbol = entrySymbol e,
     tokenViewDecimals = uint (entryDecimals e)\<rparr>"

definition account_of :: "deploy_call \<Rightarrow> string \<Rightarrow> pubkey" where
  "account_of call name = (case map_of (deployAccounts call) name of Some key \<Rightarrow> key | None \<Rightarrow> [])"

definition instruction_of :: "deploy_call \<Rightarrow> config_instruction" where
  "instruction_of call = (case deployMethod call of
     InitializeMethod chain fee registration authority \<Rightarrow>
       Initialize (word_of_int chain) (word_of_int fee) (word_of_int registration) (Some authority) (account_of call ''feeRecipient'')
   | UpdateConfigMethod authority recipient fee registration \<Rightarrow>
       UpdateConfig authority recipient (map_option word_of_int fee) (map_option word_of_int registration) (deployRemaining call)
   | InitializeTokenRegistryMethod \<Rightarrow> InitializeTokenRegistry
   | RegisterTokenMethod token symbol \<Rightarrow> RegisterToken (word_of_int token) symbol (account_of call ''mint''))"

definition runs_program :: "runtime \<Rightarrow> ('w \<Rightarrow> ledger) \<Rightarrow> pubkey \<Rightarrow> pubkey \<Rightarrow> 'w deployer_session \<Rightarrow> bool" where
  "runs_program rt ledgerOf programId signer s \<longleftrightarrow>
     (\<forall>w r w'. depConfig s (findGlobalConfigPda (depDerive s) programId) w = Some (r, w') \<longrightarrow> ledgerOf w' = ledgerOf w
        \<and> (\<forall>v. r = Inr v \<longrightarrow> map_option view_of_config (ledConfig (ledgerOf w)) = Some v))
     \<and> (\<forall>w r w'. depRegistry s (findTokenRegistryPda (depDerive s) programId) w = Some (r, w') \<longrightarrow> ledgerOf w' = ledgerOf w
        \<and> (\<forall>v. r = Inr v \<longrightarrow> map_option (\<lambda>reg. map view_of_entry (regTokens reg)) (ledRegistry (ledgerOf w)) = Some v))
     \<and> (\<forall>payer mint wallet w r w'. depTokenAccount s payer mint wallet w = Some (r, w') \<longrightarrow> ledgerOf w' = ledgerOf w)
     \<and> (\<forall>call w sig w'. depRpc s call w = Some (Inr sig, w') \<longrightarrow>
          execute rt (instruction_of call) signer (ledgerOf w) = Inr (ledgerOf w'))"

lemma client_domain: "client_message_domain sha256 programId chain = derive_message_domain sha256 programId (word_of_int chain)"
  if "0 \<le> chain" "chain < 4"
proof -
  have "le_bytes 2 (nat chain) = [word_of_int chain, word_of_int (chain div 256)]"
    using that by (auto simp: numeral_2_eq_2 nat_div_distrib)
  moreover have "unat (word_of_int chain :: u16) = nat chain"
    using that by (simp add: unat_eq_nat_uint uint_word_of_int)
  ultimately show ?thesis
    by (simp add: client_message_domain_def derive_message_domain_def CONFIG_DOMAIN_TAG_def)
qed

lemma chain_range: "0 \<le> chainIdForNetwork network \<and> chainIdForNetwork network < 4"
  by (simp add: chainIdForNetwork_def)

definition registered :: "(pubkey \<Rightarrow> string) \<Rightarrow> ledger \<Rightarrow> allowlisted_token \<Rightarrow> bool" where
  "registered showKey led token \<longleftrightarrow> (\<exists>r. ledRegistry led = Some r
     \<and> (\<exists>entry \<in> set (regTokens r). uint (entryId entry) = allowedId token \<and> showKey (entryMint entry) = allowedMint token))"

lemma registered_stays: "registered showKey led token \<Longrightarrow> extends_ledger led led' \<Longrightarrow> registered showKey led' token"
  unfolding registered_def extends_ledger_def by (meson set_mono_prefix subsetD)

lemma registry_stays: "extends_ledger led led' \<Longrightarrow> ledRegistry led \<noteq> None \<Longrightarrow> ledRegistry led' \<noteq> None"
  unfolding extends_ledger_def by (cases "ledRegistry led") auto

text \<open>A token as \<open>parseAllowlistedTokens\<close> gives it.\<close>

definition proper_token :: "(pubkey \<Rightarrow> string) \<Rightarrow> (string \<Rightarrow> pubkey js) \<Rightarrow> allowlisted_token \<Rightarrow> bool" where
  "proper_token showKey parse token \<longleftrightarrow> 0 \<le> allowedId token \<and> allowedId token < 65536
     \<and> (\<exists>key. parse (allowedMint token) = Inr key \<and> showKey key = allowedMint token)"

text \<open>What the report says of a registered token.\<close>

definition token_reported ::
  "(pubkey \<Rightarrow> string) \<Rightarrow> 'w deployer_session \<Rightarrow> pubkey \<Rightarrow> keypair \<Rightarrow> pubkey \<Rightarrow> token_entry \<Rightarrow> deployment_token \<Rightarrow> bool" where
  "token_reported showKey s programId payer recipient e t \<longleftrightarrow>
     deployedId t = uint (entryId e) \<and> deployedMint t = showKey (entryMint e)
     \<and> deployedSymbol t = decodeSymbol (entrySymbol e) \<and> deployedDecimals t = uint (entryDecimals e)
     \<and> (\<exists>vault. findVaultTokenAccountPda (depBn s) (depDerive s) programId (uint (entryId e)) = Inr vault
          \<and> deployedVault t = showKey vault)
     \<and> (\<exists>account w w'. depTokenAccount s payer (entryMint e) recipient w = Some (Inr account, w')
          \<and> deployedFeeAccount t = showKey account)"

text \<open>Reading the registry does not fail once it is on chain.\<close>

definition registry_readable :: "('w \<Rightarrow> ledger) \<Rightarrow> pubkey \<Rightarrow> 'w deployer_session \<Rightarrow> bool" where
  "registry_readable ledgerOf programId s \<longleftrightarrow> (\<forall>w r. ledRegistry (ledgerOf w) = Some r \<longrightarrow>
     (\<exists>v w'. depRegistry s (findTokenRegistryPda (depDerive s) programId) w = Some (Inr v, w')))"

lemma list_all2_insort:
  assumes "list_all2 R xs ys" "R x y" "\<And>x y. R x y \<Longrightarrow> f x = g y"
  shows "list_all2 R (insort_key f x xs) (insort_key g y ys)"
  using assms(1)
proof (induction rule: list_all2_induct)
  case (Cons x' xs y' ys)
  then show ?case using assms(2) assms(3) [OF assms(2)] assms(3) [OF Cons.hyps(1)] by simp
qed (simp add: assms(2))

lemma list_all2_sort_key:
  assumes "list_all2 R xs ys" "\<And>x y. R x y \<Longrightarrow> f x = g y"
  shows "list_all2 R (sort_key f xs) (sort_key g ys)"
  using assms(1)
proof (induction rule: list_all2_induct)
  case (Cons x xs y ys)
  then show ?case using list_all2_insort [OF Cons.IH Cons.hyps(1) assms(2)] by simp
qed simp

locale deployment =
  fixes rt :: runtime and ledgerOf :: "'w \<Rightarrow> ledger" and programId :: pubkey and deployer :: keypair
    and s :: "'w deployer_session"
  assumes runs: "runs_program rt ledgerOf programId (publicKey deployer) s"
begin

lemma config_read:
  "depConfig s (findGlobalConfigPda (depDerive s) programId) w = Some (r, w') \<Longrightarrow> ledgerOf w' = ledgerOf w"
  "depConfig s (findGlobalConfigPda (depDerive s) programId) w = Some (Inr v, w') \<Longrightarrow>
    \<exists>c. ledConfig (ledgerOf w) = Some c \<and> v = view_of_config c"
  using runs unfolding runs_program_def by blast+

lemma registry_read:
  "depRegistry s (findTokenRegistryPda (depDerive s) programId) w = Some (r, w') \<Longrightarrow> ledgerOf w' = ledgerOf w"
  "depRegistry s (findTokenRegistryPda (depDerive s) programId) w = Some (Inr v, w') \<Longrightarrow>
    \<exists>r. ledRegistry (ledgerOf w) = Some r \<and> v = map view_of_entry (regTokens r)"
  using runs unfolding runs_program_def by blast+

lemma account_made: "depTokenAccount s payer mint wallet w = Some (r, w') \<Longrightarrow> ledgerOf w' = ledgerOf w"
  using runs unfolding runs_program_def by blast

lemma executed:
  "depRpc s call w = Some (Inr sig, w') \<Longrightarrow> execute rt (instruction_of call) (publicKey deployer) (ledgerOf w) = Inr (ledgerOf w')"
  using runs unfolding runs_program_def by blast

text \<open>The configuration has authority and chain of \<open>c\<close>, and only a ledger that was there has grown.\<close>

definition grown :: "'w \<Rightarrow> config_account \<Rightarrow> 'w \<Rightarrow> bool" where
  "grown w c w' \<longleftrightarrow> extends_ledger (ledgerOf w) (ledgerOf w') \<and> ledConfig (ledgerOf w') = Some c"

lemma sent_grows:
  assumes "depRpc s call w = Some (Inr sig, w')"
  shows "extends_ledger (ledgerOf w) (ledgerOf w')"
  using execute_extends executed [OF assms] by blast

lemma fetched_config:
  assumes "fetch_or_initialize s programId deployer (findGlobalConfigPda (depDerive s) programId) dataPda chain authority recipient w = Some (Inr v, w')"
  obtains c where "grown w c w'" "v = view_of_config c"
proof -
  let ?pda = "findGlobalConfigPda (depDerive s) programId"
  have read: "\<exists>c. grown w c w' \<and> v = view_of_config c"
    if "depConfig s ?pda w1 = Some (Inr v, w')" "extends_ledger (ledgerOf w) (ledgerOf w1)" for w1
    using config_read [OF that(1)] config_read(1) [OF that(1)] that(2) by (auto simp: grown_def)
  have "\<exists>c. grown w c w' \<and> v = view_of_config c"
    using assms unfolding fetch_or_initialize_def catchIO_eq_Inr bindIO_eq_Inr
  proof (elim disjE exE conjE)
    fix e w1 sig w2
    assume failed: "depConfig s ?pda w = Some (Inl e, w1)" and final: "depConfig s ?pda w2 = Some (Inr v, w')"
      and sent: "depRpc s \<lparr>deployMethod = InitializeMethod chain 30 0 authority,
         deployAccounts = [(''feeRecipient'', recipient), (''upgradeAuthority'', publicKey deployer),
           (''program'', programId), (''programData'', dataPda)], deployRemaining = []\<rparr> w1 = Some (Inr sig, w2)"
    show ?thesis using read [OF final] sent_grows [OF sent] config_read(1) [OF failed] by simp
  qed (use read in auto)
  then show thesis using that by blast
qed

lemma registry_rpc:
  assumes "depRpc s call w = Some (Inr sig, w')" "ledConfig (ledgerOf w) = Some c"
    "deployMethod call = InitializeTokenRegistryMethod \<or> (\<exists>token symbol. deployMethod call = RegisterTokenMethod token symbol)"
  shows "grown w c w'"
  using executed [OF assms(1)] sent_grows [OF assms(1)] assms(2, 3)
  by (auto simp: grown_def instruction_of_def instruction_iffs split: option.splits)

lemma registry_ensured:
  assumes "ensureTokenRegistry s programId pda (publicKey deployer) w = Some (Inr u, w')" "ledConfig (ledgerOf w) = Some c"
  shows "grown w c w' \<and> ledRegistry (ledgerOf w') \<noteq> None"
  using assms(1) unfolding ensureTokenRegistry_def catchIO_eq_Inr bindIO_eq_Inr bindIO_eq_Inl
proof (elim disjE exE conjE)
  fix v w1
  assume "depRegistry s (findTokenRegistryPda (depDerive s) programId) w = Some (Inr v, w1)" "returnIO () w1 = Some (Inr u, w')"
  then show ?thesis using registry_read(1) [of w "Inr v" w1] registry_read(2) [of w v w1] assms(2) by (auto simp: grown_def)
next
  fix e w1 sig w2
  assume failed: "depRegistry s (findTokenRegistryPda (depDerive s) programId) w = Some (Inl e, w1)"
    and sent: "depRpc s \<lparr>deployMethod = InitializeTokenRegistryMethod,
          deployAccounts = [(''globalConfig'', pda), (''authority'', publicKey deployer)], deployRemaining = []\<rparr> w1 = Some (Inr sig, w2)"
    and "returnIO () w2 = Some (Inr u, w')"
  moreover have "ledRegistry (ledgerOf w2) \<noteq> None"
    using executed [OF sent] by (auto simp: instruction_of_def instruction_iffs split: option.splits)
  ultimately show ?thesis using registry_rpc [OF sent] registry_read(1) [OF failed] assms(2) by (simp add: grown_def)
qed auto

lemma recipient_updated:
  assumes "update_recipient s deployer (findGlobalConfigPda (depDerive s) programId) desired (view_of_config c) w = Some (Inr v, w')"
    "ledConfig (ledgerOf w) = Some c"
  obtains c' where "grown w c' w'" "v = view_of_config c'" "cfgAuthority c' = cfgAuthority c"
    "cfgAuthority c = publicKey deployer \<Longrightarrow> cfgFeeRecipient c' = desired"
proof (cases "cfgAuthority c = publicKey deployer \<and> cfgFeeRecipient c \<noteq> desired")
  case True
  let ?call = "\<lparr>deployMethod = UpdateConfigMethod None (Some desired) None None,
    deployAccounts = [(''globalConfig'', findGlobalConfigPda (depDerive s) programId), (''authority'', publicKey deployer)],
    deployRemaining = [desired]\<rparr>"
  have "bindIO (depRpc s ?call) (\<lambda>_. depConfig s (findGlobalConfigPda (depDerive s) programId)) w = Some (Inr v, w')"
    using assms(1) True by (simp add: update_recipient_def view_of_config_def)
  then obtain sig w1 where sent: "depRpc s ?call w = Some (Inr sig, w1)"
    and read: "depConfig s (findGlobalConfigPda (depDerive s) programId) w1 = Some (Inr v, w')"
    by (elim bindIO_InrE)
  obtain c' where c': "ledConfig (ledgerOf w1) = Some c'" "update_config rt None (Some desired) None None [desired] c = Inr c'"
    using executed [OF sent] assms(2) by (auto simp: instruction_of_def instruction_iffs)
  have "cfgAuthority c' = cfgAuthority c" "cfgFeeRecipient c' = desired"
    using c'(2) by (auto simp: update_config_def instruction_iffs)
  then show thesis
    using that c'(1) config_read(1) [OF read] config_read(2) [OF read] sent_grows [OF sent] by (auto simp: grown_def)
next
  case False
  then have "v = view_of_config c" "w' = w" using assms(1) by (auto simp: update_recipient_def view_of_config_def split: if_splits)
  then show thesis using that False assms(2) by (auto simp: grown_def)
qed

lemma account_step: "bindIO (liftIO r) (\<lambda>mint. bindIO (depTokenAccount s payer mint wallet) (\<lambda>_. returnIO ())) w = Some (Inr u, w') \<Longrightarrow>
    ledgerOf w' = ledgerOf w"
  by (auto elim!: bindIO_InrE dest: account_made)

lemma token_allowed:
  assumes step: "allow_token showKey parse s deployer recipient (map view_of_entry (regTokens r)) token u w = Some (Inr u', w')"
    and then_registered: "\<And>t. registered showKey \<lparr>ledConfig = None, ledRegistry = Some r\<rparr> t \<Longrightarrow> registered showKey (ledgerOf w) t"
    and c: "ledConfig (ledgerOf w) = Some c" and token: "proper_token showKey parse token"
  shows "grown w c w' \<and> registered showKey (ledgerOf w') token"
proof -
  obtain key where key: "parse (allowedMint token) = Inr key" "showKey key = allowedMint token"
    and range: "0 \<le> allowedId token" "allowedId token < 65536"
    using token by (auto simp: proper_token_def)
  show ?thesis
  proof (cases "find (\<lambda>entry. tokenViewId entry = allowedId token) (map view_of_entry (regTokens r))")
    case (Some existing)
    then have mint: "showKey (tokenViewMint existing) = allowedMint token" and w': "ledgerOf w' = ledgerOf w"
      using step by (auto simp: allow_token_def throwErrorIO_def dest!: account_step split: if_splits)
    obtain entry where "entry \<in> set (regTokens r)" "existing = view_of_entry entry" "tokenViewId existing = allowedId token"
      using Some by (metis (mono_tags, lifting) find_Some_iff length_map nth_map nth_mem)
    then have "registered showKey (ledgerOf w) token"
      using mint by (intro then_registered) (auto simp: registered_def view_of_entry_def)
    then show ?thesis using c w' by (simp add: grown_def)
  next
    case None
    let ?call = "\<lparr>deployMethod = RegisterTokenMethod (allowedId token) (symbolBytes (allowedSymbol token)),
      deployAccounts = [(''mint'', key), (''authority'', publicKey deployer)], deployRemaining = []\<rparr>"
    obtain sig w1 where sent: "depRpc s ?call w = Some (Inr sig, w1)" and w': "ledgerOf w' = ledgerOf w1"
      using step None key(1) by (auto simp: allow_token_def elim!: bindIO_InrE dest!: account_made)
    have grown: "grown w c w1" using registry_rpc [OF sent c] by simp
    have "(uint (word_of_int (allowedId token) :: u16)) = allowedId token" using range by (simp add: uint_word_of_int)
    then have "registered showKey (ledgerOf w1) token"
      using executed [OF sent] key(2)
      by (auto simp: instruction_of_def account_of_def instruction_iffs register_token_def registered_def split: option.splits)
    then show ?thesis using grown w' by (simp add: grown_def)
  qed
qed

lemma tokens_allowed:
  assumes "foldIO (allow_token showKey parse s deployer recipient (map view_of_entry (regTokens r))) tokens u w = Some (Inr u', w')"
    and "\<And>t. registered showKey \<lparr>ledConfig = None, ledRegistry = Some r\<rparr> t \<Longrightarrow> registered showKey (ledgerOf w) t"
    and "ledConfig (ledgerOf w) = Some c" and "\<And>t. t \<in> set tokens \<Longrightarrow> proper_token showKey parse t"
  shows "grown w c w' \<and> (\<forall>t \<in> set tokens. registered showKey (ledgerOf w') t)"
  using assms
proof (induction tokens arbitrary: u w)
  case (Cons token tokens)
  then obtain u1 w1 where step: "allow_token showKey parse s deployer recipient (map view_of_entry (regTokens r)) token u w = Some (Inr u1, w1)"
    and rest: "foldIO (allow_token showKey parse s deployer recipient (map view_of_entry (regTokens r))) tokens u1 w1 = Some (Inr u', w')"
    by (auto elim: bindIO_InrE)
  have first: "grown w c w1" "registered showKey (ledgerOf w1) token"
    using token_allowed [OF step Cons.prems(2, 3)] Cons.prems(4) by auto
  then have "registered showKey (ledgerOf w1) t" if "registered showKey \<lparr>ledConfig = None, ledRegistry = Some r\<rparr> t" for t
    using Cons.prems(2) [OF that] registered_stays by (auto simp: grown_def)
  moreover have "ledConfig (ledgerOf w1) = Some c" using first(1) by (simp add: grown_def)
  ultimately have "grown w1 c w' \<and> (\<forall>t \<in> set tokens. registered showKey (ledgerOf w') t)"
    using Cons.IH [OF rest] Cons.prems(4) by auto
  then show ?case using first registered_stays by (auto simp: grown_def intro: extends_trans)
qed (simp add: grown_def)

lemma allowlist_ensured:
  assumes "ensureAllowlistedTokens showKey parse s programId deployer recipient tokens w = Some (Inr u, w')"
    "ledConfig (ledgerOf w) = Some c" "\<And>t. t \<in> set tokens \<Longrightarrow> proper_token showKey parse t"
  shows "grown w c w' \<and> (\<forall>t \<in> set tokens. registered showKey (ledgerOf w') t)"
proof (cases "tokens = []")
  case True
  then show ?thesis using assms by (simp add: ensureAllowlistedTokens_def grown_def)
next
  case False
  then obtain v w1 where read: "depRegistry s (findTokenRegistryPda (depDerive s) programId) w = Some (Inr v, w1)"
    and fold: "foldIO (allow_token showKey parse s deployer recipient v) tokens () w1 = Some (Inr u, w')"
    using assms(1) by (auto simp: ensureAllowlistedTokens_def elim: bindIO_InrE)
  obtain r where r: "ledRegistry (ledgerOf w) = Some r" "v = map view_of_entry (regTokens r)" using registry_read(2) [OF read] by blast
  have same: "ledgerOf w1 = ledgerOf w" by (rule registry_read(1) [OF read])
  have "registered showKey (ledgerOf w1) t" if "registered showKey \<lparr>ledConfig = None, ledRegistry = Some r\<rparr> t" for t
    using that r(1) same by (simp add: registered_def)
  then show ?thesis using tokens_allowed [of showKey parse recipient r tokens "()" w1 u w' c] fold r(2) assms(2, 3) same by (simp add: grown_def)
qed

lemma token_made:
  assumes "deployment_token_of showKey s programId deployer recipient (view_of_entry e) w = Some (Inr t, w')"
  shows "ledgerOf w' = ledgerOf w \<and> token_reported showKey s programId deployer recipient e t"
proof -
  obtain account w1 where account: "depTokenAccount s deployer (entryMint e) recipient w = Some (Inr account, w1)"
    and rest: "bindIO (liftIO (findVaultTokenAccountPda (depBn s) (depDerive s) programId (uint (entryId e)))) (\<lambda>vault.
      returnIO \<lparr>deployedId = uint (entryId e), deployedMint = showKey (entryMint e), deployedSymbol = decodeSymbol (entrySymbol e),
        deployedDecimals = uint (entryDecimals e), deployedVault = showKey vault, deployedFeeAccount = showKey account\<rparr>) w1 = Some (Inr t, w')"
    using assms by (auto simp: deployment_token_of_def view_of_entry_def elim!: bindIO_InrE)
  obtain vault where "findVaultTokenAccountPda (depBn s) (depDerive s) programId (uint (entryId e)) = Inr vault" "w' = w1"
    "t = \<lparr>deployedId = uint (entryId e), deployedMint = showKey (entryMint e), deployedSymbol = decodeSymbol (entrySymbol e),
        deployedDecimals = uint (entryDecimals e), deployedVault = showKey vault, deployedFeeAccount = showKey account\<rparr>"
    using rest by (auto elim!: bindIO_InrE)
  then show ?thesis using account account_made [OF account] by (auto simp: token_reported_def)
qed

lemma tokens_made:
  assumes "mapIO (deployment_token_of showKey s programId deployer recipient) (map view_of_entry es) w = Some (Inr ts, w')"
  shows "ledgerOf w' = ledgerOf w \<and> list_all2 (token_reported showKey s programId deployer recipient) es ts"
  using assms
proof (induction es arbitrary: w ts)
  case (Cons e es)
  then obtain t w1 ts' where one: "deployment_token_of showKey s programId deployer recipient (view_of_entry e) w = Some (Inr t, w1)"
    and more: "mapIO (deployment_token_of showKey s programId deployer recipient) (map view_of_entry es) w1 = Some (Inr ts', w')" "ts = t # ts'"
    by (auto elim!: bindIO_InrE)
  show ?case using token_made [OF one] Cons.IH [OF more(1)] more(2) by simp
qed simp

text \<open>A report without tokens means that the registry could not be read.\<close>

lemma tokens_reported:
  assumes "buildDeploymentTokens showKey s programId deployer recipient w = Some (Inr tokens, w')"
    and readable: "registry_readable ledgerOf programId s"
  shows "ledgerOf w' = ledgerOf w \<and> (case ledRegistry (ledgerOf w) of None \<Rightarrow> tokens = []
    | Some r \<Rightarrow> list_all2 (token_reported showKey s programId deployer recipient) (sort_key (\<lambda>e. uint (entryId e)) (regTokens r)) tokens)"
proof -
  obtain found w1 where found: "catchIO (bindIO (depRegistry s (findTokenRegistryPda (depDerive s) programId)) (\<lambda>tokens. returnIO (Some tokens)))
       (\<lambda>_. returnIO None) w = Some (Inr found, w1)"
    and rest: "(case found of None \<Rightarrow> returnIO [] | Some entries \<Rightarrow>
         bindIO (mapIO (deployment_token_of showKey s programId deployer recipient) entries) (\<lambda>tokens.
         returnIO (sort_key deployedId tokens))) w1 = Some (Inr tokens, w')"
    using assms(1) unfolding buildDeploymentTokens_def by (elim bindIO_InrE)
  have same: "ledgerOf w1 = ledgerOf w"
    using found by (auto simp: catchIO_eq_Inr bindIO_eq_Inl bindIO_eq_Inr dest: registry_read(1))
  show ?thesis
  proof (cases found)
    case (Some entries)
    then obtain r where r: "ledRegistry (ledgerOf w) = Some r" "entries = map view_of_entry (regTokens r)"
      using found by (auto simp: catchIO_eq_Inr bindIO_eq_Inl bindIO_eq_Inr dest: registry_read(2))
    obtain ts where ts: "mapIO (deployment_token_of showKey s programId deployer recipient) (map view_of_entry (regTokens r)) w1 = Some (Inr ts, w')"
      "tokens = sort_key deployedId ts"
      using rest Some r(2) by (auto elim: bindIO_InrE)
    note made = tokens_made [OF ts(1)]
    have "list_all2 (token_reported showKey s programId deployer recipient) (sort_key (\<lambda>e. uint (entryId e)) (regTokens r)) (sort_key deployedId ts)"
      using made by (intro list_all2_sort_key) (auto simp: token_reported_def)
    then show ?thesis using made r(1) same ts(2) by simp
  next
    case None
    then have "\<exists>e w2. depRegistry s (findTokenRegistryPda (depDerive s) programId) w = Some (Inl e, w2)"
      using found by (auto simp: catchIO_eq_Inr bindIO_eq_Inl bindIO_eq_Inr)
    then have "ledRegistry (ledgerOf w) = None"
      using readable unfolding registry_readable_def by (cases "ledRegistry (ledgerOf w)") fastforce+
    then show ?thesis using rest None same by simp
  qed
qed

end

text \<open>What the options give are proper tokens, when printed keys are read back.\<close>

lemma allowed_proper:
  assumes "allowed_token showKey keyOf item = Inr t" "\<And>key. parse (showKey key) = Inr key"
  shows "proper_token showKey parse t"
proof -
  obtain index token where item: "item = (index, token)" by (cases item)
  obtain tokenId where id: "field token ''id'' = Inr tokenId"
    using assms(1) by (cases "field token ''id''") (simp_all add: allowed_token_def item)
  have "\<exists>n. tokenId = Some (VNumber n)"
  proof (cases tokenId)
    case (Some v)
    then show ?thesis using assms(1) by (cases v) (simp_all add: allowed_token_def item id throwError_def)
  qed (use assms(1) in \<open>simp add: allowed_token_def item id throwError_def\<close>)
  then obtain n where n: "tokenId = Some (VNumber n)" by blast
  have range: "0 < integer_of n" "integer_of n \<le> 65535"
    using assms(1) by (auto simp: allowed_token_def item id n throwError_def split: if_splits)
  obtain symbol where symbol: "field token ''symbol'' = Inr symbol"
    using assms(1) range by (cases "field token ''symbol''") (simp_all add: allowed_token_def item id n throwError_def split: if_splits)
  have "\<exists>key s. t = \<lparr>allowedId = integer_of n, allowedMint = showKey key, allowedSymbol = s\<rparr>"
  proof (cases symbol)
    case (Some v)
    then show ?thesis
      using assms(1) by (cases v) (auto simp: allowed_token_def item id n symbol throwError_def bindR_eq_Inr split: if_splits)
  qed (use assms(1) in \<open>simp add: allowed_token_def item id n symbol throwError_def split: if_splits\<close>)
  then show ?thesis using range assms(2) by (auto simp: proper_token_def)
qed

lemma parsed_tokens:
  assumes "parseAllowlistedTokens showKey keyOf env options = Inr tokens" "\<And>key. parse (showKey key) = Inr key" "t \<in> set tokens"
  shows "proper_token showKey parse t"
proof -
  have "proper_token showKey parse t" if "mapR (allowed_token showKey keyOf) items = Inr tokens" for items
    using mapR_results [OF that assms(3)] allowed_proper [OF _ assms(2)] by blast
  moreover have "\<exists>items. mapR (allowed_token showKey keyOf) items = Inr tokens"
    if "bindR (JSON_parse raw) (\<lambda>tokens. case tokens of VArray items \<Rightarrow> mapR (allowed_token showKey keyOf) (enumerate 0 items)
          | _ \<Rightarrow> throwError e) = Inr tokens" for raw e
    using that by (cases "JSON_parse raw") (auto simp: throwError_def split: jsv.split_asm)
  ultimately show ?thesis
    using assms(1, 3) by (auto simp: parseAllowlistedTokens_def split: option.splits if_splits)
qed

lemma hex_string_inj: "hex_string a = hex_string b \<Longrightarrow> a = b"
proof (induction a arbitrary: b)
  case Nil
  then show ?case by (cases b) (simp_all add: hex_string_def)
next
  case (Cons x a)
  have digit: "m = n" if "hex_digit m = hex_digit n" "m < 16" "n < 16" for m n
  proof -
    have "of_char (hex_digit k) = (if k < 10 then 48 + k else 87 + k)" if "k < 16" for k using that by (simp add: hex_digit_def)
    then have "(if m < 10 then 48 + m else 87 + m) = (if n < 10 then 48 + n else 87 + n)" using that by metis
    then show ?thesis using that by (auto split: if_splits)
  qed
  obtain y b' where b: "b = y # b'" using Cons.prems by (cases b) (auto simp: hex_string_def)
  have small: "unat z div 16 < 16" "unat z mod 16 < 16" for z :: byte
    using unsigned_less [of z, where ?'a = nat] by (simp_all add: less_mult_imp_div_less)
  have "unat x div 16 = unat y div 16" "unat x mod 16 = unat y mod 16" "hex_string a = hex_string b'"
    using Cons.prems small digit by (auto simp: b hex_string_def)
  then have "unat x = unat y" "a = b'" using Cons.IH by (metis div_mult_mod_eq)+
  then show ?case by (simp add: b word_unat_eq_iff)
qed

text \<open>The program itself, run on its ledger, behind a session.\<close>

definition program_session :: "runtime \<Rightarrow> pubkey \<Rightarrow> ledger deployer_session" where
  "program_session rt signer =
     \<lparr>depDerive = (\<lambda>seeds key. concat seeds @ key), depBn = (\<lambda>n k. Inr (le_bytes k (nat n))), depToNumber = Inr,
      depConfig = (\<lambda>_ led. Some (case ledConfig led of None \<Rightarrow> throwError ''Account does not exist'' | Some c \<Rightarrow> Inr (view_of_config c), led)),
      depRegistry = (\<lambda>_ led. Some (case ledRegistry led of None \<Rightarrow> throwError ''Account does not exist''
         | Some r \<Rightarrow> Inr (map view_of_entry (regTokens r)), led)),
      depTokenAccount = (\<lambda>payer mint wallet. returnIO (mint @ wallet)),
      depRpc = (\<lambda>call led. case execute rt (instruction_of call) signer led of
         Inl _ \<Rightarrow> Some (throwError ''Simulation failed'', led) | Inr led' \<Rightarrow> Some (Inr ''sig'', led'))\<rparr>"

lemma program_steps:
  "depDerive (program_session rt signer) = (\<lambda>seeds key. concat seeds @ key)"
  "depBn (program_session rt signer) = (\<lambda>n k. Inr (le_bytes k (nat n)))" "depToNumber (program_session rt signer) = Inr"
  "depConfig (program_session rt signer) pda led =
     Some (case ledConfig led of None \<Rightarrow> throwError ''Account does not exist'' | Some c \<Rightarrow> Inr (view_of_config c), led)"
  "depRegistry (program_session rt signer) pda led =
     Some (case ledRegistry led of None \<Rightarrow> throwError ''Account does not exist'' | Some r \<Rightarrow> Inr (map view_of_entry (regTokens r)), led)"
  "depTokenAccount (program_session rt signer) payer mint wallet = returnIO (mint @ wallet)"
  "depRpc (program_session rt signer) call led = (case execute rt (instruction_of call) signer led of
     Inl _ \<Rightarrow> Some (throwError ''Simulation failed'', led) | Inr led' \<Rightarrow> Some (Inr ''sig'', led'))"
  by (simp_all add: program_session_def)

lemma program_session_runs: "runs_program rt (\<lambda>led. led) programId signer (program_session rt signer)"
  by (simp add: runs_program_def program_session_def throwError_def split: option.splits sum.splits)

interpretation program: deployment rt "\<lambda>led. led" programId deployer "program_session rt (publicKey deployer)" for rt programId deployer
  by unfold_locales (rule program_session_runs)

text \<open>
  C15: When the script returns, the configuration on chain has the message domain the program derives for its id and the
  chain of the endpoint. The report shows the program, network and chain, that domain, and the authority, fee recipient, fees
  and timelocks of the configuration on chain. If the deployer is the authority, the recipient is the desired one, the
  registry exists and every requested token is registered under its id and mint. Where a registry that is on chain can be
  read, the report lists exactly its tokens, by rising id, each with its id, mint, symbol, decimals, vault and the fee account
  of the recipient. Nothing registered before is lost.
\<close>

theorem deployment_established:
  assumes "runs_program rt ledgerOf programId (publicKey deployer) s"
    and "rtSha256 rt = toolSha256 tools"
    and "parseAllowlistedTokens (toolShowKey tools) keyOf env options = Inr requested"
    and "keys_readable tools"
    and "initialize_deployment tools s rpcEndpoint deployer programId requested initialAuthority recipient w = Some (Inr config, w')"
    and "registry_readable ledgerOf programId s"
  shows "\<exists>c. ledConfig (ledgerOf w') = Some c \<and> extends_ledger (ledgerOf w) (ledgerOf w')
    \<and> cfgMessageDomain c = derive_message_domain (rtSha256 rt) programId (word_of_int (chainIdForNetwork (inferNetwork rpcEndpoint)))
    \<and> deploymentProgramId config = toolShowKey tools programId
    \<and> deploymentNetwork config = inferNetwork rpcEndpoint
    \<and> deploymentChainId config = chainIdForNetwork (inferNetwork rpcEndpoint)
    \<and> deploymentDeployer config = toolShowKey tools (publicKey deployer)
    \<and> deploymentMessageDomain config = hex_string (cfgMessageDomain c)
    \<and> deploymentAuthority config = toolShowKey tools (cfgAuthority c)
    \<and> deploymentFeeRecipient config = toolShowKey tools (cfgFeeRecipient c)
    \<and> deploymentFeeBps config = uint (cfgFeeBps c)
    \<and> depToNumber s (uint (cfgRegistrationFeeLamports c)) = Inr (deploymentRegistrationFee config)
    \<and> depToNumber s (cfgWithdrawalTimelockSeconds c) = Inr (deploymentWithdrawalTimelock config)
    \<and> (\<exists>unlock. deploymentUnlockTimelock config = Some unlock \<and> depToNumber s (cfgChannelUnlockTimelockSeconds c) = Inr unlock)
    \<and> (cfgAuthority c = publicKey deployer \<longrightarrow> cfgFeeRecipient c = recipient \<and> ledRegistry (ledgerOf w') \<noteq> None
        \<and> (\<forall>t \<in> set requested. registered (toolShowKey tools) (ledgerOf w') t))
    \<and> (case ledRegistry (ledgerOf w') of None \<Rightarrow> deploymentTokens config = []
       | Some r \<Rightarrow> list_all2 (token_reported (toolShowKey tools) s programId deployer (cfgFeeRecipient c))
           (sort_key (\<lambda>e. uint (entryId e)) (regTokens r)) (deploymentTokens config))"
proof -
  have dep: "deployment rt ledgerOf programId deployer s" by unfold_locales (rule assms(1))
  note grown = deployment.grown_def [OF dep]
  let ?show = "toolShowKey tools" and ?parse = "toolParseKey tools" and ?chain = "chainIdForNetwork (inferNetwork rpcEndpoint)"
  let ?pda = "findGlobalConfigPda (depDerive s) programId" and ?domain = "client_message_domain (toolSha256 tools) programId ?chain"
  obtain loader where loader: "?parse BPF_LOADER_UPGRADEABLE_PROGRAM_ID = Inr loader"
    using assms(5) by (cases "?parse BPF_LOADER_UPGRADEABLE_PROGRAM_ID") (simp_all add: initialize_deployment_def Let_def)
  obtain v w1 w2 w3 w4 w5 v3 v5 u2 u4 rest
    where fetched: "fetch_or_initialize s programId deployer ?pda (depDerive s [programId] loader) ?chain initialAuthority recipient w = Some (Inr v, w1)"
      and ensured: "(if gcAuthority v \<noteq> publicKey deployer then returnIO () else ensureTokenRegistry s programId ?pda (publicKey deployer)) w1 = Some (Inr u2, w2)"
      and updated: "update_recipient s deployer ?pda recipient v w2 = Some (Inr v3, w3)"
      and allowed: "ensureAllowlistedTokens ?show ?parse s programId deployer (gcFeeRecipient v3)
        (if gcAuthority v = publicKey deployer then requested else []) w3 = Some (Inr u4, w4)"
      and read: "depConfig s ?pda w4 = Some (Inr v5, w5)"
      and checked: "(if hex_string (gcMessageDomain v5) \<noteq> hex_string ?domain then throwErrorIO (rest v5) else
        bindIO (buildDeploymentTokens ?show s programId deployer (gcFeeRecipient v5)) (\<lambda>tokens.
        bindIO (liftIO (case gcChannelUnlockTimelockSeconds v5 of None \<Rightarrow> Inr None
          | Some n \<Rightarrow> bindR (depToNumber s n) (\<lambda>m. Inr (Some m)))) (\<lambda>unlock.
        bindIO (liftIO (depToNumber s (gcWithdrawalTimelockSeconds v5))) (\<lambda>withdrawal.
        bindIO (liftIO (depToNumber s (gcRegistrationFeeLamports v5))) (\<lambda>registrationFee.
        returnIO \<lparr>deploymentProgramId = ?show programId, deploymentNetwork = inferNetwork rpcEndpoint, deploymentChainId = ?chain,
          deploymentMessageDomain = hex_string (gcMessageDomain v5), deploymentDeployer = ?show (publicKey deployer),
          deploymentAuthority = ?show (gcAuthority v5), deploymentFeeRecipient = ?show (gcFeeRecipient v5),
          deploymentFeeBps = gcFeeBps v5, deploymentRegistrationFee = registrationFee,
          deploymentWithdrawalTimelock = withdrawal, deploymentUnlockTimelock = unlock,
          deploymentTokens = tokens, deployedAt = toolNow tools\<rparr>))))) w5 = Some (Inr config, w')"
    using assms(5) unfolding initialize_deployment_def Let_def loader liftIO_Inr bindIO_returnIO
    by (elim bindIO_InrE) (rule that)
  obtain tokens where built: "buildDeploymentTokens ?show s programId deployer (gcFeeRecipient v5) w5 = Some (Inr tokens, w')"
    and domain: "hex_string (gcMessageDomain v5) = hex_string ?domain"
    and config: "deploymentTokens config = tokens" "deploymentMessageDomain config = hex_string (gcMessageDomain v5)"
        "deploymentAuthority config = ?show (gcAuthority v5)" "deploymentFeeRecipient config = ?show (gcFeeRecipient v5)"
        "deploymentProgramId config = ?show programId" "deploymentNetwork config = inferNetwork rpcEndpoint"
        "deploymentChainId config = ?chain" "deploymentDeployer config = ?show (publicKey deployer)"
        "deploymentFeeBps config = gcFeeBps v5"
    and numbers: "depToNumber s (gcRegistrationFeeLamports v5) = Inr (deploymentRegistrationFee config)"
        "depToNumber s (gcWithdrawalTimelockSeconds v5) = Inr (deploymentWithdrawalTimelock config)"
        "(case gcChannelUnlockTimelockSeconds v5 of None \<Rightarrow> Inr None
          | Some n \<Rightarrow> bindR (depToNumber s n) (\<lambda>m. Inr (Some m))) = Inr (deploymentUnlockTimelock config)"
    using checked by (auto simp: throwErrorIO_def elim!: bindIO_InrE split: if_splits)
  obtain c1 where c1: "deployment.grown ledgerOf w c1 w1" "v = view_of_config c1"
    by (rule deployment.fetched_config [OF dep fetched])
  then have at1: "ledConfig (ledgerOf w1) = Some c1" by (simp add: grown)
  have w2: "deployment.grown ledgerOf w1 c1 w2" "gcAuthority v = publicKey deployer \<Longrightarrow> ledRegistry (ledgerOf w2) \<noteq> None"
    using ensured deployment.registry_ensured [OF dep _ at1] at1 by (auto simp: grown split: if_splits)
  then have at2: "ledConfig (ledgerOf w2) = Some c1" by (simp add: grown)
  obtain c where c: "deployment.grown ledgerOf w2 c w3" "v3 = view_of_config c" "cfgAuthority c = cfgAuthority c1"
    "cfgAuthority c1 = publicKey deployer \<Longrightarrow> cfgFeeRecipient c = recipient"
    using deployment.recipient_updated [OF dep updated [unfolded c1(2)] at2] by blast
  then have at3: "ledConfig (ledgerOf w3) = Some c" by (simp add: grown)
  have w4: "deployment.grown ledgerOf w3 c w4"
    "t \<in> set (if gcAuthority v = publicKey deployer then requested else []) \<Longrightarrow> registered ?show (ledgerOf w4) t" for t
    using deployment.allowlist_ensured [OF dep allowed at3] parsed_tokens [OF assms(3)] assms(4) by (auto simp: keys_readable_def split: if_splits)
  then have at4: "ledConfig (ledgerOf w4) = Some c" by (simp add: grown)
  have v5: "v5 = view_of_config c" "ledgerOf w5 = ledgerOf w4"
    using deployment.config_read [OF dep] read at4 by force+
  have recipient: "gcFeeRecipient v5 = cfgFeeRecipient c" using v5(1) by (simp add: view_of_config_def)
  have reported: "ledgerOf w' = ledgerOf w4" "case ledRegistry (ledgerOf w4) of None \<Rightarrow> tokens = []
      | Some r \<Rightarrow> list_all2 (token_reported ?show s programId deployer (cfgFeeRecipient c)) (sort_key (\<lambda>e. uint (entryId e)) (regTokens r)) tokens"
    using deployment.tokens_reported [OF dep built assms(6), unfolded recipient] v5(2) by simp_all
  have "ledRegistry (ledgerOf w4) \<noteq> None" if "gcAuthority v = publicKey deployer"
    using w2(2) [OF that] c(1) w4(1) unfolding grown by (metis registry_stays)
  moreover have "\<exists>unlock. deploymentUnlockTimelock config = Some unlock \<and> depToNumber s (cfgChannelUnlockTimelockSeconds c) = Inr unlock"
    using numbers(3) v5(1) by (auto simp: view_of_config_def bindR_eq_Inr)
  moreover have "extends_ledger (ledgerOf w) (ledgerOf w4)"
    using c1(1) w2(1) c(1) w4(1) unfolding grown by (blast intro: extends_trans)
  moreover have "cfgMessageDomain c = derive_message_domain (rtSha256 rt) programId (word_of_int ?chain)"
    using hex_string_inj [OF domain] v5(1) client_domain chain_range assms(2) by (simp add: view_of_config_def)
  ultimately show ?thesis
    using at4 reported config numbers(1, 2) v5(1) c(3, 4) c1(2) w4(2) by (intro exI [of _ c]) (auto simp: view_of_config_def)
qed

definition sample_runtime :: runtime where
  "sample_runtime = \<lparr>rtSha256 = toolSha256 sample_tools, rtProgramId = [1], rtUpgradeAuthority = Some [7],
     rtMintDecimals = (\<lambda>_. Some 6), rtSystemOwned = (\<lambda>_. True), rtExecutable = (\<lambda>_. False), rtClock = 5\<rparr>"

definition sample_allowlist :: json where
  "sample_allowlist = JsonArray [JsonObject
     [(''id'', Some (JsonNumber 2)), (''symbol'', Some (JsonText ''USDC'')), (''mint'', Some (JsonText ''k''))]]"

definition sample_options :: deploy_options where
  "sample_options = \<lparr>cliAllowlist = Some (stringify sample_allowlist), cliFeeRecipient = None, cliInitialAuthority = None\<rparr>"

definition sample_token :: allowlisted_token where
  "sample_token = \<lparr>allowedId = 2, allowedMint = toolShowKey sample_tools [65], allowedSymbol = ''USDC''\<rparr>"

lemma sample_tokens:
  "parseAllowlistedTokens (toolShowKey sample_tools) (\<lambda>_. Inr [65]) Map.empty sample_options = Inr [sample_token]"
proof -
  have "stringify sample_allowlist \<noteq> []" by (simp add: sample_allowlist_def)
  moreover have "JSON_parse (stringify sample_allowlist) = Inr (value_of sample_allowlist)"
    by (rule stringify_read) (simp add: sample_allowlist_def)
  ultimately show ?thesis
    by (simp add: parseAllowlistedTokens_def sample_options_def sample_allowlist_def sample_token_def allowed_token_def field_def
        member_of_def isInteger_def integer_of_def printable_symbol_def)
qed

definition sample_deployment :: "(deployment_config js \<times> ledger) option" where
  "sample_deployment = initialize_deployment sample_tools (program_session sample_runtime [7]) ''https://api.devnet.solana.com''
     \<lparr>publicKey = [7], secretKey = [7]\<rparr> [1] [sample_token] [7] [3] empty_ledger"

definition sample_config :: config_account where
  "sample_config = \<lparr>cfgAuthority = [7], cfgFeeRecipient = [3], cfgFeeBps = 30, cfgWithdrawalTimelockSeconds = 0,
     cfgRegistrationFeeLamports = 0, cfgNextParticipantId = 0, cfgChainId = 1, cfgMessageDomain = [],
     cfgPendingAuthority = default_pubkey, cfgChannelUnlockTimelockSeconds = 259200\<rparr>"

abbreviation sample_session_of :: "ledger deployer_session" where
  "sample_session_of \<equiv> program_session sample_runtime [7]"

lemma sample_network: "inferNetwork ''https://api.devnet.solana.com'' = ''devnet''"
  by (simp add: inferNetwork_def js_includes_def sublist_code)

lemma sample_key [simp]: "[x] \<noteq> default_pubkey"
  by (simp add: default_pubkey_def numeral_eq_Suc)

lemma sample_initialized:
  "fetch_or_initialize sample_session_of programId \<lparr>publicKey = [7], secretKey = [7]\<rparr> pda dataPda 1 [7] [3] empty_ledger =
     Some (Inr (view_of_config sample_config), \<lparr>ledConfig = Some sample_config, ledRegistry = None\<rparr>)"
  by (simp add: fetch_or_initialize_def program_session_def catchIO_def bindIO_def empty_ledger_def throwError_def instruction_of_def
      account_of_def sample_runtime_def initialize_config_def requireR_def fee_allowed_def MIN_FEE_BPS_def MAX_FEE_BPS_def
      registration_fee_allowed_def resolve_bootstrap_authorities_def withdrawal_timelock_for_chain_id_def put_config_def on_handler_def
      channel_unlock_timelock_for_chain_id_def CHANNEL_UNLOCK_TIMELOCK_SECONDS_def derive_message_domain_def sample_tools_def sample_config_def
      Let_def)

lemma sample_registry:
  "ensureTokenRegistry sample_session_of programId pda [7] \<lparr>ledConfig = Some sample_config, ledRegistry = None\<rparr> =
     Some (Inr (), \<lparr>ledConfig = Some sample_config, ledRegistry = Some (initialize_token_registry [7])\<rparr>)"
  by (simp add: ensureTokenRegistry_def program_session_def catchIO_def bindIO_def throwError_def instruction_of_def requireR_def
      with_config_def put_registry_def on_handler_def sample_config_def)

lemma sample_allowed:
  "ensureAllowlistedTokens (toolShowKey sample_tools) (toolParseKey sample_tools) sample_session_of programId \<lparr>publicKey = [7], secretKey = [7]\<rparr> [3]
     [sample_token] \<lparr>ledConfig = Some sample_config, ledRegistry = Some (initialize_token_registry [7])\<rparr> =
   Some (Inr (), \<lparr>ledConfig = Some sample_config, ledRegistry = Some ((initialize_token_registry [7])\<lparr>regTokens :=
     [\<lparr>entryId = 2, entryMint = [65], entryDecimals = 6, entrySymbol = symbolBytes ''USDC'', entryRegisteredAt = 5, entryKind = 0\<rparr>]\<rparr>)\<rparr>)"
proof -
  have key: "toolParseKey sample_tools (allowedMint sample_token) = Inr [65]"
    using sample_keys by (simp add: keys_readable_def sample_token_def)
  have symbol: "symbol_allowed (symbolBytes ''USDC'')"
    by (simp add: symbol_allowed_def symbolBytes_def ascii_def)
  have space: "required_space (Suc 0) = Inr 133" by (simp add: required_space_def REGISTRY_BASE_SPACE_def TOKEN_ENTRY_SPACE_def)
  have call: "execute sample_runtime (RegisterToken 2 (symbolBytes ''USDC'') [65]) [7]
      \<lparr>ledConfig = Some sample_config, ledRegistry = Some (initialize_token_registry [7])\<rparr> =
    Inr \<lparr>ledConfig = Some sample_config, ledRegistry = Some ((initialize_token_registry [7])\<lparr>regTokens :=
     [\<lparr>entryId = 2, entryMint = [65], entryDecimals = 6, entrySymbol = symbolBytes ''USDC'', entryRegisteredAt = 5, entryKind = 0\<rparr>]\<rparr>)\<rparr>"
    by (simp add: with_registry_def with_config_def put_registry_def on_handler_def register_token_def requireR_def is_token_registered_def
        is_mint_registered_def initialize_token_registry_def MAX_TOKEN_DECIMALS_def symbol space sample_runtime_def REGISTRY_SPACE_def
        REGISTRY_BASE_SPACE_def TOKEN_ENTRY_SPACE_def MAX_TOKENS_def)
  show ?thesis
    using call key
    by (simp add: ensureAllowlistedTokens_def allow_token_def program_steps initialize_token_registry_def bindIO_def instruction_of_def
        account_of_def sample_token_def)
qed

lemma sample_built:
  "buildDeploymentTokens showKey sample_session_of programId payer wallet \<lparr>ledConfig = c, ledRegistry = Some ((initialize_token_registry [7])\<lparr>regTokens :=
     [entry]\<rparr>)\<rparr> = Some (Inr [\<lparr>deployedId = uint (entryId entry), deployedMint = showKey (entryMint entry),
       deployedSymbol = decodeSymbol (entrySymbol entry), deployedDecimals = uint (entryDecimals entry),
       deployedVault = showKey (ascii ''vault-token-account'' @ le_bytes 2 (nat (uint (entryId entry))) @ programId), deployedFeeAccount = showKey (entryMint entry @ wallet)\<rparr>],
     \<lparr>ledConfig = c, ledRegistry = Some ((initialize_token_registry [7])\<lparr>regTokens := [entry]\<rparr>)\<rparr>)"
  by (simp add: buildDeploymentTokens_def deployment_token_of_def program_steps catchIO_def bindIO_def findVaultTokenAccountPda_def view_of_entry_def)

lemma sample_deployed:
  "\<exists>config led. sample_deployment = Some (Inr config, led) \<and> ledConfig led = Some sample_config"
proof -
  have chain: "chainIdForNetwork ''devnet'' = 1" by (simp add: chainIdForNetwork_def)
  obtain loader where loader: "toolParseKey sample_tools BPF_LOADER_UPGRADEABLE_PROGRAM_ID = Inr loader" by (simp add: sample_tools_def)
  have "update_recipient sample_session_of \<lparr>publicKey = [7], secretKey = [7]\<rparr> pda [3] (view_of_config sample_config) = returnIO (view_of_config sample_config)" for pda
    by (simp add: update_recipient_def view_of_config_def sample_config_def)
  moreover have "gcAuthority (view_of_config sample_config) = [7]" "gcFeeRecipient (view_of_config sample_config) = [3]"
    "gcMessageDomain (view_of_config sample_config) = []" "client_message_domain (toolSha256 sample_tools) k n = []" for k n
    by (simp_all add: view_of_config_def sample_config_def client_message_domain_def sample_tools_def)
  moreover have "gcChannelUnlockTimelockSeconds (view_of_config sample_config) = Some 259200"
    by (simp add: view_of_config_def sample_config_def)
  ultimately show ?thesis
    unfolding sample_deployment_def initialize_deployment_def sample_network chain Let_def loader
    by (simp add: sample_initialized sample_registry sample_allowed sample_built program_steps)
qed

lemma program_registry_readable: "registry_readable (\<lambda>led. led) programId (program_session rt signer)"
  by (simp add: registry_readable_def program_steps)

theorem deployment_established_witness:
  "\<exists>config led c r. sample_deployment = Some (Inr config, led) \<and> ledConfig led = Some c \<and> cfgFeeRecipient c = [3]
    \<and> deploymentFeeBps config = 30 \<and> deploymentUnlockTimelock config = Some 259200
    \<and> registered (toolShowKey sample_tools) led sample_token \<and> ledRegistry led = Some r
    \<and> length (deploymentTokens config) = length (regTokens r)"
proof -
  obtain config led where run: "sample_deployment = Some (Inr config, led)" and c: "ledConfig led = Some sample_config"
    using sample_deployed by blast
  note shown = deployment_established [where rt = sample_runtime and ledgerOf = "\<lambda>led. led",
      OF _ _ sample_tokens sample_keys run [unfolded sample_deployment_def]]
  have runs: "runs_program sample_runtime (\<lambda>led. led) [1] (publicKey \<lparr>publicKey = [7], secretKey = [7]\<rparr>) sample_session_of"
    and sha: "rtSha256 sample_runtime = toolSha256 sample_tools"
    by (simp_all add: program_session_runs sample_runtime_def)
  from shown [OF runs sha program_registry_readable] c
  have facts: "cfgAuthority sample_config = [7] \<longrightarrow> cfgFeeRecipient sample_config = [3] \<and> ledRegistry led \<noteq> None
      \<and> registered (toolShowKey sample_tools) led sample_token"
    "deploymentFeeBps config = uint (cfgFeeBps sample_config)"
    "\<exists>unlock. deploymentUnlockTimelock config = Some unlock \<and> depToNumber sample_session_of (cfgChannelUnlockTimelockSeconds sample_config) = Inr unlock"
    "case ledRegistry led of None \<Rightarrow> deploymentTokens config = []
     | Some r \<Rightarrow> list_all2 (token_reported (toolShowKey sample_tools) sample_session_of [1] \<lparr>publicKey = [7], secretKey = [7]\<rparr> (cfgFeeRecipient sample_config))
         (sort_key (\<lambda>e. uint (entryId e)) (regTokens r)) (deploymentTokens config)"
    by auto
  then obtain r where r: "ledRegistry led = Some r" by (auto simp: sample_config_def)
  then have "length (deploymentTokens config) = length (regTokens r)" using facts(4) list_all2_lengthD by fastforce
  then show ?thesis
    by (intro exI [of _ config] exI [of _ led] exI [of _ sample_config] exI [of _ r])
      (use run c facts(1-3) r in \<open>simp add: sample_config_def program_steps\<close>)
qed

end
