(* ===== verification/Spec2Isabelle.thy ===== *)
theory Spec2Isabelle
  imports LiveSamples Yield Unilateral Wallets Setup Samples Deploy
begin

text \<open>
  Verification of the client of the Ryvo protocol (an off-chain netting protocol for payment channels
  on Solana) against the on-chain program it talks to.

  \<^bold>\<open>The program.\<close> Participants lock balances in channels and sign cumulative commitments off chain. A
  clearing round nets many channels at once: the client (\<open>scripts/ryvo-protocol-demo.ts\<close>,
  \<open>shared/\<close>, \<open>scripts/lib/\<close>) builds one compact message for the round, the active participants sign
  it with BLS keys, and the program (\<open>programs/ryvo-protocol/\<close>) parses it and settles every channel.
  Participants and channels live in buckets of slots, whose addresses and layouts client and program
  have to agree on byte by byte.

  \<^bold>\<open>The theories, and what they model.\<close>

  \<^item> \<open>Prelude\<close>, \<open>Onchain_Base\<close>: errors as values (\<open>js\<close> for thrown exceptions, \<open>vres\<close> for the program's
    \<open>VaultError\<close>), buffers and slices, checked arithmetic and field accessors of the program.
  \<^item> \<open>Compact\<close>: the variable-length integers, written by the client and read by the program.
  \<^item> \<open>BucketAddress\<close>: bucket ids, slots and address seeds on both sides.
  \<^item> \<open>ChannelBucket\<close>: the channel bucket account of the program: every operation on its bytes, the lanes
    it stands for, and the ledger invariant along runs of operations.
  \<^item> \<open>ClientBuckets\<close>: the client's readers of participant and channel buckets.
  \<^item> \<open>Formats\<close>, \<open>Double\<close>: how amounts, bytes and figures are printed; doubles as rationals with rounding.
  \<^item> \<open>Messages\<close>: commitments and clearing rounds, built by the client and parsed by the program, and
    their previews; \<open>Ed25519\<close>: the native signature instructions and the program's reading of them;
    \<open>Bls\<close>: the client's keys and aggregate signatures.
  \<^item> \<open>Graph\<close>: the bounded dense graph of channels.
  \<^item> \<open>Effects\<close>, \<open>Rpc\<close>, \<open>Accounts\<close>: computations on the outside world, retries, confirmation, sending,
    reading accounts and balances, the fee sponsor, lookup tables.
  \<^item> \<open>RoundPlan\<close>: obligations and the preparation of a round.
  \<^item> \<open>Benchmarks\<close>, \<open>Json\<close>: the reported figures, the tables and the live page, and the log lines.
  \<^item> \<open>Submit\<close>, \<open>Search\<close>, \<open>Live\<close>: submitting a round, the search for the largest round that executes, and
    what both guarantee.
  \<^item> \<open>Yield\<close>: shares of yield-bearing tokens on both sides, and the attribution of yield.
  \<^item> \<open>Capacity\<close>, \<open>Unilateral\<close>: how large a clearing round or a bundle of commitments fits a packet.
  \<^item> \<open>JsonText\<close>, \<open>Files\<close>: \<open>JSON.parse\<close> and the indented \<open>JSON.stringify\<close>, node's \<open>path\<close> and \<open>fs\<close> on a disk of
    directories and files; what is written and printed is read back.
  \<^item> \<open>Options\<close>: the configuration file, the option parsers and \<open>parseArgs\<close>.
  \<^item> \<open>Wallets\<close>: key files and the manifest of wallets: created, saved, merged, loaded, recovered, selected.
  \<^item> \<open>Setup\<close>: setting up the chain: funding, participants, BLS keys, deposits and channels, until the state
    the scenarios start from stands.
  \<^item> \<open>Scenarios\<close>, \<open>Settled\<close>: one commitment, a bundle of commitments and a clearing round, settled from
    end to end, and what each run leaves behind; \<open>Samples\<close>: a small cluster on which they run;
    \<open>LiveSamples\<close>: a ring searched and submitted on it.
  \<^item> \<open>Flagship\<close>: the large round: its candidates, the largest shape that executes, giving up channels.
  \<^item> \<open>Demo\<close>: the environment file, the provider, the program id, and \<open>main\<close> with the manifests it saves.
  \<^item> \<open>Config\<close>: the global configuration and the token registry of the program, with their instructions;
    \<open>Deploy\<close>: the deployment script, run against them.

  \<^bold>\<open>How the code is modelled.\<close> A TypeScript function becomes a definition of the same name. \<open>number\<close> is an
  integer (with \<open>js_Number\<close> or \<open>js_round\<close> where it rounds beyond \<open>2 ^ 53\<close>), a \<open>js_num\<close> where it has a
  fraction, or a rational rounded as a double; \<open>bigint\<close> is an integer; a thrown error is \<open>Inl\<close>. An \<open>async\<close>
  function is a function on a world \<open>'w\<close> that may throw and may not return (\<open>None\<close>); \<open>Promise.all\<close> runs
  in order. Rust's \<open>Result\<close> is a sum, its integers are words, and account data are byte lists.

  \<^bold>\<open>Parameters.\<close> Code outside the repository is an argument: \<open>BN\<close>, SHA-256, Ed25519 signing, the curve
  (\<open>bls_curve\<close>), address derivation, the RPC connection and transaction classes (\<open>cluster\<close>), the
  clients of Anchor (\<open>toolbox\<close>, \<open>session\<close>, \<open>deployer_session\<close>), what the runtime knows (\<open>runtime\<close>), the
  key classes (\<open>wallet_tools\<close>), the file system (\<open>disk\<close>), the process (\<open>host\<close>), clock and event parser
  (\<open>bench\<close>), and all of them together for a scenario (\<open>stage\<close>). What a theorem needs of them is a named hypothesis, and its witness
  instantiates them.

  \<^bold>\<open>What the lemmas show.\<close> Round trips through client and program (compact integers, commitments, clearing
  rounds, signature instructions, a prepared round end to end; JSON files and wallet keys); agreement of
  the two sides on addresses, layouts, balances and share conversions; the ledger invariant and the
  refinement of lane operations by their byte code; solvency under yield; the search returns the largest
  candidate, its candidates exist, and what goes live was simulated and is read back; retries and
  confirmation; which option or environment value wins, and that nothing touches a chain other than
  devnet; that a manifest of wallets never loses a key; that setting up leaves the channels it reports;
  that a deployment leaves the configuration it reports, and that no transaction breaks the global accounts;
  that a settled scenario sent the commitments it signed and nothing else, and that a routed payment moved
  the balances it reports.

  \<^bold>\<open>Loops.\<close> The confirmation loop is a \<open>partial_function\<close>, and \<open>confirmation_wait_ends\<close> proves that it
  ends when the clock advances. \<open>JSON_parse\<close> recurses on fuel, twice the length of the text and two
  more; that this is enough for every printed value is part of the lemma that reads it back. Every
  other loop is a total function with a measure.

  \<^bold>\<open>Not modelled.\<close> Console output; the scripts beside the demo that chain Anchor calls for an operator
  (\<open>colosseum-*.ts\<close>, \<open>yield-bearing-demo.ts\<close>, \<open>devnet-admin.cjs\<close>); the file output of
  \<open>export-benchmarks.ts\<close>; the program's Anchor handlers around the account operations, but for those of
  the two global accounts; \<open>programs/mock-yield\<close>; tests and build files.
\<close>

end
